(* ===== verification/Prelude.thy ===== *)
theory Prelude
  imports Main "HOL-Library.Word" "HOL-Library.AList" "HOL-Library.List_Lexorder" "HOL-Library.Char_ord"
begin

text \<open>
  Shared vocabulary of the development: the machine-integer operations the Rust code uses
  (\<open>saturating_add\<close>, \<open>saturating_sub\<close>, \<open>checked_add\<close>, \<open>checked_sub\<close> on
  \<open>u64\<close> and \<open>usize\<close>), hash sets and hash maps, the type synonyms of the model and the
  lemma collections the component proofs use.

  Unsigned 64-bit values are natural numbers; every operation that can leave the range writes the
  saturation or the failure out. Subtraction on \<open>nat\<close> stops at zero, which is exactly
  \<open>saturating_sub\<close>. \<open>usize\<close> is 64 bits wide on every supported platform.
  A \<open>HashSet\<close> is a list without repetitions and a \<open>HashMap\<close> an association list with
  distinct keys: the order of the list is one possible iteration order, and properties are stated
  over membership and lookup, which do not depend on it.
\<close>

named_theorems wallet_simps \<open>rewrite rules that unfold record-level wallet operations\<close>
named_theorems preserve \<open>invariant preservation rules\<close>

type_synonym byte = "8 word"
type_synonym bytes = "byte list"
type_synonym u64 = nat
type_synonym u32 = nat
type_synonym usize = nat
type_synonym hash32 = bytes
type_synonym outpoint = "hash32 \<times> u64"
type_synonym 'a hset = "'a list"
type_synonym ('k, 'v) hmap = "('k \<times> 'v) list"

section \<open>Unsigned 64-bit arithmetic\<close>

definition u64_max :: nat where
  "u64_max = 18446744073709551615"

definition usize_max :: nat where
  "usize_max = u64_max"

definition u32_max :: nat where
  "u32_max = 4294967295"

definition sat_add :: "nat \<Rightarrow> nat \<Rightarrow> nat" where
  "sat_add a b = min (a + b) u64_max"

definition sat_sub :: "nat \<Rightarrow> nat \<Rightarrow> nat" where
  "sat_sub a b = a - b"

definition sat_mul :: "nat \<Rightarrow> nat \<Rightarrow> nat" where
  "sat_mul a b = min (a * b) u64_max"

definition sat_add32 :: "nat \<Rightarrow> nat \<Rightarrow> nat" where
  "sat_add32 a b = min (a + b) u32_max"

definition checked_add :: "nat \<Rightarrow> nat \<Rightarrow> nat option" where
  "checked_add a b = (if a + b \<le> u64_max then Some (a + b) else None)"

definition checked_sub :: "nat \<Rightarrow> nat \<Rightarrow> nat option" where
  "checked_sub a b = (if b \<le> a then Some (a - b) else None)"

definition clamp :: "nat \<Rightarrow> nat \<Rightarrow> nat \<Rightarrow> nat" where
  "clamp lo hi x = max lo (min hi x)"

definition sat_sum :: "nat list \<Rightarrow> nat" where
  "sat_sum xs = foldl sat_add 0 xs"

lemma sat_add_le_max [simp]: "sat_add a b \<le> u64_max"
  by (simp add: sat_add_def)

lemma sat_add_0 [simp]: "a \<le> u64_max \<Longrightarrow> sat_add a 0 = a" "b \<le> u64_max \<Longrightarrow> sat_add 0 b = b"
  by (simp_all add: sat_add_def)

lemma sat_add_exact: "a + b \<le> u64_max \<Longrightarrow> sat_add a b = a + b"
  by (simp add: sat_add_def)

lemma foldl_sat_add: "a \<le> u64_max \<Longrightarrow> foldl sat_add a xs = min (a + sum_list xs) u64_max"
  by (induction xs arbitrary: a) (simp_all add: sat_add_def)

lemma sat_sum_eq: "sat_sum xs = min (sum_list xs) u64_max"
  by (simp add: sat_sum_def foldl_sat_add)

lemma sat_sum_Nil [simp]: "sat_sum [] = 0"
  by (simp add: sat_sum_def)

lemma sat_sum_snoc: "sat_sum (xs @ [x]) = sat_add (sat_sum xs) x"
  by (simp add: sat_sum_def)

lemma sat_sum_le_max [simp]: "sat_sum xs \<le> u64_max"
  by (simp add: sat_sum_eq)

lemma clamp_bounds: "lo \<le> hi \<Longrightarrow> lo \<le> clamp lo hi x \<and> clamp lo hi x \<le> hi"
  by (simp add: clamp_def)

lemma checked_add_Some [simp]: "checked_add a b = Some c \<longleftrightarrow> c = a + b \<and> a + b \<le> u64_max"
  by (auto simp: checked_add_def)

lemma checked_sub_Some [simp]: "checked_sub a b = Some c \<longleftrightarrow> c = a - b \<and> b \<le> a"
  by (auto simp: checked_sub_def)

section \<open>Hash sets\<close>

definition hs_insert :: "'a \<Rightarrow> 'a hset \<Rightarrow> 'a hset" where
  "hs_insert x s = (if x \<in> set s then s else s @ [x])"

definition hs_remove :: "'a \<Rightarrow> 'a hset \<Rightarrow> 'a hset" where
  "hs_remove x s = filter (\<lambda>y. y \<noteq> x) s"

definition hs_of_list :: "'a list \<Rightarrow> 'a hset" where
  "hs_of_list xs = foldl (\<lambda>s x. hs_insert x s) [] xs"

lemma set_hs_insert [simp]: "set (hs_insert x s) = insert x (set s)"
  by (auto simp: hs_insert_def)

lemma distinct_hs_insert [simp]: "distinct (hs_insert x s) = distinct s"
  by (auto simp: hs_insert_def)

lemma set_hs_remove [simp]: "set (hs_remove x s) = set s - {x}"
  by (auto simp: hs_remove_def)

lemma distinct_hs_remove [simp]: "distinct s \<Longrightarrow> distinct (hs_remove x s)"
  by (simp add: hs_remove_def)

lemma foldl_hs_insert:
  "set (foldl (\<lambda>s x. hs_insert x s) s xs) = set s \<union> set xs"
  "distinct s \<Longrightarrow> distinct (foldl (\<lambda>s x. hs_insert x s) s xs)"
  by (induction xs arbitrary: s) auto

lemma set_hs_of_list [simp]: "set (hs_of_list xs) = set xs"
  by (simp add: hs_of_list_def foldl_hs_insert)

lemma distinct_hs_of_list [simp]: "distinct (hs_of_list xs)"
  by (simp add: hs_of_list_def foldl_hs_insert)

lemma foldl_hs_insert_append:
  "distinct (s @ xs) \<Longrightarrow> foldl (\<lambda>s x. hs_insert x s) s xs = s @ xs"
  by (induction xs arbitrary: s) (auto simp: hs_insert_def)

lemma hs_of_list_distinct: "distinct xs \<Longrightarrow> hs_of_list xs = xs"
  by (simp add: hs_of_list_def foldl_hs_insert_append)

section \<open>Hash maps\<close>

definition hm_insert :: "'k \<Rightarrow> 'v \<Rightarrow> ('k, 'v) hmap \<Rightarrow> ('k, 'v) hmap" where
  "hm_insert k v m = AList.update k v m"

definition hm_remove :: "'k \<Rightarrow> ('k, 'v) hmap \<Rightarrow> ('k, 'v) hmap" where
  "hm_remove k m = filter (\<lambda>(k', _). k' \<noteq> k) m"

definition hm_or_insert :: "'k \<Rightarrow> 'v \<Rightarrow> ('k, 'v) hmap \<Rightarrow> ('k, 'v) hmap" where
  "hm_or_insert k v m = (case map_of m k of None \<Rightarrow> hm_insert k v m | Some _ \<Rightarrow> m)"

definition hm_get_or :: "'v \<Rightarrow> ('k, 'v) hmap \<Rightarrow> 'k \<Rightarrow> 'v" where
  "hm_get_or d m k = (case map_of m k of None \<Rightarrow> d | Some v \<Rightarrow> v)"

definition hm_upsert :: "'k \<Rightarrow> 'v \<Rightarrow> ('v \<Rightarrow> 'v) \<Rightarrow> ('k, 'v) hmap \<Rightarrow> ('k, 'v) hmap" where
  "hm_upsert k d f m = hm_insert k (f (hm_get_or d m k)) m"

definition hm_retain :: "('k \<Rightarrow> 'v \<Rightarrow> bool) \<Rightarrow> ('k, 'v) hmap \<Rightarrow> ('k, 'v) hmap" where
  "hm_retain p m = filter (\<lambda>(k, v). p k v) m"

definition hm_wf :: "('k, 'v) hmap \<Rightarrow> bool" where
  "hm_wf m \<longleftrightarrow> distinct (map fst m)"

lemma hm_get_insert [simp]: "map_of (hm_insert k v m) = (map_of m)(k \<mapsto> v)"
  by (simp add: hm_insert_def update_conv')

lemma hm_get_insert_iff: "map_of (hm_insert k v m) k' = (if k' = k then Some v else map_of m k')"
  by simp

lemma hm_wf_insert [simp, preserve]: "hm_wf m \<Longrightarrow> hm_wf (hm_insert k v m)"
  by (simp add: hm_wf_def hm_insert_def distinct_update)

lemma hm_keys_insert [simp]: "fst ` set (hm_insert k v m) = insert k (fst ` set m)"
  by (simp add: hm_insert_def dom_update)

lemma hm_wf_Nil [simp]: "hm_wf []"
  by (simp add: hm_wf_def)

lemma hm_get_remove [simp]: "map_of (hm_remove k m) k' = (if k' = k then None else map_of m k')"
  by (induction m) (auto simp: hm_remove_def)

lemma hm_wf_remove [simp, preserve]: "hm_wf m \<Longrightarrow> hm_wf (hm_remove k m)"
  by (induction m) (auto simp: hm_wf_def hm_remove_def)

lemma hm_get_or_insert:
  "map_of (hm_or_insert k v m) k' =
     (if k' = k then (case map_of m k of None \<Rightarrow> Some v | Some v' \<Rightarrow> Some v') else map_of m k')"
  by (simp add: hm_or_insert_def split: option.split)

lemma hm_wf_or_insert [simp, preserve]: "hm_wf m \<Longrightarrow> hm_wf (hm_or_insert k v m)"
  by (simp add: hm_or_insert_def split: option.split)

lemma hm_get_upsert:
  "map_of (hm_upsert k d f m) k' =
     (if k' = k then Some (f (hm_get_or d m k)) else map_of m k')"
  by (simp add: hm_upsert_def)

lemma hm_get_or_upsert:
  "hm_get_or d (hm_upsert k d f m) k' = (if k' = k then f (hm_get_or d m k) else hm_get_or d m k')"
  by (simp add: hm_get_or_def hm_get_upsert)

lemma hm_wf_upsert [simp, preserve]: "hm_wf m \<Longrightarrow> hm_wf (hm_upsert k d f m)"
  by (simp add: hm_upsert_def)

lemma hm_keys_upsert [simp]: "fst ` set (hm_upsert k d f m) = insert k (fst ` set m)"
  by (simp add: hm_upsert_def)

lemma hm_wf_filter: "hm_wf m \<Longrightarrow> hm_wf (filter p m)"
  by (induction m) (auto simp: hm_wf_def)

lemma hm_wf_retain [simp, preserve]: "hm_wf m \<Longrightarrow> hm_wf (hm_retain p m)"
  by (simp add: hm_retain_def hm_wf_filter)

lemma hm_get_retain:
  "hm_wf m \<Longrightarrow> map_of (hm_retain p m) k =
     (case map_of m k of None \<Rightarrow> None | Some v \<Rightarrow> if p k v then Some v else None)"
proof (induction m)
  case Nil
  then show ?case by (simp add: hm_retain_def)
next
  case (Cons a m)
  then show ?case
    by (cases a) (auto simp: hm_retain_def hm_wf_def map_of_eq_None_iff image_iff split: option.splits)
qed

lemma hm_get_in: "map_of m k = Some v \<Longrightarrow> (k, v) \<in> set m"
  by (rule map_of_SomeD)

lemma hm_in_get: "hm_wf m \<Longrightarrow> (k, v) \<in> set m \<Longrightarrow> map_of m k = Some v"
  by (simp add: hm_wf_def)

lemmas hm_lookup = hm_get_insert_iff hm_get_remove hm_get_or_insert hm_get_upsert hm_get_or_upsert

section \<open>Options\<close>

definition opt_get_or :: "'a \<Rightarrow> 'a option \<Rightarrow> 'a" where
  "opt_get_or d x = (case x of None \<Rightarrow> d | Some v \<Rightarrow> v)"

definition opt_filter :: "('a \<Rightarrow> bool) \<Rightarrow> 'a option \<Rightarrow> 'a option" where
  "opt_filter p x = (case x of None \<Rightarrow> None | Some v \<Rightarrow> if p v then Some v else None)"

definition opt_or :: "'a option \<Rightarrow> 'a option \<Rightarrow> 'a option" where
  "opt_or x y = (case x of None \<Rightarrow> y | Some v \<Rightarrow> Some v)"

lemma opt_get_or_simps [simp]: "opt_get_or d None = d" "opt_get_or d (Some v) = v"
  by (simp_all add: opt_get_or_def)

lemma opt_filter_simps [simp]:
  "opt_filter p None = None" "opt_filter p (Some v) = (if p v then Some v else None)"
  by (simp_all add: opt_filter_def)

lemma opt_filter_Some: "opt_filter p x = Some v \<longleftrightarrow> x = Some v \<and> p v"
  by (auto simp: opt_filter_def split: option.splits)

lemma opt_or_simps [simp]: "opt_or None y = y" "opt_or (Some v) y = Some v"
  by (simp_all add: opt_or_def)

section \<open>First match in a list\<close>

text \<open>\<open>iter_mut().find(p)\<close> followed by a mutation of the element found.\<close>

fun update_first :: "('a \<Rightarrow> bool) \<Rightarrow> ('a \<Rightarrow> 'a) \<Rightarrow> 'a list \<Rightarrow> 'a list" where
  "update_first p f [] = []"
| "update_first p f (x # xs) = (if p x then f x # xs else x # update_first p f xs)"

lemma length_update_first [simp]: "length (update_first p f xs) = length xs"
  by (induction xs) auto

lemma update_first_map_eq:
  "(\<And>x. g (f x) = g x) \<Longrightarrow> map g (update_first p f xs) = map g xs"
  by (induction xs) auto

lemma update_first_none: "\<forall>x \<in> set xs. \<not> p x \<Longrightarrow> update_first p f xs = xs"
  by (induction xs) auto

lemma update_first_set: "y \<in> set (update_first p f xs) \<Longrightarrow> y \<in> set xs \<or> (\<exists>x \<in> set xs. p x \<and> y = f x)"
  by (induction xs) (auto split: if_splits)

lemma find_Some_in: "find p xs = Some x \<Longrightarrow> x \<in> set xs \<and> p x"
  by (auto simp: find_Some_iff)

lemma sum_list_filter_split:
  "sum_list (map f xs) = sum_list (map f (filter p xs)) + sum_list (map f (filter (\<lambda>x. \<not> p x) xs))"
  for f :: "'a \<Rightarrow> nat"
  by (induction xs) auto

end
