(* ===== verification/Text_Codec.thy ===== *)
theory Text_Codec
  imports Prelude
begin

text \<open>
  Text and hexadecimal helpers: the part of Rust's \<open>str\<close> library the wallet relies on
  (trimming, ASCII case folding, substring search, integer parsing, UTF-8 validation) and the
  hexadecimal routines of \<open>lib.rs\<close>, \<open>ffi/send.rs\<close> and \<open>support/bulk_bin.rs\<close>. A
  string is the list of its UTF-8 bytes, each a \<open>char\<close>, so \<open>length\<close> is Rust's
  \<open>str::len\<close>.
\<close>

section \<open>Bytes and characters\<close>

definition byte_of :: "char \<Rightarrow> byte" where
  "byte_of c = word_of_nat (of_char c)"

definition code_of :: "char \<Rightarrow> nat" where
  "code_of c = of_char c"

section \<open>The Rust string library\<close>

text \<open>
  \<open>char::is_whitespace\<close> as UTF-8 byte sequences: U+0009 to U+000D, U+0020, U+0085, U+00A0,
  U+1680, U+2000 to U+200A, U+2028, U+2029, U+202F, U+205F and U+3000.
\<close>

fun ws_width :: "nat list \<Rightarrow> nat" where
  "ws_width (a # b # c # rest) =
     (if a = 32 \<or> (9 \<le> a \<and> a \<le> 13) then 1
      else if a = 194 \<and> (b = 133 \<or> b = 160) then 2
      else if (a = 225 \<and> b = 154 \<and> c = 128) \<or>
              (a = 226 \<and> b = 128 \<and> ((128 \<le> c \<and> c \<le> 138) \<or> c = 168 \<or> c = 169 \<or> c = 175)) \<or>
              (a = 226 \<and> b = 129 \<and> c = 159) \<or> (a = 227 \<and> b = 128 \<and> c = 128) then 3
      else 0)"
| "ws_width [a, b] =
     (if a = 32 \<or> (9 \<le> a \<and> a \<le> 13) then 1
      else if a = 194 \<and> (b = 133 \<or> b = 160) then 2 else 0)"
| "ws_width [a] = (if a = 32 \<or> (9 \<le> a \<and> a \<le> 13) then 1 else 0)"
| "ws_width [] = 0"

text \<open>The same test at the end of a string: the argument is the reversed byte list.\<close>

definition ws_width_rev :: "nat list \<Rightarrow> nat" where
  "ws_width_rev r =
     (if ws_width (rev (take 1 r)) = 1 then 1
      else if ws_width (rev (take 2 r)) = 2 then 2
      else if ws_width (rev (take 3 r)) = 3 then 3 else 0)"

lemma ws_width_pos_length: "0 < ws_width (map f s) \<Longrightarrow> s \<noteq> []"
  by auto

function trim_start :: "string \<Rightarrow> string" where
  "trim_start s =
     (let n = ws_width (map code_of s) in if n = 0 then s else trim_start (drop n s))"
  by pat_completeness auto
termination
  by (relation "measure length") (auto simp: Let_def intro: diff_less dest: ws_width_pos_length)

function trim_start_rev :: "string \<Rightarrow> string" where
  "trim_start_rev s =
     (let n = ws_width_rev (map code_of s) in
      if n = 0 \<or> s = [] then s else trim_start_rev (drop n s))"
  by pat_completeness auto
termination
  by (relation "measure length") auto

declare trim_start.simps [simp del] trim_start_rev.simps [simp del]

definition trim_end :: "string \<Rightarrow> string" where
  "trim_end s = rev (trim_start_rev (rev s))"

definition trim :: "string \<Rightarrow> string" where
  "trim s = trim_end (trim_start s)"

definition lower_char :: "char \<Rightarrow> char" where
  "lower_char c = (if 65 \<le> code_of c \<and> code_of c \<le> 90 then char_of (code_of c + 32) else c)"

definition to_ascii_lowercase :: "string \<Rightarrow> string" where
  "to_ascii_lowercase s = map lower_char s"

definition eq_ignore_ascii_case :: "string \<Rightarrow> string \<Rightarrow> bool" where
  "eq_ignore_ascii_case a b \<longleftrightarrow> to_ascii_lowercase a = to_ascii_lowercase b"

fun starts_with :: "string \<Rightarrow> string \<Rightarrow> bool" where
  "starts_with s [] = True"
| "starts_with [] (p # ps) = False"
| "starts_with (c # cs) (p # ps) = (c = p \<and> starts_with cs ps)"

definition ends_with :: "string \<Rightarrow> string \<Rightarrow> bool" where
  "ends_with s suf = starts_with (rev s) (rev suf)"

fun str_contains :: "string \<Rightarrow> string \<Rightarrow> bool" where
  "str_contains [] pat = (pat = [])"
| "str_contains (c # cs) pat = (starts_with (c # cs) pat \<or> str_contains cs pat)"

text \<open>\<open>str::find\<close>, giving the rest of the string after the first match.\<close>

fun after_match :: "string \<Rightarrow> string \<Rightarrow> string option" where
  "after_match [] pat = (if pat = [] then Some [] else None)"
| "after_match (c # cs) pat =
     (if starts_with (c # cs) pat then Some (drop (length pat) (c # cs)) else after_match cs pat)"

fun trim_start_slash :: "string \<Rightarrow> string" where
  "trim_start_slash [] = []"
| "trim_start_slash (c # cs) = (if c = CHR ''/'' then trim_start_slash cs else c # cs)"

definition trim_end_char :: "char \<Rightarrow> string \<Rightarrow> string" where
  "trim_end_char c s = rev (dropWhile (\<lambda>x. x = c) (rev s))"

text \<open>\<open>split_whitespace().count()\<close>: the number of maximal runs of non-space characters.\<close>

function count_words :: "bool \<Rightarrow> string \<Rightarrow> nat" where
  "count_words inw s =
     (if s = [] then 0
      else let n = ws_width (map code_of s) in
        if n = 0 then (if inw then 0 else 1) + count_words True (tl s)
        else count_words False (drop n s))"
  by pat_completeness auto
termination
  by (relation "measure (\<lambda>(_, s). length s)") auto

declare count_words.simps [simp del]

definition is_ascii_digit :: "char \<Rightarrow> bool" where
  "is_ascii_digit c \<longleftrightarrow> 48 \<le> code_of c \<and> code_of c \<le> 57"

definition digits_value :: "string \<Rightarrow> nat" where
  "digits_value s = foldl (\<lambda>n c. 10 * n + (code_of c - 48)) 0 s"

text \<open>\<open>str::parse\<close> for an unsigned type with the given maximum: an optional plus sign, then
  at least one digit and nothing else, and no overflow.\<close>

definition parse_unsigned :: "nat \<Rightarrow> string \<Rightarrow> nat option" where
  "parse_unsigned mx s =
     (let d = (case s of c # cs \<Rightarrow> (if c = CHR ''+'' then cs else s) | [] \<Rightarrow> s) in
      if d = [] \<or> \<not> list_all is_ascii_digit d then None
      else if digits_value d > mx then None else Some (digits_value d))"

lemma parse_unsigned_bound: "parse_unsigned mx s = Some n \<Longrightarrow> n \<le> mx"
  by (auto simp: parse_unsigned_def Let_def split: if_splits)

text \<open>\<open>to_string\<close> of an unsigned integer.\<close>

fun show_nat :: "nat \<Rightarrow> string" where
  "show_nat n = (if n < 10 then [char_of (48 + n)] else show_nat (n div 10) @ [char_of (48 + n mod 10)])"

declare show_nat.simps [simp del]

text \<open>UTF-8 validation as \<open>std::str::from_utf8\<close> performs it.\<close>

definition is_cont :: "nat \<Rightarrow> bool" where
  "is_cont b \<longleftrightarrow> 128 \<le> b \<and> b \<le> 191"

fun utf8_valid :: "nat list \<Rightarrow> bool" where
  "utf8_valid [] = True"
| "utf8_valid (a # rest) =
     (if a < 128 then utf8_valid rest
      else if 194 \<le> a \<and> a \<le> 223 then
        (case rest of b # r \<Rightarrow> is_cont b \<and> utf8_valid r | _ \<Rightarrow> False)
      else if 224 \<le> a \<and> a \<le> 239 then
        (case rest of b # c # r \<Rightarrow>
            is_cont b \<and> is_cont c \<and> (a = 224 \<longrightarrow> 160 \<le> b) \<and> (a = 237 \<longrightarrow> b \<le> 159) \<and> utf8_valid r
         | _ \<Rightarrow> False)
      else if 240 \<le> a \<and> a \<le> 244 then
        (case rest of b # c # d # r \<Rightarrow>
            is_cont b \<and> is_cont c \<and> is_cont d \<and> (a = 240 \<longrightarrow> 144 \<le> b) \<and> (a = 244 \<longrightarrow> b \<le> 143) \<and>
            utf8_valid r
         | _ \<Rightarrow> False)
      else False)"

section \<open>Hexadecimal\<close>

definition hex_digit :: "nat \<Rightarrow> char" where
  "hex_digit n = (if n < 10 then char_of (48 + n) else char_of (87 + n))"

definition hex_byte :: "byte \<Rightarrow> string" where
  "hex_byte b = [hex_digit (unat b div 16), hex_digit (unat b mod 16)]"

definition hex_lowercase :: "bytes \<Rightarrow> string" where
  "hex_lowercase bs = concat (map hex_byte bs)"

text \<open>\<open>hex_dump_prefix\<close>: space-separated two-digit groups of the first \<open>max_len\<close> bytes.\<close>

fun hex_spaced :: "bytes \<Rightarrow> string" where
  "hex_spaced [] = []"
| "hex_spaced [b] = hex_byte b"
| "hex_spaced (b # bs) = hex_byte b @ '' '' @ hex_spaced bs"

definition hex_dump_prefix :: "bytes \<Rightarrow> nat \<Rightarrow> string" where
  "hex_dump_prefix bs max_len = hex_spaced (take (min max_len (length bs)) bs)"

definition hex_val :: "char \<Rightarrow> byte option" where
  "hex_val c =
     (let n = code_of c in
      if 48 \<le> n \<and> n \<le> 57 then Some (word_of_nat (n - 48))
      else if 97 \<le> n \<and> n \<le> 102 then Some (word_of_nat (n - 97 + 10))
      else if 65 \<le> n \<and> n \<le> 70 then Some (word_of_nat (n - 65 + 10))
      else None)"

unbundle bit_operations_syntax

fun decode_pairs :: "string \<Rightarrow> bytes option" where
  "decode_pairs (h # l # rest) =
     (case hex_val h of None \<Rightarrow> None
      | Some hi \<Rightarrow> (case hex_val l of None \<Rightarrow> None
         | Some lo \<Rightarrow> map_option (\<lambda>bs. (push_bit 4 hi OR lo) # bs) (decode_pairs rest)))"
| "decode_pairs _ = Some []"

definition parse_hex_32 :: "string \<Rightarrow> hash32 option" where
  "parse_hex_32 s0 = (let s = trim s0 in if length s \<noteq> 64 then None else decode_pairs s)"

definition decode_hex :: "string \<Rightarrow> string + bytes" where
  "decode_hex s0 =
     (let v = trim s0 in
      if v = [] \<or> length v mod 2 \<noteq> 0
      then Inl ''signed transaction hex must be non-empty and even-length''
      else if length v > 4 * 1024 * 1024
      then Inl ''signed transaction hex exceeds the 2 MiB binary limit''
      else case decode_pairs v of
             None \<Rightarrow> Inl ''signed transaction contains non-hex data''
           | Some bs \<Rightarrow> Inr bs)"

subsection \<open>Hexadecimal lemmas\<close>

lemma code_of_char_of [simp]: "n < 256 \<Longrightarrow> code_of (char_of n) = n"
  by (simp add: code_of_def)

lemma code_of_hex_digit: "n < 16 \<Longrightarrow> code_of (hex_digit n) = (if n < 10 then 48 + n else 87 + n)"
  by (simp add: hex_digit_def)

lemma hex_val_hex_digit: "n < 16 \<Longrightarrow> hex_val (hex_digit n) = Some (word_of_nat n)"
  by (auto simp: hex_val_def code_of_hex_digit Let_def)

lemma unat_byte_bound: "unat (b :: byte) < 256"
  using unsigned_less [of b, where ?'a = nat] by simp

lemma nibble_join: "push_bit 4 (word_of_nat (unat b div 16)) OR word_of_nat (unat b mod 16) = (b :: byte)"
proof -
  have "unat (drop_bit 4 b) = unat b div 16" "unat (take_bit 4 b) = unat b mod 16"
    unfolding unat_drop_bit_eq by (simp_all add: drop_bit_eq_div take_bit_eq_mod unat_mod_distrib)
  then have hi: "word_of_nat (unat b div 16) = drop_bit 4 b"
    and lo: "word_of_nat (unat b mod 16) = take_bit 4 b"
    by (metis of_nat_unat ucast_id)+
  show ?thesis
    unfolding hi lo by (rule bit_eqI) (auto simp: bit_simps)
qed

lemma decode_pairs_hex [simp]: "decode_pairs (hex_lowercase bs) = Some bs"
proof (induction bs)
  case Nil
  then show ?case by (simp add: hex_lowercase_def)
next
  case (Cons b bs)
  have "unat b div 16 < 16" using unat_byte_bound [of b] by (simp add: less_mult_imp_div_less)
  then have "decode_pairs (hex_byte b @ hex_lowercase bs) = Some (b # bs)"
    using Cons by (simp add: hex_byte_def hex_val_hex_digit nibble_join)
  then show ?case by (simp add: hex_lowercase_def)
qed

lemma hex_lowercase_inj [simp]: "hex_lowercase a = hex_lowercase b \<longleftrightarrow> a = b"
proof
  assume "hex_lowercase a = hex_lowercase b"
  then have "decode_pairs (hex_lowercase a) = decode_pairs (hex_lowercase b)" by simp
  then show "a = b" by simp
qed simp

lemma length_hex_lowercase [simp]: "length (hex_lowercase bs) = 2 * length bs"
  by (induction bs) (simp_all add: hex_lowercase_def hex_byte_def)

lemma hex_lowercase_Nil_iff: "hex_lowercase bs = [] \<longleftrightarrow> bs = []"
  by (cases bs) (simp_all add: hex_lowercase_def hex_byte_def)

lemma decode_pairs_length: "decode_pairs s = Some bs \<Longrightarrow> length bs = length s div 2"
  by (induction s arbitrary: bs rule: decode_pairs.induct) (auto split: option.splits)

subsection \<open>Trimming leaves hexadecimal text alone\<close>

definition plain_char :: "char \<Rightarrow> bool" where
  "plain_char c \<longleftrightarrow> 33 \<le> code_of c \<and> code_of c < 127"

lemma ws_width_plain: "33 \<le> a \<Longrightarrow> a < 128 \<Longrightarrow> ws_width (a # xs) = 0"
  by (cases xs; cases "tl xs") auto

lemma ws_width_end_plain:
  "33 \<le> a \<Longrightarrow> a < 127 \<Longrightarrow> ws_width_rev (a # xs) = 0"
  by (cases xs; cases "tl xs"; cases "tl (tl xs)") (auto simp: ws_width_rev_def)

lemma trim_plain:
  assumes "list_all plain_char s"
  shows "trim s = s"
proof (cases s)
  case Nil
  then show ?thesis by (simp add: trim_def trim_end_def trim_start.simps trim_start_rev.simps)
next
  case (Cons c cs)
  with assms have "trim_start s = s"
    by (simp add: trim_start.simps plain_char_def ws_width_plain)
  moreover obtain d ds where "rev s = d # ds" using Cons by (cases "rev s") auto
  moreover from this assms have "plain_char d"
    by (metis list.set_intros(1) list_all_iff set_rev)
  ultimately show ?thesis
    by (simp add: trim_def trim_end_def trim_start_rev.simps plain_char_def ws_width_end_plain Let_def flip: rev.simps(2))
qed

lemma plain_hex_digit: "n < 16 \<Longrightarrow> plain_char (hex_digit n)"
  by (simp add: plain_char_def code_of_hex_digit)

lemma plain_hex_lowercase: "list_all plain_char (hex_lowercase bs)"
proof (induction bs)
  case (Cons b bs)
  have "unat b div 16 < 16" using unat_byte_bound [of b] by (simp add: less_mult_imp_div_less)
  with Cons show ?case by (simp add: hex_lowercase_def hex_byte_def plain_hex_digit)
qed (simp add: hex_lowercase_def)

lemma trim_hex [simp]: "trim (hex_lowercase bs) = hex_lowercase bs"
  by (rule trim_plain [OF plain_hex_lowercase])

lemma parse_hex_32_hex: "length bs = 32 \<Longrightarrow> parse_hex_32 (hex_lowercase bs) = Some bs"
  by (simp add: parse_hex_32_def)

lemma parse_hex_32_length: "parse_hex_32 s = Some bs \<Longrightarrow> length bs = 32"
  by (auto simp: parse_hex_32_def Let_def dest!: decode_pairs_length split: if_splits)

lemma decode_hex_roundtrip:
  "bs \<noteq> [] \<Longrightarrow> length bs \<le> 2 * 1024 * 1024 \<Longrightarrow> decode_hex (hex_lowercase bs) = Inr bs"
  using hex_lowercase_Nil_iff [of bs] by (simp add: decode_hex_def Let_def)

lemma eq_ignore_ascii_case_refl [simp]: "eq_ignore_ascii_case s s"
  by (simp add: eq_ignore_ascii_case_def)

end
