(* ===== verification/Outputs.thy ===== *)
theory Outputs
  imports Text_Codec
begin

text \<open>
  Owned outputs (\<open>TrackedOutput\<close> of \<open>lib.rs\<close>), their unlock rule, the balance loop the
  handlers repeat, and the exported view of an output (\<open>ObservedOutput\<close>).
\<close>

section \<open>Data\<close>

datatype timelock = TL_None | TL_Block nat | TL_Time nat

record tracked_output =
  tx_hash :: hash32
  index_in_tx :: u64
  public_key :: hash32
  key_image :: hash32
  amount :: u64
  block_height :: u64
  additional_timelock :: timelock
  is_coinbase :: bool
  subaddress_major :: u32
  subaddress_minor :: u32
  spent :: bool
  spending_txid :: "hash32 option"
  spending_height :: "u64 option"

definition zero_image :: hash32 where
  "zero_image = replicate 32 0"

definition outpoint_of :: "tracked_output \<Rightarrow> outpoint" where
  "outpoint_of o1 = (tx_hash o1, index_in_tx o1)"

definition DEFAULT_LOCK_WINDOW :: nat where
  "DEFAULT_LOCK_WINDOW = 10"

definition COINBASE_LOCK_WINDOW :: nat where
  "COINBASE_LOCK_WINDOW = 60"

section \<open>Operations\<close>

definition is_unlocked :: "tracked_output \<Rightarrow> u64 \<Rightarrow> u64 \<Rightarrow> bool" where
  "is_unlocked self chain_height chain_time =
     (let base_lock = (if is_coinbase self then COINBASE_LOCK_WINDOW else DEFAULT_LOCK_WINDOW);
          required_height = sat_add (block_height self) base_lock in
      case additional_timelock self of
        TL_None \<Rightarrow> required_height \<le> chain_height
      | TL_Block height \<Rightarrow> max required_height height \<le> chain_height
      | TL_Time timestamp \<Rightarrow>
          (if chain_time < timestamp then False else required_height \<le> chain_height))"

definition mark_tracked_output_spent :: "hash32 option \<Rightarrow> tracked_output \<Rightarrow> tracked_output" where
  "mark_tracked_output_spent txid out =
     out\<lparr>spent := True,
         spending_txid := (if spending_txid out = None then txid else spending_txid out)\<rparr>"

text \<open>The balance loop: skip spent outputs, add the rest to the total, add the unlocked ones to
  the unlocked balance.\<close>

definition balance_step :: "u64 \<Rightarrow> u64 \<Rightarrow> u64 \<times> u64 \<Rightarrow> tracked_output \<Rightarrow> u64 \<times> u64" where
  "balance_step chain_height chain_time acc out =
     (case acc of (tot, unl) \<Rightarrow>
        if spent out then (tot, unl)
        else (sat_add tot (amount out),
              if is_unlocked out chain_height chain_time then sat_add unl (amount out)
              else unl))"

definition recompute_balance :: "tracked_output list \<Rightarrow> u64 \<Rightarrow> u64 \<Rightarrow> u64 \<times> u64" where
  "recompute_balance outs chain_height chain_time =
     foldl (balance_step chain_height chain_time) (0, 0) outs"

definition confirmations_for_height :: "u64 \<Rightarrow> u64 \<Rightarrow> u64" where
  "confirmations_for_height chain_height tx_height =
     (if tx_height = 0 then 0 else sat_add (sat_sub chain_height tx_height) 1)"

datatype observed_timelock = OT_None | OT_Block u64 | OT_Time u64

fun from_timelock :: "timelock \<Rightarrow> observed_timelock" where
  "from_timelock TL_None = OT_None"
| "from_timelock (TL_Block h) = OT_Block h"
| "from_timelock (TL_Time t) = OT_Time t"

record observed_output =
  oo_tx_hash :: string
  oo_index_in_tx :: u64
  oo_amount :: u64
  oo_block_height :: u64
  oo_subaddress_major :: u32
  oo_subaddress_minor :: u32
  oo_is_coinbase :: bool
  oo_spent :: bool
  oo_confirmations :: u64
  oo_key_image_hex :: string
  oo_timelock :: observed_timelock
  oo_unlock_height :: u64
  oo_unlocked :: bool
  oo_unlock_time :: "u64 option"

definition from_tracked :: "tracked_output \<Rightarrow> u64 \<Rightarrow> u64 \<Rightarrow> observed_output" where
  "from_tracked out chain_height chain_time =
     (let confs = (if block_height out = 0 then 0
                   else sat_add (sat_sub chain_height (block_height out)) 1);
          base_lock = (if is_coinbase out then COINBASE_LOCK_WINDOW else DEFAULT_LOCK_WINDOW);
          unlock_height0 = sat_add (block_height out) base_lock;
          (tl, unlock_height, unlock_time) =
            (case additional_timelock out of
               TL_None \<Rightarrow> (OT_None, unlock_height0, None)
             | TL_Block h \<Rightarrow> (OT_Block h, max unlock_height0 h, None)
             | TL_Time t \<Rightarrow> (OT_Time t, unlock_height0, Some t)) in
      \<lparr>oo_tx_hash = hex_lowercase (tx_hash out), oo_index_in_tx = index_in_tx out,
       oo_amount = amount out, oo_block_height = block_height out,
       oo_subaddress_major = subaddress_major out, oo_subaddress_minor = subaddress_minor out,
       oo_is_coinbase = is_coinbase out, oo_spent = spent out, oo_confirmations = confs,
       oo_key_image_hex = hex_lowercase (key_image out), oo_timelock = tl,
       oo_unlock_height = unlock_height, oo_unlocked = is_unlocked out chain_height chain_time,
       oo_unlock_time = unlock_time\<rparr>)"

section \<open>Lemmas\<close>

lemma is_unlocked_mono:
  "is_unlocked out h t \<Longrightarrow> h \<le> h' \<Longrightarrow> t \<le> t' \<Longrightarrow> is_unlocked out h' t'"
  by (auto simp: is_unlocked_def Let_def split: timelock.splits if_splits)

lemma is_unlocked_needs_depth:
  assumes "is_unlocked out h t" and "block_height out + COINBASE_LOCK_WINDOW \<le> u64_max"
  shows "block_height out + (if is_coinbase out then COINBASE_LOCK_WINDOW else DEFAULT_LOCK_WINDOW) \<le> h"
  using assms
  by (auto simp: is_unlocked_def Let_def sat_add_def COINBASE_LOCK_WINDOW_def
      DEFAULT_LOCK_WINDOW_def u64_max_def split: timelock.splits if_splits)

lemma mark_spent_simps [simp]:
  "spent (mark_tracked_output_spent t out)"
  "tx_hash (mark_tracked_output_spent t out) = tx_hash out"
  "index_in_tx (mark_tracked_output_spent t out) = index_in_tx out"
  "amount (mark_tracked_output_spent t out) = amount out"
  "key_image (mark_tracked_output_spent t out) = key_image out"
  "public_key (mark_tracked_output_spent t out) = public_key out"
  "block_height (mark_tracked_output_spent t out) = block_height out"
  "outpoint_of (mark_tracked_output_spent t out) = outpoint_of out"
  by (simp_all add: mark_tracked_output_spent_def outpoint_of_def)

lemma mark_spent_idem [simp]:
  "mark_tracked_output_spent t (mark_tracked_output_spent t out) = mark_tracked_output_spent t out"
  by (simp add: mark_tracked_output_spent_def)

definition unspent_amounts :: "tracked_output list \<Rightarrow> nat list" where
  "unspent_amounts outs = map amount (filter (\<lambda>o1. \<not> spent o1) outs)"

definition unlocked_amounts :: "u64 \<Rightarrow> u64 \<Rightarrow> tracked_output list \<Rightarrow> nat list" where
  "unlocked_amounts h t outs = map amount (filter (\<lambda>o1. \<not> spent o1 \<and> is_unlocked o1 h t) outs)"

lemma balance_fold:
  "foldl (balance_step h t) (a, b) outs =
     (foldl sat_add a (unspent_amounts outs), foldl sat_add b (unlocked_amounts h t outs))"
  by (induction outs arbitrary: a b)
    (auto simp: balance_step_def unspent_amounts_def unlocked_amounts_def)

lemma recompute_balance_eq:
  "recompute_balance outs h t =
     (sat_sum (unspent_amounts outs), sat_sum (unlocked_amounts h t outs))"
  by (simp add: recompute_balance_def balance_fold sat_sum_def)

lemma unlocked_sum_le: "sum_list (unlocked_amounts h t outs) \<le> sum_list (unspent_amounts outs)"
  by (induction outs) (auto simp: unlocked_amounts_def unspent_amounts_def)

lemma recompute_balance_unlocked_le_total:
  "snd (recompute_balance outs h t) \<le> fst (recompute_balance outs h t)"
  using unlocked_sum_le [of h t outs] by (simp add: recompute_balance_eq sat_sum_eq min_def)

lemma from_tracked_unlocked:
  "oo_unlocked (from_tracked out h t) =
     (oo_unlock_height (from_tracked out h t) \<le> h \<and>
      (case oo_unlock_time (from_tracked out h t) of None \<Rightarrow> True | Some u \<Rightarrow> u \<le> t))"
  by (auto simp: from_tracked_def is_unlocked_def Let_def split: timelock.splits)

lemma from_tracked_timelock: "oo_timelock (from_tracked out h t) = from_timelock (additional_timelock out)"
  by (simp add: from_tracked_def Let_def split: timelock.splits)

lemma from_tracked_confirmations:
  "oo_confirmations (from_tracked out h t) = confirmations_for_height h (block_height out)"
  by (simp add: from_tracked_def confirmations_for_height_def Let_def split: timelock.splits)

end
