(* ===== verification/Chain_Window.thy ===== *)
theory Chain_Window
  imports Outputs
begin

text \<open>
  The chain view a wallet scans against: the bounded window of recent block hashes, reorganisation
  detection against a daemon, rewinding, and the short chain history sent to
  \<open>getblocks.bin\<close> (\<open>lib.rs\<close>, "Wallet2-style chain history helpers"). The fields are a
  record that both the stored wallet and the working state of a refresh extend.
\<close>

record chain_view =
  tracked_outputs :: "tracked_output list"
  seen_outpoints :: "outpoint hset"
  recent_block_hashes_start_height :: u64
  recent_block_hashes :: "hash32 list"
  block_timestamps :: "(u64, u64) hmap"

definition RECENT_BLOCK_HASHES_MAX :: nat where
  "RECENT_BLOCK_HASHES_MAX = 4096"

section \<open>The recent-hash window\<close>

definition push_recent_block_hash_parts ::
    "u64 \<Rightarrow> u64 \<Rightarrow> hash32 list \<Rightarrow> u64 \<Rightarrow> hash32 \<Rightarrow> u64 \<times> hash32 list" where
  "push_recent_block_hash_parts restore_height start_height hashes height hash =
     (let start = (if start_height = 0 then restore_height else start_height) in
      if hashes = [] then (height, [hash])
      else
        let expected_next_height = sat_add start (length hashes);
            (start1, hashes1) =
              (if height = expected_next_height then (start, hashes @ [hash])
               else if height < expected_next_height then
                 (if start \<le> height then
                    (let idx = height - start in
                     if idx < length hashes then (start, take idx hashes @ [hash])
                     else (height, [hash]))
                  else (height, [hash]))
               else (height, [hash])) in
        if RECENT_BLOCK_HASHES_MAX < length hashes1 then
          (let overflow = length hashes1 - RECENT_BLOCK_HASHES_MAX in
           (sat_add start1 overflow, drop overflow hashes1))
        else (start1, hashes1))"

definition maybe_init_recent_hash_window :: "u64 \<Rightarrow> 'a chain_view_scheme \<Rightarrow> 'a chain_view_scheme" where
  "maybe_init_recent_hash_window restore_height s =
     (if recent_block_hashes_start_height s = 0
      then s\<lparr>recent_block_hashes_start_height := restore_height\<rparr> else s)"

definition push_recent_block_hash ::
    "u64 \<Rightarrow> 'a chain_view_scheme \<Rightarrow> u64 \<Rightarrow> hash32 \<Rightarrow> 'a chain_view_scheme" where
  "push_recent_block_hash restore_height s0 height hash =
     (let s = maybe_init_recent_hash_window restore_height s0;
          (st, hs) = push_recent_block_hash_parts restore_height
                       (recent_block_hashes_start_height s) (recent_block_hashes s) height hash in
      s\<lparr>recent_block_hashes_start_height := st, recent_block_hashes := hs\<rparr>)"

definition recent_hash_at :: "u64 \<Rightarrow> hash32 list \<Rightarrow> u64 \<Rightarrow> hash32 option" where
  "recent_hash_at start_height hashes height =
     (if hashes = [] \<or> height < start_height then None
      else let idx = height - start_height in
        if idx < length hashes then Some (hashes ! idx) else None)"

definition get_recent_block_hash :: "'a chain_view_scheme \<Rightarrow> u64 \<Rightarrow> hash32 option" where
  "get_recent_block_hash s height =
     recent_hash_at (recent_block_hashes_start_height s) (recent_block_hashes s) height"

definition recent_hash_height_range :: "'a chain_view_scheme \<Rightarrow> (u64 \<times> u64) option" where
  "recent_hash_height_range s =
     (if recent_block_hashes s = [] then None
      else let start = recent_block_hashes_start_height s in
        Some (start, sat_add start (length (recent_block_hashes s) - 1)))"

section \<open>Reorganisation detection and rewinding\<close>

fun reorg_walk ::
    "u64 \<Rightarrow> u64 \<Rightarrow> hash32 list \<Rightarrow> (u64 \<Rightarrow> 'e + hash32) \<Rightarrow> nat \<Rightarrow> 'e + u64 option" where
  "reorg_walk restore_height recent_start hs get_hash 0 = Inr (Some restore_height)"
| "reorg_walk restore_height recent_start hs get_hash (Suc i) =
     (let height = sat_add recent_start i in
      case get_hash height of
        Inl e \<Rightarrow> Inl e
      | Inr remote \<Rightarrow>
          if remote = hs ! i then Inr (Some (max (sat_add height 1) restore_height))
          else reorg_walk restore_height recent_start hs get_hash i)"

definition find_reorg_rewind_height ::
    "u64 \<Rightarrow> u64 \<Rightarrow> hash32 list \<Rightarrow> (u64 \<Rightarrow> 'e + hash32) \<Rightarrow> 'e + u64 option" where
  "find_reorg_rewind_height restore_height recent_start hs get_hash =
     (if hs = [] then Inr None
      else let tip_height = sat_add recent_start (length hs - 1);
               local_tip = hs ! (length hs - 1) in
        case get_hash tip_height of
          Inl e \<Rightarrow> Inl e
        | Inr remote_tip \<Rightarrow>
            if remote_tip = local_tip then Inr None
            else reorg_walk restore_height recent_start hs get_hash (length hs - 1))"

definition unspend_on_fork :: "u64 \<Rightarrow> tracked_output \<Rightarrow> tracked_output" where
  "unspend_on_fork h out =
     (if (case spending_height out of None \<Rightarrow> False | Some sh \<Rightarrow> h \<le> sh)
      then out\<lparr>spent := False, spending_txid := None, spending_height := None\<rparr> else out)"

definition rewind_working_state_to_height ::
    "u64 \<Rightarrow> u64 \<Rightarrow> 'a chain_view_scheme \<Rightarrow> u64 \<times> 'a chain_view_scheme" where
  "rewind_working_state_to_height restore_height target_height s =
     (let h = max target_height restore_height;
          outs = map (unspend_on_fork h)
                   (filter (\<lambda>o1. block_height o1 < h) (tracked_outputs s));
          seen = hs_of_list (map outpoint_of outs);
          start = recent_block_hashes_start_height s;
          hs = recent_block_hashes s;
          (start1, hs1) =
            (if hs = [] then (start, hs)
             else if h \<le> start then (restore_height, [])
             else let keep = h - start in
               (start, if keep < length hs then take keep hs else hs)) in
      (h, s\<lparr>tracked_outputs := outs, seen_outpoints := seen,
            recent_block_hashes_start_height := start1, recent_block_hashes := hs1,
            block_timestamps := hm_retain (\<lambda>height _. height < h) (block_timestamps s)\<rparr>))"

section \<open>Short chain history\<close>

text \<open>The sequential part: up to ten hashes from \<open>h\<close> downwards.\<close>

fun history_recent :: "nat \<Rightarrow> 'a chain_view_scheme \<Rightarrow> u64 \<Rightarrow> u64 \<Rightarrow> hash32 list" where
  "history_recent 0 s start h = []"
| "history_recent (Suc n) s start h =
     (case get_recent_block_hash s h of None \<Rightarrow> [] | Some x \<Rightarrow> [x]) @
     (if h = 0 \<or> h \<le> start then [] else history_recent n s start (sat_sub h 1))"

text \<open>The exponential part; \<open>k\<close> counts the rounds, so the source's \<open>offset\<close>, which starts
  at two and doubles, is \<open>2 ^ Suc k\<close>.\<close>

function history_backoff :: "'a chain_view_scheme \<Rightarrow> u64 \<Rightarrow> u64 \<Rightarrow> nat \<Rightarrow> hash32 list" where
  "history_backoff s start end_h k =
     (let offset = 2 ^ Suc k in
      if end_h < offset then []
      else let target_h = sat_sub end_h offset in
        if target_h < start then []
        else (case get_recent_block_hash s target_h of None \<Rightarrow> [] | Some x \<Rightarrow> [x]) @
             (if offset > u64_max div 2 then [] else history_backoff s start end_h (Suc k)))"
  by pat_completeness auto
termination
proof (relation "measure (\<lambda>(s, start, end_h, k). end_h - k)", goal_cases)
  case (2 s start end_h k offset target_h)
  have "k < 2 ^ Suc k" by (induction k) auto
  with 2 show ?case by simp
qed simp

declare history_backoff.simps [simp del]

definition build_short_chain_history :: "'a chain_view_scheme \<Rightarrow> hash32 list" where
  "build_short_chain_history s =
     (case recent_hash_height_range s of
        None \<Rightarrow> []
      | Some (start, end_h) \<Rightarrow>
          hs_of_list
            (history_recent 10 s start end_h @ history_backoff s start end_h 0 @
             (if start = 0 then (case recent_block_hashes s of [] \<Rightarrow> [] | g # _ \<Rightarrow> [g]) else [])))"


section \<open>Lemmas: the window\<close>

definition window_ok :: "u64 \<Rightarrow> hash32 list \<Rightarrow> bool" where
  "window_ok start hs \<longleftrightarrow> length hs \<le> RECENT_BLOCK_HASHES_MAX \<and> start + length hs \<le> u64_max"

lemma recent_hash_at_Some:
  "recent_hash_at start hs h = Some x \<longleftrightarrow> start \<le> h \<and> h - start < length hs \<and> hs ! (h - start) = x"
  by (auto simp: recent_hash_at_def Let_def)

lemma recent_hash_at_drop:
  "n \<le> length hs \<Longrightarrow> recent_hash_at (start + n) (drop n hs) h = Some x \<longleftrightarrow>
     start + n \<le> h \<and> recent_hash_at start hs h = Some x"
  by (auto simp: recent_hash_at_Some)

lemma recent_hash_at_take:
  "recent_hash_at start (take n hs) h = Some x \<longleftrightarrow>
     h < start + n \<and> recent_hash_at start hs h = Some x"
  by (auto simp: recent_hash_at_Some)

text \<open>The window before it is trimmed to its maximum length.\<close>

definition push_untrimmed :: "u64 \<Rightarrow> hash32 list \<Rightarrow> u64 \<Rightarrow> hash32 \<Rightarrow> u64 \<times> hash32 list" where
  "push_untrimmed start hs height hash =
     (if hs \<noteq> [] \<and> start \<le> height \<and> height \<le> start + length hs
      then (start, take (height - start) hs @ [hash]) else (height, [hash]))"

lemma push_parts_untrimmed:
  assumes "window_ok start hs" and "start \<noteq> 0 \<or> restore = 0"
  shows "push_recent_block_hash_parts restore start hs height hash =
     (let (st, xs) = push_untrimmed start hs height hash in
      if RECENT_BLOCK_HASHES_MAX < length xs
      then (sat_add st (length xs - RECENT_BLOCK_HASHES_MAX), drop (length xs - RECENT_BLOCK_HASHES_MAX) xs)
      else (st, xs))"
proof -
  have eff: "(if start = 0 then restore else start) = start" using assms(2) by auto
  have nxt: "sat_add start (length hs) = start + length hs"
    using assms(1) by (simp add: window_ok_def sat_add_exact)
  have max: "\<not> RECENT_BLOCK_HASHES_MAX < Suc 0" by (simp add: RECENT_BLOCK_HASHES_MAX_def)
  show ?thesis
    unfolding push_recent_block_hash_parts_def push_untrimmed_def eff nxt Let_def
    using max by (auto simp: RECENT_BLOCK_HASHES_MAX_def)
qed

lemma push_untrimmed_lookup:
  assumes "push_untrimmed start hs height hash = (st, xs)"
  shows "recent_hash_at st xs h = Some x \<longleftrightarrow>
     h = height \<and> x = hash \<or>
     hs \<noteq> [] \<and> height \<le> start + length hs \<and> h < height \<and> recent_hash_at start hs h = Some x"
  using assms
  by (auto simp: push_untrimmed_def recent_hash_at_Some nth_append min_def split: if_splits)

lemma push_parts_window:
  assumes ok: "window_ok start hs" "start \<noteq> 0 \<or> restore = 0" and h: "height < u64_max"
    and r: "push_recent_block_hash_parts restore start hs height hash = (st, xs)"
  shows "window_ok st xs" and "xs \<noteq> []" and "st + length xs = height + 1"
    and "recent_hash_at st xs k = Some x \<Longrightarrow>
           k = height \<and> x = hash \<or> k < height \<and> recent_hash_at start hs k = Some x"
    and "recent_hash_at st xs height = Some hash"
    and "recent_hash_at start hs k = Some x \<Longrightarrow> k < height \<Longrightarrow> height \<le> start + length hs \<Longrightarrow>
           height < k + RECENT_BLOCK_HASHES_MAX \<Longrightarrow> recent_hash_at st xs k = Some x"
proof -
  obtain s0 x0 where u: "push_untrimmed start hs height hash = (s0, x0)" by force
  have len: "s0 + length x0 = height + 1" "x0 \<noteq> []"
    using u by (auto simp: push_untrimmed_def split: if_splits)
  let ?n = "length x0 - RECENT_BLOCK_HASHES_MAX"
  have pos: "0 < RECENT_BLOCK_HASHES_MAX" by (simp add: RECENT_BLOCK_HASHES_MAX_def)
  have s: "sat_add s0 ?n = s0 + ?n" if "RECENT_BLOCK_HASHES_MAX < length x0"
    using len(1) h by (intro sat_add_exact) simp
  have eq: "st = s0 + ?n" "xs = drop ?n x0"
    using r s by (auto simp: push_parts_untrimmed [OF ok] u split: if_splits)
  show "window_ok st xs" using len h by (auto simp: window_ok_def eq)
  show "xs \<noteq> []" using len(2) pos by (cases x0) (auto simp: eq)
  show "st + length xs = height + 1" using len(1) by (simp add: eq)
  have look: "recent_hash_at st xs k = Some x \<longleftrightarrow> s0 + ?n \<le> k \<and> recent_hash_at s0 x0 k = Some x" for k x
    unfolding eq by (rule recent_hash_at_drop) simp
  note lu = push_untrimmed_lookup [OF u]
  show "recent_hash_at st xs k = Some x \<Longrightarrow>
           k = height \<and> x = hash \<or> k < height \<and> recent_hash_at start hs k = Some x"
    unfolding look lu by blast
  have pos0: "0 < length x0" using len(2) by simp
  have "s0 + ?n \<le> height" using len(1) pos pos0 by linarith
  then show "recent_hash_at st xs height = Some hash" unfolding look lu by blast
  show "recent_hash_at st xs k = Some x" if a: "recent_hash_at start hs k = Some x" "k < height"
    "height \<le> start + length hs" "height < k + RECENT_BLOCK_HASHES_MAX"
  proof -
    have l: "recent_hash_at s0 x0 k = Some x"
      unfolding lu using a by (auto simp: recent_hash_at_Some)
    then have "s0 \<le> k" by (simp add: recent_hash_at_Some)
    then have "s0 + ?n \<le> k" using len(1) a(4) by linarith
    with l show ?thesis unfolding look by blast
  qed
qed

section \<open>Lemmas: reorganisation detection\<close>

text \<open>What the walk promises: the result is one above the highest window entry below \<open>n\<close> on
  which the daemon agrees, or the restore height when it agrees on none.\<close>

lemma reorg_walk_spec:
  assumes "recent_start + n \<le> u64_max"
  shows "reorg_walk restore recent_start hs get_hash n = Inr r \<longleftrightarrow>
     (\<exists>i<n. get_hash (recent_start + i) = Inr (hs ! i) \<and> r = Some (max (recent_start + i + 1) restore) \<and>
        (\<forall>j. i < j \<and> j < n \<longrightarrow> (\<exists>x. get_hash (recent_start + j) = Inr x \<and> x \<noteq> hs ! j)))
     \<or> r = Some restore \<and> (\<forall>j<n. \<exists>x. get_hash (recent_start + j) = Inr x \<and> x \<noteq> hs ! j)"
  using assms
proof (induction n)
  case (Suc n)
  have sat: "sat_add recent_start n = recent_start + n" "sat_add (recent_start + n) (Suc 0) = Suc (recent_start + n)"
    using Suc.prems by (simp_all add: sat_add_exact)
  show ?case
  proof (cases "get_hash (recent_start + n)")
    case (Inl e)
    then show ?thesis by (auto simp: sat less_Suc_eq)
  next
    case (Inr x)
    show ?thesis
    proof (cases "x = hs ! n")
      case True
      with Inr have "reorg_walk restore recent_start hs get_hash (Suc n) =
          Inr (Some (max (Suc (recent_start + n)) restore))"
        by (simp add: sat)
      moreover have "i = n" if "i < Suc n"
        "\<forall>j. i < j \<and> j < Suc n \<longrightarrow> (\<exists>x. get_hash (recent_start + j) = Inr x \<and> x \<noteq> hs ! j)" for i
        using that Inr True by (metis less_antisym lessI sum.inject(2))
      ultimately show ?thesis using Inr True by auto
    next
      case False
      with Inr Suc show ?thesis by (auto simp: sat less_Suc_eq)
    qed
  qed
qed auto

lemma find_reorg_None_iff:
  "find_reorg_rewind_height restore start hs get_hash = Inr None \<longleftrightarrow>
     hs = [] \<or> get_hash (sat_add start (length hs - 1)) = Inr (last hs)"
proof -
  have "reorg_walk restore start hs get_hash n \<noteq> Inr None" for n
    by (induction n) (auto simp: Let_def split: sum.splits)
  then show ?thesis
    by (auto simp: find_reorg_rewind_height_def Let_def last_conv_nth split: sum.splits)
qed

lemma find_reorg_Some:
  assumes "find_reorg_rewind_height restore start hs get_hash = Inr (Some r)"
    and "start + length hs \<le> u64_max"
  shows "hs \<noteq> []" and "\<exists>x. get_hash (start + (length hs - 1)) = Inr x \<and> x \<noteq> last hs"
    and "reorg_walk restore start hs get_hash (length hs - 1) = Inr (Some r)"
proof -
  have sat: "sat_add start (length hs - 1) = start + (length hs - 1)"
    using assms(2) by (simp add: sat_add_exact)
  have sat': "sat_add start (length hs - Suc 0) = start + (length hs - Suc 0)" using sat by simp
  from assms(1) show "hs \<noteq> []" "\<exists>x. get_hash (start + (length hs - 1)) = Inr x \<and> x \<noteq> last hs"
    "reorg_walk restore start hs get_hash (length hs - 1) = Inr (Some r)"
    by (auto simp: find_reorg_rewind_height_def sat' Let_def last_conv_nth split: if_splits sum.splits)
qed

lemma find_reorg_ge_restore:
  assumes "find_reorg_rewind_height restore start hs get_hash = Inr (Some r)"
    and "start + length hs \<le> u64_max"
  shows "restore \<le> r"
  using find_reorg_Some(3) [OF assms] assms(2) by (auto simp: reorg_walk_spec)

section \<open>Lemmas: rewinding\<close>

definition window_coherent :: "'a chain_view_scheme \<Rightarrow> bool" where
  "window_coherent s \<longleftrightarrow> distinct (seen_outpoints s) \<and>
     set (seen_outpoints s) = outpoint_of ` set (tracked_outputs s)"

lemma unspend_simps [simp]:
  "outpoint_of (unspend_on_fork h out) = outpoint_of out"
  "block_height (unspend_on_fork h out) = block_height out"
  "key_image (unspend_on_fork h out) = key_image out"
  "public_key (unspend_on_fork h out) = public_key out"
  "amount (unspend_on_fork h out) = amount out"
  by (simp_all add: unspend_on_fork_def outpoint_of_def)

lemma rewind_height: "fst (rewind_working_state_to_height restore target s) = max target restore"
  by (simp add: rewind_working_state_to_height_def Let_def case_prod_beta)

lemma rewind_outputs:
  "tracked_outputs (snd (rewind_working_state_to_height restore target s)) =
     map (unspend_on_fork (max target restore))
       (filter (\<lambda>o1. block_height o1 < max target restore) (tracked_outputs s))"
  by (simp add: rewind_working_state_to_height_def Let_def case_prod_beta)

lemma rewind_seen:
  "seen_outpoints (snd (rewind_working_state_to_height restore target s)) =
     hs_of_list (map outpoint_of (tracked_outputs (snd (rewind_working_state_to_height restore target s))))"
  by (simp add: rewind_working_state_to_height_def Let_def case_prod_beta)

lemma rewind_coherent [preserve]:
  "window_coherent (snd (rewind_working_state_to_height restore target s))"
  unfolding window_coherent_def rewind_seen by simp

lemma rewind_timestamps:
  "block_timestamps (snd (rewind_working_state_to_height restore target s)) =
     hm_retain (\<lambda>h _. h < max target restore) (block_timestamps s)"
  by (simp add: rewind_working_state_to_height_def Let_def case_prod_beta)

lemma rewind_window:
  "recent_block_hashes (snd (rewind_working_state_to_height restore target s)) =
     take (max target restore - recent_block_hashes_start_height s) (recent_block_hashes s)"
  "recent_block_hashes (snd (rewind_working_state_to_height restore target s)) \<noteq> [] \<Longrightarrow>
     recent_block_hashes_start_height (snd (rewind_working_state_to_height restore target s)) =
     recent_block_hashes_start_height s"
  by (auto simp: rewind_working_state_to_height_def Let_def case_prod_beta)

lemma rewind_lookup:
  "get_recent_block_hash (snd (rewind_working_state_to_height restore target s)) h = Some x \<longleftrightarrow>
     h < max target restore \<and> get_recent_block_hash s h = Some x"
proof -
  let ?s' = "snd (rewind_working_state_to_height restore target s)"
  let ?h = "max target restore"
  show ?thesis
  proof (cases "recent_block_hashes ?s' = []")
    case True
    then have "recent_block_hashes s = [] \<or> ?h \<le> recent_block_hashes_start_height s"
      by (auto simp: rewind_window(1))
    with True show ?thesis by (auto simp: get_recent_block_hash_def recent_hash_at_Some)
  next
    case False
    from rewind_window(2) [OF this] show ?thesis
      by (auto simp: get_recent_block_hash_def rewind_window(1) recent_hash_at_take recent_hash_at_Some)
  qed
qed

lemma unspend_spending_below:
  assumes "out' = unspend_on_fork h out" and "spending_height out' = Some k"
  shows "k < h"
  using assms by (auto simp: unspend_on_fork_def split: if_splits option.splits)

lemma unspend_idem: "h \<le> h' \<Longrightarrow> unspend_on_fork h' (unspend_on_fork h out) = unspend_on_fork h out"
  by (auto simp: unspend_on_fork_def split: option.splits)

lemma filter_all_id: "\<forall>x \<in> set xs. p x \<Longrightarrow> filter p xs = xs"
  by (induction xs) auto

lemma hm_retain_idem: "hm_retain p (hm_retain p m) = hm_retain p m"
  by (simp add: hm_retain_def)

lemma rewind_idem:
  fixes s :: "'a chain_view_scheme" and restore target :: u64
  defines "s' \<equiv> snd (rewind_working_state_to_height restore target s)"
  shows "rewind_working_state_to_height restore target s' = (max target restore, s')"
proof -
  let ?h = "max target restore"
  have outs: "map (unspend_on_fork ?h) (filter (\<lambda>o1. block_height o1 < ?h) (tracked_outputs s')) = tracked_outputs s'"
    unfolding s'_def rewind_outputs
    by (auto simp: filter_map o_def unspend_idem)
  have ts: "hm_retain (\<lambda>height _. height < ?h) (block_timestamps s') = block_timestamps s'"
    by (simp add: s'_def rewind_timestamps hm_retain_idem)
  have seen: "seen_outpoints s' = hs_of_list (map outpoint_of (tracked_outputs s'))"
    unfolding s'_def by (rule rewind_seen)
  have win: "(if recent_block_hashes s' = [] then (recent_block_hashes_start_height s', recent_block_hashes s')
     else if ?h \<le> recent_block_hashes_start_height s' then (restore, [])
     else (recent_block_hashes_start_height s',
       if ?h - recent_block_hashes_start_height s' < length (recent_block_hashes s')
       then take (?h - recent_block_hashes_start_height s') (recent_block_hashes s')
       else recent_block_hashes s')) = (recent_block_hashes_start_height s', recent_block_hashes s')"
  proof (cases "recent_block_hashes s' = []")
    case False
    then have st: "recent_block_hashes_start_height s' = recent_block_hashes_start_height s"
      unfolding s'_def by (rule rewind_window(2))
    have hs: "recent_block_hashes s' = take (?h - recent_block_hashes_start_height s) (recent_block_hashes s)"
      unfolding s'_def by (rule rewind_window(1))
    from False hs st have "\<not> ?h \<le> recent_block_hashes_start_height s'" by auto
    with False hs st show ?thesis by auto
  qed simp
  show ?thesis
    unfolding rewind_working_state_to_height_def Let_def win prod.case outs
    by (simp add: ts flip: seen)
qed

section \<open>Lemmas: short chain history\<close>

lemma history_recent_subset: "set (history_recent n s start h) \<subseteq> set (recent_block_hashes s)"
  by (induction n arbitrary: h)
    (auto simp: get_recent_block_hash_def recent_hash_at_def Let_def split: option.splits if_splits)

lemma history_recent_length: "length (history_recent n s start h) \<le> n"
proof (induction n arbitrary: h)
  case (Suc n)
  have "length (history_recent n s start (sat_sub h 1)) \<le> n" by (rule Suc.IH)
  then show ?case by (auto split: option.split intro: le_SucI)
qed simp

lemma history_backoff_subset: "set (history_backoff s start end_h k) \<subseteq> set (recent_block_hashes s)"
proof (induction s start end_h k rule: history_backoff.induct)
  case (1 s start end_h k)
  have IH: "set (history_backoff s start end_h (Suc k)) \<subseteq> set (recent_block_hashes s)"
    if "2 ^ Suc k \<le> end_h" "start \<le> end_h - 2 ^ Suc k" "2 ^ Suc k \<le> u64_max div 2"
    using "1.IH" [OF refl _ refl] that by (simp add: sat_sub_def)
  show ?case
    by (subst history_backoff.simps)
      (use IH in \<open>auto simp: Let_def sat_sub_def get_recent_block_hash_def recent_hash_at_def not_less
        not_le split: option.splits if_splits\<close>)
qed

lemma history_backoff_length:
  "k \<le> 62 \<Longrightarrow> length (history_backoff s start end_h k) \<le> 63 - k"
proof (induction s start end_h k rule: history_backoff.induct)
  case (1 s start end_h k)
  show ?case
  proof (cases "2 ^ Suc k \<le> u64_max div 2")
    case True
    have "k < 62"
    proof (rule ccontr)
      assume "\<not> k < 62"
      then have "(2::nat) ^ 63 \<le> 2 ^ Suc k" by (intro power_increasing) auto
      with True show False by (simp add: u64_max_def)
    qed
    then have "length (history_backoff s start end_h (Suc k)) \<le> 63 - Suc k"
      if "2 ^ Suc k \<le> end_h" "start \<le> end_h - 2 ^ Suc k"
      using "1.IH" [OF refl _ refl] that True by (simp add: sat_sub_def)
    then show ?thesis using \<open>k < 62\<close>
      by (subst history_backoff.simps) (auto simp: Let_def sat_sub_def split: option.split)
  next
    case False
    with "1.prems" show ?thesis
      by (subst history_backoff.simps) (auto simp: Let_def split: option.split)
  qed
qed


section \<open>Lemmas: probing and rewinding together\<close>

text \<open>Where the probe's answer comes from: a position the daemon agrees on with disagreement on all
  later ones, or the restore height when it disagrees on every position.\<close>

lemma find_reorg_index:
  assumes "find_reorg_rewind_height restore start hs get_hash = Inr (Some r)"
    and "start + length hs \<le> u64_max" and "restore \<le> start"
  obtains (agrees) i where "i + 1 < length hs" "get_hash (start + i) = Inr (hs ! i)" "r = start + i + 1"
      "\<forall>j. i < j \<longrightarrow> j < length hs \<longrightarrow> (\<exists>x. get_hash (start + j) = Inr x \<and> x \<noteq> hs ! j)"
    | (nothing) "r = restore" "\<forall>j < length hs. \<exists>x. get_hash (start + j) = Inr x \<and> x \<noteq> hs ! j"
proof -
  let ?n = "length hs - 1"
  have tip: "hs \<noteq> []" "\<exists>x. get_hash (start + ?n) = Inr x \<and> x \<noteq> hs ! ?n"
    and walk: "reorg_walk restore start hs get_hash ?n = Inr (Some r)"
    using find_reorg_Some [OF assms(1,2)] by (simp_all add: last_conv_nth)
  have ext: "\<exists>x. get_hash (start + j) = Inr x \<and> x \<noteq> hs ! j"
    if "j < length hs" "j < ?n \<Longrightarrow> \<exists>x. get_hash (start + j) = Inr x \<and> x \<noteq> hs ! j" for j
    using that tip by (cases "j = ?n") auto
  have "start + ?n \<le> u64_max" using assms(2) by linarith
  from walk [unfolded reorg_walk_spec [OF this]] show thesis
  proof (elim disjE exE conjE)
    fix i assume i: "i < ?n" "get_hash (start + i) = Inr (hs ! i)" "Some r = Some (max (start + i + 1) restore)"
      "\<forall>j. i < j \<and> j < ?n \<longrightarrow> (\<exists>x. get_hash (start + j) = Inr x \<and> x \<noteq> hs ! j)"
    show thesis
    proof (rule agrees [of i])
      show "i + 1 < length hs" "get_hash (start + i) = Inr (hs ! i)" using i by simp_all
      show "r = start + i + 1" using i(3) assms(3) by simp
      show "\<forall>j. i < j \<longrightarrow> j < length hs \<longrightarrow> (\<exists>x. get_hash (start + j) = Inr x \<and> x \<noteq> hs ! j)"
        using i(4) ext by blast
    qed
  next
    assume "Some r = Some restore" "\<forall>j < ?n. \<exists>x. get_hash (start + j) = Inr x \<and> x \<noteq> hs ! j"
    then have "r = restore" "\<forall>j < length hs. \<exists>x. get_hash (start + j) = Inr x \<and> x \<noteq> hs ! j"
      using ext by blast+
    then show thesis by (rule nothing)
  qed
qed

lemma find_reorg_dropped:
  assumes "find_reorg_rewind_height restore start hs get_hash = Inr (Some r)"
    and "start + length hs \<le> u64_max" and "restore \<le> start"
    and "recent_hash_at start hs h = Some x" and "r \<le> h"
  shows "\<exists>y. get_hash h = Inr y \<and> y \<noteq> x"
proof -
  from assms(4) have h: "h = start + (h - start)" "h - start < length hs" "x = hs ! (h - start)"
    by (auto simp: recent_hash_at_Some)
  from assms(1-3) show ?thesis
  proof (cases rule: find_reorg_index)
    case (agrees i)
    with assms(5) have "i < h - start" by linarith
    with agrees(4) h show ?thesis by metis
  next
    case nothing
    with h show ?thesis by metis
  qed
qed

lemma find_reorg_kept:
  assumes "find_reorg_rewind_height restore start hs get_hash = Inr (Some r)"
    and "start + length hs \<le> u64_max" and "restore \<le> start"
    and "recent_hash_at start hs h = Some x" and "h + 1 = r"
  shows "get_hash h = Inr x"
  using assms(1-3)
proof (cases rule: find_reorg_index)
  case (agrees i)
  with assms(4,5) show ?thesis by (simp add: recent_hash_at_Some)
next
  case nothing
  with assms(3-5) show ?thesis by (simp add: recent_hash_at_Some)
qed

lemma find_reorg_top:
  assumes "find_reorg_rewind_height restore start hs get_hash = Inr (Some r)"
    and "start + length hs \<le> u64_max" and "restore \<le> start"
    and "recent_hash_at start hs h = Some x" and "h < r"
  shows "recent_hash_at start hs (r - 1) \<noteq> None"
  using assms(1-3)
proof (cases rule: find_reorg_index)
  case (agrees i)
  then show ?thesis by (auto simp: recent_hash_at_def Let_def)
next
  case nothing
  with assms(3-5) show ?thesis by (simp add: recent_hash_at_Some)
qed

lemma find_reorg_fork:
  fixes s :: "'a chain_view_scheme"
  defines "start \<equiv> recent_block_hashes_start_height s" and "hs \<equiv> recent_block_hashes s"
  assumes "find_reorg_rewind_height restore start hs get_hash = Inr (Some r)"
    and "start + length hs \<le> u64_max" and "restore \<le> start"
  defines "s' \<equiv> snd (rewind_working_state_to_height restore r s)"
  shows "restore \<le> r"
    and "get_recent_block_hash s h = Some x \<Longrightarrow> r \<le> h \<Longrightarrow> \<exists>y. get_hash h = Inr y \<and> y \<noteq> x"
    and "get_recent_block_hash s' h = Some x \<Longrightarrow> h < r \<and> get_recent_block_hash s h = Some x"
    and "get_recent_block_hash s' h = Some x \<Longrightarrow> get_recent_block_hash s' (r - 1) \<noteq> None"
    and "get_recent_block_hash s' (r - 1) = Some x \<Longrightarrow> get_hash (r - 1) = Inr x"
proof -
  note probe = assms(3-5)
  show ge: "restore \<le> r" by (rule find_reorg_ge_restore [OF assms(3,4)])
  have old: "get_recent_block_hash s' k = Some y \<longleftrightarrow> k < r \<and> get_recent_block_hash s k = Some y" for k y
    using ge by (simp add: s'_def rewind_lookup max_def)
  show "\<exists>y. get_hash h = Inr y \<and> y \<noteq> x" if "get_recent_block_hash s h = Some x" "r \<le> h"
    using find_reorg_dropped [OF probe] that by (simp add: get_recent_block_hash_def start_def hs_def)
  show "h < r \<and> get_recent_block_hash s h = Some x" if "get_recent_block_hash s' h = Some x"
    using that old by simp
  show "get_recent_block_hash s' (r - 1) \<noteq> None" if "get_recent_block_hash s' h = Some x"
  proof -
    from that old have k: "h < r" "recent_hash_at start hs h = Some x"
      by (simp_all add: get_recent_block_hash_def start_def hs_def)
    from find_reorg_top [OF probe k(2,1)] obtain y where "get_recent_block_hash s (r - 1) = Some y"
      by (auto simp: get_recent_block_hash_def start_def hs_def)
    with old [of "r - 1" y] k(1) show ?thesis by simp
  qed
  show "get_hash (r - 1) = Inr x" if "get_recent_block_hash s' (r - 1) = Some x"
  proof -
    from that old have "r - 1 < r" "recent_hash_at start hs (r - 1) = Some x"
      by (simp_all add: get_recent_block_hash_def start_def hs_def)
    then show ?thesis using find_reorg_kept [OF probe, of "r - 1" x] by simp
  qed
qed
end
