(* ===== verification/Ledger.thy ===== *)
theory Ledger
  imports Outputs
begin

text \<open>
  Transfer history (\<open>lib.rs\<close>): the per-transaction aggregate, the rebuild of the ledger from
  tracked outputs and pending sends, the attribution of spends whose transaction is unknown, and
  the network fee of a scanned transaction. The loops of \<open>rebuild_transfer_ledger\<close> are the
  phases \<open>collect_outputs\<close>, \<open>attach_unattributed\<close>, \<open>ledger_rows\<close> and
  \<open>merge_pending\<close>, in the order of the source.
\<close>

section \<open>Data\<close>

record pending_outgoing_tx =
  pt_txid :: string
  pt_amount :: u64
  pt_fee :: u64
  pt_created_at :: u64

record ledger_entry =
  le_txid :: string
  le_direction :: string
  le_amount :: u64
  le_fee :: "u64 option"
  le_height :: "u64 option"
  le_timestamp :: "u64 option"
  le_is_pending :: bool
  le_is_coinbase :: bool

record tx_ledger_agg =
  ag_incoming :: u64
  ag_incoming_height :: "u64 option"
  ag_is_coinbase :: bool
  ag_spent :: u64
  ag_spend_height :: "u64 option"

definition agg_default :: tx_ledger_agg where
  "agg_default = \<lparr>ag_incoming = 0, ag_incoming_height = None, ag_is_coinbase = False,
                  ag_spent = 0, ag_spend_height = None\<rparr>"

type_synonym ledger = "(string, ledger_entry) hmap"
type_synonym unattributed_spend = "u64 \<times> u64 option \<times> string"

section \<open>Operations\<close>

definition outgoing_ledger_amount :: "u64 \<Rightarrow> u64 \<Rightarrow> u64" where
  "outgoing_ledger_amount payment fee = sat_add payment fee"

definition known_transaction_fees :: "ledger \<Rightarrow> (string, u64) hmap" where
  "known_transaction_fees l =
     concat (map (\<lambda>(txid, entry). case le_fee entry of None \<Rightarrow> [] | Some fee \<Rightarrow> [(txid, fee)]) l)"

definition bump_height :: "u64 option \<Rightarrow> u64 \<Rightarrow> u64 option" where
  "bump_height slot height =
     (if height = 0 then slot else Some (max (opt_get_or 0 slot) height))"

definition ledger_timestamp_for_height :: "u64 option \<Rightarrow> (u64, u64) hmap \<Rightarrow> u64 option" where
  "ledger_timestamp_for_height height ts =
     opt_filter (\<lambda>t. 0 < t) (Option.bind (opt_filter (\<lambda>h. 0 < h) height) (map_of ts))"

text \<open>First loop: receipts and attributed spends per transaction; spends without a known
  transaction are set aside.\<close>

definition agg_receive :: "tracked_output \<Rightarrow> tx_ledger_agg \<Rightarrow> tx_ledger_agg" where
  "agg_receive out a =
     a\<lparr>ag_incoming := sat_add (ag_incoming a) (amount out),
       ag_is_coinbase := ag_is_coinbase a \<or> is_coinbase out,
       ag_incoming_height := bump_height (ag_incoming_height a) (block_height out)\<rparr>"

definition agg_spend :: "u64 \<Rightarrow> u64 \<Rightarrow> tx_ledger_agg \<Rightarrow> tx_ledger_agg" where
  "agg_spend amt height a =
     a\<lparr>ag_spent := sat_add (ag_spent a) amt,
       ag_spend_height := bump_height (ag_spend_height a) height\<rparr>"

definition collect_output ::
    "(string, tx_ledger_agg) hmap \<times> unattributed_spend list \<Rightarrow> tracked_output \<Rightarrow>
     (string, tx_ledger_agg) hmap \<times> unattributed_spend list" where
  "collect_output st out =
     (case st of (by_txid, unattributed) \<Rightarrow>
        let recv_txid = hex_lowercase (tx_hash out);
            by1 = hm_upsert recv_txid agg_default (agg_receive out) by_txid in
        if spent out then
          (case spending_txid out of
             Some spend_bytes \<Rightarrow>
               (hm_upsert (hex_lowercase spend_bytes) agg_default
                  (agg_spend (amount out) (opt_get_or 0 (spending_height out))) by1, unattributed)
           | None \<Rightarrow> (by1, unattributed @ [(amount out, spending_height out, recv_txid)]))
        else (by1, unattributed))"

definition collect_outputs ::
    "tracked_output list \<Rightarrow> (string, tx_ledger_agg) hmap \<times> unattributed_spend list" where
  "collect_outputs outs = foldl collect_output ([], []) outs"

text \<open>Second phase: a spend with an unknown transaction is attached to the only plausible change
  transaction of its height.\<close>

definition spent_by_height_of :: "unattributed_spend list \<Rightarrow> (u64, u64) hmap" where
  "spent_by_height_of un =
     foldl (\<lambda>m (amt, height, _).
        case opt_filter (\<lambda>h. 0 < h) height of
          None \<Rightarrow> m
        | Some h \<Rightarrow> hm_upsert h 0 (\<lambda>s. sat_add s amt) m) [] un"

definition incoming_at_height_of :: "(string, tx_ledger_agg) hmap \<Rightarrow> (u64, string list) hmap" where
  "incoming_at_height_of by_txid =
     foldl (\<lambda>m (txid, agg).
        if ag_incoming agg = 0 then m
        else case opt_filter (\<lambda>h. 0 < h) (ag_incoming_height agg) of
               None \<Rightarrow> m
             | Some h \<Rightarrow> hm_upsert h [] (\<lambda>l. l @ [txid]) m) [] by_txid"

definition attach_candidates ::
    "string hset \<Rightarrow> (u64, string list) hmap \<Rightarrow> u64 \<Rightarrow> u64 \<Rightarrow> (string, tx_ledger_agg) hmap \<Rightarrow>
     string list" where
  "attach_candidates source_txids incoming_at height spent_sum by_txid =
     filter (\<lambda>txid. txid \<notin> set source_txids \<and>
               (case map_of by_txid txid of
                  None \<Rightarrow> False
                | Some agg \<Rightarrow> 0 < ag_incoming agg \<and> ag_incoming agg < spent_sum \<and> ag_spent agg = 0))
       (opt_get_or [] (map_of incoming_at height))"

definition attach_height ::
    "string hset \<Rightarrow> (u64, string list) hmap \<Rightarrow> (string, tx_ledger_agg) hmap \<Rightarrow> u64 \<times> u64 \<Rightarrow>
     (string, tx_ledger_agg) hmap" where
  "attach_height source_txids incoming_at by_txid hs =
     (case hs of (height, spent_sum) \<Rightarrow>
        (case attach_candidates source_txids incoming_at height spent_sum by_txid of
           [spend_txid] \<Rightarrow> hm_upsert spend_txid agg_default (agg_spend spent_sum height) by_txid
         | _ \<Rightarrow> by_txid))"

definition attach_unattributed ::
    "(string, tx_ledger_agg) hmap \<Rightarrow> unattributed_spend list \<Rightarrow> (string, tx_ledger_agg) hmap" where
  "attach_unattributed by_txid un =
     (if un = [] then by_txid
      else foldl (attach_height (hs_of_list (map (\<lambda>(_, _, t). t) un)) (incoming_at_height_of by_txid))
             by_txid (spent_by_height_of un))"

text \<open>Third loop: one row per transaction that moved funds.\<close>

definition ledger_row ::
    "(string, u64) hmap \<Rightarrow> (u64, u64) hmap \<Rightarrow> string \<Rightarrow> tx_ledger_agg \<Rightarrow> ledger_entry option" where
  "ledger_row known_fees ts txid agg =
     (let fee = map_of known_fees txid in
      if 0 < ag_spent agg then
        (let height = opt_or (ag_spend_height agg) (ag_incoming_height agg) in
         Some \<lparr>le_txid = txid, le_direction = ''out'',
               le_amount = sat_sub (ag_spent agg) (ag_incoming agg), le_fee = fee,
               le_height = height, le_timestamp = ledger_timestamp_for_height height ts,
               le_is_pending = False, le_is_coinbase = False\<rparr>)
      else if 0 < ag_incoming agg then
        (let height = ag_incoming_height agg in
         Some \<lparr>le_txid = txid, le_direction = ''in'', le_amount = ag_incoming agg, le_fee = fee,
               le_height = height, le_timestamp = ledger_timestamp_for_height height ts,
               le_is_pending = False, le_is_coinbase = ag_is_coinbase agg\<rparr>)
      else None)"

definition ledger_rows ::
    "(string, u64) hmap \<Rightarrow> (u64, u64) hmap \<Rightarrow> (string, tx_ledger_agg) hmap \<Rightarrow> ledger" where
  "ledger_rows known_fees ts by_txid =
     foldl (\<lambda>l (txid, agg). case ledger_row known_fees ts txid agg of
              None \<Rightarrow> l | Some e \<Rightarrow> hm_insert txid e l) [] by_txid"

text \<open>Fourth loop: locally recorded sends.\<close>

definition pending_row :: "u64 \<Rightarrow> pending_outgoing_tx \<Rightarrow> ledger_entry option \<Rightarrow> ledger_entry" where
  "pending_row chain_time p row =
     (let pending_amount = outgoing_ledger_amount (pt_amount p) (pt_fee p);
          pending_fee = (if 0 < pt_fee p then Some (pt_fee p) else None) in
      case row of
        Some entry \<Rightarrow>
          if le_direction entry = ''out''
          then entry\<lparr>le_amount := pending_amount,
                     le_fee := (if le_fee entry = None then pending_fee else le_fee entry)\<rparr>
          else entry\<lparr>le_direction := ''out'', le_amount := pending_amount, le_fee := pending_fee,
                     le_is_pending := (le_height entry = None), le_is_coinbase := False\<rparr>
      | None \<Rightarrow>
          \<lparr>le_txid = pt_txid p, le_direction = ''out'', le_amount = pending_amount,
           le_fee = pending_fee, le_height = None,
           le_timestamp = (if 0 < pt_created_at p then Some (pt_created_at p)
                           else if 0 < chain_time then Some chain_time else None),
           le_is_pending = True, le_is_coinbase = False\<rparr>)"

definition merge_pending :: "u64 \<Rightarrow> ledger \<Rightarrow> pending_outgoing_tx list \<Rightarrow> ledger" where
  "merge_pending chain_time l ps =
     foldl (\<lambda>l p. hm_insert (pt_txid p) (pending_row chain_time p (map_of l (pt_txid p))) l) l ps"

definition rebuild_transfer_ledger ::
    "tracked_output list \<Rightarrow> pending_outgoing_tx list \<Rightarrow> (string, u64) hmap \<Rightarrow> u64 \<Rightarrow> (u64, u64) hmap \<Rightarrow>
     ledger" where
  "rebuild_transfer_ledger outs pending known_fees chain_time ts =
     (let (by_txid, un) = collect_outputs outs in
      merge_pending chain_time (ledger_rows known_fees ts (attach_unattributed by_txid un)) pending)"

text \<open>The fee of a scanned transaction, over the constructors of the pruned transaction type the
  code matches on; a key input carries its public amount, if any, and its key image.\<close>

datatype tx_input = TxGen u64 | TxToKey "u64 option" hash32

datatype pruned_tx =
    TxV1 "tx_input list" "u64 option list"
  | TxV2 "tx_input list" "u64 option"

fun tx_inputs :: "pruned_tx \<Rightarrow> tx_input list" where
  "tx_inputs (TxV1 ins outs) = ins"
| "tx_inputs (TxV2 ins fee) = ins"

fun try_sum :: "u64 \<Rightarrow> u64 option list \<Rightarrow> u64 option" where
  "try_sum tot [] = Some tot"
| "try_sum tot (None # xs) = None"
| "try_sum tot (Some a # xs) =
     (case checked_add tot a of None \<Rightarrow> None | Some t \<Rightarrow> try_sum t xs)"

fun input_amount :: "tx_input \<Rightarrow> u64 option" where
  "input_amount (TxGen h) = None"
| "input_amount (TxToKey a ki) = a"

definition transaction_network_fee :: "pruned_tx \<Rightarrow> u64 option" where
  "transaction_network_fee tx =
     (case tx_inputs tx of
        TxGen h # rest \<Rightarrow> Some 0
      | _ \<Rightarrow>
        (case tx of
           TxV2 ins fee \<Rightarrow> fee
         | TxV1 ins outs \<Rightarrow>
             Option.bind (try_sum 0 (map input_amount ins)) (\<lambda>input_total.
               Option.bind (try_sum 0 outs) (\<lambda>output_total.
                 checked_sub input_total output_total))))"


section \<open>What the collected aggregates hold\<close>

definition received :: "tracked_output list \<Rightarrow> string \<Rightarrow> u64" where
  "received outs t = sat_sum (map amount (filter (\<lambda>o1. hex_lowercase (tx_hash o1) = t) outs))"

definition spends_in :: "string \<Rightarrow> tracked_output \<Rightarrow> bool" where
  "spends_in t o1 \<longleftrightarrow> spent o1 \<and> map_option hex_lowercase (spending_txid o1) = Some t"

definition consumed :: "tracked_output list \<Rightarrow> string \<Rightarrow> u64" where
  "consumed outs t = sat_sum (map amount (filter (spends_in t) outs))"

definition touched :: "tracked_output list \<Rightarrow> string set" where
  "touched outs = (\<lambda>o1. hex_lowercase (tx_hash o1)) ` set outs \<union> {t. \<exists>o1 \<in> set outs. spends_in t o1}"

lemma agg_default_simps [simp]:
  "ag_incoming agg_default = 0" "ag_spent agg_default = 0" "\<not> ag_is_coinbase agg_default"
  by (simp_all add: agg_default_def)

lemma agg_simps [simp]:
  "ag_incoming (agg_receive out a) = sat_add (ag_incoming a) (amount out)"
  "ag_spent (agg_receive out a) = ag_spent a"
  "ag_incoming (agg_spend x h a) = ag_incoming a"
  "ag_spent (agg_spend x h a) = sat_add (ag_spent a) x"
  by (simp_all add: agg_receive_def agg_spend_def)

lemma collect_snoc: "collect_outputs (outs @ [x]) = collect_output (collect_outputs outs) x"
  by (simp add: collect_outputs_def)

lemma received_snoc:
  "received (outs @ [x]) t =
     (if hex_lowercase (tx_hash x) = t then sat_add (received outs t) (amount x) else received outs t)"
  by (simp add: received_def sat_sum_snoc)

lemma consumed_snoc:
  "consumed (outs @ [x]) t =
     (if spends_in t x then sat_add (consumed outs t) (amount x) else consumed outs t)"
  by (simp add: consumed_def sat_sum_snoc)

lemma touched_snoc:
  "touched (outs @ [x]) = touched outs \<union> {hex_lowercase (tx_hash x)} \<union> {t. spends_in t x}"
  by (auto simp: touched_def)

lemma collect_wf: "hm_wf (fst (collect_outputs outs))"
  by (induction outs rule: rev_induct)
    (auto simp: collect_snoc collect_output_def collect_outputs_def Let_def split: prod.splits option.splits)

lemma collect_keys: "fst ` set (fst (collect_outputs outs)) = touched outs"
proof (induction outs rule: rev_induct)
  case (snoc x outs)
  obtain m un where c: "collect_outputs outs = (m, un)" by force
  with snoc have keys: "fst ` set m = touched outs" by simp
  have "spends_in t x \<longleftrightarrow> spent x \<and> (\<exists>b. spending_txid x = Some b \<and> t = hex_lowercase b)" for t
    by (auto simp: spends_in_def)
  then show ?case
    by (cases "spent x"; cases "spending_txid x")
      (simp_all add: collect_snoc touched_snoc collect_output_def Let_def c keys insert_commute)
qed (simp add: collect_outputs_def touched_def)

lemma collect_sums:
  "ag_incoming (hm_get_or agg_default (fst (collect_outputs outs)) t) = received outs t \<and>
   ag_spent (hm_get_or agg_default (fst (collect_outputs outs)) t) = consumed outs t"
proof (induction outs rule: rev_induct)
  case Nil
  then show ?case by (simp add: collect_outputs_def hm_get_or_def received_def consumed_def)
next
  case (snoc x outs)
  obtain m un where c: "collect_outputs outs = (m, un)" by force
  with snoc show ?case
    by (simp add: collect_snoc collect_output_def Let_def received_snoc consumed_snoc spends_in_def
        hm_get_or_upsert split: option.split)
qed

lemma collect_get:
  "map_of (fst (collect_outputs outs)) t = None \<longleftrightarrow> t \<notin> touched outs"
  "map_of (fst (collect_outputs outs)) t = Some a \<Longrightarrow>
     ag_incoming a = received outs t \<and> ag_spent a = consumed outs t"
proof -
  show "map_of (fst (collect_outputs outs)) t = None \<longleftrightarrow> t \<notin> touched outs"
    using collect_keys [of outs] by (simp add: map_of_eq_None_iff)
  show "map_of (fst (collect_outputs outs)) t = Some a \<Longrightarrow>
     ag_incoming a = received outs t \<and> ag_spent a = consumed outs t"
    using collect_sums [of outs t] by (simp add: hm_get_or_def)
qed

lemma collect_unattributed:
  "snd (collect_outputs outs) =
     map (\<lambda>o1. (amount o1, spending_height o1, hex_lowercase (tx_hash o1)))
       (filter (\<lambda>o1. spent o1 \<and> spending_txid o1 = None) outs)"
  by (induction outs rule: rev_induct)
    (auto simp: collect_snoc collect_output_def Let_def collect_outputs_def split: prod.splits option.splits)

lemma received_zero_untouched: "t \<notin> touched outs \<Longrightarrow> received outs t = 0 \<and> consumed outs t = 0"
proof -
  assume "t \<notin> touched outs"
  then have "filter (\<lambda>o1. hex_lowercase (tx_hash o1) = t) outs = []" "filter (spends_in t) outs = []"
    by (auto simp: touched_def filter_empty_conv)
  then show ?thesis by (simp add: received_def consumed_def)
qed

section \<open>Attributing spends without a transaction\<close>

text \<open>An aggregate either stays or goes from "received, spent nothing" to "spent more than it
  received"; nothing else changes.\<close>

definition attach_rel :: "tx_ledger_agg option \<Rightarrow> tx_ledger_agg option \<Rightarrow> bool" where
  "attach_rel x y \<longleftrightarrow> y = x \<or>
     (\<exists>a s h. x = Some a \<and> ag_spent a = 0 \<and> 0 < ag_incoming a \<and> ag_incoming a < s \<and> s \<le> u64_max \<and>
        y = Some (agg_spend s h a))"

lemma attach_rel_trans: "attach_rel x y \<Longrightarrow> attach_rel y z \<Longrightarrow> attach_rel x z"
  by (auto simp: attach_rel_def)

lemma attach_height_wf [preserve]: "hm_wf m \<Longrightarrow> hm_wf (attach_height src inc m hs)"
  by (auto simp: attach_height_def split: list.split prod.split)

lemma attach_height_rel:
  assumes "snd hs \<le> u64_max"
  shows "attach_rel (map_of m t) (map_of (attach_height src inc m hs) t)"
proof -
  obtain h s where hs: "hs = (h, s)" by force
  show ?thesis
  proof (cases "\<exists>u. attach_candidates src inc h s m = [u]")
    case False
    then have "attach_height src inc m hs = m"
      by (auto simp: attach_height_def hs split: list.split)
    then show ?thesis by (simp add: attach_rel_def)
  next
    case True
    then obtain u where u: "attach_candidates src inc h s m = [u]" by blast
    then have "u \<in> set (attach_candidates src inc h s m)" by simp
    then obtain a where a: "map_of m u = Some a" "0 < ag_incoming a" "ag_incoming a < s" "ag_spent a = 0"
      by (auto simp: attach_candidates_def split: option.splits)
    have "attach_height src inc m hs = hm_upsert u agg_default (agg_spend s h) m"
      by (simp add: attach_height_def hs u)
    moreover have "s \<le> u64_max" using assms by (simp add: hs)
    ultimately show ?thesis using a by (auto simp: attach_rel_def hm_get_upsert hm_get_or_def)
  qed
qed

lemma attach_fold_rel:
  assumes "\<forall>x \<in> set hs. snd x \<le> u64_max"
  shows "attach_rel (map_of m t) (map_of (foldl (attach_height src inc) m hs) t)"
  using assms
proof (induction hs arbitrary: m)
  case (Cons x hs)
  have "attach_rel (map_of m t) (map_of (attach_height src inc m x) t)"
    using Cons.prems by (intro attach_height_rel) simp
  moreover have "attach_rel (map_of (attach_height src inc m x) t)
      (map_of (foldl (attach_height src inc) (attach_height src inc m x) hs) t)"
    using Cons by simp
  ultimately show ?case by (auto intro: attach_rel_trans)
qed (simp add: attach_rel_def)

lemma set_hm_insert: "x \<in> set (hm_insert k v m) \<Longrightarrow> x = (k, v) \<or> x \<in> set m"
  by (induction m) (auto simp: hm_insert_def split: if_splits)

lemma spent_by_height_bound: "\<forall>x \<in> set (spent_by_height_of un). snd x \<le> u64_max"
proof -
  have "\<forall>x \<in> set (foldl (\<lambda>m (amt, height, _).
        case opt_filter (\<lambda>h. 0 < h) height of None \<Rightarrow> m
        | Some h \<Rightarrow> hm_upsert h 0 (\<lambda>s. sat_add s amt) m) m un). snd x \<le> u64_max"
    if "\<forall>x \<in> set m. snd x \<le> u64_max" for m
    using that
  proof (induction un arbitrary: m)
    case (Cons u un)
    obtain amt height t where u: "u = (amt, height, t)" by (cases u) auto
    show ?case
      using Cons.prems
      by (auto simp: u hm_upsert_def split: option.split dest!: set_hm_insert intro!: Cons.IH)
  qed simp
  from this [of "[]"] show ?thesis by (simp add: spent_by_height_of_def)
qed

lemma attach_unattributed_rel: "attach_rel (map_of m t) (map_of (attach_unattributed m un) t)"
proof (cases "un = []")
  case True
  then show ?thesis by (simp add: attach_unattributed_def attach_rel_def)
next
  case False
  then show ?thesis
    unfolding attach_unattributed_def if_not_P [OF False]
    by (intro attach_fold_rel spent_by_height_bound)
qed

lemma attach_unattributed_wf [preserve]: "hm_wf m \<Longrightarrow> hm_wf (attach_unattributed m un)"
proof -
  have "hm_wf m \<Longrightarrow> hm_wf (foldl (attach_height src inc) m hs)" for src inc hs
    by (induction hs arbitrary: m) (auto intro: attach_height_wf)
  then show "hm_wf m \<Longrightarrow> hm_wf (attach_unattributed m un)"
    by (simp add: attach_unattributed_def)
qed

lemma attach_rel_cases:
  "attach_rel None y \<Longrightarrow> y = None"
  "attach_rel (Some a) y \<Longrightarrow> 0 < ag_spent a \<Longrightarrow> y = Some a"
  "attach_rel (Some a) y \<Longrightarrow> ag_incoming a = 0 \<Longrightarrow> y = Some a"
  "attach_rel (Some a) y \<Longrightarrow> y \<noteq> Some a \<Longrightarrow>
     \<exists>s h. ag_incoming a < s \<and> s \<le> u64_max \<and> y = Some (agg_spend s h a)"
  by (auto simp: attach_rel_def)

section \<open>Rows\<close>

lemma ledger_rows_wf: "hm_wf (ledger_rows k ts m)"
proof -
  have "hm_wf l \<Longrightarrow> hm_wf (foldl (\<lambda>l (txid, agg). case ledger_row k ts txid agg of
              None \<Rightarrow> l | Some e \<Rightarrow> hm_insert txid e l) l m)" for l
    by (induction m arbitrary: l) (auto split: option.split)
  then show ?thesis by (simp add: ledger_rows_def)
qed

lemma ledger_rows_get:
  assumes "hm_wf m"
  shows "map_of (ledger_rows k ts m) t = Option.bind (map_of m t) (ledger_row k ts t)"
proof -
  have "map_of (foldl (\<lambda>l (txid, agg). case ledger_row k ts txid agg of
              None \<Rightarrow> l | Some e \<Rightarrow> hm_insert txid e l) l m) t =
        (case Option.bind (map_of m t) (ledger_row k ts t) of None \<Rightarrow> map_of l t | Some e \<Rightarrow> Some e)" for l
    using assms
  proof (induction m arbitrary: l)
    case (Cons x m)
    obtain u a where x: "x = (u, a)" by force
    from Cons.prems x have wf: "hm_wf m" and new: "map_of m u = None"
      by (auto simp: hm_wf_def map_of_eq_None_iff)
    have none: "map_of m t = None" if "u = t" using new that by simp
    show ?case
      by (cases "u = t"; cases "ledger_row k ts u a")
        (simp_all add: x Cons.IH [OF wf] none split: option.split)
  qed simp
  from this [of "[]"] show ?thesis by (simp add: ledger_rows_def split: option.splits)
qed

lemma ledger_row_txid: "ledger_row k ts t a = Some e \<Longrightarrow> le_txid e = t"
  by (auto simp: ledger_row_def Let_def split: if_splits)

lemma merge_snoc:
  "merge_pending ct l (ps @ [p]) =
     hm_insert (pt_txid p) (pending_row ct p (map_of (merge_pending ct l ps) (pt_txid p)))
       (merge_pending ct l ps)"
  by (simp add: merge_pending_def)

lemma merge_wf [preserve]: "hm_wf l \<Longrightarrow> hm_wf (merge_pending ct l ps)"
  by (induction ps rule: rev_induct) (auto simp: merge_snoc merge_pending_def)

lemma merge_other: "t \<notin> pt_txid ` set ps \<Longrightarrow> map_of (merge_pending ct l ps) t = map_of l t"
  by (induction ps rule: rev_induct) (auto simp: merge_snoc merge_pending_def)

lemma merge_pending_get:
  "distinct (map pt_txid ps) \<Longrightarrow> p \<in> set ps \<Longrightarrow>
     map_of (merge_pending ct l ps) (pt_txid p) = Some (pending_row ct p (map_of l (pt_txid p)))"
proof (induction ps rule: rev_induct)
  case (snoc q ps)
  show ?case
  proof (cases "p \<in> set ps")
    case True
    then have "pt_txid p \<noteq> pt_txid q" using snoc.prems by (auto simp: image_iff)
    with snoc True show ?thesis by (simp add: merge_snoc)
  next
    case False
    then have "p = q" using snoc.prems by simp
    moreover have "pt_txid q \<notin> pt_txid ` set ps" using snoc.prems by auto
    ultimately show ?thesis by (simp add: merge_snoc merge_other)
  qed
qed simp

lemma pending_row_simps [simp]:
  "le_direction (pending_row ct p r) = ''out''"
  "le_amount (pending_row ct p r) = outgoing_ledger_amount (pt_amount p) (pt_fee p)"
  by (auto simp: pending_row_def Let_def split: option.split)

lemma pending_row_txid:
  "(\<And>e. r = Some e \<Longrightarrow> le_txid e = pt_txid p) \<Longrightarrow> le_txid (pending_row ct p r) = pt_txid p"
  by (cases r) (simp_all add: pending_row_def Let_def)

lemma merge_key:
  assumes "\<forall>t e. map_of l t = Some e \<longrightarrow> le_txid e = t"
  shows "\<forall>t e. map_of (merge_pending ct l ps) t = Some e \<longrightarrow> le_txid e = t"
proof (induction ps rule: rev_induct)
  case Nil
  then show ?case using assms by (simp add: merge_pending_def)
next
  case (snoc p ps)
  have "le_txid (pending_row ct p (map_of (merge_pending ct l ps) (pt_txid p))) = pt_txid p"
    using snoc.IH by (intro pending_row_txid) blast
  with snoc.IH show ?case by (simp add: merge_snoc)
qed

section \<open>The whole ledger\<close>

lemma rebuild_wf: "hm_wf (rebuild_transfer_ledger outs ps k ct ts)"
  by (simp add: rebuild_transfer_ledger_def case_prod_beta merge_wf ledger_rows_wf)

lemma rebuild_get_not_pending:
  assumes "t \<notin> pt_txid ` set ps"
  shows "map_of (rebuild_transfer_ledger outs ps k ct ts) t =
     Option.bind (map_of (attach_unattributed (fst (collect_outputs outs)) (snd (collect_outputs outs))) t)
       (ledger_row k ts t)"
  by (simp add: rebuild_transfer_ledger_def case_prod_beta merge_other [OF assms]
      ledger_rows_get attach_unattributed_wf collect_wf)

text \<open>A transaction that spends wallet inputs whose spending transaction is recorded is one
  outgoing row of inputs minus change.\<close>

lemma rebuild_spend_row:
  assumes "t \<notin> pt_txid ` set ps" and "0 < consumed outs t"
  shows "\<exists>e. map_of (rebuild_transfer_ledger outs ps k ct ts) t = Some e \<and> le_direction e = ''out'' \<and>
     le_amount e = consumed outs t - received outs t \<and> le_fee e = map_of k t \<and> \<not> le_is_pending e"
proof -
  have "t \<in> touched outs" using received_zero_untouched assms(2) by fastforce
  then obtain a where a: "map_of (fst (collect_outputs outs)) t = Some a"
    using collect_get(1) [of outs t] by auto
  note sums = collect_get(2) [OF a]
  have "map_of (attach_unattributed (fst (collect_outputs outs)) (snd (collect_outputs outs))) t = Some a"
    using attach_rel_cases(2) [of a] attach_unattributed_rel [of "fst (collect_outputs outs)" t]
      a sums assms(2) by simp
  then show ?thesis
    using sums assms(2) by (simp add: rebuild_get_not_pending [OF assms(1)] ledger_row_def Let_def sat_sub_def)
qed

text \<open>A transaction that only pays the wallet is one incoming row with the sum of its outputs,
  unless it was found to be the change of a spend whose transaction is unknown.\<close>

lemma rebuild_receive_row:
  assumes "t \<notin> pt_txid ` set ps" and "consumed outs t = 0" and "0 < received outs t"
  shows "\<exists>e. map_of (rebuild_transfer_ledger outs ps k ct ts) t = Some e \<and>
     (le_direction e = ''in'' \<and> le_amount e = received outs t \<or>
      le_direction e = ''out'' \<and> 0 < le_amount e \<and> (\<exists>o1 \<in> set outs. spent o1 \<and> spending_txid o1 = None))"
proof -
  have "t \<in> touched outs" using received_zero_untouched assms(3) by fastforce
  then obtain a where a: "map_of (fst (collect_outputs outs)) t = Some a"
    using collect_get(1) [of outs t] by auto
  note sums = collect_get(2) [OF a]
  let ?m = "attach_unattributed (fst (collect_outputs outs)) (snd (collect_outputs outs))"
  show ?thesis
  proof (cases "map_of ?m t = Some a")
    case True
    then show ?thesis
      using sums assms by (simp add: rebuild_get_not_pending ledger_row_def Let_def)
  next
    case False
    then obtain s h where s: "map_of ?m t = Some (agg_spend s h a)" "ag_incoming a < s" "s \<le> u64_max"
      using attach_rel_cases(4) [of a "map_of ?m t"]
        attach_unattributed_rel [of "fst (collect_outputs outs)" t "snd (collect_outputs outs)"] a
      by auto
    have "snd (collect_outputs outs) \<noteq> []"
      using False a by (auto simp: attach_unattributed_def)
    then have "\<exists>o1 \<in> set outs. spent o1 \<and> spending_txid o1 = None"
      by (auto simp: collect_unattributed filter_empty_conv)
    moreover have "ag_spent a = 0" using sums assms(2) by simp
    ultimately show ?thesis
      using s assms(1) by (simp add: rebuild_get_not_pending ledger_row_def Let_def sat_sub_def)
  qed
qed

lemma rebuild_no_row:
  assumes "t \<notin> pt_txid ` set ps" and "consumed outs t = 0" and "received outs t = 0"
  shows "map_of (rebuild_transfer_ledger outs ps k ct ts) t = None"
proof (cases "map_of (fst (collect_outputs outs)) t")
  case None
  then have "map_of (attach_unattributed (fst (collect_outputs outs)) (snd (collect_outputs outs))) t = None"
    using attach_unattributed_rel [of "fst (collect_outputs outs)" t "snd (collect_outputs outs)"]
    by (intro attach_rel_cases(1)) simp
  then show ?thesis by (simp add: rebuild_get_not_pending [OF assms(1)])
next
  case (Some a)
  note sums = collect_get(2) [OF Some]
  have "map_of (attach_unattributed (fst (collect_outputs outs)) (snd (collect_outputs outs))) t = Some a"
    using attach_rel_cases(3) [of a] Some sums assms
      attach_unattributed_rel [of "fst (collect_outputs outs)" t "snd (collect_outputs outs)"] by simp
  with sums assms show ?thesis by (simp add: rebuild_get_not_pending ledger_row_def Let_def)
qed

lemma rebuild_pending_row:
  assumes "distinct (map pt_txid ps)" and "p \<in> set ps"
  shows "\<exists>e. map_of (rebuild_transfer_ledger outs ps k ct ts) (pt_txid p) = Some e \<and>
     le_direction e = ''out'' \<and> le_amount e = sat_add (pt_amount p) (pt_fee p)"
  using assms
  by (auto simp: rebuild_transfer_ledger_def case_prod_beta merge_pending_get outgoing_ledger_amount_def)

lemma rebuild_row_txid:
  assumes "map_of (rebuild_transfer_ledger outs ps k ct ts) t = Some e"
  shows "le_txid e = t"
proof -
  have "le_txid e = t"
    if "map_of (ledger_rows k ts (attach_unattributed (fst (collect_outputs outs)) un)) t = Some e" for e t un
    using that by (auto simp: ledger_rows_get attach_unattributed_wf collect_wf bind_eq_Some_conv ledger_row_txid)
  with assms show ?thesis
    unfolding rebuild_transfer_ledger_def case_prod_beta Let_def using merge_key by blast
qed

section \<open>Conservation\<close>

definition map_total :: "('v \<Rightarrow> nat) \<Rightarrow> ('k, 'v) hmap \<Rightarrow> nat" where
  "map_total f m = sum_list (map (f \<circ> snd) m)"

lemma map_total_simps [simp]:
  "map_total f [] = 0" "map_total f ((k, v) # m) = f v + map_total f m"
  "map_total f (m @ m') = map_total f m + map_total f m'"
  by (simp_all add: map_total_def)

lemma map_total_insert_new: "map_of m k = None \<Longrightarrow> map_total f (hm_insert k v m) = map_total f m + f v"
  by (induction m) (auto simp: hm_insert_def)

lemma map_total_insert:
  "hm_wf m \<Longrightarrow> map_of m k = Some v0 \<Longrightarrow> map_total f (hm_insert k v m) + f v0 = map_total f m + f v"
  by (induction m) (auto simp: hm_insert_def hm_wf_def split: if_splits)

lemma map_total_upsert:
  assumes "hm_wf m" and "f d = 0"
  shows "map_total f (hm_upsert k d g m) + f (hm_get_or d m k) = map_total f m + f (g (hm_get_or d m k))"
  using assms
  by (cases "map_of m k") (simp_all add: hm_upsert_def hm_get_or_def map_total_insert_new map_total_insert)

definition outs_total :: "tracked_output list \<Rightarrow> nat" where
  "outs_total outs = sum_list (map amount outs)"

definition attributed :: "tracked_output \<Rightarrow> bool" where
  "attributed o1 \<longleftrightarrow> spent o1 \<and> spending_txid o1 \<noteq> None"

lemma sum_filter_le: "sum_list (map amount (filter p outs)) \<le> outs_total outs"
  unfolding outs_total_def by (induction outs) auto

lemma received_consumed_le: "received outs t \<le> outs_total outs" "consumed outs t \<le> outs_total outs"
  using sum_filter_le [of "\<lambda>o1. hex_lowercase (tx_hash o1) = t" outs] sum_filter_le [of "spends_in t" outs]
  by (auto simp: received_def consumed_def sat_sum_eq)

lemma collect_totals:
  "outs_total outs \<le> u64_max \<Longrightarrow>
     map_total ag_incoming (fst (collect_outputs outs)) = outs_total outs \<and>
     map_total ag_spent (fst (collect_outputs outs)) = outs_total (filter attributed outs)"
proof (induction outs rule: rev_induct)
  case Nil
  then show ?case by (simp add: collect_outputs_def outs_total_def)
next
  case (snoc x outs)
  obtain m un where c: "collect_outputs outs = (m, un)" by force
  have bound: "outs_total outs + amount x \<le> u64_max" using snoc.prems by (simp add: outs_total_def)
  with snoc.IH c have IH: "map_total ag_incoming m = outs_total outs"
    "map_total ag_spent m = outs_total (filter attributed outs)" by simp_all
  have wf: "hm_wf m" using collect_wf [of outs] by (simp add: c)
  define r where "r = hex_lowercase (tx_hash x)"
  let ?m1 = "hm_upsert r agg_default (agg_receive x) m"
  have wf1: "hm_wf ?m1" using wf by simp
  have a0: "ag_incoming (hm_get_or agg_default m t) = received outs t"
    "ag_spent (hm_get_or agg_default m t) = consumed outs t" for t
    using collect_sums [of outs t] by (simp_all add: c)
  have le: "received outs t + amount x \<le> u64_max" "consumed outs t + amount x \<le> u64_max" for t
    using received_consumed_le [of outs t] bound by linarith+
  have inc1: "map_total ag_incoming ?m1 = outs_total outs + amount x"
    using map_total_upsert [OF wf, of ag_incoming agg_default r "agg_receive x"] IH a0 le
    by (simp add: sat_add_exact)
  have sp1: "map_total ag_spent ?m1 = outs_total (filter attributed outs)"
    using map_total_upsert [OF wf, of ag_spent agg_default r "agg_receive x"] IH by simp
  show ?case
  proof (cases "spent x \<and> spending_txid x \<noteq> None")
    case True
    then obtain b where b: "spent x" "spending_txid x = Some b" by auto
    define u where "u = hex_lowercase b"
    let ?g = "agg_spend (amount x) (opt_get_or 0 (spending_height x))"
    have g1: "ag_spent (hm_get_or agg_default ?m1 u) = consumed outs u"
      using a0 by (simp add: hm_get_or_upsert)
    have "map_total ag_incoming (hm_upsert u agg_default ?g ?m1) = outs_total outs + amount x"
      using map_total_upsert [OF wf1, of ag_incoming agg_default u ?g] inc1 by simp
    moreover have "map_total ag_spent (hm_upsert u agg_default ?g ?m1) =
        outs_total (filter attributed outs) + amount x"
      using map_total_upsert [OF wf1, of ag_spent agg_default u ?g] sp1 g1 le
      by (simp add: sat_add_exact)
    moreover have "attributed x" using b by (simp add: attributed_def)
    ultimately show ?thesis
      using b by (simp add: collect_snoc c collect_output_def Let_def outs_total_def flip: r_def u_def)
  next
    case False
    then have "\<not> attributed x" by (simp add: attributed_def)
    with False show ?thesis
      using inc1 sp1 by (auto simp: collect_snoc c collect_output_def Let_def outs_total_def
          simp flip: r_def split: option.split)
  qed
qed

lemma map_total_rows:
  assumes "hm_wf m"
  shows "map_total f (ledger_rows k ts m) =
     sum_list (map (\<lambda>(t, a). case ledger_row k ts t a of None \<Rightarrow> 0 | Some e \<Rightarrow> f e) m)"
proof -
  have "map_total f (foldl (\<lambda>l (txid, agg). case ledger_row k ts txid agg of
              None \<Rightarrow> l | Some e \<Rightarrow> hm_insert txid e l) l m) =
        map_total f l + sum_list (map (\<lambda>(t, a). case ledger_row k ts t a of None \<Rightarrow> 0 | Some e \<Rightarrow> f e) m)"
    if "\<forall>t \<in> fst ` set m. map_of l t = None" for l
    using assms that
  proof (induction m arbitrary: l)
    case (Cons x m)
    obtain u a where x: "x = (u, a)" by force
    from Cons.prems x have wf: "hm_wf m" and new: "u \<notin> fst ` set m" and l: "map_of l u = None"
      by (auto simp: hm_wf_def)
    have ok: "\<forall>t \<in> fst ` set m. map_of l t = None" using Cons.prems by simp
    have ok': "\<forall>t \<in> fst ` set m. map_of (hm_insert u e l) t = None" for e
      using ok new by auto
    show ?case
      by (cases "ledger_row k ts u a")
        (simp_all add: x Cons.IH [OF wf ok] Cons.IH [OF wf ok'] map_total_insert_new [OF l])
  qed simp
  from this [of "[]"] show ?thesis by (simp add: ledger_rows_def)
qed

definition row_total :: "string \<Rightarrow> ledger \<Rightarrow> nat" where
  "row_total d l = map_total (\<lambda>e. if le_direction e = d then le_amount e else 0) l"

lemma rows_balance:
  assumes "\<forall>x \<in> set m. 0 < ag_spent (snd x) \<longrightarrow> ag_incoming (snd x) \<le> ag_spent (snd x)"
  shows "sum_list (map (\<lambda>(t, a). case ledger_row k ts t a of None \<Rightarrow> 0
            | Some e \<Rightarrow> if le_direction e = ''in'' then le_amount e else 0) m) + map_total ag_spent m =
         sum_list (map (\<lambda>(t, a). case ledger_row k ts t a of None \<Rightarrow> 0
            | Some e \<Rightarrow> if le_direction e = ''out'' then le_amount e else 0) m) + map_total ag_incoming m"
  using assms
proof (induction m)
  case (Cons x m)
  obtain t a where x: "x = (t, a)" by force
  then have "0 < ag_spent a \<longrightarrow> ag_incoming a \<le> ag_spent a" using Cons.prems by simp
  then have "(case ledger_row k ts t a of None \<Rightarrow> 0
            | Some e \<Rightarrow> if le_direction e = ''in'' then le_amount e else 0) + ag_spent a =
         (case ledger_row k ts t a of None \<Rightarrow> 0
            | Some e \<Rightarrow> if le_direction e = ''out'' then le_amount e else 0) + ag_incoming a"
    by (simp add: ledger_row_def Let_def sat_sub_def)
  moreover have "sum_list (map (\<lambda>(t, a). case ledger_row k ts t a of None \<Rightarrow> 0
            | Some e \<Rightarrow> if le_direction e = ''in'' then le_amount e else 0) m) + map_total ag_spent m =
         sum_list (map (\<lambda>(t, a). case ledger_row k ts t a of None \<Rightarrow> 0
            | Some e \<Rightarrow> if le_direction e = ''out'' then le_amount e else 0) m) + map_total ag_incoming m"
    using Cons by simp
  ultimately show ?case by (simp add: x)
qed simp

lemma rebuild_conservation:
  assumes "outs_total outs \<le> u64_max"
    and "\<forall>o1 \<in> set outs. spent o1 \<longrightarrow> spending_txid o1 \<noteq> None"
    and "\<forall>t. 0 < consumed outs t \<longrightarrow> received outs t \<le> consumed outs t"
  shows "row_total ''in'' (rebuild_transfer_ledger outs [] k ct ts) =
     row_total ''out'' (rebuild_transfer_ledger outs [] k ct ts) + sum_list (unspent_amounts outs)"
proof -
  let ?m = "fst (collect_outputs outs)"
  have un: "snd (collect_outputs outs) = []"
    using assms(2) by (auto simp: collect_unattributed filter_empty_conv)
  have eq: "rebuild_transfer_ledger outs [] k ct ts = ledger_rows k ts ?m"
    by (simp add: rebuild_transfer_ledger_def case_prod_beta un attach_unattributed_def merge_pending_def)
  have dom: "\<forall>x \<in> set ?m. 0 < ag_spent (snd x) \<longrightarrow> ag_incoming (snd x) \<le> ag_spent (snd x)"
  proof
    fix x assume "x \<in> set ?m"
    then have "map_of ?m (fst x) = Some (snd x)" by (intro hm_in_get collect_wf) simp
    from collect_get(2) [OF this] assms(3)
    show "0 < ag_spent (snd x) \<longrightarrow> ag_incoming (snd x) \<le> ag_spent (snd x)" by simp
  qed
  have att: "filter attributed outs = filter spent outs"
    using assms(2) by (auto simp: attributed_def intro: filter_cong)
  have split: "outs_total outs = outs_total (filter spent outs) + sum_list (unspent_amounts outs)"
    unfolding outs_total_def unspent_amounts_def by (rule sum_list_filter_split)
  have "row_total ''in'' (ledger_rows k ts ?m) + outs_total (filter spent outs) =
      row_total ''out'' (ledger_rows k ts ?m) + outs_total outs"
    using rows_balance [OF dom] collect_totals [OF assms(1)]
    by (simp add: row_total_def map_total_rows collect_wf att)
  with split show ?thesis by (simp add: eq)
qed

end
