(* ===== verification/History.thy ===== *)
theory History
  imports Ledger "HOL-Library.Product_Lexorder" "HOL-Library.Multiset"
begin

text \<open>
  Local history queries (\<open>ffi/history.rs\<close>) and the flat transfer list of
  \<open>ffi/transfers.rs\<close>: the immutable index over a ledger, filtering, paging, the revision that
  guards a cursor, and reloading around an anchor row. The order of rows is an instance of
  \<open>linorder\<close>, so the stable \<open>sort_by\<close> of the source is \<open>sort_key\<close>.
\<close>

section \<open>The order of rows\<close>

datatype history_key = HKey bool u64 u64 string

fun hk_tuple :: "history_key \<Rightarrow> bool \<times> int \<times> int \<times> string" where
  "hk_tuple (HKey pending height timestamp txid) = (\<not> pending, - int height, - int timestamp, txid)"

lemma hk_tuple_inj: "hk_tuple a = hk_tuple b \<longleftrightarrow> a = b"
  by (cases a; cases b) auto

instantiation history_key :: linorder
begin

definition less_eq_history_key :: "history_key \<Rightarrow> history_key \<Rightarrow> bool" where
  "less_eq_history_key a b \<longleftrightarrow> hk_tuple a \<le> hk_tuple b"

definition less_history_key :: "history_key \<Rightarrow> history_key \<Rightarrow> bool" where
  "less_history_key a b \<longleftrightarrow> hk_tuple a < hk_tuple b"

instance
  by standard
    (auto simp: less_eq_history_key_def less_history_key_def hk_tuple_inj intro: order_trans
      dest: antisym)

end

definition row_key :: "ledger_entry \<Rightarrow> history_key" where
  "row_key t = HKey (le_is_pending t) (opt_get_or 0 (le_height t)) (opt_get_or 0 (le_timestamp t)) (le_txid t)"

section \<open>Data\<close>

datatype history_filter = HF_All | HF_Received | HF_Sent | HF_Pending

record history_query =
  hq_limit :: usize
  hq_offset :: usize
  hq_revision :: "string option"
  hq_filter :: history_filter
  hq_search :: string
  hq_from_timestamp :: "u64 option"
  hq_to_timestamp :: "u64 option"
  hq_txid :: "string option"
  hq_anchor_txid :: "string option"

definition default_query :: history_query where
  "default_query = \<lparr>hq_limit = 50, hq_offset = 0, hq_revision = None, hq_filter = HF_All, hq_search = [],
     hq_from_timestamp = None, hq_to_timestamp = None, hq_txid = None, hq_anchor_txid = None\<rparr>"

text \<open>\<open>api::Transfer\<close>, and the row type \<open>ObservedTransfer\<close> of \<open>lib.rs\<close>, which has the same
  fields.\<close>

record transfer =
  tr_txid :: string
  tr_direction :: string
  tr_amount :: u64
  tr_fee :: "u64 option"
  tr_height :: "u64 option"
  tr_timestamp :: "u64 option"
  tr_confirmations :: u64
  tr_is_pending :: bool
  tr_subaddress_major :: "u32 option"
  tr_subaddress_minor :: "u32 option"

record history_page =
  hp_schema_version :: u32
  hp_wallet_id :: string
  hp_revision :: string
  hp_total_count :: usize
  hp_matching_count :: usize
  hp_pending_count :: usize
  hp_offset :: usize
  hp_next_offset :: "usize option"
  hp_anchor_offset :: "usize option"
  hp_last_scanned_height :: u64
  hp_chain_height :: u64
  hp_chain_time :: u64
  hp_transfers :: "transfer list"

record history_index =
  hi_identity :: string
  hi_revision :: string
  hi_ledger :: ledger
  hi_ordered :: "string list"
  hi_pending :: usize

section \<open>Operations\<close>

text \<open>\<open>HistoryIndex::new\<close> with the global revision counter passed in and returned;
  \<open>fetch_add\<close> wraps at 64 bits.\<close>

definition new_history_index :: "string \<Rightarrow> ledger \<Rightarrow> u64 \<Rightarrow> history_index \<times> u64" where
  "new_history_index identity l next_revision =
     (\<lparr>hi_identity = identity, hi_revision = show_nat next_revision, hi_ledger = l,
       hi_ordered = sort_key (\<lambda>txid. row_key (the (map_of l txid))) (map fst l),
       hi_pending = length (filter (\<lambda>(_, t). le_is_pending t) l)\<rparr>,
      (next_revision + 1) mod (u64_max + 1))"

definition history_matches :: "history_query \<Rightarrow> ledger_entry \<Rightarrow> bool" where
  "history_matches q t \<longleftrightarrow>
     (case hq_filter q of
        HF_All \<Rightarrow> True
      | HF_Received \<Rightarrow> le_direction t = ''in''
      | HF_Sent \<Rightarrow> le_direction t = ''out''
      | HF_Pending \<Rightarrow> le_is_pending t) \<and>
     str_contains (to_ascii_lowercase (le_txid t)) (to_ascii_lowercase (trim (hq_search q))) \<and>
     (case hq_txid q of None \<Rightarrow> True | Some i \<Rightarrow> eq_ignore_ascii_case (le_txid t) i) \<and>
     (case hq_from_timestamp q of None \<Rightarrow> True
      | Some from_ts \<Rightarrow> (case le_timestamp t of None \<Rightarrow> False | Some ts \<Rightarrow> from_ts \<le> ts)) \<and>
     (case hq_to_timestamp q of None \<Rightarrow> True
      | Some to_ts \<Rightarrow> (case le_timestamp t of None \<Rightarrow> False | Some ts \<Rightarrow> ts \<le> to_ts))"

definition history_rows :: "history_index \<Rightarrow> history_query \<Rightarrow> ledger_entry list" where
  "history_rows self q =
     filter (history_matches q) (map (\<lambda>i. the (map_of (hi_ledger self) i)) (hi_ordered self))"

definition transfer_of :: "u64 \<Rightarrow> ledger_entry \<Rightarrow> transfer" where
  "transfer_of height entry =
     \<lparr>tr_txid = le_txid entry, tr_direction = le_direction entry, tr_amount = le_amount entry,
      tr_fee = le_fee entry, tr_height = le_height entry, tr_timestamp = le_timestamp entry,
      tr_confirmations = (if le_is_pending entry then 0
                          else confirmations_for_height height (opt_get_or 0 (le_height entry))),
      tr_is_pending = le_is_pending entry, tr_subaddress_major = None, tr_subaddress_minor = None\<rparr>"

fun position :: "('a \<Rightarrow> bool) \<Rightarrow> 'a list \<Rightarrow> nat option" where
  "position p [] = None"
| "position p (x # xs) = (if p x then Some 0 else map_option Suc (position p xs))"

text \<open>The page loop: rows are counted, and cloned while the count is in the page.\<close>

fun page_loop :: "u64 \<Rightarrow> usize \<Rightarrow> usize \<Rightarrow> ledger_entry list \<Rightarrow> usize \<Rightarrow> transfer list \<Rightarrow> usize \<times> transfer list" where
  "page_loop height offset limit [] cnt acc = (cnt, acc)"
| "page_loop height offset limit (e # es) cnt acc =
     page_loop height offset limit es (cnt + 1)
       (if offset \<le> cnt \<and> length acc < limit then acc @ [transfer_of height e] else acc)"

definition history_index_query ::
    "history_index \<Rightarrow> string \<Rightarrow> history_query \<Rightarrow> u64 \<Rightarrow> u64 \<Rightarrow> u64 \<Rightarrow> string + history_page" where
  "history_index_query self wallet_id q scanned height time =
     (if \<not> (1 \<le> hq_limit q \<and> hq_limit q \<le> 200) \<or> 256 < length (hq_search q) \<or>
         (case hq_txid q of None \<Rightarrow> False | Some s \<Rightarrow> 64 < length s) \<or>
         (case hq_anchor_txid q of None \<Rightarrow> False | Some s \<Rightarrow> 64 < length s)
      then Inl ''invalid_history_query: limit must be 1..200; search must be bounded''
      else if (case (hq_from_timestamp q, hq_to_timestamp q) of (Some a, Some b) \<Rightarrow> b < a | _ \<Rightarrow> False)
      then Inl ''invalid_history_query: date range is reversed''
      else if (case hq_revision q of None \<Rightarrow> False | Some r \<Rightarrow> r \<noteq> hi_revision self)
      then Inl ''stale_history_cursor: history changed; reload the query''
      else if 0 < hq_offset q \<and> hq_revision q = None
      then Inl ''invalid_history_query: continuation requires revision''
      else
        let rows = history_rows self q;
            anchor_offset = Option.bind (hq_anchor_txid q)
              (\<lambda>anchor. position (\<lambda>e. eq_ignore_ascii_case (le_txid e) anchor) rows);
            offset = (if hq_anchor_txid q \<noteq> None
                      then opt_get_or 0 anchor_offset div hq_limit q * hq_limit q else hq_offset q);
            (cnt, transfers) = page_loop height offset (hq_limit q) rows 0 [];
            end_pos = sat_add offset (length transfers) in
        Inr \<lparr>hp_schema_version = 1, hp_wallet_id = wallet_id, hp_revision = hi_revision self,
             hp_total_count = length (hi_ledger self), hp_matching_count = cnt,
             hp_pending_count = hi_pending self, hp_offset = offset,
             hp_next_offset = (if end_pos < cnt then Some end_pos else None),
             hp_anchor_offset = anchor_offset, hp_last_scanned_height = scanned,
             hp_chain_height = height, hp_chain_time = time, hp_transfers = transfers\<rparr>)"

text \<open>The rows of \<open>wallet_list_transfers_json\<close>: pending first, then by height and time,
  newest first; the identifier does not take part in the order.\<close>

definition list_transfer_rows :: "ledger \<Rightarrow> u64 \<Rightarrow> transfer list" where
  "list_transfer_rows l chain_height =
     sort_key (\<lambda>r. HKey (tr_is_pending r) (opt_get_or 0 (tr_height r)) (opt_get_or 0 (tr_timestamp r)) [])
       (map (\<lambda>(_, entry). transfer_of chain_height entry) l)"

section \<open>Lemmas\<close>

lemma page_loop_eq:
  "page_loop h off lim rows cnt acc =
     (cnt + length rows,
      acc @ map (transfer_of h) (take (lim - length acc) (drop (off - cnt) rows)))"
proof (induction rows arbitrary: cnt acc)
  case (Cons e es)
  show ?case
  proof (cases "off \<le> cnt \<and> length acc < lim")
    case True
    then obtain n where n: "lim - length acc = Suc n" by (metis Suc_diff_Suc)
    then have "lim - length (acc @ [transfer_of h e]) = n" by simp
    with True n show ?thesis by (simp add: Cons.IH)
  next
    case False
    then show ?thesis
    proof (cases "off \<le> cnt")
      case False
      then have "off - cnt = Suc (off - Suc cnt)" by simp
      then show ?thesis using False by (simp add: Cons.IH)
    qed (use False in \<open>auto simp: Cons.IH\<close>)
  qed
qed simp

lemma position_Some:
  "position p xs = Some i \<longleftrightarrow> i < length xs \<and> p (xs ! i) \<and> (\<forall>j<i. \<not> p (xs ! j))"
proof (induction xs arbitrary: i)
  case (Cons x xs)
  show ?case
  proof (cases i)
    case (Suc k)
    have "(\<forall>j<Suc k. \<not> p ((x # xs) ! j)) \<longleftrightarrow> \<not> p x \<and> (\<forall>j<k. \<not> p (xs ! j))"
      by (auto simp: nth_Cons split: nat.splits)
    with Suc show ?thesis by (auto simp: Cons.IH)
  qed auto
qed simp

lemma position_None: "position p xs = None \<longleftrightarrow> (\<forall>x \<in> set xs. \<not> p x)"
  by (induction xs) auto

definition page_offset :: "history_index \<Rightarrow> history_query \<Rightarrow> nat" where
  "page_offset self q =
     (case hq_anchor_txid q of
        None \<Rightarrow> hq_offset q
      | Some a \<Rightarrow> opt_get_or 0 (position (\<lambda>e. eq_ignore_ascii_case (le_txid e) a) (history_rows self q))
                  div hq_limit q * hq_limit q)"

lemma history_query_inv:
  assumes "history_index_query self w q sc h t = Inr page"
  shows "1 \<le> hq_limit q \<and> hq_limit q \<le> 200 \<and>
    \<not> (case hq_revision q of None \<Rightarrow> False | Some r \<Rightarrow> r \<noteq> hi_revision self) \<and>
    page = (let trs = map (transfer_of h) (take (hq_limit q) (drop (page_offset self q) (history_rows self q)));
                e = sat_add (page_offset self q) (length trs);
                n = length (history_rows self q) in
     \<lparr>hp_schema_version = 1, hp_wallet_id = w, hp_revision = hi_revision self,
      hp_total_count = length (hi_ledger self), hp_matching_count = n,
      hp_pending_count = hi_pending self, hp_offset = page_offset self q,
      hp_next_offset = (if e < n then Some e else None),
      hp_anchor_offset = Option.bind (hq_anchor_txid q)
              (\<lambda>anchor. position (\<lambda>e. eq_ignore_ascii_case (le_txid e) anchor) (history_rows self q)),
      hp_last_scanned_height = sc, hp_chain_height = h, hp_chain_time = t, hp_transfers = trs\<rparr>)"
proof -
  have off: "(if hq_anchor_txid q \<noteq> None
      then opt_get_or 0 (Option.bind (hq_anchor_txid q)
             (\<lambda>anchor. position (\<lambda>e. eq_ignore_ascii_case (le_txid e) anchor) (history_rows self q)))
           div hq_limit q * hq_limit q else hq_offset q) = page_offset self q"
    by (simp add: page_offset_def split: option.split)
  show ?thesis
    using assms unfolding history_index_query_def page_loop_eq Let_def prod.case list.size append_Nil diff_zero off
    by (simp split: if_split_asm)
qed

text \<open>What an accepted query gives back.\<close>

lemma history_query_ok:
  assumes "history_index_query self w q sc h t = Inr page"
  shows "hp_transfers page = map (transfer_of h) (take (hq_limit q) (drop (hp_offset page) (history_rows self q)))"
    and "hp_matching_count page = length (history_rows self q)"
    and "1 \<le> hq_limit q \<and> hq_limit q \<le> 200"
    and "hp_revision page = hi_revision self"
    and "hq_revision q = None \<or> hq_revision q = Some (hi_revision self)"
    and "hq_anchor_txid q = None \<Longrightarrow> hp_offset page = hq_offset q"
    and "hp_next_offset page =
           (let e = sat_add (hp_offset page) (length (hp_transfers page)) in
            if e < hp_matching_count page then Some e else None)"
    and "hp_total_count page = length (hi_ledger self)"
    and "hp_anchor_offset page = Option.bind (hq_anchor_txid q)
              (\<lambda>anchor. position (\<lambda>e. eq_ignore_ascii_case (le_txid e) anchor) (history_rows self q))"
    and "hq_anchor_txid q = Some a \<Longrightarrow>
           hp_offset page = opt_get_or 0 (hp_anchor_offset page) div hq_limit q * hq_limit q"
  using history_query_inv [OF assms]
  by (simp_all add: Let_def page_offset_def split: option.split_asm)

lemma transfer_of_simps [simp]:
  "tr_txid (transfer_of h e) = le_txid e" "tr_amount (transfer_of h e) = le_amount e"
  "tr_direction (transfer_of h e) = le_direction e" "tr_is_pending (transfer_of h e) = le_is_pending e"
  by (simp_all add: transfer_of_def)

text \<open>The index holds each key once, in order.\<close>

lemma new_index_simps [simp]:
  "hi_identity (fst (new_history_index i l n)) = i" "hi_revision (fst (new_history_index i l n)) = show_nat n"
  "hi_ledger (fst (new_history_index i l n)) = l"
  by (simp_all add: new_history_index_def)

lemma new_index_ordered:
  "mset (hi_ordered (fst (new_history_index i l n))) = mset (map fst l)"
  "sorted (map (\<lambda>t. row_key (the (map_of l t))) (hi_ordered (fst (new_history_index i l n))))"
  by (simp_all add: new_history_index_def del: mset_map)

lemma new_index_rows_all:
  assumes "hm_wf l"
  shows "mset (history_rows (fst (new_history_index i l n)) default_query) = mset (map snd l)"
proof -
  have all: "history_matches default_query e" for e
    by (cases "le_txid e")
      (simp_all add: history_matches_def default_query_def to_ascii_lowercase_def trim_def trim_start.simps
        trim_end_def trim_start_rev.simps)
  have "mset (map (\<lambda>t. the (map_of l t)) (map fst l)) = mset (map snd l)"
    using assms by (intro arg_cong [where f = mset]) (auto simp: hm_wf_def)
  moreover have "history_rows (fst (new_history_index i l n)) default_query =
      map (\<lambda>t. the (map_of l t)) (hi_ordered (fst (new_history_index i l n)))"
    unfolding history_rows_def new_index_simps by (rule filter_True) (simp add: all)
  moreover have "mset (map (\<lambda>t. the (map_of l t)) (hi_ordered (fst (new_history_index i l n)))) =
      mset (map (\<lambda>t. the (map_of l t)) (map fst l))"
    unfolding mset_map new_index_ordered(1) ..
  ultimately show ?thesis by simp
qed

section \<open>Walking a history\<close>

text \<open>The client loop: take a page, continue at \<open>next_offset\<close> with the page's revision.\<close>

fun walk_pages ::
    "nat \<Rightarrow> history_index \<Rightarrow> string \<Rightarrow> history_query \<Rightarrow> u64 \<Rightarrow> u64 \<Rightarrow> u64 \<Rightarrow> (string + transfer list) option" where
  "walk_pages 0 self w q sc h t = None"
| "walk_pages (Suc n) self w q sc h t =
     (case history_index_query self w q sc h t of
        Inl e \<Rightarrow> Some (Inl e)
      | Inr page \<Rightarrow>
          (case hp_next_offset page of
             None \<Rightarrow> Some (Inr (hp_transfers page))
           | Some off \<Rightarrow>
               (case walk_pages n self w
                       (q\<lparr>hq_offset := off, hq_revision := Some (hp_revision page)\<rparr>) sc h t of
                  Some (Inr rest) \<Rightarrow> Some (Inr (hp_transfers page @ rest))
                | r \<Rightarrow> r)))"

lemma history_rows_cursor [simp]:
  "history_rows self (q\<lparr>hq_offset := off, hq_revision := r\<rparr>) = history_rows self q"
  by (simp add: history_rows_def history_matches_def [abs_def])

definition query_valid :: "history_index \<Rightarrow> history_query \<Rightarrow> bool" where
  "query_valid self q \<longleftrightarrow>
     1 \<le> hq_limit q \<and> hq_limit q \<le> 200 \<and> length (hq_search q) \<le> 256 \<and>
     (case hq_txid q of None \<Rightarrow> True | Some s \<Rightarrow> length s \<le> 64) \<and>
     (case (hq_from_timestamp q, hq_to_timestamp q) of (Some a, Some b) \<Rightarrow> a \<le> b | _ \<Rightarrow> True) \<and>
     (hq_revision q = Some (hi_revision self) \<or> hq_revision q = None \<and> hq_offset q = 0) \<and>
     hq_anchor_txid q = None"

lemma query_valid_accepts:
  assumes "query_valid self q"
  shows "\<exists>page. history_index_query self w q sc h t = Inr page"
proof -
  have "\<not> (case (hq_from_timestamp q, hq_to_timestamp q) of (Some a, Some b) \<Rightarrow> b < a | _ \<Rightarrow> False)"
    "\<not> (case hq_txid q of None \<Rightarrow> False | Some s \<Rightarrow> 64 < length s)"
    "\<not> (case hq_revision q of None \<Rightarrow> False | Some r \<Rightarrow> r \<noteq> hi_revision self)"
    using assms by (auto simp: query_valid_def split: option.splits)
  moreover have "1 \<le> hq_limit q" "hq_limit q \<le> 200" "\<not> 256 < length (hq_search q)" "hq_anchor_txid q = None"
    "\<not> (0 < hq_offset q \<and> hq_revision q = None)"
    using assms by (auto simp: query_valid_def)
  ultimately show ?thesis
    by (simp add: history_index_query_def Let_def page_loop_eq)
qed

lemma query_valid_next:
  "query_valid self q \<Longrightarrow> query_valid self (q\<lparr>hq_offset := off, hq_revision := Some (hi_revision self)\<rparr>)"
  by (auto simp: query_valid_def)

lemma walk_pages_from:
  assumes "query_valid self q" and "length (history_rows self q) \<le> u64_max"
    and "length (history_rows self q) - hq_offset q < fuel" and "hq_offset q \<le> length (history_rows self q)"
  shows "walk_pages fuel self w q sc h t =
     Some (Inr (map (transfer_of h) (drop (hq_offset q) (history_rows self q))))"
  using assms
proof (induction fuel arbitrary: q)
  case (Suc fuel)
  obtain page where page: "history_index_query self w q sc h t = Inr page"
    using query_valid_accepts [OF Suc.prems(1)] by blast
  let ?rows = "history_rows self q" and ?off = "hq_offset q" and ?lim = "hq_limit q"
  note facts = history_query_ok [OF page]
  have off: "hp_offset page = ?off" using Suc.prems(1) facts(6) by (simp add: query_valid_def)
  have trs: "hp_transfers page = map (transfer_of h) (take ?lim (drop ?off ?rows))"
    using facts(1) off by simp
  have len: "?off + length (hp_transfers page) \<le> length ?rows"
    using Suc.prems(4) by (simp add: trs)
  then have sat: "sat_add ?off (length (hp_transfers page)) = ?off + length (hp_transfers page)"
    using Suc.prems(2) by (intro sat_add_exact) simp
  show ?case
  proof (cases "?off + ?lim < length ?rows")
    case False
    then have "hp_next_offset page = None"
      using sat facts(7) facts(2) len off by (simp add: trs Let_def min_def)
    with False page show ?thesis by (simp add: trs)
  next
    case True
    then have n: "length (hp_transfers page) = ?lim" by (simp add: trs)
    let ?q = "q\<lparr>hq_offset := ?off + ?lim, hq_revision := Some (hp_revision page)\<rparr>"
    have nxt: "hp_next_offset page = Some (?off + ?lim)"
      using True sat facts(7) facts(2) off n by (simp add: Let_def)
    have "query_valid self ?q" using query_valid_next [OF Suc.prems(1)] facts(4) by simp
    moreover have "length ?rows - (?off + ?lim) < fuel"
      using Suc.prems(3) facts(3) True by linarith
    ultimately have "walk_pages fuel self w ?q sc h t =
        Some (Inr (map (transfer_of h) (drop (?off + ?lim) ?rows)))"
      using Suc.IH [of ?q] Suc.prems(2) True by simp
    moreover have "drop ?off ?rows = take ?lim (drop ?off ?rows) @ drop (?off + ?lim) ?rows"
      by (metis add.commute append_take_drop_id drop_drop)
    ultimately show ?thesis
      using page nxt by (simp add: trs) (metis map_append)
  qed
qed simp

end
