(* ===== verification/Wallet.thy ===== *)
theory Wallet
  imports Chain_Window History
begin

text \<open>
  The stored wallet (\<open>lib.rs\<close>): key material with and without spend authority, address
  derivation, the state record, the persisted form and its identity check, and the state
  transformations behind the FFI handlers: sealing, unsealing with the pending rescan, gap-limit
  expansion, rewinding the scan cursor, forced rescan and output reset.

  Curve arithmetic, hashing to scalars, the seed parser and the address encoder come from other
  crates: they are the fields of the parameter \<open>crypto\<close>, over 32-byte strings.
\<close>

section \<open>Keys\<close>

datatype network = Mainnet | Stagenet | Testnet

record crypto =
  cr_canonical :: "bytes \<Rightarrow> bytes option"
  cr_hash_scalar :: "bytes \<Rightarrow> bytes"
  cr_to_dalek :: "bytes \<Rightarrow> bytes"
  cr_scalar_bytes :: "bytes \<Rightarrow> bytes"
  cr_mul_base :: "bytes \<Rightarrow> bytes"
  cr_mul :: "bytes \<Rightarrow> bytes \<Rightarrow> bytes"
  cr_add :: "bytes \<Rightarrow> bytes \<Rightarrow> bytes"
  cr_view_pair_ok :: "bytes \<Rightarrow> bytes \<Rightarrow> bool"
  cr_seed :: "string \<Rightarrow> bytes option"
  cr_address :: "network \<Rightarrow> bool \<Rightarrow> bytes \<Rightarrow> bytes \<Rightarrow> string"

record master_keys =
  mk_entropy :: bytes
  mk_spend_scalar :: bytes
  mk_view_scalar_dalek :: bytes
  mk_view_scalar_ed :: bytes

record view_keys =
  vk_spend_public :: bytes
  vk_view_scalar_dalek :: bytes
  vk_view_scalar_ed :: bytes

datatype wallet_keys = Unsealed master_keys | Sealed view_keys

fun is_sealed :: "wallet_keys \<Rightarrow> bool" where
  "is_sealed (Sealed k) = True"
| "is_sealed (Unsealed k) = False"

fun wk_master :: "wallet_keys \<Rightarrow> master_keys option" where
  "wk_master (Unsealed k) = Some k"
| "wk_master (Sealed k) = None"

definition view_keys_of :: "crypto \<Rightarrow> master_keys \<Rightarrow> view_keys" where
  "view_keys_of cr self =
     \<lparr>vk_spend_public = cr_mul_base cr (mk_spend_scalar self),
      vk_view_scalar_dalek = mk_view_scalar_dalek self, vk_view_scalar_ed = mk_view_scalar_ed self\<rparr>"

fun seal_keys :: "crypto \<Rightarrow> wallet_keys \<Rightarrow> wallet_keys" where
  "seal_keys cr (Unsealed k) = Sealed (view_keys_of cr k)"
| "seal_keys cr (Sealed k) = Sealed k"

text \<open>\<open>ViewKeyMaterial\<close> for \<open>MasterKeys\<close> and \<open>WalletKeys\<close>: both give the public spend key and
  the private view key. A lone \<open>MasterKeys\<close> is \<open>Unsealed\<close> of it.\<close>

fun spend_public_dalek :: "crypto \<Rightarrow> wallet_keys \<Rightarrow> bytes" where
  "spend_public_dalek cr (Unsealed k) = cr_mul_base cr (mk_spend_scalar k)"
| "spend_public_dalek cr (Sealed k) = vk_spend_public k"

fun view_scalar_dalek :: "wallet_keys \<Rightarrow> bytes" where
  "view_scalar_dalek (Unsealed k) = mk_view_scalar_dalek k"
| "view_scalar_dalek (Sealed k) = vk_view_scalar_dalek k"

fun view_scalar_ed :: "wallet_keys \<Rightarrow> bytes" where
  "view_scalar_ed (Unsealed k) = mk_view_scalar_ed k"
| "view_scalar_ed (Sealed k) = vk_view_scalar_ed k"

definition to_view_pair :: "crypto \<Rightarrow> wallet_keys \<Rightarrow> int + bytes \<times> bytes" where
  "to_view_pair cr keys =
     (let spend_public = spend_public_dalek cr keys; view_scalar = view_scalar_ed keys in
      if cr_view_pair_ok cr spend_public view_scalar then Inr (spend_public, view_scalar) else Inl (-16))"

definition new_master_keys :: "crypto \<Rightarrow> bytes \<Rightarrow> int + master_keys" where
  "new_master_keys cr entropy =
     (case cr_canonical cr entropy of
        None \<Rightarrow> Inl (-10)
      | Some spend_scalar \<Rightarrow>
          (let ed = cr_hash_scalar cr entropy in
           Inr \<lparr>mk_entropy = entropy, mk_spend_scalar = spend_scalar,
                mk_view_scalar_dalek = cr_to_dalek cr ed, mk_view_scalar_ed = ed\<rparr>))"

text \<open>A C pointer to bytes is \<open>None\<close> when null.\<close>

definition master_keys_from_seed_bytes :: "crypto \<Rightarrow> bytes option \<Rightarrow> int + master_keys" where
  "master_keys_from_seed_bytes cr seed =
     (case seed of
        None \<Rightarrow> Inl (-11)
      | Some s \<Rightarrow> if length s \<noteq> 32 then Inl (-10) else new_master_keys cr s)"

definition master_keys_from_mnemonic_str :: "crypto \<Rightarrow> string \<Rightarrow> int + master_keys" where
  "master_keys_from_mnemonic_str cr mnemonic =
     (let phrase = trim mnemonic in
      if phrase = [] then Inl (-10)
      else let word_count = count_words False phrase in
        if word_count \<noteq> 13 \<and> word_count \<noteq> 25 then Inl (-10)
        else (case cr_seed cr phrase of None \<Rightarrow> Inl (-10) | Some entropy \<Rightarrow> new_master_keys cr entropy))"

definition network_from_flag :: "nat \<Rightarrow> network" where
  "network_from_flag is_mainnet = (if is_mainnet \<noteq> 0 then Mainnet else Stagenet)"

definition le_bytes_u32 :: "u32 \<Rightarrow> bytes" where
  "le_bytes_u32 n = map (\<lambda>i. word_of_nat ((n div 256 ^ i) mod 256)) [0, 1, 2, 3]"

definition subaddr_tag :: bytes where
  "subaddr_tag = [0x53, 0x75, 0x62, 0x41, 0x64, 0x64, 0x72, 0]"

definition derive_address_string :: "crypto \<Rightarrow> wallet_keys \<Rightarrow> u32 \<Rightarrow> u32 \<Rightarrow> network \<Rightarrow> string" where
  "derive_address_string cr keys account_index subaddress_index net =
     (if account_index = 0 \<and> subaddress_index = 0
      then cr_address cr net False (spend_public_dalek cr keys)
             (cr_mul_base cr (view_scalar_dalek keys))
      else
        let data = subaddr_tag @ cr_scalar_bytes cr (view_scalar_ed keys) @
                   le_bytes_u32 account_index @ le_bytes_u32 subaddress_index;
            m_scalar = cr_to_dalek cr (cr_hash_scalar cr data);
            d = cr_add cr (spend_public_dalek cr keys) (cr_mul_base cr m_scalar);
            c = cr_mul cr d (view_scalar_dalek keys) in
        cr_address cr net True d c)"

section \<open>State\<close>

record stored_wallet = chain_view +
  w_history_index :: "history_index option"
  w_keys :: wallet_keys
  w_restore_height :: u64
  w_network :: network
  w_last_scanned :: u64
  w_total :: u64
  w_unlocked :: u64
  w_chain_height :: u64
  w_chain_time :: u64
  w_last_refresh_timestamp :: u64
  w_gap_limit :: u32
  w_pending_outgoing :: "pending_outgoing_tx list"
  w_tx_ledger :: ledger
  w_quarantine :: "outpoint hset"
  w_spend_rescan_from :: "u64 option"

definition new_wallet :: "master_keys \<Rightarrow> u64 \<Rightarrow> network \<Rightarrow> stored_wallet" where
  "new_wallet keys restore_height net =
     \<lparr>tracked_outputs = [], seen_outpoints = [], recent_block_hashes_start_height = restore_height,
      recent_block_hashes = [], block_timestamps = [],
      w_history_index = None, w_keys = Unsealed keys, w_restore_height = restore_height,
      w_network = net, w_last_scanned = restore_height, w_total = 0, w_unlocked = 0,
      w_chain_height = restore_height, w_chain_time = 0, w_last_refresh_timestamp = 0,
      w_gap_limit = 50, w_pending_outgoing = [], w_tx_ledger = [], w_quarantine = [],
      w_spend_rescan_from = None\<rparr>"

section \<open>Operations on the state\<close>

text \<open>The loop that recomputes both balances, and the rebuild of the ledger with the fees
  already known.\<close>

definition refresh_balances :: "stored_wallet \<Rightarrow> stored_wallet" where
  "refresh_balances st =
     (let (tot, unl) = recompute_balance (tracked_outputs st) (w_chain_height st) (w_chain_time st) in
      st\<lparr>w_total := tot, w_unlocked := unl\<rparr>)"

definition rebuild_wallet_ledger :: "(string, u64) hmap \<Rightarrow> stored_wallet \<Rightarrow> stored_wallet" where
  "rebuild_wallet_ledger known_fees st =
     st\<lparr>w_tx_ledger := rebuild_transfer_ledger (tracked_outputs st) (w_pending_outgoing st) known_fees
                        (w_chain_time st) (block_timestamps st)\<rparr>"

definition seal_wallet :: "crypto \<Rightarrow> stored_wallet \<Rightarrow> stored_wallet" where
  "seal_wallet cr st = st\<lparr>w_keys := seal_keys cr (w_keys st)\<rparr>"

definition rewind_wallet :: "u64 \<Rightarrow> stored_wallet \<Rightarrow> stored_wallet" where
  "rewind_wallet target st =
     (let (h, st1) = rewind_working_state_to_height (w_restore_height st) target st in
      st1\<lparr>w_last_scanned := h, w_history_index := None\<rparr>)"

definition apply_pending_spend_rescan :: "stored_wallet \<Rightarrow> bool \<times> stored_wallet" where
  "apply_pending_spend_rescan st =
     (case w_spend_rescan_from st of
        None \<Rightarrow> (False, st)
      | Some rewind_from \<Rightarrow>
          (True, rewind_wallet (min rewind_from (w_last_scanned st)) (st\<lparr>w_spend_rescan_from := None\<rparr>)))"

definition restore_spend_authority ::
    "crypto \<Rightarrow> stored_wallet \<Rightarrow> master_keys \<Rightarrow> (string + unit) \<times> stored_wallet" where
  "restore_spend_authority cr st keys =
     (if derive_address_string cr (w_keys st) 0 0 (w_network st) \<noteq>
         derive_address_string cr (Unsealed keys) 0 0 (w_network st)
      then (Inl ''wallet_unseal_from_mnemonic: mnemonic does not match the sealed wallet'', st)
      else
        let (rescan, st1) = apply_pending_spend_rescan (st\<lparr>w_keys := Unsealed keys\<rparr>) in
        (Inr (),
         if rescan
         then refresh_balances (rebuild_wallet_ledger (known_transaction_fees (w_tx_ledger st1)) st1)
         else st1))"

definition expand_scan_coverage :: "u32 \<Rightarrow> stored_wallet \<Rightarrow> stored_wallet" where
  "expand_scan_coverage requested st =
     (if requested \<le> w_gap_limit st then st
      else st\<lparr>w_gap_limit := requested, w_last_scanned := w_restore_height st,
              w_last_refresh_timestamp := 0\<rparr>)"

text \<open>The state part of \<open>wallet_rewind_scan_cursor_to_height\<close>, after its guard.\<close>

definition rewind_scan_cursor :: "u64 \<Rightarrow> stored_wallet \<Rightarrow> stored_wallet" where
  "rewind_scan_cursor target st =
     refresh_balances (rebuild_wallet_ledger (known_transaction_fees (w_tx_ledger st))
       ((rewind_wallet target st)\<lparr>w_quarantine := []\<rparr>))"

definition force_rescan :: "u64 \<Rightarrow> stored_wallet \<Rightarrow> stored_wallet" where
  "force_rescan new_restore_height st =
     st\<lparr>w_restore_height := new_restore_height, w_last_scanned := new_restore_height,
        w_total := 0, w_unlocked := 0,
        w_chain_height := max (w_chain_height st) new_restore_height, w_chain_time := 0,
        w_last_refresh_timestamp := 0,
        tracked_outputs := [], seen_outpoints := [], w_quarantine := [],
        recent_block_hashes_start_height := new_restore_height, recent_block_hashes := [],
        block_timestamps := [], w_spend_rescan_from := None, w_pending_outgoing := [],
        w_tx_ledger := []\<rparr>"

definition reset_tracked_outputs :: "stored_wallet \<Rightarrow> stored_wallet" where
  "reset_tracked_outputs st =
     st\<lparr>tracked_outputs := [], seen_outpoints := [], w_quarantine := [], w_pending_outgoing := [],
        w_tx_ledger := [], block_timestamps := [], w_spend_rescan_from := None,
        w_total := 0, w_unlocked := 0\<rparr>"

definition update_scan_progress ::
    "u64 \<Rightarrow> u64 \<Rightarrow> u64 \<Rightarrow> u64 \<Rightarrow> stored_wallet \<Rightarrow> stored_wallet" where
  "update_scan_progress scanned_height chain_height chain_time restore_height st =
     (let normalized_scanned = max scanned_height restore_height in
      st\<lparr>w_last_scanned := (if 0 < chain_height then min normalized_scanned chain_height
                            else normalized_scanned),
         w_chain_height := chain_height, w_chain_time := chain_time\<rparr>)"

text \<open>The occupied branch of \<open>wallet_open_from_mnemonic\<close>, after the network check.\<close>

definition reopen_wallet :: "crypto \<Rightarrow> master_keys \<Rightarrow> u64 \<Rightarrow> stored_wallet \<Rightarrow> (string + unit) \<times> stored_wallet" where
  "reopen_wallet cr keys restore_height st =
     (case restore_spend_authority cr st keys of
        (Inl message, st1) \<Rightarrow> (Inl message, st1)
      | (Inr _, st1) \<Rightarrow>
          let st2 = (if restore_height < w_restore_height st1
                     then st1\<lparr>w_restore_height := restore_height\<rparr> else st1);
              st3 = (if w_last_scanned st2 < w_restore_height st2
                     then st2\<lparr>w_last_scanned := w_restore_height st2\<rparr> else st2);
              st4 = (if w_gap_limit st3 = 0 then st3\<lparr>w_gap_limit := 50\<rparr> else st3) in
          (Inr (), st4))"

section \<open>The persisted form\<close>

datatype persisted_timelock = PT_None | PT_Block u64 | PT_Time u64

datatype persisted_network = PN_Mainnet | PN_Stagenet

record persisted_output =
  po_tx_hash :: hash32
  po_index_in_tx :: u64
  po_public_key :: hash32
  po_key_image :: hash32
  po_amount :: u64
  po_block_height :: u64
  po_timelock :: persisted_timelock
  po_is_coinbase :: bool
  po_subaddress_major :: u32
  po_subaddress_minor :: u32
  po_spent :: bool
  po_spending_txid :: "hash32 option"
  po_spending_height :: "u64 option"

record persisted_wallet =
  pw_cache_version :: u32
  pw_bound_primary_address :: string
  pw_network :: persisted_network
  pw_restore_height :: u64
  pw_last_scanned :: u64
  pw_total :: u64
  pw_unlocked :: u64
  pw_chain_height :: u64
  pw_chain_time :: u64
  pw_gap_limit :: u32
  pw_tracked_outputs :: "persisted_output list"
  pw_seen_outpoints :: "outpoint list"
  pw_pending_outgoing :: "pending_outgoing_tx list"
  pw_tx_ledger :: ledger
  pw_quarantine :: "outpoint list"
  pw_recent_block_hashes_start_height :: u64
  pw_recent_block_hashes :: "hash32 list"
  pw_block_timestamps :: "(u64, u64) hmap"
  pw_spend_rescan_from :: "u64 option"

definition WALLETCORE_CACHE_VERSION :: nat where
  "WALLETCORE_CACHE_VERSION = 5"

fun persist_timelock :: "timelock \<Rightarrow> persisted_timelock" where
  "persist_timelock TL_None = PT_None"
| "persist_timelock (TL_Block h) = PT_Block h"
| "persist_timelock (TL_Time t) = PT_Time t"

text \<open>A block height that does not fit \<open>usize\<close> saturates; \<open>usize\<close> has 64 bits.\<close>

fun unpersist_timelock :: "persisted_timelock \<Rightarrow> timelock" where
  "unpersist_timelock PT_None = TL_None"
| "unpersist_timelock (PT_Block h) = TL_Block (if h \<le> usize_max then h else usize_max)"
| "unpersist_timelock (PT_Time t) = TL_Time t"

definition persist_output :: "tracked_output \<Rightarrow> persisted_output" where
  "persist_output o1 =
     \<lparr>po_tx_hash = tx_hash o1, po_index_in_tx = index_in_tx o1, po_public_key = public_key o1,
      po_key_image = key_image o1, po_amount = amount o1, po_block_height = block_height o1,
      po_timelock = persist_timelock (additional_timelock o1), po_is_coinbase = is_coinbase o1,
      po_subaddress_major = subaddress_major o1, po_subaddress_minor = subaddress_minor o1,
      po_spent = spent o1, po_spending_txid = spending_txid o1,
      po_spending_height = spending_height o1\<rparr>"

definition unpersist_output :: "persisted_output \<Rightarrow> tracked_output" where
  "unpersist_output p =
     \<lparr>tx_hash = po_tx_hash p, index_in_tx = po_index_in_tx p, public_key = po_public_key p,
      key_image = po_key_image p, amount = po_amount p, block_height = po_block_height p,
      additional_timelock = unpersist_timelock (po_timelock p), is_coinbase = po_is_coinbase p,
      subaddress_major = po_subaddress_major p, subaddress_minor = po_subaddress_minor p,
      spent = po_spent p, spending_txid = po_spending_txid p,
      spending_height = po_spending_height p\<rparr>"

fun persist_network :: "network \<Rightarrow> persisted_network" where
  "persist_network Mainnet = PN_Mainnet"
| "persist_network Stagenet = PN_Stagenet"
| "persist_network Testnet = PN_Stagenet"

fun unpersist_network :: "persisted_network \<Rightarrow> network" where
  "unpersist_network PN_Mainnet = Mainnet"
| "unpersist_network PN_Stagenet = Stagenet"

definition wallet_cache_binding :: "crypto \<Rightarrow> stored_wallet \<Rightarrow> string" where
  "wallet_cache_binding cr w = derive_address_string cr (w_keys w) 0 0 (w_network w)"

definition persist_wallet :: "crypto \<Rightarrow> stored_wallet \<Rightarrow> persisted_wallet" where
  "persist_wallet cr w =
     \<lparr>pw_cache_version = WALLETCORE_CACHE_VERSION,
      pw_bound_primary_address = wallet_cache_binding cr w,
      pw_network = persist_network (w_network w), pw_restore_height = w_restore_height w,
      pw_last_scanned = w_last_scanned w, pw_total = w_total w, pw_unlocked = w_unlocked w,
      pw_chain_height = w_chain_height w, pw_chain_time = w_chain_time w,
      pw_gap_limit = w_gap_limit w, pw_tracked_outputs = map persist_output (tracked_outputs w),
      pw_seen_outpoints = seen_outpoints w, pw_pending_outgoing = w_pending_outgoing w,
      pw_tx_ledger = w_tx_ledger w, pw_quarantine = w_quarantine w,
      pw_recent_block_hashes_start_height = recent_block_hashes_start_height w,
      pw_recent_block_hashes = recent_block_hashes w, pw_block_timestamps = block_timestamps w,
      pw_spend_rescan_from = w_spend_rescan_from w\<rparr>"

text \<open>The error texts carry both values; the networks are printed by \<open>{:?}\<close>.\<close>

fun debug_persisted_network :: "persisted_network \<Rightarrow> string" where
  "debug_persisted_network PN_Mainnet = ''Mainnet''"
| "debug_persisted_network PN_Stagenet = ''Stagenet''"

fun debug_network :: "network \<Rightarrow> string" where
  "debug_network Mainnet = ''Mainnet''"
| "debug_network Stagenet = ''Stagenet''"
| "debug_network Testnet = ''Testnet''"

definition cache_identity_matches :: "crypto \<Rightarrow> persisted_wallet \<Rightarrow> stored_wallet \<Rightarrow> string + unit" where
  "cache_identity_matches cr persisted open_wallet =
     (let expected_address = wallet_cache_binding cr open_wallet in
      if pw_bound_primary_address persisted = []
      then Inl ''wallet_import_cache: cache is missing bound_primary_address''
      else if pw_bound_primary_address persisted \<noteq> expected_address
      then Inl (''wallet_import_cache: cache identity mismatch (cache bound to '' @
                pw_bound_primary_address persisted @ '', open wallet is '' @ expected_address @ '')'')
      else if pw_network persisted \<noteq> persist_network (w_network open_wallet)
      then Inl (''wallet_import_cache: cache network mismatch (cache '' @
                debug_persisted_network (pw_network persisted) @ '', open wallet '' @
                debug_network (w_network open_wallet) @ '')'')
      else if w_restore_height open_wallet < pw_restore_height persisted
      then Inl (''wallet_import_cache: cache restore height '' @ show_nat (pw_restore_height persisted) @
                '' is later than requested restore height '' @ show_nat (w_restore_height open_wallet))
      else Inr ())"

text \<open>\<open>None\<close> is the refused version, which records error -16 and leaves the state alone.\<close>

definition apply_to_state :: "persisted_wallet \<Rightarrow> stored_wallet \<Rightarrow> stored_wallet option" where
  "apply_to_state self st =
     (if pw_cache_version self \<noteq> WALLETCORE_CACHE_VERSION then None
      else Some (st\<lparr>w_last_scanned := max (pw_last_scanned self) (w_restore_height st),
        w_total := pw_total self, w_unlocked := pw_unlocked self,
        w_chain_height := pw_chain_height self, w_chain_time := pw_chain_time self,
        w_gap_limit := pw_gap_limit self,
        tracked_outputs := map unpersist_output (pw_tracked_outputs self),
        seen_outpoints := hs_of_list (pw_seen_outpoints self),
        w_pending_outgoing := pw_pending_outgoing self, w_tx_ledger := pw_tx_ledger self,
        w_quarantine := hs_of_list (pw_quarantine self),
        recent_block_hashes_start_height := pw_recent_block_hashes_start_height self,
        recent_block_hashes := pw_recent_block_hashes self,
        block_timestamps := pw_block_timestamps self,
        w_spend_rescan_from := pw_spend_rescan_from self,
        w_network := unpersist_network (pw_network self),
        w_restore_height := pw_restore_height self\<rparr>))"

end
