(* ===== verification/Wallet_Invariants.thy ===== *)
theory Wallet_Invariants
  imports Wallet
begin

text \<open>
  The invariants of a stored wallet and what its operations promise: the contract every operation
  on one wallet keeps (locale \<open>wallet_op\<close>, interpreted on the operations of \<open>Wallet\<close>),
  the marker that makes view-only scanning safe, sealing and unsealing, and the persisted form.
\<close>

section \<open>The well-formed wallet\<close>

definition rows_keyed :: "ledger \<Rightarrow> bool" where
  "rows_keyed l \<longleftrightarrow> hm_wf l \<and> (\<forall>t e. map_of l t = Some e \<longrightarrow> le_txid e = t)"

definition total_exact :: "stored_wallet \<Rightarrow> bool" where
  "total_exact w \<longleftrightarrow> w_total w = sat_sum (unspent_amounts (tracked_outputs w))"

definition wallet_wf :: "stored_wallet \<Rightarrow> bool" where
  "wallet_wf w \<longleftrightarrow> window_coherent w \<and> total_exact w \<and> rows_keyed (w_tx_ledger w) \<and>
     hm_wf (block_timestamps w) \<and> distinct (w_quarantine w) \<and> 1 \<le> w_gap_limit w"

lemma rows_keyed_rebuild [simp]: "rows_keyed (rebuild_transfer_ledger outs ps k ct ts)"
  unfolding rows_keyed_def using rebuild_wf rebuild_row_txid by blast

lemma rows_keyed_Nil [simp]: "rows_keyed []"
  by (simp add: rows_keyed_def)

lemma refresh_balances_simps [simp]:
  "tracked_outputs (refresh_balances w) = tracked_outputs w"
  "seen_outpoints (refresh_balances w) = seen_outpoints w"
  "recent_block_hashes_start_height (refresh_balances w) = recent_block_hashes_start_height w"
  "recent_block_hashes (refresh_balances w) = recent_block_hashes w"
  "block_timestamps (refresh_balances w) = block_timestamps w"
  "w_keys (refresh_balances w) = w_keys w" "w_network (refresh_balances w) = w_network w"
  "w_restore_height (refresh_balances w) = w_restore_height w"
  "w_last_scanned (refresh_balances w) = w_last_scanned w"
  "w_gap_limit (refresh_balances w) = w_gap_limit w"
  "w_tx_ledger (refresh_balances w) = w_tx_ledger w"
  "w_quarantine (refresh_balances w) = w_quarantine w"
  "w_pending_outgoing (refresh_balances w) = w_pending_outgoing w"
  "w_spend_rescan_from (refresh_balances w) = w_spend_rescan_from w"
  "total_exact (refresh_balances w)"
  by (simp_all add: refresh_balances_def recompute_balance_eq total_exact_def)

lemma refresh_balances_unlocked:
  "w_unlocked (refresh_balances w) =
     sat_sum (unlocked_amounts (w_chain_height w) (w_chain_time w) (tracked_outputs w))"
  by (simp add: refresh_balances_def recompute_balance_eq)

lemma rebuild_ledger_simps [simp]:
  "w_tx_ledger (rebuild_wallet_ledger k w) =
     rebuild_transfer_ledger (tracked_outputs w) (w_pending_outgoing w) k (w_chain_time w) (block_timestamps w)"
  "tracked_outputs (rebuild_wallet_ledger k w) = tracked_outputs w"
  "seen_outpoints (rebuild_wallet_ledger k w) = seen_outpoints w"
  "recent_block_hashes_start_height (rebuild_wallet_ledger k w) = recent_block_hashes_start_height w"
  "recent_block_hashes (rebuild_wallet_ledger k w) = recent_block_hashes w"
  "block_timestamps (rebuild_wallet_ledger k w) = block_timestamps w"
  "w_keys (rebuild_wallet_ledger k w) = w_keys w" "w_network (rebuild_wallet_ledger k w) = w_network w"
  "w_restore_height (rebuild_wallet_ledger k w) = w_restore_height w"
  "w_last_scanned (rebuild_wallet_ledger k w) = w_last_scanned w"
  "w_gap_limit (rebuild_wallet_ledger k w) = w_gap_limit w"
  "w_quarantine (rebuild_wallet_ledger k w) = w_quarantine w"
  "w_pending_outgoing (rebuild_wallet_ledger k w) = w_pending_outgoing w"
  "w_spend_rescan_from (rebuild_wallet_ledger k w) = w_spend_rescan_from w"
  by (simp_all add: rebuild_wallet_ledger_def)

text \<open>The chain rewind touches the chain view alone.\<close>

lemma rewind_more:
  "w_keys (snd (rewind_working_state_to_height r t w)) = w_keys w"
  "w_network (snd (rewind_working_state_to_height r t w)) = w_network w"
  "w_restore_height (snd (rewind_working_state_to_height r t w)) = w_restore_height w"
  "w_gap_limit (snd (rewind_working_state_to_height r t w)) = w_gap_limit w"
  "w_tx_ledger (snd (rewind_working_state_to_height r t w)) = w_tx_ledger w"
  "w_quarantine (snd (rewind_working_state_to_height r t w)) = w_quarantine w"
  "w_pending_outgoing (snd (rewind_working_state_to_height r t w)) = w_pending_outgoing w"
  "w_spend_rescan_from (snd (rewind_working_state_to_height r t w)) = w_spend_rescan_from w"
  by (simp_all add: rewind_working_state_to_height_def Let_def case_prod_beta)

lemma rewind_wallet_simps [simp]:
  "w_keys (rewind_wallet t w) = w_keys w" "w_network (rewind_wallet t w) = w_network w"
  "w_restore_height (rewind_wallet t w) = w_restore_height w"
  "w_gap_limit (rewind_wallet t w) = w_gap_limit w"
  "w_tx_ledger (rewind_wallet t w) = w_tx_ledger w"
  "w_quarantine (rewind_wallet t w) = w_quarantine w"
  "w_pending_outgoing (rewind_wallet t w) = w_pending_outgoing w"
  "w_spend_rescan_from (rewind_wallet t w) = w_spend_rescan_from w"
  "w_last_scanned (rewind_wallet t w) = max t (w_restore_height w)"
  "tracked_outputs (rewind_wallet t w) =
     map (unspend_on_fork (max t (w_restore_height w)))
       (filter (\<lambda>o1. block_height o1 < max t (w_restore_height w)) (tracked_outputs w))"
  "block_timestamps (rewind_wallet t w) = hm_retain (\<lambda>h _. h < max t (w_restore_height w)) (block_timestamps w)"
  by (simp_all add: rewind_wallet_def case_prod_beta rewind_more rewind_height rewind_outputs rewind_timestamps)

lemma window_coherent_cong:
  "tracked_outputs s' = tracked_outputs s \<Longrightarrow> seen_outpoints s' = seen_outpoints s \<Longrightarrow>
     window_coherent s' = window_coherent s"
  for s :: "'a chain_view_scheme" and s' :: "'b chain_view_scheme"
  by (simp add: window_coherent_def)

lemma rewind_wallet_coherent [preserve]: "window_coherent (rewind_wallet t w)"
proof -
  have "window_coherent (rewind_wallet t w) =
      window_coherent (snd (rewind_working_state_to_height (w_restore_height w) t w))"
    by (rule window_coherent_cong) (simp_all add: rewind_wallet_def case_prod_beta)
  then show ?thesis by (simp add: rewind_coherent)
qed

lemma rewind_wallet_lookup:
  "get_recent_block_hash (rewind_wallet t w) h = Some x \<longleftrightarrow>
     h < max t (w_restore_height w) \<and> get_recent_block_hash w h = Some x"
  using rewind_lookup [of "w_restore_height w" t w h x]
  by (simp add: rewind_wallet_def case_prod_beta get_recent_block_hash_def)

section \<open>The contract of a wallet operation\<close>

text \<open>
  Every operation that runs under the store lock maps one wallet to one wallet. It keeps the
  wallet well formed, never changes whose wallet it is, and never shrinks the address coverage.
\<close>

definition same_owner :: "crypto \<Rightarrow> stored_wallet \<Rightarrow> stored_wallet \<Rightarrow> bool" where
  "same_owner cr w w' \<longleftrightarrow> w_network w' = w_network w \<and>
     spend_public_dalek cr (w_keys w') = spend_public_dalek cr (w_keys w) \<and>
     view_scalar_dalek (w_keys w') = view_scalar_dalek (w_keys w) \<and>
     view_scalar_ed (w_keys w') = view_scalar_ed (w_keys w)"

lemma same_owner_refl [simp]: "same_owner cr w w"
  by (simp add: same_owner_def)

lemma same_owner_trans: "same_owner cr a b \<Longrightarrow> same_owner cr b c \<Longrightarrow> same_owner cr a c"
  by (simp add: same_owner_def)

locale wallet_op =
  fixes cr :: crypto and op :: "stored_wallet \<Rightarrow> stored_wallet"
  assumes op_wf: "wallet_wf w \<Longrightarrow> wallet_wf (op w)"
    and op_owner: "same_owner cr w (op w)"
    and op_gap: "w_gap_limit w \<le> w_gap_limit (op w)"
begin

lemma address_kept:
  "derive_address_string cr (w_keys (op w)) a s (w_network (op w)) =
     derive_address_string cr (w_keys w) a s (w_network w)"
  using op_owner [of w] by (simp add: same_owner_def derive_address_string_def Let_def)

lemma binding_kept: "wallet_cache_binding cr (op w) = wallet_cache_binding cr w"
  unfolding wallet_cache_binding_def by (rule address_kept)

lemma iterate: "wallet_wf w \<Longrightarrow>
    wallet_wf ((op ^^ n) w) \<and> same_owner cr w ((op ^^ n) w) \<and> w_gap_limit w \<le> w_gap_limit ((op ^^ n) w)"
  by (induction n) (auto intro: op_wf same_owner_trans op_owner order_trans [OF _ op_gap])

text \<open>A store keeps all its wallets well formed, and the others untouched.\<close>

definition update_in :: "string \<Rightarrow> (string, stored_wallet) hmap \<Rightarrow> (string, stored_wallet) hmap" where
  "update_in i s = (case map_of s i of None \<Rightarrow> s | Some w \<Rightarrow> hm_insert i (op w) s)"

lemma update_in_wf:
  assumes "\<forall>i w. map_of s i = Some w \<longrightarrow> wallet_wf w"
  shows "\<forall>j w. map_of (update_in i s) j = Some w \<longrightarrow> wallet_wf w"
  using assms by (auto simp: update_in_def op_wf split: option.split)

lemma update_in_other: "j \<noteq> i \<Longrightarrow> map_of (update_in i s) j = map_of s j"
  by (simp add: update_in_def split: option.split)

end

text \<open>Operations compose.\<close>

lemma wallet_op_comp:
  assumes "wallet_op cr f" and "wallet_op cr g"
  shows "wallet_op cr (\<lambda>w. g (f w))"
proof
  fix w
  show "wallet_wf w \<Longrightarrow> wallet_wf (g (f w))"
    using assms by (simp add: wallet_op.op_wf)
  show "same_owner cr w (g (f w))"
    using assms by (blast intro: same_owner_trans wallet_op.op_owner)
  show "w_gap_limit w \<le> w_gap_limit (g (f w))"
    using assms by (meson order_trans wallet_op.op_gap)
qed

lemmas wallet_unfold = wallet_wf_def window_coherent_def total_exact_def same_owner_def

lemma seal_keys_public [simp]:
  "spend_public_dalek cr (seal_keys cr k) = spend_public_dalek cr k"
  "view_scalar_dalek (seal_keys cr k) = view_scalar_dalek k"
  "view_scalar_ed (seal_keys cr k) = view_scalar_ed k"
  "is_sealed (seal_keys cr k)" "wk_master (seal_keys cr k) = None"
  "seal_keys cr (seal_keys cr k) = seal_keys cr k"
  by (cases k; simp add: view_keys_of_def)+

interpretation seal: wallet_op cr "seal_wallet cr" for cr
  by unfold_locales (auto simp: seal_wallet_def wallet_unfold)

interpretation expand: wallet_op cr "expand_scan_coverage n" for cr n
  by unfold_locales (auto simp: expand_scan_coverage_def wallet_unfold)

interpretation rescan: wallet_op cr "force_rescan h" for cr h
  by unfold_locales (auto simp: force_rescan_def wallet_unfold unspent_amounts_def)

interpretation reset_outputs: wallet_op cr reset_tracked_outputs for cr
  by unfold_locales (auto simp: reset_tracked_outputs_def wallet_unfold unspent_amounts_def)

lemma rewind_scan_cursor_wf: "wallet_wf w \<Longrightarrow> wallet_wf (rewind_scan_cursor t w)"
proof -
  assume wf: "wallet_wf w"
  let ?w = "(rewind_wallet t w)\<lparr>w_quarantine := []\<rparr>"
  let ?k = "known_transaction_fees (w_tx_ledger w)"
  have eq: "rewind_scan_cursor t w = refresh_balances (rebuild_wallet_ledger ?k ?w)"
    by (simp add: rewind_scan_cursor_def)
  have "window_coherent (refresh_balances (rebuild_wallet_ledger ?k ?w)) = window_coherent (rewind_wallet t w)"
    by (rule window_coherent_cong) simp_all
  with wf show ?thesis
    unfolding eq wallet_wf_def by (simp add: rewind_wallet_coherent)
qed

interpretation rewind_cursor: wallet_op cr "rewind_scan_cursor t" for cr t
  by unfold_locales (auto simp: rewind_scan_cursor_wf, auto simp: rewind_scan_cursor_def same_owner_def)

section \<open>Restoring spend authority\<close>

lemma pending_rescan_None: "w_spend_rescan_from w = None \<Longrightarrow> apply_pending_spend_rescan w = (False, w)"
  by (simp add: apply_pending_spend_rescan_def)

lemma pending_rescan_Some:
  "w_spend_rescan_from w = Some m \<Longrightarrow>
     apply_pending_spend_rescan w =
       (True, rewind_wallet (min m (w_last_scanned w)) (w\<lparr>w_spend_rescan_from := None\<rparr>))"
  by (simp add: apply_pending_spend_rescan_def)

text \<open>The abstract effect: new keys, then a rewind with rebuilt ledger and balances when a marker
  was pending.\<close>

lemma restore_authority_cases:
  assumes "restore_spend_authority cr w keys = (r, w')"
  shows "(\<exists>e. r = Inl e \<and> w' = w \<and>
           derive_address_string cr (w_keys w) 0 0 (w_network w) \<noteq>
           derive_address_string cr (Unsealed keys) 0 0 (w_network w)) \<or>
     r = Inr () \<and>
       derive_address_string cr (w_keys w) 0 0 (w_network w) =
         derive_address_string cr (Unsealed keys) 0 0 (w_network w) \<and>
       (case w_spend_rescan_from w of
          None \<Rightarrow> w' = w\<lparr>w_keys := Unsealed keys\<rparr>
        | Some m \<Rightarrow>
            let w1 = rewind_wallet (min m (w_last_scanned w))
                       (w\<lparr>w_keys := Unsealed keys, w_spend_rescan_from := None\<rparr>) in
            w' = refresh_balances (rebuild_wallet_ledger (known_transaction_fees (w_tx_ledger w1)) w1))"
  using assms
  by (auto simp: restore_spend_authority_def pending_rescan_None pending_rescan_Some Let_def
      split: if_splits option.splits)

lemma restore_authority_wf:
  assumes "restore_spend_authority cr w keys = (r, w')" and wf: "wallet_wf w"
  shows "wallet_wf w'"
proof (cases "w_spend_rescan_from w")
  case None
  then have "w' = w \<or> w' = w\<lparr>w_keys := Unsealed keys\<rparr>"
    using restore_authority_cases [OF assms(1)] by auto
  with wf show ?thesis by (auto simp: wallet_unfold)
next
  case (Some m)
  let ?w1 = "rewind_wallet (min m (w_last_scanned w)) (w\<lparr>w_keys := Unsealed keys, w_spend_rescan_from := None\<rparr>)"
  let ?w2 = "refresh_balances (rebuild_wallet_ledger (known_transaction_fees (w_tx_ledger ?w1)) ?w1)"
  have "window_coherent ?w2 = window_coherent ?w1" by (rule window_coherent_cong) simp_all
  then have "wallet_wf ?w2" using wf unfolding wallet_wf_def by (simp add: rewind_wallet_coherent)
  moreover have "w' = w \<or> w' = ?w2"
    using restore_authority_cases [OF assms(1)] Some by (auto simp: Let_def)
  ultimately show ?thesis using wf by blast
qed

text \<open>Every output whose key image is unknown was seen at or above the marker.\<close>

definition marker_ok :: "stored_wallet \<Rightarrow> bool" where
  "marker_ok w \<longleftrightarrow>
     (\<forall>o1 \<in> set (tracked_outputs w). key_image o1 = zero_image \<longrightarrow>
        w_restore_height w \<le> block_height o1 \<and>
        (\<exists>m. w_spend_rescan_from w = Some m \<and> m \<le> block_height o1))"

lemma restore_authority_no_zero_image:
  assumes "restore_spend_authority cr w keys = (Inr (), w')" and "marker_ok w"
  shows "\<forall>o1 \<in> set (tracked_outputs w'). key_image o1 \<noteq> zero_image"
    and "w_spend_rescan_from w' = None" and "w_keys w' = Unsealed keys"
    and "w_spend_rescan_from w = Some m \<Longrightarrow> w_last_scanned w' \<le> max m (w_restore_height w)"
    and "w_spend_rescan_from w = Some m \<Longrightarrow> w_restore_height w \<le> w_last_scanned w \<Longrightarrow>
           w_last_scanned w' \<le> w_last_scanned w"
proof -
  note c = restore_authority_cases [OF assms(1)]
  show "w_spend_rescan_from w' = None" "w_keys w' = Unsealed keys"
    using c by (auto simp: Let_def split: option.splits)
  show "w_spend_rescan_from w = Some m \<Longrightarrow> w_last_scanned w' \<le> max m (w_restore_height w)"
    using c by (auto simp: Let_def)
  show "w_spend_rescan_from w = Some m \<Longrightarrow> w_restore_height w \<le> w_last_scanned w \<Longrightarrow>
      w_last_scanned w' \<le> w_last_scanned w"
    using c by (auto simp: Let_def)
  show "\<forall>o1 \<in> set (tracked_outputs w'). key_image o1 \<noteq> zero_image"
  proof (cases "w_spend_rescan_from w")
    case None
    then have "tracked_outputs w' = tracked_outputs w" using c by auto
    with None assms(2) show ?thesis by (auto simp: marker_ok_def)
  next
    case (Some k)
    then have "tracked_outputs w' =
        map (unspend_on_fork (max (min k (w_last_scanned w)) (w_restore_height w)))
          (filter (\<lambda>o1. block_height o1 < max (min k (w_last_scanned w)) (w_restore_height w)) (tracked_outputs w))"
      using c by (auto simp: Let_def)
    with Some assms(2) show ?thesis by (fastforce simp: marker_ok_def)
  qed
qed

lemma marker_ok_seal: "marker_ok w \<Longrightarrow> marker_ok (seal_wallet cr w)"
  by (simp add: marker_ok_def seal_wallet_def)

lemma marker_ok_expand: "marker_ok w \<Longrightarrow> marker_ok (expand_scan_coverage n w)"
  by (simp add: marker_ok_def expand_scan_coverage_def)

lemma marker_ok_rescan: "marker_ok (force_rescan h w)"
  by (simp add: marker_ok_def force_rescan_def)

lemma marker_ok_reset: "marker_ok (reset_tracked_outputs w)"
  by (simp add: marker_ok_def reset_tracked_outputs_def)

lemma marker_ok_rewind: "marker_ok w \<Longrightarrow> marker_ok (rewind_scan_cursor t w)"
  by (auto simp: marker_ok_def rewind_scan_cursor_def)

section \<open>The persisted form\<close>

lemma unpersist_timelock_roundtrip:
  "(case t of TL_Block h \<Rightarrow> h \<le> usize_max | _ \<Rightarrow> True) \<Longrightarrow> unpersist_timelock (persist_timelock t) = t"
  by (cases t) auto

lemma unpersist_output_roundtrip:
  "(case additional_timelock o1 of TL_Block h \<Rightarrow> h \<le> usize_max | _ \<Rightarrow> True) \<Longrightarrow>
     unpersist_output (persist_output o1) = o1"
  by (simp add: unpersist_output_def persist_output_def unpersist_timelock_roundtrip)

lemma unpersist_network_roundtrip: "n \<noteq> Testnet \<Longrightarrow> unpersist_network (persist_network n) = n"
  by (cases n) auto

text \<open>The part of a wallet that a cache carries: everything but the keys, the history index and the
  time of the last refresh.\<close>

definition durable_eq :: "stored_wallet \<Rightarrow> stored_wallet \<Rightarrow> bool" where
  "durable_eq a b \<longleftrightarrow>
     a\<lparr>w_keys := w_keys b, w_history_index := w_history_index b,
       w_last_refresh_timestamp := w_last_refresh_timestamp b\<rparr> = b"

definition wallet_in_range :: "stored_wallet \<Rightarrow> bool" where
  "wallet_in_range w \<longleftrightarrow> w_network w \<noteq> Testnet \<and>
     (\<forall>o1 \<in> set (tracked_outputs w).
        case additional_timelock o1 of TL_Block h \<Rightarrow> h \<le> usize_max | _ \<Rightarrow> True)"

lemma persist_roundtrip:
  assumes "wallet_wf w" and "wallet_in_range w"
    and "w_restore_height v \<le> w_last_scanned w"
  shows "\<exists>v'. apply_to_state (persist_wallet cr w) v = Some v' \<and> durable_eq w v' \<and> w_keys v' = w_keys v"
proof -
  have "map unpersist_output (map persist_output (tracked_outputs w)) = tracked_outputs w"
    using assms(2) by (auto simp: wallet_in_range_def unpersist_output_roundtrip intro!: map_idI)
  moreover have "hs_of_list (seen_outpoints w) = seen_outpoints w" "hs_of_list (w_quarantine w) = w_quarantine w"
    using assms(1) by (simp_all add: wallet_wf_def window_coherent_def hs_of_list_distinct)
  moreover have "unpersist_network (persist_network (w_network w)) = w_network w"
    using assms(2) by (simp add: wallet_in_range_def unpersist_network_roundtrip)
  moreover have "max (w_last_scanned w) (w_restore_height v) = w_last_scanned w" using assms(3) by simp
  ultimately show ?thesis
    by (simp add: apply_to_state_def persist_wallet_def durable_eq_def)
qed

lemma identity_matches_iff:
  "cache_identity_matches cr p w = Inr () \<longleftrightarrow>
     pw_bound_primary_address p = wallet_cache_binding cr w \<and> wallet_cache_binding cr w \<noteq> [] \<and>
     pw_network p = persist_network (w_network w) \<and> pw_restore_height p \<le> w_restore_height w"
  by (auto simp: cache_identity_matches_def Let_def)

end
