(* ===== verification/World.thy ===== *)
theory World
  imports Wallet_Invariants
begin

text \<open>
  The process state behind the C interface: the wallet store and the refresh-job registry with the
  poisoning of their locks, cancellation flags, the last-error slots, the panic boundary
  (\<open>ffi/boundary.rs\<close>), and the exclusion that runs a mutation only while no refresh owns the
  wallet (\<open>ffi/refresh.rs\<close>).

  A call is a function from the world to an outcome and a new world. The outcome \<open>Panic\<close> is an
  unwinding panic, which poisons every lock held on its way to the boundary.
\<close>

section \<open>State\<close>

datatype job_status = RJ_Idle | RJ_Running | RJ_Failed string

record world =
  wd_store :: "(string, stored_wallet) hmap"
  wd_store_poisoned :: bool
  wd_jobs :: "(string, job_status) hmap"
  wd_jobs_poisoned :: bool
  wd_cancel :: "(string, bool) hmap"
  wd_last_error :: "string option"
  wd_thread_error :: "string option"
  wd_next_revision :: u64

datatype 'a outcome = Value 'a | Panic

type_synonym 'a call = "world \<Rightarrow> 'a outcome \<times> world"

text \<open>A C string argument: null, or the bytes before the terminator.\<close>

datatype cptr = CNull | CStr string

definition cstr_to_str :: "string \<Rightarrow> string option" where
  "cstr_to_str s = (if utf8_valid (map code_of s) then Some s else None)"

section \<open>Errors and cancellation\<close>

definition set_last_error :: "string \<Rightarrow> world \<Rightarrow> world" where
  "set_last_error message w = w\<lparr>wd_thread_error := Some message, wd_last_error := Some message\<rparr>"

definition clear_last_error :: "world \<Rightarrow> world" where
  "clear_last_error w = w\<lparr>wd_thread_error := None, wd_last_error := None\<rparr>"

definition record_error :: "int \<Rightarrow> string \<Rightarrow> int call" where
  "record_error code message w = (Value code, set_last_error message w)"

definition last_error_clone :: "world \<Rightarrow> string option" where
  "last_error_clone w = opt_or (wd_thread_error w) (wd_last_error w)"

definition refresh_cancel_flag_for_wallet :: "string \<Rightarrow> world \<Rightarrow> bool \<times> world" where
  "refresh_cancel_flag_for_wallet i w =
     (hm_get_or False (wd_cancel w) i, w\<lparr>wd_cancel := hm_or_insert i False (wd_cancel w)\<rparr>)"

definition refresh_cancelled_for_wallet :: "string \<Rightarrow> world \<Rightarrow> bool \<times> world" where
  "refresh_cancelled_for_wallet i w = refresh_cancel_flag_for_wallet i w"

definition set_refresh_cancel_for_wallet :: "string \<Rightarrow> bool \<Rightarrow> world \<Rightarrow> world" where
  "set_refresh_cancel_for_wallet i cancelled w = w\<lparr>wd_cancel := hm_insert i cancelled (wd_cancel w)\<rparr>"

section \<open>The panic boundary\<close>

text \<open>\<open>failure\<close> is the value of the entry point's result type: \<open>-19\<close> for a status code, null
  for a pointer.\<close>

definition guard :: "string \<Rightarrow> 'a \<Rightarrow> 'a call \<Rightarrow> world \<Rightarrow> 'a \<times> world" where
  "guard name failure operation w =
     (case operation w of
        (Value v, w') \<Rightarrow> (v, w')
      | (Panic, w') \<Rightarrow>
          (failure, set_last_error (name @ '': native operation failed; restart the app before retrying'') w'))"

text \<open>\<open>WALLET_STORE.lock().expect(...)\<close> followed by the code that holds the lock. That code
  never panics while it holds the lock, so it maps the store purely.\<close>

definition lock_store :: "(world \<Rightarrow> 'a outcome \<times> world) \<Rightarrow> 'a call" where
  "lock_store f w = (if wd_store_poisoned w then (Panic, w) else f w)"

section \<open>The refresh-job registry\<close>

definition job_running :: "string \<Rightarrow> world \<Rightarrow> bool" where
  "job_running i w \<longleftrightarrow> map_of (wd_jobs w) i = Some RJ_Running"

definition set_refresh_job :: "string \<Rightarrow> job_status \<Rightarrow> world \<Rightarrow> world" where
  "set_refresh_job i job w =
     (if wd_jobs_poisoned w then w else w\<lparr>wd_jobs := hm_insert i job (wd_jobs w)\<rparr>)"

definition try_start_refresh_job :: "string \<Rightarrow> world \<Rightarrow> bool \<times> world" where
  "try_start_refresh_job i w =
     (if wd_jobs_poisoned w \<or> job_running i w then (False, w)
      else (True, w\<lparr>wd_jobs := hm_insert i RJ_Running (wd_jobs w)\<rparr>))"

definition with_refresh_stopped :: "string \<Rightarrow> 'a call \<Rightarrow> (unit + 'a) call" where
  "with_refresh_stopped i operation w =
     (if wd_jobs_poisoned w \<or> job_running i w then (Value (Inl ()), w)
      else (case operation w of
              (Value v, w') \<Rightarrow> (Value (Inr v), w')
            | (Panic, w') \<Rightarrow> (Panic, w'\<lparr>wd_jobs_poisoned := True\<rparr>)))"

definition show_int :: "int \<Rightarrow> string" where
  "show_int n = (if n < 0 then ''-'' @ show_nat (nat (- n)) else show_nat (nat n))"

definition finish_refresh_job :: "string \<Rightarrow> int \<Rightarrow> world \<Rightarrow> world" where
  "finish_refresh_job i rc w =
     (if rc = 0 \<or> rc = -30 then set_refresh_job i RJ_Idle w
      else set_refresh_job i
        (RJ_Failed (opt_get_or (''refresh stopped ('' @ show_int rc @ '')'') (last_error_clone w))) w)"

definition refresh_job :: "string \<Rightarrow> world \<Rightarrow> job_status" where
  "refresh_job i w =
     (if wd_jobs_poisoned w then RJ_Idle else opt_get_or RJ_Idle (map_of (wd_jobs w) i))"

fun job_state_name :: "job_status \<Rightarrow> string \<times> string option" where
  "job_state_name RJ_Idle = (''idle'', None)"
| "job_state_name RJ_Running = (''running'', None)"
| "job_state_name (RJ_Failed message) = (''failed'', Some message)"

text \<open>Timed waiting. What other threads and the clock do while the caller waits is an argument:
  for each failed \<open>try_lock\<close> whether the deadline had passed, then for each wait whether no time
  remained, how the other threads changed the world, and whether the wait timed out. The list is
  as long as the waiting lasted; at its end the deadline has passed.\<close>

record wait_obs =
  ob_contended :: "bool list"
  ob_wakes :: "(bool \<times> (world \<Rightarrow> world) \<times> bool) list"

fun lifecycle_wait :: "string \<Rightarrow> (bool \<times> (world \<Rightarrow> world) \<times> bool) list \<Rightarrow> world \<Rightarrow> bool \<times> world" where
  "lifecycle_wait i [] w = (\<not> job_running i w, w)"
| "lifecycle_wait i ((remaining_zero, others, timed_out) # wakes) w =
     (if \<not> job_running i w then (True, w)
      else if remaining_zero then (False, w)
      else let w' = others w in
        if wd_jobs_poisoned w' then (False, w')
        else if timed_out \<and> job_running i w' then (False, w')
        else lifecycle_wait i wakes w')"

definition with_wallet_lifecycle_exclusion :: "string \<Rightarrow> wait_obs \<Rightarrow> 'a call \<Rightarrow> (unit + 'a) call" where
  "with_wallet_lifecycle_exclusion i obs operation w =
     (if True \<in> set (ob_contended obs) then (Value (Inl ()), w)
      else if wd_jobs_poisoned w then (Value (Inl ()), w)
      else (case lifecycle_wait i (ob_wakes obs) w of
              (False, w') \<Rightarrow> (Value (Inl ()), w')
            | (True, w') \<Rightarrow>
                (case operation w' of
                   (Value v, w'') \<Rightarrow> (Value (Inr v), w'')
                 | (Panic, w'') \<Rightarrow> (Panic, w''\<lparr>wd_jobs_poisoned := True\<rparr>))))"

definition lifecycle_wait_timeout :: "u64 \<Rightarrow> u64" where
  "lifecycle_wait_timeout timeout_ms = (if timeout_ms = 0 then 30000 else min timeout_ms 120000)"

section \<open>Lemmas\<close>

lemma error_simps [simp]:
  "wd_store (set_last_error m w) = wd_store w" "wd_store (clear_last_error w) = wd_store w"
  "wd_store_poisoned (set_last_error m w) = wd_store_poisoned w"
  "wd_store_poisoned (clear_last_error w) = wd_store_poisoned w"
  "wd_jobs (set_last_error m w) = wd_jobs w" "wd_jobs (clear_last_error w) = wd_jobs w"
  "wd_jobs_poisoned (set_last_error m w) = wd_jobs_poisoned w"
  "wd_jobs_poisoned (clear_last_error w) = wd_jobs_poisoned w"
  "wd_cancel (set_last_error m w) = wd_cancel w" "wd_cancel (clear_last_error w) = wd_cancel w"
  "wd_next_revision (set_last_error m w) = wd_next_revision w"
  "wd_next_revision (clear_last_error w) = wd_next_revision w"
  "last_error_clone (set_last_error m w) = Some m" "last_error_clone (clear_last_error w) = None"
  "job_running i (set_last_error m w) = job_running i w"
  "job_running i (clear_last_error w) = job_running i w"
  by (simp_all add: set_last_error_def clear_last_error_def last_error_clone_def job_running_def)

lemma cancel_simps [simp]:
  "wd_store (set_refresh_cancel_for_wallet i b w) = wd_store w"
  "wd_store_poisoned (set_refresh_cancel_for_wallet i b w) = wd_store_poisoned w"
  "wd_jobs (set_refresh_cancel_for_wallet i b w) = wd_jobs w"
  "wd_jobs_poisoned (set_refresh_cancel_for_wallet i b w) = wd_jobs_poisoned w"
  "job_running j (set_refresh_cancel_for_wallet i b w) = job_running j w"
  "fst (refresh_cancelled_for_wallet j (set_refresh_cancel_for_wallet i b w)) =
     (if j = i then b else fst (refresh_cancelled_for_wallet j w))"
  by (simp_all add: set_refresh_cancel_for_wallet_def job_running_def refresh_cancelled_for_wallet_def
      refresh_cancel_flag_for_wallet_def hm_get_or_def)

text \<open>At most one refresh owns a wallet: a claim succeeds only when none runs, and then runs.\<close>

lemma try_start_spec:
  "try_start_refresh_job i w = (ok, w') \<Longrightarrow>
     (ok \<longleftrightarrow> \<not> wd_jobs_poisoned w \<and> \<not> job_running i w) \<and>
     (ok \<longrightarrow> job_running i w') \<and> (\<not> ok \<longrightarrow> w' = w) \<and> wd_store w' = wd_store w \<and>
     (\<forall>j. j \<noteq> i \<longrightarrow> map_of (wd_jobs w') j = map_of (wd_jobs w) j)"
  by (auto simp: try_start_refresh_job_def job_running_def split: if_splits)

lemma finish_not_running:
  "\<not> wd_jobs_poisoned w \<Longrightarrow> \<not> job_running i (finish_refresh_job i rc w)"
  by (auto simp: finish_refresh_job_def set_refresh_job_def job_running_def)

lemma lifecycle_wait_stopped: "lifecycle_wait i obs w = (True, w') \<Longrightarrow> \<not> job_running i w'"
  by (induction i obs w rule: lifecycle_wait.induct) (auto simp: Let_def split: if_splits)

lemma lifecycle_wait_immediate: "\<not> job_running i w \<Longrightarrow> lifecycle_wait i obs w = (True, w)"
  by (cases "(i, obs, w)" rule: lifecycle_wait.cases) auto

text \<open>Waiting changes the store only through the other threads.\<close>

lemma lifecycle_wait_store:
  "lifecycle_wait i obs w = (b, w') \<Longrightarrow> \<forall>(z, f, t) \<in> set obs. \<forall>v. P v \<longrightarrow> P (f v) \<Longrightarrow> P w \<Longrightarrow> P w'"
  by (induction i obs w rule: lifecycle_wait.induct) (auto simp: Let_def split: if_splits)

lemma with_refresh_stopped_cases:
  assumes "with_refresh_stopped i f w = (r, w')"
  shows "(wd_jobs_poisoned w \<or> job_running i w) \<and> r = Value (Inl ()) \<and> w' = w \<or>
    \<not> wd_jobs_poisoned w \<and> \<not> job_running i w \<and>
      ((\<exists>v. f w = (Value v, w') \<and> r = Value (Inr v)) \<or>
       (\<exists>w1. f w = (Panic, w1) \<and> r = Panic \<and> w' = w1\<lparr>wd_jobs_poisoned := True\<rparr>))"
  using assms by (auto simp: with_refresh_stopped_def split: if_splits prod.splits outcome.splits)

end
