(* ===== verification/Input_Policy.thy ===== *)
theory Input_Policy
  imports World
begin

text \<open>
  Eligibility of outputs for sends, previews and sweeps (\<open>ffi/input_policy.rs\<close>): the unlocked
  balance, the quarantine fed by the daemon's spent-status report, and the list of spendable
  outputs. \<open>query\<close> is the request \<open>is_key_image_spent\<close>, which runs without the store lock:
  it returns the answer together with the world the other threads left behind.
\<close>

section \<open>Operations\<close>

definition eligible :: "stored_wallet \<Rightarrow> u32 option \<Rightarrow> tracked_output \<Rightarrow> bool" where
  "eligible wallet minor o1 \<longleftrightarrow>
     \<not> spent o1 \<and> is_unlocked o1 (w_chain_height wallet) (w_chain_time wallet) \<and>
     outpoint_of o1 \<notin> set (w_quarantine wallet) \<and>
     (case minor of None \<Rightarrow> True | Some m \<Rightarrow> subaddress_major o1 = 0 \<and> subaddress_minor o1 = m)"

definition unlocked_balance :: "stored_wallet \<Rightarrow> u32 option \<Rightarrow> u64" where
  "unlocked_balance wallet minor =
     foldl (\<lambda>s o1. sat_add s (amount o1)) 0 (filter (eligible wallet minor) (tracked_outputs wallet))"

definition status_step ::
    "bool \<Rightarrow> (hash32 \<times> u64 \<times> hash32) hset \<Rightarrow> outpoint hset \<Rightarrow> tracked_output \<times> nat \<Rightarrow> outpoint hset" where
  "status_step caught_up current q os =
     (case os of (output, status) \<Rightarrow>
        if (tx_hash output, index_in_tx output, key_image output) \<notin> set current then q
        else let key = (tx_hash output, index_in_tx output) in
          if status = 0 \<and> caught_up then hs_remove key q
          else if status = 1 \<or> status = 2 then hs_insert key q
          else q)"

definition apply_statuses ::
    "stored_wallet \<Rightarrow> tracked_output list \<Rightarrow> nat list \<Rightarrow> u64 \<Rightarrow> bool \<Rightarrow> (string + unit) \<times> stored_wallet" where
  "apply_statuses wallet outputs statuses daemon_height allow_release =
     (if length statuses \<noteq> length outputs \<or> list_ex (\<lambda>s. 2 < s) statuses
      then (Inl ''invalid key-image spent-status response'', wallet)
      else
        let caught_up = allow_release \<and> 0 < daemon_height \<and> daemon_height \<le> w_last_scanned wallet;
            current = hs_of_list (map (\<lambda>o1. (tx_hash o1, index_in_tx o1, key_image o1))
                        (filter (\<lambda>o1. \<not> spent o1) (tracked_outputs wallet)));
            wallet1 = wallet\<lparr>w_quarantine :=
              foldl (status_step caught_up current) (w_quarantine wallet) (zip outputs statuses)\<rparr> in
        (Inr (), wallet1\<lparr>w_unlocked := unlocked_balance wallet1 None\<rparr>))"

definition reconcile_with ::
    "crypto \<Rightarrow> string \<Rightarrow> stored_wallet \<Rightarrow> tracked_output list \<Rightarrow> u64 \<Rightarrow> bool \<Rightarrow>
     (hash32 list \<Rightarrow> world \<Rightarrow> (string + nat list) \<times> world) \<Rightarrow> world \<Rightarrow>
     (string + stored_wallet) \<times> world" where
  "reconcile_with cr i snapshot outputs height allow_release query w =
     (if outputs = [] then (Inr snapshot, w)
      else (case query (map key_image outputs) w of
              (Inl e, w1) \<Rightarrow> (Inr snapshot, w1)
            | (Inr statuses, w1) \<Rightarrow>
                if wd_store_poisoned w1 then (Inl ''wallet store unavailable'', w1)
                else (case map_of (wd_store w1) i of
                  None \<Rightarrow> (Inl ''wallet not open'', w1)
                | Some state \<Rightarrow>
                    if wallet_cache_binding cr state \<noteq> wallet_cache_binding cr snapshot
                    then (Inl ''wallet changed during spent-status request'', w1)
                    else (case apply_statuses state outputs statuses height allow_release of
                      (Inl e, _) \<Rightarrow> (Inl e, w1)
                    | (Inr _, state1) \<Rightarrow>
                        (Inr (snapshot\<lparr>w_quarantine := w_quarantine state1, w_unlocked := w_unlocked state1\<rparr>),
                         w1\<lparr>wd_store := hm_insert i state1 (wd_store w1)\<rparr>)))))"

definition spendable ::
    "crypto \<Rightarrow> string \<Rightarrow> stored_wallet \<Rightarrow> (hash32 list \<Rightarrow> world \<Rightarrow> (string + nat list) \<times> world) \<Rightarrow>
     u64 \<Rightarrow> u64 \<Rightarrow> bool \<Rightarrow> world \<Rightarrow> (string + tracked_output list \<times> stored_wallet) \<times> world" where
  "spendable cr i snapshot query height time allow_release w =
     (let outputs = filter (\<lambda>o1. \<not> spent o1 \<and> is_unlocked o1 height time) (tracked_outputs snapshot) in
      case reconcile_with cr i snapshot outputs height allow_release query w of
        (Inl e, w1) \<Rightarrow> (Inl e, w1)
      | (Inr snapshot1, w1) \<Rightarrow>
          (Inr (filter (\<lambda>o1. outpoint_of o1 \<notin> set (w_quarantine snapshot1)) outputs, snapshot1), w1))"

definition revalidate_after_refresh ::
    "crypto \<Rightarrow> string \<Rightarrow> (hash32 list \<Rightarrow> world \<Rightarrow> (string + nat list) \<times> world) \<Rightarrow> u64 \<Rightarrow> world \<Rightarrow>
     (string + unit) \<times> world" where
  "revalidate_after_refresh cr i query height w =
     (if wd_store_poisoned w then (Inl ''wallet store unavailable'', w)
      else (case map_of (wd_store w) i of
        None \<Rightarrow> (Inl ''wallet not open'', w)
      | Some snapshot \<Rightarrow>
          if w_quarantine snapshot = [] then (Inr (), w)
          else
            let outputs = filter (\<lambda>o1. \<not> spent o1 \<and> key_image o1 \<noteq> zero_image \<and>
                                   outpoint_of o1 \<in> set (w_quarantine snapshot)) (tracked_outputs snapshot) in
            (case reconcile_with cr i snapshot outputs height True query w of
               (Inl e, w1) \<Rightarrow> (Inl e, w1)
             | (Inr _, w1) \<Rightarrow> (Inr (), w1))))"

section \<open>Lemmas\<close>

lemma foldl_sat_amount: "foldl (\<lambda>s o1. sat_add s (amount o1)) a outs = foldl sat_add a (map amount outs)"
  by (induction outs arbitrary: a) auto

lemma unlocked_balance_eq:
  "unlocked_balance w minor = sat_sum (map amount (filter (eligible w minor) (tracked_outputs w)))"
  by (simp add: unlocked_balance_def foldl_sat_amount sat_sum_def)

lemma filter_sum_mono:
  "(\<And>x. x \<in> set xs \<Longrightarrow> p x \<Longrightarrow> q x) \<Longrightarrow>
     sum_list (map f (filter p xs)) \<le> sum_list (map f (filter q xs))"
  for f :: "'a \<Rightarrow> nat"
proof (induction xs)
  case (Cons x xs)
  have "sum_list (map f (filter p xs)) \<le> sum_list (map f (filter q xs))"
    using Cons.prems by (intro Cons.IH) simp
  moreover have "p x \<Longrightarrow> q x" using Cons.prems by simp
  ultimately show ?case by auto
qed simp

lemma unlocked_balance_le_unspent:
  "unlocked_balance w minor \<le> sat_sum (unspent_amounts (tracked_outputs w))"
proof -
  have "sum_list (map amount (filter (eligible w minor) (tracked_outputs w))) \<le>
      sum_list (map amount (filter (\<lambda>o1. \<not> spent o1) (tracked_outputs w)))"
    by (rule filter_sum_mono) (simp add: eligible_def)
  then show ?thesis
    by (simp add: unlocked_balance_eq unspent_amounts_def sat_sum_eq min_le_iff_disj)
qed

text \<open>A status response that fits changes the quarantine and the unlocked balance, nothing else.\<close>

lemma apply_statuses_frame:
  assumes "apply_statuses w outs ss h allow = (r, w')"
  shows "w'\<lparr>w_quarantine := w_quarantine w, w_unlocked := w_unlocked w\<rparr> = w"
    and "r = Inr () \<Longrightarrow> w_unlocked w' = unlocked_balance w' None"
    and "\<forall>e. r = Inl e \<longrightarrow> w' = w"
  using assms
  by (auto simp: apply_statuses_def Let_def unlocked_balance_def eligible_def [abs_def] split: if_splits)

lemma status_step_keeps:
  "k \<in> set q \<Longrightarrow> \<not> caught \<or> outpoint_of o1 \<noteq> k \<or> s \<noteq> 0 \<Longrightarrow> k \<in> set (status_step caught cur q (o1, s))"
  by (auto simp: status_step_def Let_def outpoint_of_def)

lemma status_fold_keeps:
  "k \<in> set q \<Longrightarrow> \<not> caught \<or> (\<forall>(o1, s) \<in> set oss. outpoint_of o1 = k \<longrightarrow> s \<noteq> 0) \<Longrightarrow>
     k \<in> set (foldl (status_step caught cur) q oss)"
proof (induction oss arbitrary: q)
  case (Cons x oss)
  obtain o1 s where x: "x = (o1, s)" by force
  have "k \<in> set (status_step caught cur q (o1, s))"
    using Cons.prems x by (intro status_step_keeps) auto
  moreover have "\<not> caught \<or> (\<forall>(o1, s) \<in> set oss. outpoint_of o1 = k \<longrightarrow> s \<noteq> 0)"
    using Cons.prems(2) by auto
  ultimately show ?case by (simp add: x Cons.IH)
qed simp

lemma status_fold_inserts:
  "(o1, s) \<in> set oss \<Longrightarrow> s = 1 \<or> s = 2 \<Longrightarrow> (tx_hash o1, index_in_tx o1, key_image o1) \<in> set cur \<Longrightarrow>
     \<not> caught \<or> (\<forall>(o2, s2) \<in> set oss. outpoint_of o2 = outpoint_of o1 \<longrightarrow> s2 \<noteq> 0) \<Longrightarrow>
     outpoint_of o1 \<in> set (foldl (status_step caught cur) q oss)"
proof (induction oss arbitrary: q)
  case (Cons x oss)
  have rest: "\<not> caught \<or> (\<forall>(o2, s2) \<in> set oss. outpoint_of o2 = outpoint_of o1 \<longrightarrow> s2 \<noteq> 0)"
    using Cons.prems(4) by auto
  show ?case
  proof (cases "x = (o1, s)")
    case True
    have "outpoint_of o1 \<in> set (status_step caught cur q x)"
      using Cons.prems(2,3) by (auto simp: True status_step_def outpoint_of_def)
    then show ?thesis using rest by (simp add: status_fold_keeps)
  next
    case False
    with Cons rest show ?thesis by simp
  qed
qed simp

lemma status_fold_distinct: "distinct q \<Longrightarrow> distinct (foldl (status_step c cur) q oss)"
  by (induction oss arbitrary: q) (auto simp: status_step_def Let_def split: prod.splits)

lemma apply_statuses_wf: "wallet_wf w \<Longrightarrow> apply_statuses w outs ss h allow = (r, w') \<Longrightarrow> wallet_wf w'"
  by (auto simp: apply_statuses_def Let_def wallet_wf_def total_exact_def window_coherent_def status_fold_distinct
      split: if_splits)

text \<open>What the daemon said about each output, for a response of the right length.\<close>

lemma apply_statuses_quarantine:
  assumes "apply_statuses w outs ss h allow = (Inr (), w')"
  shows "w_quarantine w' = foldl (status_step (allow \<and> 0 < h \<and> h \<le> w_last_scanned w)
           (hs_of_list (map (\<lambda>o1. (tx_hash o1, index_in_tx o1, key_image o1))
             (filter (\<lambda>o1. \<not> spent o1) (tracked_outputs w))))) (w_quarantine w) (zip outs ss)"
    and "length ss = length outs" and "\<forall>s \<in> set ss. s \<le> 2"
  using assms by (auto simp: apply_statuses_def Let_def list_ex_iff not_less split: if_splits)

lemma apply_statuses_release:
  assumes "apply_statuses w outs ss h allow = (Inr (), w')" and "k \<in> set (w_quarantine w)"
    and "k \<notin> set (w_quarantine w')"
  shows "allow \<and> 0 < h \<and> h \<le> w_last_scanned w \<and> (\<exists>(o1, s) \<in> set (zip outs ss). outpoint_of o1 = k \<and> s = 0)"
  using status_fold_keeps [of k "w_quarantine w" "allow \<and> 0 < h \<and> h \<le> w_last_scanned w" "zip outs ss"]
    assms apply_statuses_quarantine(1) [OF assms(1)] by fastforce

lemma apply_statuses_spent:
  assumes "apply_statuses w outs ss h allow = (Inr (), w')" and "(o1, s) \<in> set (zip outs ss)"
    and "s = 1 \<or> s = 2" and "o1 \<in> set (tracked_outputs w)" and "\<not> spent o1"
    and "distinct (map outpoint_of outs)"
  shows "outpoint_of o1 \<in> set (w_quarantine w')"
proof -
  have same: "s2 = s" if z: "(o2, s2) \<in> set (zip outs ss)" and k: "outpoint_of o2 = outpoint_of o1" for o2 s2
  proof -
    obtain i where i: "i < length outs" "outs ! i = o1" "ss ! i = s" "i < length ss"
      using assms(2) by (auto simp: set_zip)
    obtain j where j: "j < length outs" "outs ! j = o2" "ss ! j = s2" "j < length ss"
      using z by (auto simp: set_zip)
    have "i = j"
      using assms(6) i j k by (metis (no_types, lifting) length_map nth_eq_iff_index_eq nth_map)
    with i j show ?thesis by simp
  qed
  have nonzero: "\<forall>(o2, s2) \<in> set (zip outs ss). outpoint_of o2 = outpoint_of o1 \<longrightarrow> s2 \<noteq> 0"
  proof
    fix p assume "p \<in> set (zip outs ss)"
    then show "case p of (o2, s2) \<Rightarrow> outpoint_of o2 = outpoint_of o1 \<longrightarrow> s2 \<noteq> 0"
      using same [of "fst p" "snd p"] assms(3) by (auto split: prod.split)
  qed
  have "(tx_hash o1, index_in_tx o1, key_image o1) \<in>
      set (hs_of_list (map (\<lambda>o1. (tx_hash o1, index_in_tx o1, key_image o1))
             (filter (\<lambda>o1. \<not> spent o1) (tracked_outputs w))))"
    using assms(4,5) by (simp add: rev_image_eqI)
  from status_fold_inserts [OF assms(2,3) this disjI2 [OF nonzero]] show ?thesis
    unfolding apply_statuses_quarantine(1) [OF assms(1)] .
qed

end
