(* ===== verification/Wallet_Api.thy ===== *)
theory Wallet_Api
  imports Input_Policy
begin

text \<open>
  The C entry points on the in-memory wallet (\<open>lib.rs\<close>, \<open>ffi/transfers.rs\<close>,
  \<open>ffi/history.rs\<close>, the status calls of \<open>ffi/refresh.rs\<close>): argument checks, locking, the error
  codes and messages, and the state change. Each entry is the \<open>_ffi_impl\<close> body; the exported
  symbol wraps it in \<open>guard\<close>. An out-pointer is a flag telling whether it is non-null, and what
  the call writes through it is part of the result.
\<close>

section \<open>Arguments and store access\<close>

text \<open>The check every handler starts with: null, then UTF-8, then trimming. The two failures carry
  their own codes and messages.\<close>

definition id_arg :: "int \<times> string \<Rightarrow> int \<times> string \<Rightarrow> cptr \<Rightarrow> (int \<times> string) + string" where
  "id_arg on_null on_utf8 p =
     (case p of
        CNull \<Rightarrow> Inl on_null
      | CStr s \<Rightarrow> (case cstr_to_str s of None \<Rightarrow> Inl on_utf8 | Some t \<Rightarrow> Inr (trim t)))"

definition err :: "'o \<Rightarrow> int \<times> string \<Rightarrow> (int \<times> 'o) call" where
  "err out e w = (Value (fst e, out), set_last_error (snd e) w)"

definition put_wallet :: "string \<Rightarrow> stored_wallet \<Rightarrow> world \<Rightarrow> world" where
  "put_wallet i st w = w\<lparr>wd_store := hm_insert i st (wd_store w)\<rparr>"

definition remove_wallet :: "string \<Rightarrow> world \<Rightarrow> world" where
  "remove_wallet i w = w\<lparr>wd_store := hm_remove i (wd_store w)\<rparr>"

text \<open>Lock the store and look the wallet up; \<open>missing\<close> is the branch for a wallet not opened.\<close>

definition on_wallet :: "string \<Rightarrow> 'a call \<Rightarrow> (stored_wallet \<Rightarrow> 'a call) \<Rightarrow> 'a call" where
  "on_wallet i missing f =
     lock_store (\<lambda>w. case map_of (wd_store w) i of None \<Rightarrow> missing w | Some st \<Rightarrow> f st w)"

definition not_opened :: "string \<Rightarrow> string \<Rightarrow> int \<times> string" where
  "not_opened operation i = (-13, operation @ '': wallet '' @ [CHR 39] @ i @ [CHR 39] @ '' not opened'')"

definition timed_out :: "string \<Rightarrow> string \<Rightarrow> int \<times> string" where
  "timed_out operation i =
     (-31, operation @ '': timed out waiting for wallet '' @ [CHR 39] @ i @ [CHR 39] @ '' operations to stop'')"

definition busy :: "string \<Rightarrow> string \<Rightarrow> string \<Rightarrow> int \<times> string" where
  "busy operation what i =
     (-31, operation @ '': refresh '' @ what @ '' running for wallet '' @ [CHR 39] @ i @ [CHR 39])"

text \<open>\<open>match ... { Ok(code) => code, Err(()) => record_error(...) }\<close>.\<close>

definition or_else :: "int \<times> string \<Rightarrow> (unit + int \<times> unit) call \<Rightarrow> (int \<times> unit) call" where
  "or_else e f w =
     (case f w of
        (Value (Inr v), w') \<Rightarrow> (Value v, w')
      | (Value (Inl _), w') \<Rightarrow> err () e w'
      | (Panic, w') \<Rightarrow> (Panic, w'))"

section \<open>Lifecycle\<close>

definition lifecycle_wallet_id :: "cptr \<Rightarrow> string \<Rightarrow> (int \<times> string) + string" where
  "lifecycle_wallet_id p operation =
     (case id_arg (-11, operation @ '': wallet_id pointer was null'')
             (-10, operation @ '': wallet_id contained invalid UTF-8'') p of
        Inl e \<Rightarrow> Inl e
      | Inr i \<Rightarrow> if i = [] then Inl (-14, operation @ '': wallet_id was empty'') else Inr i)"

definition wallet_seal_ffi_impl ::
    "crypto \<Rightarrow> (u64 \<Rightarrow> wait_obs) \<Rightarrow> cptr \<Rightarrow> u64 \<Rightarrow> (int \<times> unit) call" where
  "wallet_seal_ffi_impl cr obs wallet_id timeout_ms w0 =
     (let w = clear_last_error w0 in
      case lifecycle_wallet_id wallet_id ''wallet_seal'' of
        Inl e \<Rightarrow> err () e w
      | Inr i \<Rightarrow>
          or_else (timed_out ''wallet_seal'' i)
            (with_wallet_lifecycle_exclusion i (obs (lifecycle_wait_timeout timeout_ms))
              (on_wallet i (err () (not_opened ''wallet_seal'' i))
                (\<lambda>st w. (Value (0, ()), clear_last_error (put_wallet i (seal_wallet cr st) w)))))
            (set_refresh_cancel_for_wallet i True w))"

definition master_keys_from_mnemonic_ptr :: "crypto \<Rightarrow> cptr \<Rightarrow> int + master_keys" where
  "master_keys_from_mnemonic_ptr cr p =
     (case p of
        CNull \<Rightarrow> Inl (-11)
      | CStr s \<Rightarrow>
          (case cstr_to_str s of None \<Rightarrow> Inl (-10) | Some m \<Rightarrow> master_keys_from_mnemonic_str cr m))"

definition wallet_unseal_from_mnemonic_ffi_impl ::
    "crypto \<Rightarrow> (u64 \<Rightarrow> wait_obs) \<Rightarrow> cptr \<Rightarrow> cptr \<Rightarrow> u64 \<Rightarrow> (int \<times> unit) call" where
  "wallet_unseal_from_mnemonic_ffi_impl cr obs wallet_id mnemonic_ptr timeout_ms w0 =
     (let w = clear_last_error w0; nm = ''wallet_unseal_from_mnemonic'' in
      case lifecycle_wallet_id wallet_id nm of
        Inl e \<Rightarrow> err () e w
      | Inr i \<Rightarrow>
          (case master_keys_from_mnemonic_ptr cr mnemonic_ptr of
             Inl code \<Rightarrow> err () (code, ''wallet_unseal_from_mnemonic: invalid mnemonic'') w
           | Inr keys \<Rightarrow>
               (case or_else (timed_out nm i)
                  (with_wallet_lifecycle_exclusion i (obs (lifecycle_wait_timeout timeout_ms))
                    (on_wallet i (err () (not_opened nm i))
                      (\<lambda>st w. case restore_spend_authority cr st keys of
                         (Inr _, st') \<Rightarrow> (Value (0, ()), clear_last_error (put_wallet i st' w))
                       | (Inl message, st') \<Rightarrow> err () (-16, message) (put_wallet i st' w))))
                  (set_refresh_cancel_for_wallet i True w) of
                  (Value (result, _), w2) \<Rightarrow>
                    (Value (result, ()), if result = 0 then set_refresh_cancel_for_wallet i False w2 else w2)
                | (Panic, w2) \<Rightarrow> (Panic, w2))))"

definition wallet_close_ffi_impl :: "(u64 \<Rightarrow> wait_obs) \<Rightarrow> cptr \<Rightarrow> u64 \<Rightarrow> (int \<times> unit) call" where
  "wallet_close_ffi_impl obs wallet_id timeout_ms w0 =
     (let w = clear_last_error w0 in
      case lifecycle_wallet_id wallet_id ''wallet_close'' of
        Inl e \<Rightarrow> err () e w
      | Inr i \<Rightarrow>
          or_else (timed_out ''wallet_close'' i)
            (with_wallet_lifecycle_exclusion i (obs (lifecycle_wait_timeout timeout_ms))
              (on_wallet i (err () (not_opened ''wallet_close'' i))
                (\<lambda>st w. (Value (0, ()), clear_last_error (remove_wallet i w)))))
            (set_refresh_cancel_for_wallet i True w))"

definition wallet_is_sealed_ffi_impl :: "cptr \<Rightarrow> bool \<Rightarrow> (int \<times> bool option) call" where
  "wallet_is_sealed_ffi_impl wallet_id has_out w0 =
     (let w = clear_last_error w0 in
      if \<not> has_out then err None (-11, ''wallet_is_sealed: out_sealed pointer was null'') w
      else (case lifecycle_wallet_id wallet_id ''wallet_is_sealed'' of
              Inl e \<Rightarrow> err None e w
            | Inr i \<Rightarrow>
                on_wallet i (err None (not_opened ''wallet_is_sealed'' i))
                  (\<lambda>st w. (Value (0, Some (is_sealed (w_keys st))), w)) w))"

definition wallet_refresh_cancel_ffi_impl :: "cptr \<Rightarrow> (int \<times> unit) call" where
  "wallet_refresh_cancel_ffi_impl wallet_id w0 =
     (let w = clear_last_error w0 in
      case id_arg (-11, ''wallet_refresh_cancel: wallet_id pointer was null'')
             (-10, ''wallet_refresh_cancel: wallet_id contained invalid UTF-8'') wallet_id of
        Inl e \<Rightarrow> err () e w
      | Inr i \<Rightarrow>
          if i = [] then err () (-14, ''wallet_refresh_cancel: wallet_id was empty'') w
          else (Value (0, ()), set_refresh_cancel_for_wallet i True w))"

definition wallet_open_from_mnemonic_ffi_impl ::
    "crypto \<Rightarrow> cptr \<Rightarrow> cptr \<Rightarrow> u64 \<Rightarrow> nat \<Rightarrow> (int \<times> unit) call" where
  "wallet_open_from_mnemonic_ffi_impl cr wallet_id mnemonic_ptr restore_height is_mainnet w =
     (case (wallet_id, mnemonic_ptr) of
        (CStr ib, CStr mb) \<Rightarrow>
          (case (cstr_to_str ib, cstr_to_str mb) of
             (Some it, Some mt) \<Rightarrow>
               (let i = trim it; mnemonic = trim mt in
                if i = [] \<or> mnemonic = [] then (Value (-10, ()), w)
                else (case master_keys_from_mnemonic_str cr mnemonic of
                        Inl _ \<Rightarrow> (Value (-10, ()), w)
                      | Inr keys \<Rightarrow>
                          (let net = (if is_mainnet \<noteq> 0 then Mainnet else Stagenet) in
                           or_else (busy ''wallet_open_from_mnemonic'' ''already'' i)
                             (with_refresh_stopped i
                               (on_wallet i
                                 (\<lambda>w. (Value (0, ()), put_wallet i (new_wallet keys restore_height net) w))
                                 (\<lambda>st w.
                                    if w_network st \<noteq> net
                                    then err () (-16, ''wallet_open_from_mnemonic: network does not match the open wallet'') w
                                    else (case reopen_wallet cr keys restore_height st of
                                            (Inl message, st') \<Rightarrow> err () (-16, message) (put_wallet i st' w)
                                          | (Inr _, st') \<Rightarrow> (Value (0, ()), put_wallet i st' w)))))
                             w)))
           | _ \<Rightarrow> (Value (-10, ()), w))
      | _ \<Rightarrow> (Value (-11, ()), w))"

section \<open>Coverage and rescans\<close>

definition wallet_set_gap_limit_ffi_impl :: "cptr \<Rightarrow> u32 \<Rightarrow> (int \<times> unit) call" where
  "wallet_set_gap_limit_ffi_impl wallet_id gap_limit w0 =
     (let w = clear_last_error w0; nm = ''wallet_set_gap_limit'' in
      case id_arg (-11, ''wallet_set_gap_limit: wallet_id pointer was null'')
             (-10, ''wallet_set_gap_limit: wallet_id contained invalid UTF-8'') wallet_id of
        Inl e \<Rightarrow> err () e w
      | Inr i \<Rightarrow>
          if 100000 < gap_limit
          then err () (-10, ''wallet_set_gap_limit: scan coverage exceeds 100000 subaddresses'') w
          else
            let normalized = max gap_limit 1 in
            if wd_store_poisoned w then (Panic, w)
            else if (case map_of (wd_store w) i of None \<Rightarrow> False | Some st \<Rightarrow> normalized \<le> w_gap_limit st)
            then (Value (0, ()), w)
            else
              or_else (busy nm ''already'' i)
                (with_refresh_stopped i
                  (on_wallet i (err () (not_opened nm i))
                    (\<lambda>st w. (Value (0, ()), clear_last_error (put_wallet i (expand_scan_coverage normalized st) w)))))
                w)"

definition wallet_rewind_scan_cursor_to_height_ffi_impl :: "cptr \<Rightarrow> u64 \<Rightarrow> (int \<times> unit) call" where
  "wallet_rewind_scan_cursor_to_height_ffi_impl wallet_id target_height w0 =
     (let w = clear_last_error w0; nm = ''wallet_rewind_scan_cursor_to_height'' in
      case id_arg (-11, ''wallet_rewind_scan_cursor_to_height: wallet_id pointer was null'')
             (-10, ''wallet_rewind_scan_cursor_to_height: invalid wallet_id utf8'') wallet_id of
        Inl e \<Rightarrow> err () e w
      | Inr i \<Rightarrow>
          or_else (busy nm ''still'' i)
            (with_refresh_stopped i
              (on_wallet i (err () (not_opened nm i))
                (\<lambda>st w.
                   if w_last_scanned st < target_height
                   then err () (-11, ''wallet_rewind_scan_cursor_to_height: target would advance the scan cursor'') w
                   else (Value (0, ()), clear_last_error (put_wallet i (rewind_scan_cursor target_height st) w)))))
            w)"

definition wallet_force_rescan_from_height_ffi_impl :: "cptr \<Rightarrow> u64 \<Rightarrow> (int \<times> unit) call" where
  "wallet_force_rescan_from_height_ffi_impl wallet_id new_restore_height w0 =
     (let w = clear_last_error w0; nm = ''wallet_force_rescan_from_height'' in
      case id_arg (-11, ''wallet_force_rescan_from_height: wallet_id pointer was null'')
             (-10, ''wallet_force_rescan_from_height: wallet_id contained invalid UTF-8'') wallet_id of
        Inl e \<Rightarrow> err () e w
      | Inr i \<Rightarrow>
          or_else (busy nm ''still'' i)
            (with_refresh_stopped i
              (on_wallet i (err () (not_opened nm i))
                (\<lambda>st w. (Value (0, ()), clear_last_error (put_wallet i (force_rescan new_restore_height st) w)))))
            w)"

definition wallet_reset_tracked_outputs_ffi_impl :: "cptr \<Rightarrow> (int \<times> unit) call" where
  "wallet_reset_tracked_outputs_ffi_impl wallet_id w0 =
     (let w = clear_last_error w0; nm = ''wallet_reset_tracked_outputs'' in
      case id_arg (-11, ''wallet_reset_tracked_outputs: wallet_id pointer was null'')
             (-10, ''wallet_reset_tracked_outputs: wallet_id contained invalid UTF-8'') wallet_id of
        Inl e \<Rightarrow> err () e w
      | Inr i \<Rightarrow>
          or_else (busy nm ''still'' i)
            (with_refresh_stopped i
              (on_wallet i (err () (not_opened nm i))
                (\<lambda>st w. (Value (0, ()), clear_last_error (put_wallet i (reset_tracked_outputs st) w)))))
            w)"

section \<open>Balances and status\<close>

definition wallet_get_balance_ffi_impl :: "cptr \<Rightarrow> bool \<Rightarrow> bool \<Rightarrow> (int \<times> (u64 \<times> u64) option) call" where
  "wallet_get_balance_ffi_impl wallet_id has_total has_unlocked w =
     (case wallet_id of
        CNull \<Rightarrow> (Value (-11, None), w)
      | CStr s \<Rightarrow>
          if \<not> has_total \<or> \<not> has_unlocked then (Value (-11, None), w)
          else (case cstr_to_str s of
                  None \<Rightarrow> (Value (-11, None), w)
                | Some t \<Rightarrow>
                    on_wallet (trim t) (\<lambda>w. (Value (-13, None), w))
                      (\<lambda>st w. (Value (0, Some (w_total st, unlocked_balance st None)), w)) w))"

text \<open>\<open>parse_filter\<close> is the JSON decoder of the filter object; its error is the decoder's text.\<close>

definition filter_keeps :: "u32 option option \<Rightarrow> tracked_output \<Rightarrow> bool" where
  "filter_keeps f o1 =
     (case f of
        Some (Some minor) \<Rightarrow> subaddress_major o1 = 0 \<and> subaddress_minor o1 = minor
      | _ \<Rightarrow> True)"

definition filtered_balance_step ::
    "stored_wallet \<Rightarrow> u32 option option \<Rightarrow> u64 \<times> u64 \<Rightarrow> tracked_output \<Rightarrow> u64 \<times> u64" where
  "filtered_balance_step st f acc o1 =
     (case acc of (tot, unl) \<Rightarrow>
        if \<not> filter_keeps f o1 \<or> spent o1 then (tot, unl)
        else (sat_add tot (amount o1),
              if is_unlocked o1 (w_chain_height st) (w_chain_time st) \<and>
                 outpoint_of o1 \<notin> set (w_quarantine st)
              then sat_add unl (amount o1) else unl))"

definition filtered_balance :: "stored_wallet \<Rightarrow> u32 option option \<Rightarrow> u64 \<times> u64" where
  "filtered_balance st f = foldl (filtered_balance_step st f) (0, 0) (tracked_outputs st)"

definition wallet_get_balance_with_filter_ffi_impl ::
    "(string \<Rightarrow> string + u32 option) \<Rightarrow> cptr \<Rightarrow> cptr \<Rightarrow> bool \<Rightarrow> bool \<Rightarrow>
     (int \<times> (u64 \<times> u64) option) call" where
  "wallet_get_balance_with_filter_ffi_impl parse_filter wallet_id filter_json has_total has_unlocked w0 =
     (let w = clear_last_error w0; nm = ''wallet_get_balance_with_filter'' in
      if wallet_id = CNull \<or> \<not> has_total \<or> \<not> has_unlocked
      then err None (-11, ''wallet_get_balance_with_filter: null argument(s)'') w
      else
        (case id_arg (-11, []) (-10, ''wallet_get_balance_with_filter: wallet_id contained invalid UTF-8'') wallet_id of
           Inl e \<Rightarrow> err None e w
         | Inr i \<Rightarrow>
             let text = (case filter_json of CNull \<Rightarrow> None | CStr s \<Rightarrow> cstr_to_str s);
                 parsed = (case text of
                             None \<Rightarrow> Inr None
                           | Some s \<Rightarrow> if trim s = [] then Inr None
                                      else (case parse_filter s of Inl e \<Rightarrow> Inl e | Inr f \<Rightarrow> Inr (Some f))) in
             (case parsed of
                Inl e \<Rightarrow> err None (-10, ''wallet_get_balance_with_filter: invalid filter JSON ('' @ e @ '')'') w
              | Inr f \<Rightarrow>
                  on_wallet i (err None (not_opened nm i))
                    (\<lambda>st w. (Value (0, Some (filtered_balance st f)), clear_last_error w)) w)))"

record sync_status =
  ss_chain_height :: u64
  ss_chain_time :: u64
  ss_last_refresh_timestamp :: u64
  ss_last_scanned :: u64
  ss_restore_height :: u64

text \<open>Each value is written only through a non-null pointer; the result holds all five.\<close>

definition wallet_sync_status_ffi_impl :: "cptr \<Rightarrow> (int \<times> sync_status option) call" where
  "wallet_sync_status_ffi_impl wallet_id w0 =
     (let w = clear_last_error w0 in
      case id_arg (-11, ''wallet_sync_status: wallet_id pointer was null'')
             (-10, ''wallet_sync_status: wallet_id contained invalid UTF-8'') wallet_id of
        Inl e \<Rightarrow> err None e w
      | Inr i \<Rightarrow>
          on_wallet i (err None (not_opened ''wallet_sync_status'' i))
            (\<lambda>st w. (Value (0, Some \<lparr>ss_chain_height = w_chain_height st, ss_chain_time = w_chain_time st,
               ss_last_refresh_timestamp = w_last_refresh_timestamp st,
               ss_last_scanned = w_last_scanned st, ss_restore_height = w_restore_height st\<rparr>), w)) w)"

text \<open>The string-returning calls give \<open>None\<close> for a null pointer. Rendering to JSON is the
  serializer's; the value rendered is the result here.\<close>

definition wallet_refresh_job_status_json_ffi_impl :: "cptr \<Rightarrow> (string \<times> string option) option call" where
  "wallet_refresh_job_status_json_ffi_impl wallet_id w0 =
     (let w = clear_last_error w0; nm = ''wallet_refresh_job_status_json'' in
      case id_arg (-11, nm @ '': wallet_id pointer was null'')
             (-10, nm @ '': wallet_id contained invalid UTF-8'') wallet_id of
        Inl e \<Rightarrow> (Value None, set_last_error (snd e) w)
      | Inr i \<Rightarrow>
          if i = [] then (Value None, set_last_error (nm @ '': wallet_id was empty'') w)
          else (Value (Some (job_state_name (refresh_job i w))), w))"

definition walletcore_last_error_message_ffi_impl :: "string option call" where
  "walletcore_last_error_message_ffi_impl w =
     (Value (map_option (\<lambda>text. if CHR 0x00 \<in> set text then ''error message encoding failure'' else text)
        (wd_last_error w)), w)"

section \<open>Listing\<close>

record outputs_envelope =
  oe_wallet_id :: string
  oe_restore_height :: u64
  oe_last_scanned_height :: u64
  oe_chain_height :: u64
  oe_chain_time :: u64
  oe_outputs :: "observed_output list"

definition wallet_export_outputs_json_ffi_impl :: "cptr \<Rightarrow> outputs_envelope option call" where
  "wallet_export_outputs_json_ffi_impl wallet_id w0 =
     (let w = clear_last_error w0; nm = ''wallet_export_outputs_json'' in
      case id_arg (-11, nm @ '': invalid wallet_id'') (-10, nm @ '': invalid wallet_id utf8'') wallet_id of
        Inl e \<Rightarrow> (Value None, set_last_error (snd e) w)
      | Inr i \<Rightarrow>
          on_wallet i (\<lambda>w. (Value None, set_last_error (snd (not_opened nm i)) w))
            (\<lambda>st w. (Value (Some \<lparr>oe_wallet_id = i, oe_restore_height = w_restore_height st,
               oe_last_scanned_height = w_last_scanned st, oe_chain_height = w_chain_height st,
               oe_chain_time = w_chain_time st,
               oe_outputs = map (\<lambda>o1. from_tracked o1 (w_chain_height st) (w_chain_time st)) (tracked_outputs st)\<rparr>),
               clear_last_error w)) w)"

record transfers_envelope =
  te_schema_version :: u32
  te_wallet_id :: string
  te_last_scanned_height :: u64
  te_chain_height :: u64
  te_chain_time :: u64
  te_transfers :: "transfer list"

definition TRANSFER_HISTORY_SCHEMA_VERSION :: nat where
  "TRANSFER_HISTORY_SCHEMA_VERSION = 1"

definition wallet_list_transfers_json_ffi_impl :: "cptr \<Rightarrow> transfers_envelope option call" where
  "wallet_list_transfers_json_ffi_impl wallet_id w0 =
     (let w = clear_last_error w0; nm = ''wallet_list_transfers_json'' in
      case id_arg (-11, nm @ '': invalid wallet_id'') (-10, nm @ '': invalid wallet_id utf8'') wallet_id of
        Inl e \<Rightarrow> (Value None, set_last_error (snd e) w)
      | Inr i \<Rightarrow>
          on_wallet i (\<lambda>w. (Value None, set_last_error (snd (not_opened nm i)) w))
            (\<lambda>st w. (Value (Some \<lparr>te_schema_version = TRANSFER_HISTORY_SCHEMA_VERSION, te_wallet_id = i,
               te_last_scanned_height = w_last_scanned st, te_chain_height = w_chain_height st,
               te_chain_time = w_chain_time st,
               te_transfers = list_transfer_rows (w_tx_ledger st) (w_chain_height st)\<rparr>),
               clear_last_error w)) w)"

text \<open>\<open>query_history\<close>: the cached index is reused while identity and ledger content are the
  same (as maps: hash-map equality ignores order), and replaced otherwise.\<close>

definition same_ledger :: "ledger \<Rightarrow> ledger \<Rightarrow> bool" where
  "same_ledger a b \<longleftrightarrow> length a = length b \<and> list_all (\<lambda>(k, v). map_of b k = Some v) a"

definition query_history ::
    "crypto \<Rightarrow> string \<Rightarrow> history_query \<Rightarrow> world \<Rightarrow> (string + history_page) \<times> world" where
  "query_history cr i q w =
     (if wd_store_poisoned w then (Inl ''wallet store unavailable'', w)
      else (case map_of (wd_store w) i of
              None \<Rightarrow> (Inl ''wallet not opened'', w)
            | Some st \<Rightarrow>
                let identity = wallet_cache_binding cr st;
                    reuse = (case w_history_index st of
                               None \<Rightarrow> None
                             | Some ix \<Rightarrow>
                                 if hi_identity ix = identity \<and> same_ledger (hi_ledger ix) (w_tx_ledger st)
                                 then Some ix else None);
                    (index, w') =
                      (case reuse of
                         Some ix \<Rightarrow> (ix, w)
                       | None \<Rightarrow>
                           let (ix, rev) = new_history_index identity (w_tx_ledger st) (wd_next_revision w) in
                           (ix, (put_wallet i (st\<lparr>w_history_index := Some ix\<rparr>) w)\<lparr>wd_next_revision := rev\<rparr>)) in
                (history_index_query index i q (w_last_scanned st) (w_chain_height st) (w_chain_time st), w')))"

definition wallet_query_transfers_json_ffi_impl ::
    "crypto \<Rightarrow> (string \<Rightarrow> string + history_query) \<Rightarrow> cptr \<Rightarrow> cptr \<Rightarrow> history_page option call" where
  "wallet_query_transfers_json_ffi_impl cr parse_query wallet_id query_json w0 =
     (let w = clear_last_error w0;
          (result, w1) =
            (case (wallet_id, query_json) of
               (CStr ib, CStr qb) \<Rightarrow>
                 (case cstr_to_str ib of
                    None \<Rightarrow> (Inl ''invalid wallet id'', w)
                  | Some i \<Rightarrow>
                      (case cstr_to_str qb of
                         None \<Rightarrow> (Inl ''invalid query utf8'', w)
                       | Some qt \<Rightarrow>
                           if 4096 < length qt then (Inl ''invalid_history_query: request too large'', w)
                           else (case parse_query qt of
                                   Inl e \<Rightarrow> (Inl (''invalid_history_query: '' @ e), w)
                                 | Inr q \<Rightarrow> query_history cr i q w)))
             | _ \<Rightarrow> (Inl ''invalid_history_query: null argument'', w)) in
      case result of
        Inr page \<Rightarrow> (Value (Some page), w1)
      | Inl e \<Rightarrow> (Value None, set_last_error e w1))"

section \<open>Addresses\<close>

text \<open>\<open>write_address_to_buf\<close>: \<open>Some (text, n)\<close> is what is written to the buffer (without the
  terminating zero) and through \<open>out_written\<close>; a refused call writes the empty string when the
  buffer has room for the terminator.\<close>

definition write_address_to_buf :: "string \<Rightarrow> bool \<Rightarrow> usize \<Rightarrow> int \<times> string option \<times> usize" where
  "write_address_to_buf address has_buf out_buf_len =
     (let needed = length address in
      if \<not> has_buf \<or> out_buf_len = 0 \<or> out_buf_len < needed + 1
      then (-12, if has_buf \<and> 0 < out_buf_len then Some [] else None, 0)
      else (0, Some address, needed))"

definition wallet_derive_address_from_seed_ffi_impl ::
    "crypto \<Rightarrow> bytes option \<Rightarrow> nat \<Rightarrow> u32 \<Rightarrow> u32 \<Rightarrow> bool \<Rightarrow> usize \<Rightarrow> int \<times> string option \<times> usize" where
  "wallet_derive_address_from_seed_ffi_impl cr seed is_mainnet account_index subaddress_index has_buf out_buf_len =
     (case master_keys_from_seed_bytes cr seed of
        Inl code \<Rightarrow> (code, if has_buf \<and> 0 < out_buf_len then Some [] else None, 0)
      | Inr k \<Rightarrow>
          write_address_to_buf
            (derive_address_string cr (Unsealed k) account_index subaddress_index (network_from_flag is_mainnet))
            has_buf out_buf_len)"

definition wallet_derive_subaddress_from_mnemonic_ffi_impl ::
    "crypto \<Rightarrow> cptr \<Rightarrow> u32 \<Rightarrow> u32 \<Rightarrow> nat \<Rightarrow> bool \<Rightarrow> usize \<Rightarrow> int \<times> string option \<times> usize" where
  "wallet_derive_subaddress_from_mnemonic_ffi_impl cr mnemonic account_index subaddress_index is_mainnet has_buf out_buf_len =
     (case master_keys_from_mnemonic_ptr cr mnemonic of
        Inl code \<Rightarrow> (code, if has_buf \<and> 0 < out_buf_len then Some [] else None, 0)
      | Inr k \<Rightarrow>
          write_address_to_buf
            (derive_address_string cr (Unsealed k) account_index subaddress_index (network_from_flag is_mainnet))
            has_buf out_buf_len)"

end
