(* ===== verification/Api_Invariants.thy ===== *)
theory Api_Invariants
  imports Wallet_Api
begin

text \<open>
  What the C entry points keep: a property of wallets that every state transformation preserves is
  a property of every reachable store (locale \<open>wallet_inv\<close>, interpreted on well-formedness and on
  the rescan marker), mutations are refused while a refresh owns the wallet, and a poisoned store
  fails closed.
\<close>

section \<open>Calls that keep an invariant of the store\<close>

definition store_all :: "(stored_wallet \<Rightarrow> bool) \<Rightarrow> world \<Rightarrow> bool" where
  "store_all q w \<longleftrightarrow> (\<forall>i st. map_of (wd_store w) i = Some st \<longrightarrow> q st)"

definition keeps :: "(stored_wallet \<Rightarrow> bool) \<Rightarrow> 'a call \<Rightarrow> bool" where
  "keeps q c \<longleftrightarrow> (\<forall>w. store_all q w \<longrightarrow> store_all q (snd (c w)))"

lemma store_all_cong: "wd_store w' = wd_store w \<Longrightarrow> store_all q w' = store_all q w"
  by (simp add: store_all_def)

lemma store_all_simps [simp]:
  "store_all q (set_last_error m w) = store_all q w" "store_all q (clear_last_error w) = store_all q w"
  "store_all q (set_refresh_cancel_for_wallet i b w) = store_all q w"
  "store_all q (w\<lparr>wd_jobs_poisoned := b\<rparr>) = store_all q w"
  "store_all q (w\<lparr>wd_next_revision := n\<rparr>) = store_all q w"
  by (simp_all add: store_all_def)

lemma store_all_put: "store_all q w \<Longrightarrow> q st \<Longrightarrow> store_all q (put_wallet i st w)"
  by (simp add: store_all_def put_wallet_def)

lemma store_all_remove: "store_all q w \<Longrightarrow> store_all q (remove_wallet i w)"
  by (simp add: store_all_def remove_wallet_def)

lemma store_all_get: "store_all q w \<Longrightarrow> map_of (wd_store w) i = Some st \<Longrightarrow> q st"
  by (simp add: store_all_def)

lemma keeps_err: "keeps q (err out e)"
  by (simp add: keeps_def err_def)

lemma keeps_on_wallet:
  assumes "keeps q missing" and "\<And>st w. store_all q w \<Longrightarrow> q st \<Longrightarrow> store_all q (snd (f st w))"
  shows "keeps q (on_wallet i missing f)"
  unfolding keeps_def
proof (intro allI impI)
  fix w assume w: "store_all q w"
  show "store_all q (snd (on_wallet i missing f w))"
  proof (cases "map_of (wd_store w) i")
    case None
    then show ?thesis using assms(1) w by (simp add: on_wallet_def lock_store_def keeps_def)
  next
    case (Some st)
    then show ?thesis
      using assms(2) [OF w store_all_get [OF w Some]] w by (simp add: on_wallet_def lock_store_def)
  qed
qed

lemma keeps_stopped: "keeps q f \<Longrightarrow> keeps q (with_refresh_stopped i f)"
  unfolding keeps_def with_refresh_stopped_def
  by (auto split: prod.split outcome.split)

lemma keeps_or_else: "keeps q f \<Longrightarrow> keeps q (or_else e f)"
  unfolding keeps_def or_else_def
  by (auto simp: err_def split: prod.split outcome.split sum.split)

definition obs_keep :: "(stored_wallet \<Rightarrow> bool) \<Rightarrow> wait_obs \<Rightarrow> bool" where
  "obs_keep q obs \<longleftrightarrow> (\<forall>(z, f, t) \<in> set (ob_wakes obs). \<forall>v. store_all q v \<longrightarrow> store_all q (f v))"

lemma keeps_lifecycle:
  assumes f: "keeps q f" and obs: "obs_keep q obs"
  shows "keeps q (with_wallet_lifecycle_exclusion i obs f)"
  unfolding keeps_def
proof (intro allI impI)
  fix w assume w: "store_all q w"
  obtain b w1 where w1: "lifecycle_wait i (ob_wakes obs) w = (b, w1)" by force
  have "store_all q w1"
    by (rule lifecycle_wait_store [OF w1 obs [unfolded obs_keep_def] w])
  then have fw: "store_all q (snd (f w1))" using f by (simp add: keeps_def)
  obtain r w2 where w2: "f w1 = (r, w2)" by force
  show "store_all q (snd (with_wallet_lifecycle_exclusion i obs f w))"
    using w fw \<open>store_all q w1\<close>
    by (cases b; cases r) (simp_all add: with_wallet_lifecycle_exclusion_def w1 w2)
qed

lemma keeps_guard: "keeps q f \<Longrightarrow> store_all q w \<Longrightarrow> store_all q (snd (guard nm d f w))"
  unfolding keeps_def guard_def
  by (auto split: prod.split outcome.split)

lemmas keeps_rules = keeps_err keeps_on_wallet keeps_stopped keeps_or_else keeps_lifecycle

lemma keeps_apply: "keeps q f \<Longrightarrow> store_all q w \<Longrightarrow> store_all q (snd (f w))"
  by (simp add: keeps_def)

section \<open>The locale of wallet invariants\<close>

locale wallet_inv =
  fixes cr :: crypto and q :: "stored_wallet \<Rightarrow> bool"
  assumes q_new: "q (new_wallet k h n)"
    and q_seal: "q st \<Longrightarrow> q (seal_wallet cr st)"
    and q_restore: "q st \<Longrightarrow> q (snd (restore_spend_authority cr st k))"
    and q_expand: "q st \<Longrightarrow> 1 \<le> c \<Longrightarrow> q (expand_scan_coverage c st)"
    and q_rewind: "q st \<Longrightarrow> q (rewind_scan_cursor t st)"
    and q_rescan: "q st \<Longrightarrow> q (force_rescan h st)"
    and q_reset: "q st \<Longrightarrow> q (reset_tracked_outputs st)"
    and q_lower: "q st \<Longrightarrow> h \<le> w_restore_height st \<Longrightarrow> q (st\<lparr>w_restore_height := h\<rparr>)"
    and q_frame: "q st \<Longrightarrow> q (st\<lparr>w_last_scanned := c1\<rparr>)" "q st \<Longrightarrow> 1 \<le> g \<Longrightarrow> q (st\<lparr>w_gap_limit := g\<rparr>)"
      "q st \<Longrightarrow> q (st\<lparr>w_history_index := ix\<rparr>)"
begin

lemma q_reopen: "q st \<Longrightarrow> q (snd (reopen_wallet cr k h st))"
  using q_restore [of st k]
  by (auto simp: reopen_wallet_def Let_def split: prod.split sum.split intro!: q_frame q_lower)

lemma keeps_seal: "obs_keep q (obs (lifecycle_wait_timeout t)) \<Longrightarrow> keeps q (wallet_seal_ffi_impl cr obs p t)"
  unfolding keeps_def wallet_seal_ffi_impl_def Let_def
  by (auto split: sum.split simp: err_def
      intro!: keeps_apply [OF keeps_or_else] keeps_rules store_all_put q_seal)

lemma keeps_close: "obs_keep q (obs (lifecycle_wait_timeout t)) \<Longrightarrow> keeps q (wallet_close_ffi_impl obs p t)"
  unfolding keeps_def wallet_close_ffi_impl_def Let_def
  by (auto split: sum.split simp: err_def
      intro!: keeps_apply [OF keeps_or_else] keeps_rules store_all_remove)

lemma keeps_gap: "keeps q (wallet_set_gap_limit_ffi_impl p g)"
  unfolding keeps_def wallet_set_gap_limit_ffi_impl_def Let_def
  by (auto split: sum.split simp: err_def
      intro!: keeps_apply [OF keeps_or_else] keeps_rules store_all_put q_expand)

lemma keeps_rewind: "keeps q (wallet_rewind_scan_cursor_to_height_ffi_impl p t)"
  unfolding keeps_def wallet_rewind_scan_cursor_to_height_ffi_impl_def Let_def
  by (auto split: sum.split simp: err_def
      intro!: keeps_apply [OF keeps_or_else] keeps_rules store_all_put q_rewind)

lemma keeps_rescan: "keeps q (wallet_force_rescan_from_height_ffi_impl p h)"
  unfolding keeps_def wallet_force_rescan_from_height_ffi_impl_def Let_def
  by (auto split: sum.split simp: err_def
      intro!: keeps_apply [OF keeps_or_else] keeps_rules store_all_put q_rescan)

lemma keeps_reset: "keeps q (wallet_reset_tracked_outputs_ffi_impl p)"
  unfolding keeps_def wallet_reset_tracked_outputs_ffi_impl_def Let_def
  by (auto split: sum.split simp: err_def
      intro!: keeps_apply [OF keeps_or_else] keeps_rules store_all_put q_reset)

lemma keeps_unseal_body:
  "keeps q (on_wallet i (err () e) (\<lambda>st w. case restore_spend_authority cr st keys of
     (Inr _, st') \<Rightarrow> (Value (0, ()), clear_last_error (put_wallet i st' w))
   | (Inl message, st') \<Rightarrow> err () (-16, message) (put_wallet i st' w)))"
proof (rule keeps_on_wallet [OF keeps_err])
  fix st w assume "store_all q w" "q st"
  then have "store_all q (put_wallet i (snd (restore_spend_authority cr st keys)) w)"
    by (intro store_all_put q_restore)
  then show "store_all q (snd (case restore_spend_authority cr st keys of
     (Inr _, st') \<Rightarrow> (Value (0, ()), clear_last_error (put_wallet i st' w))
   | (Inl message, st') \<Rightarrow> err () (-16, message) (put_wallet i st' w)))"
    by (auto simp: err_def split: prod.split sum.split)
qed

lemma keeps_unseal:
  assumes "obs_keep q (obs (lifecycle_wait_timeout t))"
  shows "keeps q (wallet_unseal_from_mnemonic_ffi_impl cr obs p m t)"
  unfolding keeps_def
proof (intro allI impI)
  fix w0 assume w0: "store_all q w0"
  show "store_all q (snd (wallet_unseal_from_mnemonic_ffi_impl cr obs p m t w0))"
  proof (cases "lifecycle_wallet_id p ''wallet_unseal_from_mnemonic''")
    case (Inl e)
    then show ?thesis using w0 by (simp add: wallet_unseal_from_mnemonic_ffi_impl_def err_def)
  next
    case id: (Inr i)
    show ?thesis
    proof (cases "master_keys_from_mnemonic_ptr cr m")
      case (Inl c)
      with id show ?thesis using w0 by (simp add: wallet_unseal_from_mnemonic_ffi_impl_def err_def)
    next
      case (Inr keys)
      let ?f = "or_else (timed_out ''wallet_unseal_from_mnemonic'' i)
                  (with_wallet_lifecycle_exclusion i (obs (lifecycle_wait_timeout t))
                    (on_wallet i (err () (not_opened ''wallet_unseal_from_mnemonic'' i))
                      (\<lambda>st w. case restore_spend_authority cr st keys of
                         (Inr _, st') \<Rightarrow> (Value (0, ()), clear_last_error (put_wallet i st' w))
                       | (Inl message, st') \<Rightarrow> err () (-16, message) (put_wallet i st' w))))"
      have "keeps q ?f" using assms by (intro keeps_or_else keeps_lifecycle keeps_unseal_body)
      then have kept: "store_all q (snd (?f (set_refresh_cancel_for_wallet i True (clear_last_error w0))))"
        using w0 by (intro keeps_apply) simp_all
      obtain r w2 where f: "?f (set_refresh_cancel_for_wallet i True (clear_last_error w0)) = (r, w2)"
        by (rule prod.exhaust)
      from kept f have "store_all q w2" by simp
      then show ?thesis
        by (cases r) (simp_all add: wallet_unseal_from_mnemonic_ffi_impl_def Let_def id Inr f
            split: prod.split)
    qed
  qed
qed

lemma keeps_open_body:
  "keeps q (on_wallet i
     (\<lambda>w. (Value (0, ()), put_wallet i (new_wallet keys h net) w))
     (\<lambda>st w. if w_network st \<noteq> net then err () e w
        else (case reopen_wallet cr keys h st of
                (Inl message, st') \<Rightarrow> err () (-16, message) (put_wallet i st' w)
              | (Inr _, st') \<Rightarrow> (Value (0, ()), put_wallet i st' w))))"
proof (rule keeps_on_wallet)
  show "keeps q (\<lambda>w. (Value (0, ()), put_wallet i (new_wallet keys h net) w))"
    by (simp add: keeps_def store_all_put q_new)
next
  fix st w assume a: "store_all q w" "q st"
  then have "store_all q (put_wallet i (snd (reopen_wallet cr keys h st)) w)"
    by (intro store_all_put q_reopen)
  with a show "store_all q (snd (if w_network st \<noteq> net then err () e w
        else (case reopen_wallet cr keys h st of
                (Inl message, st') \<Rightarrow> err () (-16, message) (put_wallet i st' w)
              | (Inr _, st') \<Rightarrow> (Value (0, ()), put_wallet i st' w))))"
    by (auto simp: err_def split: prod.split sum.split)
qed

lemma keeps_open: "keeps q (wallet_open_from_mnemonic_ffi_impl cr p m h n)"
  unfolding keeps_def wallet_open_from_mnemonic_ffi_impl_def Let_def
  by (auto split: cptr.split option.split sum.split
      intro!: keeps_apply [OF keeps_or_else] keeps_stopped keeps_open_body)

end

section \<open>Interpretations\<close>

lemma new_wallet_wf: "wallet_wf (new_wallet k h n)"
  by (simp add: new_wallet_def wallet_unfold unspent_amounts_def)

lemma restore_authority_snd_wf: "wallet_wf st \<Longrightarrow> wallet_wf (snd (restore_spend_authority cr st k))"
  by (cases "restore_spend_authority cr st k") (auto intro: restore_authority_wf)

interpretation inv_wf: wallet_inv cr wallet_wf for cr
proof
  show "wallet_wf (new_wallet k h n)" for k h n by (rule new_wallet_wf)
  show "wallet_wf (snd (restore_spend_authority cr st k))" if "wallet_wf st" for st k
    using that by (rule restore_authority_snd_wf)
  show "wallet_wf (seal_wallet cr st)" if "wallet_wf st" for st using that by (rule seal.op_wf)
  show "wallet_wf (expand_scan_coverage c st)" if "wallet_wf st" for st c using that by (rule expand.op_wf)
  show "wallet_wf (rewind_scan_cursor t st)" if "wallet_wf st" for st t using that by (rule rewind_cursor.op_wf)
  show "wallet_wf (force_rescan h st)" if "wallet_wf st" for st h using that by (rule rescan.op_wf)
  show "wallet_wf (reset_tracked_outputs st)" if "wallet_wf st" for st using that by (rule reset_outputs.op_wf)
qed (simp_all add: wallet_unfold)

lemma marker_ok_restore: "marker_ok st \<Longrightarrow> marker_ok (snd (restore_spend_authority cr st k))"
proof -
  assume m: "marker_ok st"
  obtain r w' where r: "restore_spend_authority cr st k = (r, w')" by force
  show ?thesis
  proof (cases r)
    case (Inl e)
    with restore_authority_cases [OF r] m r show ?thesis by simp
  next
    case (Inr u)
    have "\<forall>o1 \<in> set (tracked_outputs w'). key_image o1 \<noteq> zero_image"
      using r Inr m by (intro restore_authority_no_zero_image(1)) simp_all
    then show ?thesis by (simp add: r marker_ok_def)
  qed
qed

interpretation inv_marker: wallet_inv cr marker_ok for cr
proof
  show "marker_ok (new_wallet k h n)" for k h n by (simp add: marker_ok_def new_wallet_def)
  show "marker_ok (snd (restore_spend_authority cr st k))" if "marker_ok st" for st k
    using that by (rule marker_ok_restore)
  show "marker_ok (seal_wallet cr st)" if "marker_ok st" for st using that by (rule marker_ok_seal)
  show "marker_ok (expand_scan_coverage c st)" if "marker_ok st" for st c using that by (rule marker_ok_expand)
  show "marker_ok (rewind_scan_cursor t st)" if "marker_ok st" for st t using that by (rule marker_ok_rewind)
  show "marker_ok (force_rescan h st)" for st h by (rule marker_ok_rescan)
  show "marker_ok (reset_tracked_outputs st)" for st by (rule marker_ok_reset)
  show "marker_ok (st\<lparr>w_restore_height := h\<rparr>)" if "marker_ok st" "h \<le> w_restore_height st" for st h
    using that by (fastforce simp: marker_ok_def)
qed (simp_all add: marker_ok_def)

section \<open>Reachable stores\<close>

inductive api_step :: "crypto \<Rightarrow> (stored_wallet \<Rightarrow> bool) \<Rightarrow> world \<Rightarrow> world \<Rightarrow> bool" for cr q where
  api_open: "api_step cr q w (snd (guard nm (-19, ()) (wallet_open_from_mnemonic_ffi_impl cr p m h n) w))"
| api_seal: "obs_keep q (obs (lifecycle_wait_timeout t)) \<Longrightarrow>
    api_step cr q w (snd (guard nm (-19, ()) (wallet_seal_ffi_impl cr obs p t) w))"
| api_unseal: "obs_keep q (obs (lifecycle_wait_timeout t)) \<Longrightarrow>
    api_step cr q w (snd (guard nm (-19, ()) (wallet_unseal_from_mnemonic_ffi_impl cr obs p m t) w))"
| api_close: "obs_keep q (obs (lifecycle_wait_timeout t)) \<Longrightarrow>
    api_step cr q w (snd (guard nm (-19, ()) (wallet_close_ffi_impl obs p t) w))"
| api_gap: "api_step cr q w (snd (guard nm (-19, ()) (wallet_set_gap_limit_ffi_impl p g) w))"
| api_rewind: "api_step cr q w (snd (guard nm (-19, ()) (wallet_rewind_scan_cursor_to_height_ffi_impl p h) w))"
| api_rescan: "api_step cr q w (snd (guard nm (-19, ()) (wallet_force_rescan_from_height_ffi_impl p h) w))"
| api_reset: "api_step cr q w (snd (guard nm (-19, ()) (wallet_reset_tracked_outputs_ffi_impl p) w))"

inductive_cases api_stepE: "api_step cr q w w'"

text \<open>A property that every state transformation keeps holds in every reachable store.\<close>

context wallet_inv
begin

lemma step_keeps: "api_step cr q w w' \<Longrightarrow> store_all q w \<Longrightarrow> store_all q w'"
  by (induction rule: api_step.induct)
    (auto intro: keeps_guard keeps_open keeps_seal keeps_unseal keeps_close keeps_gap keeps_rewind
      keeps_rescan keeps_reset)

lemma reachable_keeps: "(api_step cr q)\<^sup>*\<^sup>* w w' \<Longrightarrow> store_all q w \<Longrightarrow> store_all q w'"
  by (induction rule: rtranclp_induct) (auto intro: step_keeps)

end

section \<open>Exclusion and failing closed\<close>

text \<open>A mutation that needs the refresh stopped is refused with -31 while one runs, and leaves the
  store alone.\<close>

lemma busy_refused:
  assumes "job_running i w"
  shows "or_else e (with_refresh_stopped i f) w = (Value (fst e, ()), set_last_error (snd e) w)"
  using assms by (simp add: or_else_def with_refresh_stopped_def err_def)

lemma lifecycle_excluded:
  assumes "with_wallet_lifecycle_exclusion i obs f w = (Value (Inr v), w')"
  shows "\<exists>w1. \<not> job_running i w1 \<and> f w1 = (Value v, w')"
  using assms
  by (auto simp: with_wallet_lifecycle_exclusion_def split: if_splits prod.splits bool.splits outcome.splits
      dest: lifecycle_wait_stopped)

lemma poisoned_panics: "wd_store_poisoned w \<Longrightarrow> on_wallet i missing f w = (Panic, w)"
  by (simp add: on_wallet_def lock_store_def)

end
