(* ===== verification/Env_Config.thy ===== *)
theory Env_Config
  imports Text_Codec
begin

text \<open>
  Run-time configuration read from the environment, the classification of daemon errors, and the
  limiter in front of \<open>get_o_indexes.bin\<close> (\<open>lib.rs\<close>). The environment is a parameter
  \<open>env\<close>, the value of \<open>std::env::var(name).ok()\<close>; the target platform is the
  parameter \<open>mobile\<close>, which stands for the \<open>cfg!(any(target_os = ...))\<close> test.
\<close>

type_synonym environment = "string \<Rightarrow> string option"

section \<open>Configuration\<close>

datatype bulk_fetch_mode = PerBlock | Wallet2FastBlocks | RangeBlocks

datatype input_select_mode = SmallestFirst | LargestFirst

datatype fee_priority = Unimportant | Normal | Elevated | Priority

definition env_truthy :: "environment \<Rightarrow> string \<Rightarrow> bool" where
  "env_truthy env name =
     (case env name of
        None \<Rightarrow> False
      | Some v \<Rightarrow> v = ''1'' \<or> v = ''true'' \<or> v = ''TRUE'' \<or> v = ''yes'' \<or> v = ''YES'')"

definition env_nonzero :: "environment \<Rightarrow> string \<Rightarrow> bool \<Rightarrow> bool" where
  "env_nonzero env name d = (case env name of None \<Rightarrow> d | Some v \<Rightarrow> v \<noteq> ''0'')"

definition env_parse :: "environment \<Rightarrow> string \<Rightarrow> nat \<Rightarrow> nat option" where
  "env_parse env name mx = Option.bind (env name) (parse_unsigned mx)"

definition walletcore_disable_decoys :: "environment \<Rightarrow> bool" where
  "walletcore_disable_decoys env = env_truthy env ''WALLETCORE_DISABLE_DECOYS''"

definition walletcore_decoy_probe_enabled :: "environment \<Rightarrow> bool" where
  "walletcore_decoy_probe_enabled env = env_truthy env ''WALLETCORE_DECOY_PROBE''"

definition walletcore_decoy_mode :: "environment \<Rightarrow> string option" where
  "walletcore_decoy_mode env =
     opt_filter (\<lambda>s. s \<noteq> []) (map_option trim (env ''WALLETCORE_DECOY_MODE''))"

definition walletcore_decoy_mode_bin16 :: "environment \<Rightarrow> bool" where
  "walletcore_decoy_mode_bin16 env \<longleftrightarrow> walletcore_decoy_mode env = Some ''bin16''"

definition walletcore_input_select_mode :: "environment \<Rightarrow> input_select_mode" where
  "walletcore_input_select_mode env =
     (let v = map_option (\<lambda>s. to_ascii_lowercase (trim s)) (env ''WALLETCORE_INPUT_SELECT'') in
      if v = Some ''largest_first'' \<or> v = Some ''largest'' then LargestFirst else SmallestFirst)"

definition walletcore_fee_priority :: "environment \<Rightarrow> fee_priority" where
  "walletcore_fee_priority env =
     (case map_option (\<lambda>s. to_ascii_lowercase (trim s)) (env ''WALLETCORE_FEE_PRIORITY'') of
        None \<Rightarrow> Normal
      | Some v \<Rightarrow>
          if v = ''low'' \<or> v = ''unimportant'' then Unimportant
          else if v = ''high'' \<or> v = ''elevated'' then Elevated
          else if v = ''very_high'' \<or> v = ''veryhigh'' \<or> v = ''very-high'' \<or> v = ''priority''
          then Priority
          else Normal)"

definition walletcore_debug_target_txid :: "environment \<Rightarrow> bytes option" where
  "walletcore_debug_target_txid env = Option.bind (env ''WALLETCORE_DEBUG_TXID'') parse_hex_32"

definition walletcore_debug_target_height :: "environment \<Rightarrow> u64 option" where
  "walletcore_debug_target_height env =
     Option.bind (env ''WALLETCORE_DEBUG_HEIGHT'') (\<lambda>s. parse_unsigned u64_max (trim s))"

definition walletcore_debug_target_window :: "environment \<Rightarrow> u64" where
  "walletcore_debug_target_window env =
     opt_get_or 0 (Option.bind (env ''WALLETCORE_DEBUG_HEIGHT_WINDOW'')
       (\<lambda>s. parse_unsigned u64_max (trim s)))"

fun bulk_mode_str :: "bulk_fetch_mode \<Rightarrow> string" where
  "bulk_mode_str Wallet2FastBlocks = ''wallet2(getblocks.bin)''"
| "bulk_mode_str RangeBlocks = ''range(get_blocks.bin)''"
| "bulk_mode_str PerBlock = ''per_block''"

definition bulk_fetch_mode_from_env :: "environment \<Rightarrow> bulk_fetch_mode" where
  "bulk_fetch_mode_from_env env =
     (if \<not> env_nonzero env ''WALLETCORE_BULK_FETCH'' True then PerBlock
      else let mode = to_ascii_lowercase (opt_get_or ''range'' (env ''WALLETCORE_BULK_MODE'')) in
        if mode = ''wallet2'' then Wallet2FastBlocks
        else if mode = ''range'' then RangeBlocks
        else if mode = ''off'' \<or> mode = ''0'' \<or> mode = ''false'' then PerBlock
        else Wallet2FastBlocks)"

definition default_range_block_batch :: "bool \<Rightarrow> usize" where
  "default_range_block_batch mobile = (if mobile then 75 else 500)"

definition bulk_fetch_batch_from_env :: "bool \<Rightarrow> environment \<Rightarrow> usize" where
  "bulk_fetch_batch_from_env mobile env =
     clamp 10 2000 (opt_get_or (default_range_block_batch mobile)
       (env_parse env ''WALLETCORE_BULK_FETCH_BATCH'' usize_max))"

definition fee_rate_max_per_weight_cap :: "environment \<Rightarrow> u64" where
  "fee_rate_max_per_weight_cap env =
     opt_get_or 10000000 (env_parse env ''WALLETCORE_MAX_FEE_PER_WEIGHT'' u64_max)"

definition oindexes_concurrency_from_env :: "environment \<Rightarrow> usize" where
  "oindexes_concurrency_from_env env =
     clamp 1 32 (opt_get_or 4 (env_parse env ''WALLETCORE_OINDEXES_CONCURRENCY'' usize_max))"

definition oindexes_retries_from_env :: "environment \<Rightarrow> usize" where
  "oindexes_retries_from_env env =
     clamp 0 10 (opt_get_or 3 (env_parse env ''WALLETCORE_OINDEXES_RETRIES'' usize_max))"

definition oindexes_backoff_ms :: "usize \<Rightarrow> u64" where
  "oindexes_backoff_ms attempt =
     (if attempt = 0 then 100 else if attempt = 1 then 250 else if attempt = 2 then 500 else 1000)"

definition walletcore_sweep_bisect_enabled :: "environment \<Rightarrow> bool" where
  "walletcore_sweep_bisect_enabled env = env_truthy env ''WALLETCORE_SWEEP_BISECT''"

definition walletcore_send_bisect_on_failed_enabled :: "environment \<Rightarrow> bool" where
  "walletcore_send_bisect_on_failed_enabled env = False"

definition walletcore_send_bisect_enabled :: "environment \<Rightarrow> bool" where
  "walletcore_send_bisect_enabled env = env_nonzero env ''WALLETCORE_SEND_BISECT'' False"

definition walletcore_debug_spend_detect_enabled :: "environment \<Rightarrow> bool" where
  "walletcore_debug_spend_detect_enabled env = env_nonzero env ''WALLETCORE_DEBUG_SPEND_DETECT'' False"

definition walletcore_debug_input_dump_enabled :: "environment \<Rightarrow> bool" where
  "walletcore_debug_input_dump_enabled env = env_nonzero env ''WALLETCORE_DEBUG_INPUT_DUMP'' False"

section \<open>Daemon errors\<close>

text \<open>The error type of the daemon interface with the constructors the code builds. Its
  \<open>Display\<close> text comes from the third-party crate and is the parameter \<open>display\<close> where
  the code inspects it.\<close>

datatype interface_error = InterfaceError string | InvalidInterface string | InternalError string

definition map_rpc_error :: "interface_error \<Rightarrow> int" where
  "map_rpc_error err =
     (case err of InterfaceError _ \<Rightarrow> -15 | InternalError _ \<Rightarrow> -16 | InvalidInterface _ \<Rightarrow> -16)"

definition is_invalid_input_send_raw_tx_error :: "string \<Rightarrow> bool" where
  "is_invalid_input_send_raw_tx_error msg =
     (let m = to_ascii_lowercase msg in
      str_contains m ''invalid_input=some(true)'' \<or>
      str_contains m ([CHR 0x22] @ ''invalid_input'' @ [CHR 0x22] @ '':true''))"

definition is_double_spend_send_raw_tx_error :: "string \<Rightarrow> bool" where
  "is_double_spend_send_raw_tx_error msg =
     (let m = to_ascii_lowercase msg in
      str_contains m ''double_spend=some(true)'' \<or>
      str_contains m ([CHR 0x22] @ ''double_spend'' @ [CHR 0x22] @ '':true''))"

definition is_failed_send_raw_tx_error :: "string \<Rightarrow> bool" where
  "is_failed_send_raw_tx_error msg = False"

fun http_code_after :: "string list \<Rightarrow> string \<Rightarrow> nat option" where
  "http_code_after [] m = None"
| "http_code_after (needle # ns) m =
     (case after_match m needle of
        None \<Rightarrow> http_code_after ns m
      | Some rest \<Rightarrow>
          (case parse_unsigned 65535 (takeWhile is_ascii_digit rest) of
             Some code \<Rightarrow> Some code
           | None \<Rightarrow> http_code_after ns m))"

definition parse_http_status_code :: "string \<Rightarrow> nat option" where
  "parse_http_status_code msg = http_code_after [''HTTP '', ''http '', ''status code ''] msg"

definition is_non_retryable_http_client_status :: "nat \<Rightarrow> bool" where
  "is_non_retryable_http_client_status code \<longleftrightarrow> 400 \<le> code \<and> code < 500 \<and> code \<noteq> 408 \<and> code \<noteq> 429"

definition is_http_client_failed_error :: "string \<Rightarrow> bool" where
  "is_http_client_failed_error msg =
     (case parse_http_status_code msg of
        Some code \<Rightarrow> 400 \<le> code \<and> code < 500 \<and> code \<noteq> 408 \<and> code \<noteq> 429
      | None \<Rightarrow> False)"

text \<open>An error of the HTTP client: a status line with the body read as text, or a transport
  failure with its text.\<close>

datatype ureq_error = Ureq_Status nat string "string option" | Ureq_Transport string

text \<open>\<open>chars().take(200)\<close> takes characters; \<open>take_chars\<close> counts the UTF-8 bytes that are
  not continuation bytes.\<close>

fun take_chars :: "nat \<Rightarrow> string \<Rightarrow> string" where
  "take_chars n [] = []"
| "take_chars n (c # cs) =
     (if is_cont (code_of c) then c # take_chars n cs
      else if n = 0 then [] else c # take_chars (n - 1) cs)"

fun map_ureq_error :: "string \<Rightarrow> ureq_error \<Rightarrow> interface_error" where
  "map_ureq_error route (Ureq_Status code status_text body) =
     (let body_preview = opt_get_or [] (map_option (take_chars 200) body);
          msg = ''HTTP '' @ show_nat code @ '' '' @ status_text @ '' route='' @ route @
                '' body='' @ body_preview in
      if is_non_retryable_http_client_status code
      then InvalidInterface (''status=Failed '' @ msg) else InterfaceError msg)"
| "map_ureq_error route (Ureq_Transport transport) =
     InterfaceError (''route='' @ route @ '' '' @ transport)"

section \<open>Broadcasting a signed transaction\<close>

record send_raw_tx_response =
  sr_status :: "string option"
  sr_reason :: "string option"
  sr_fee_too_low :: "bool option"
  sr_too_big :: "bool option"
  sr_invalid_input :: "bool option"
  sr_invalid_output :: "bool option"
  sr_overspend :: "bool option"
  sr_not_relayed :: "bool option"
  sr_sanity_check_failed :: "bool option"
  sr_double_spend :: "bool option"

text \<open>\<open>{:?}\<close> of an \<open>Option<bool>\<close>.\<close>

fun debug_opt_bool :: "bool option \<Rightarrow> string" where
  "debug_opt_bool None = ''None''"
| "debug_opt_bool (Some True) = ''Some(true)''"
| "debug_opt_bool (Some False) = ''Some(false)''"

definition response_flags :: "send_raw_tx_response \<Rightarrow> string" where
  "response_flags r =
     '' fee_too_low='' @ debug_opt_bool (sr_fee_too_low r) @
     '' too_big='' @ debug_opt_bool (sr_too_big r) @
     '' invalid_input='' @ debug_opt_bool (sr_invalid_input r) @
     '' invalid_output='' @ debug_opt_bool (sr_invalid_output r) @
     '' overspend='' @ debug_opt_bool (sr_overspend r) @
     '' not_relayed='' @ debug_opt_bool (sr_not_relayed r) @
     '' sanity_check_failed='' @ debug_opt_bool (sr_sanity_check_failed r) @
     '' double_spend='' @ debug_opt_bool (sr_double_spend r)"

text \<open>\<open>broadcast_send_raw_transaction\<close>: \<open>make_daemon\<close> opens the transport, \<open>rpc_call\<close>
  is the request (its error comes with its \<open>Display\<close> text), \<open>parse_json\<close> is the JSON
  decoder.\<close>

definition broadcast_send_raw_transaction ::
    "environment \<Rightarrow> (interface_error \<Rightarrow> string) \<Rightarrow> (string \<Rightarrow> send_raw_tx_response option) \<Rightarrow>
     interface_error + 'd \<Rightarrow> ('d \<Rightarrow> string \<Rightarrow> interface_error + string) \<Rightarrow> bytes \<Rightarrow>
     interface_error + unit" where
  "broadcast_send_raw_transaction env display parse_json make_daemon rpc_call tx_bytes =
     (case make_daemon of Inl e \<Rightarrow> Inl e
      | Inr daemon \<Rightarrow>
        (case rpc_call daemon (hex_lowercase tx_bytes) of
           Inl err \<Rightarrow>
             (let s = display err in
              if is_http_client_failed_error s
              then Inl (InterfaceError (''send_raw_transaction status=Failed '' @ s)) else Inl err)
         | Inr raw \<Rightarrow>
             (case parse_json raw of
                None \<Rightarrow> Inl (InvalidInterface
                          ''send_raw_transaction response wasn't the expected json'')
              | Some res \<Rightarrow>
                  (let status = opt_get_or ''UNKNOWN'' (sr_status res);
                       reason = opt_get_or ''(none)'' (sr_reason res) in
                   if eq_ignore_ascii_case status ''OK'' then Inr ()
                   else if env_truthy env ''WALLETCORE_DECOY_PROBE'' then
                     Inl (InterfaceError (''send_raw_transaction raw_response='' @ raw @
                       '' parsed_status='' @ status @ '' parsed_reason='' @ reason @
                       response_flags res))
                   else
                     Inl (InterfaceError (''send_raw_transaction status='' @ status @
                       '' reason='' @ reason @ response_flags res))))))"

section \<open>The output-index limiter\<close>

text \<open>One step of a thread at the limiter. \<open>acquire\<close> blocks while the number of calls in
  flight has reached the limit, so it is a step only below it; \<open>release\<close> always runs.\<close>

definition acquire_oindexes_slot :: "environment \<Rightarrow> usize \<Rightarrow> usize option" where
  "acquire_oindexes_slot env in_flight =
     (if oindexes_concurrency_from_env env \<le> in_flight then None else Some (in_flight + 1))"

definition release_oindexes_slot :: "usize \<Rightarrow> usize" where
  "release_oindexes_slot in_flight = (if 0 < in_flight then in_flight - 1 else in_flight)"

inductive oindexes_step :: "environment \<Rightarrow> usize \<Rightarrow> usize \<Rightarrow> bool" for env where
  acquire: "acquire_oindexes_slot env n = Some m \<Longrightarrow> oindexes_step env n m"
| release: "oindexes_step env n (release_oindexes_slot n)"

text \<open>\<open>to_lowercase\<close> on the ASCII substrings searched for: only ASCII letters matter, except that
  the Kelvin sign maps to an ASCII \<open>k\<close>; the parameter \<open>lowercase\<close> is the library function.\<close>

definition is_transient_oindexes_error :: "(string \<Rightarrow> string) \<Rightarrow> string \<Rightarrow> bool" where
  "is_transient_oindexes_error lowercase text0 =
     (let s = lowercase text0 in
      str_contains s ''connection reset'' \<or> str_contains s ''reset by peer'' \<or>
      str_contains s ''broken pipe'' \<or> str_contains s ''timed out'' \<or>
      str_contains s ''network error'')"

text \<open>\<open>get_o_indexes_limited\<close>: the answers of the interface are an argument indexed by the
  attempt; the result carries the milliseconds slept before each further attempt.\<close>

fun get_o_indexes_from ::
    "(string \<Rightarrow> string) \<Rightarrow> (interface_error \<Rightarrow> string) \<Rightarrow> (nat \<Rightarrow> interface_error + u64 list) \<Rightarrow>
     nat \<Rightarrow> nat \<Rightarrow> nat list \<Rightarrow> (interface_error + u64 list) \<times> nat list" where
  "get_o_indexes_from lowercase display answer attempt 0 slept =
     (Inl (InternalError ''get_o_indexes_limited: exhausted retries''), slept)"
| "get_o_indexes_from lowercase display answer attempt (Suc left) slept =
     (case answer attempt of
        Inr v \<Rightarrow> (Inr v, slept)
      | Inl e \<Rightarrow>
          if 0 < left \<and> is_transient_oindexes_error lowercase (display e)
          then get_o_indexes_from lowercase display answer (attempt + 1) left
                 (slept @ [oindexes_backoff_ms attempt])
          else (Inl e, slept))"

definition get_o_indexes_limited ::
    "environment \<Rightarrow> (string \<Rightarrow> string) \<Rightarrow> (interface_error \<Rightarrow> string) \<Rightarrow>
     (nat \<Rightarrow> interface_error + u64 list) \<Rightarrow> (interface_error + u64 list) \<times> nat list" where
  "get_o_indexes_limited env lowercase display answer =
     get_o_indexes_from lowercase display answer 0 (oindexes_retries_from_env env + 1) []"

section \<open>Lemmas\<close>

lemma bulk_fetch_batch_bounds: "10 \<le> bulk_fetch_batch_from_env mobile env \<and> bulk_fetch_batch_from_env mobile env \<le> 2000"
  unfolding bulk_fetch_batch_from_env_def by (rule clamp_bounds) simp

lemma oindexes_concurrency_bounds:
  "1 \<le> oindexes_concurrency_from_env env \<and> oindexes_concurrency_from_env env \<le> 32"
  unfolding oindexes_concurrency_from_env_def by (rule clamp_bounds) simp

lemma oindexes_retries_bound: "oindexes_retries_from_env env \<le> 10"
  unfolding oindexes_retries_from_env_def using clamp_bounds [of 0 10] by blast

lemma oindexes_step_limit:
  assumes "oindexes_step env n m" and "n \<le> oindexes_concurrency_from_env env"
  shows "m \<le> oindexes_concurrency_from_env env"
  using assms
  by (cases rule: oindexes_step.cases)
    (auto simp: acquire_oindexes_slot_def release_oindexes_slot_def split: if_splits)

lemma oindexes_reach_limit:
  assumes "(oindexes_step env)\<^sup>*\<^sup>* 0 n"
  shows "n \<le> oindexes_concurrency_from_env env"
  using assms by (induction rule: rtranclp_induct) (auto intro: oindexes_step_limit)

text \<open>The retry loop never reaches its unreachable tail, sleeps at most once per retry, and the
  error it gives back is the interface's own.\<close>

lemma get_o_indexes_from_spec:
  "\<exists>k. a \<le> k \<and> k \<le> a + left \<and>
     get_o_indexes_from lw d answer a (Suc left) slept =
       (answer k, slept @ map oindexes_backoff_ms [a..<k]) \<and>
     (\<forall>j. a \<le> j \<and> j < k \<longrightarrow> (\<exists>e. answer j = Inl e \<and> is_transient_oindexes_error lw (d e))) \<and>
     (case answer k of Inr v \<Rightarrow> True
      | Inl e \<Rightarrow> k = a + left \<or> \<not> is_transient_oindexes_error lw (d e))"
proof (induction left arbitrary: a slept)
  case 0
  show ?case by (rule exI [of _ a]) (auto split: sum.split)
next
  case (Suc left)
  show ?case
  proof (cases "\<exists>e. answer a = Inl e \<and> is_transient_oindexes_error lw (d e)")
    case True
    then obtain e where e: "answer a = Inl e" "is_transient_oindexes_error lw (d e)" by blast
    from Suc.IH [of "a + 1" "slept @ [oindexes_backoff_ms a]"] obtain k where k:
      "a + 1 \<le> k" "k \<le> a + 1 + left"
      "get_o_indexes_from lw d answer (a + 1) (Suc left) (slept @ [oindexes_backoff_ms a]) =
         (answer k, (slept @ [oindexes_backoff_ms a]) @ map oindexes_backoff_ms [a + 1..<k])"
      "\<forall>j. a + 1 \<le> j \<and> j < k \<longrightarrow> (\<exists>e. answer j = Inl e \<and> is_transient_oindexes_error lw (d e))"
      "case answer k of Inr v \<Rightarrow> True
        | Inl e \<Rightarrow> k = a + 1 + left \<or> \<not> is_transient_oindexes_error lw (d e)"
      by blast
    have upt: "[a..<k] = a # [a + 1..<k]" using k(1) by (simp add: upt_conv_Cons)
    have all: "\<exists>e. answer j = Inl e \<and> is_transient_oindexes_error lw (d e)" if "a \<le> j" "j < k" for j
      using k(4) e that by (cases "j = a") auto
    have "get_o_indexes_from lw d answer a (Suc (Suc left)) slept =
        get_o_indexes_from lw d answer (a + 1) (Suc left) (slept @ [oindexes_backoff_ms a])"
      using e by simp
    then have "get_o_indexes_from lw d answer a (Suc (Suc left)) slept =
        (answer k, slept @ map oindexes_backoff_ms [a..<k])"
      unfolding k(3) by (simp add: upt)
    moreover have "a + 1 + left = a + Suc left" by simp
    ultimately show ?thesis using k(1,2,5) all by (intro exI [of _ k]) (metis add_leD1)
  next
    case False
    then show ?thesis
      by (intro exI [of _ a]) (auto split: sum.splits)
  qed
qed

lemma get_o_indexes_limited_spec:
  "\<exists>k \<le> oindexes_retries_from_env env.
     get_o_indexes_limited env lw d answer = (answer k, map oindexes_backoff_ms [0..<k]) \<and>
     (\<forall>j < k. \<exists>e. answer j = Inl e \<and> is_transient_oindexes_error lw (d e)) \<and>
     (case answer k of Inr v \<Rightarrow> True
      | Inl e \<Rightarrow> k = oindexes_retries_from_env env \<or> \<not> is_transient_oindexes_error lw (d e))"
proof -
  obtain k where "k \<le> 0 + oindexes_retries_from_env env"
    "get_o_indexes_from lw d answer 0 (Suc (oindexes_retries_from_env env)) [] =
       (answer k, [] @ map oindexes_backoff_ms [0..<k])"
    "\<forall>j. 0 \<le> j \<and> j < k \<longrightarrow> (\<exists>e. answer j = Inl e \<and> is_transient_oindexes_error lw (d e))"
    "case answer k of Inr v \<Rightarrow> True
      | Inl e \<Rightarrow> k = 0 + oindexes_retries_from_env env \<or> \<not> is_transient_oindexes_error lw (d e)"
    using get_o_indexes_from_spec [of 0 "oindexes_retries_from_env env" lw d answer "[]"] by blast
  then show ?thesis
    by (intro exI [of _ k])
       (simp add: get_o_indexes_limited_def del: get_o_indexes_from.simps split: sum.splits)
qed

end
