(* ===== verification/Relay.thy ===== *)
theory Relay
  imports Api_Invariants Env_Config
begin

text \<open>
  Relaying a prepared transaction (\<open>ffi/send.rs\<close>): the exclusion every send runs under, the check that
  the payload belongs to the wallet, the question whether the daemon knows the transaction, the broadcast
  and the bookkeeping that follows it.

  The JSON decoder, the transaction decoder and the daemon are the parameters \<open>relay_lib\<close>; the requests
  made are part of the result, in their order.
\<close>

section \<open>Results that are pointers\<close>

text \<open>A null pointer with the error recorded, or the object the JSON text holds.\<close>

definition null_ptr :: "int \<times> string \<Rightarrow> 'a option call" where
  "null_ptr e w = (Value None, set_last_error (snd e) w)"

definition run_while_refresh_stopped :: "cptr \<Rightarrow> string \<Rightarrow> (string \<Rightarrow> 'a option call) \<Rightarrow> 'a option call" where
  "run_while_refresh_stopped wallet_id ctx operation w0 =
     (let w = clear_last_error w0 in
      case wallet_id of CNull \<Rightarrow> null_ptr (-11, ctx @ '': wallet_id pointer was null'') w
      | CStr s \<Rightarrow>
          (case cstr_to_str s of
             None \<Rightarrow> null_ptr (-10, ctx @ '': wallet_id contained invalid UTF-8'') w
           | Some value1 \<Rightarrow>
               let i = trim value1 in
               if i = [] then null_ptr (-14, ctx @ '': wallet_id was empty'') w
               else (case with_refresh_stopped i (operation i) w of
                       (Value (Inr r), w') \<Rightarrow> (Value r, w')
                     | (Value (Inl _), w') \<Rightarrow>
                         null_ptr (-31, ctx @ '': refresh already running for wallet '' @ [CHR 39] @ i @ [CHR 39]) w'
                     | (Panic, w') \<Rightarrow> (Panic, w'))))"

definition daemon_base_url :: "environment \<Rightarrow> cptr \<Rightarrow> string" where
  "daemon_base_url env node_url =
     (let arg_url = (case node_url of CNull \<Rightarrow> None | CStr s \<Rightarrow> map_option trim (cstr_to_str s)) in
      opt_get_or ''http://127.0.0.1:18081''
        (opt_or (opt_filter (\<lambda>s. s \<noteq> []) arg_url) (env ''MONERO_URL'')))"

section \<open>The prepared payload\<close>

record prepared_send_payload =
  pp_txid :: string
  pp_amount :: u64
  pp_fee :: u64
  pp_signed_tx_hex :: string
  pp_wallet_binding :: "string option"

definition validate_prepared_binding :: "crypto \<Rightarrow> prepared_send_payload \<Rightarrow> stored_wallet \<Rightarrow> string + unit" where
  "validate_prepared_binding cr prepared wallet =
     (case pp_wallet_binding prepared of
        Some binding \<Rightarrow>
          if binding = wallet_cache_binding cr wallet then Inr ()
          else Inl ''pending transaction belongs to another wallet or network; recovery data retained''
      | None \<Rightarrow> Inl ''legacy pending transaction lacks wallet identity; explicit recovery is required; recovery data retained'')"

section \<open>The daemon\<close>

text \<open>A transaction as the code reads it: its hash and the key images of its inputs (\<open>None\<close> for an input
  that is not \<open>ToKey\<close>).\<close>

record signed_tx =
  sx_hash :: hash32
  sx_inputs :: "hash32 option list"

datatype relay_event = Asked string string | Broadcast string bytes

text \<open>\<open>rl_txs url txid k\<close> is the daemon's answer to the \<open>k\<close>-th \<open>get_transactions\<close> of a call.\<close>

record relay_lib =
  rl_payload :: "string \<Rightarrow> string + prepared_send_payload"
  rl_read_tx :: "bytes \<Rightarrow> string + signed_tx \<times> bytes"
  rl_txs :: "string \<Rightarrow> string \<Rightarrow> nat \<Rightarrow> string + string list"
  rl_daemon :: "string \<Rightarrow> interface_error + unit"
  rl_raw_call :: "string \<Rightarrow> string \<Rightarrow> interface_error + string"
  rl_raw_json :: "string \<Rightarrow> send_raw_tx_response option"
  rl_display :: "interface_error \<Rightarrow> string"

definition daemon_knows_tx :: "relay_lib \<Rightarrow> string \<Rightarrow> string \<Rightarrow> nat \<Rightarrow> string + bool" where
  "daemon_knows_tx rl base_url txid k =
     (case rl_txs rl base_url txid k of Inl e \<Rightarrow> Inl e
      | Inr txs \<Rightarrow> Inr (list_ex (\<lambda>h. eq_ignore_ascii_case h txid) txs))"

definition relay_broadcast :: "environment \<Rightarrow> relay_lib \<Rightarrow> string \<Rightarrow> bytes \<Rightarrow> interface_error + unit" where
  "relay_broadcast env rl base_url tx_bytes =
     broadcast_send_raw_transaction env (rl_display rl) (rl_raw_json rl) (rl_daemon rl base_url)
       (\<lambda>_. rl_raw_call rl base_url) tx_bytes"

definition known_or_false :: "string + bool \<Rightarrow> bool" where
  "known_or_false x = (case x of Inl _ \<Rightarrow> False | Inr b \<Rightarrow> b)"

section \<open>Local bookkeeping\<close>

text \<open>One input: the first tracked output with its key image is marked, if it was unspent.\<close>

definition spend_relayed_input ::
  "hash32 option \<Rightarrow> hash32 option \<Rightarrow> tracked_output list \<times> u64 \<Rightarrow> tracked_output list \<times> u64" where
  "spend_relayed_input txid input st =
     (case (input, st) of (None, _) \<Rightarrow> st
      | (Some ki, outs, spent_sum) \<Rightarrow>
          (case find (\<lambda>o1. key_image o1 = ki) outs of None \<Rightarrow> st
           | Some output \<Rightarrow>
               if spent output then st
               else (update_first (\<lambda>o1. key_image o1 = ki) (mark_tracked_output_spent txid) outs,
                     sat_add spent_sum (amount output))))"

definition pending_send_row :: "string \<Rightarrow> u64 \<Rightarrow> u64 \<Rightarrow> u64 \<Rightarrow> ledger_entry" where
  "pending_send_row txid amt fee time =
     \<lparr>le_txid = txid, le_direction = ''out'', le_amount = outgoing_ledger_amount amt fee, le_fee = Some fee,
      le_height = None, le_timestamp = Some time, le_is_pending = True, le_is_coinbase = False\<rparr>"

definition record_relayed :: "signed_tx \<Rightarrow> prepared_send_payload \<Rightarrow> string \<Rightarrow> stored_wallet \<Rightarrow> stored_wallet" where
  "record_relayed tx prepared actual_txid state =
     (let (outs, spent_sum) = foldl (\<lambda>st input. spend_relayed_input (parse_hex_32 actual_txid) input st)
            (tracked_outputs state, 0) (sx_inputs tx);
          state1 = state\<lparr>tracked_outputs := outs, w_total := sat_sub (w_total state) spent_sum,
            w_unlocked := sat_sub (w_unlocked state) spent_sum\<rparr>;
          state2 = (if list_ex (\<lambda>p. pt_txid p = actual_txid) (w_pending_outgoing state1) then state1
            else state1\<lparr>w_pending_outgoing := w_pending_outgoing state1 @
              [\<lparr>pt_txid = actual_txid, pt_amount = pp_amount prepared, pt_fee = pp_fee prepared,
                pt_created_at = w_chain_time state1\<rparr>]\<rparr>) in
      state2\<lparr>w_tx_ledger := hm_or_insert actual_txid
        (pending_send_row actual_txid (pp_amount prepared) (pp_fee prepared) (w_chain_time state2))
        (w_tx_ledger state2)\<rparr>)"

definition apply_relayed_tx_local_state ::
  "string \<Rightarrow> signed_tx \<Rightarrow> prepared_send_payload \<Rightarrow> string \<Rightarrow> bool call" where
  "apply_relayed_tx_local_state i tx prepared actual_txid =
     on_wallet i (\<lambda>w. (Value False, w))
       (\<lambda>state w. (Value True, put_wallet i (record_relayed tx prepared actual_txid state) w))"

section \<open>The call\<close>

text \<open>The result of a relay: transaction and status. \<open>serde_json\<close> escapes every control character, so the
  conversion to a C string does not fail.\<close>

type_synonym relay_answer = "string \<times> string"

text \<open>The checks before any request: wallet, seal, binding.\<close>

definition relay_binding :: "crypto \<Rightarrow> prepared_send_payload \<Rightarrow> string \<Rightarrow> (int \<times> string + unit) call" where
  "relay_binding cr prepared i =
     on_wallet i (\<lambda>w. (Value (Inl (-13, ''wallet not opened'')), w))
       (\<lambda>wallet w. (Value
         (if is_sealed (w_keys wallet)
          then Inl (-40, ''wallet is sealed; authenticate before relaying a prepared send'')
          else (case validate_prepared_binding cr prepared wallet of
                  Inl message \<Rightarrow> Inl (-10, message) | Inr _ \<Rightarrow> Inr ())), w))"

definition relay_tx :: "relay_lib \<Rightarrow> prepared_send_payload \<Rightarrow> string + bytes \<times> signed_tx" where
  "relay_tx rl prepared =
     (case decode_hex (pp_signed_tx_hex prepared) of Inl e \<Rightarrow> Inl e
      | Inr tx_bytes \<Rightarrow>
          (case rl_read_tx rl tx_bytes of
             Inl e \<Rightarrow> Inl (''invalid transaction ('' @ e @ '')'')
           | Inr (tx, rest) \<Rightarrow>
               if rest \<noteq> [] then Inl ''signed blob contained trailing bytes''
               else if \<not> eq_ignore_ascii_case (hex_lowercase (sx_hash tx)) (trim (pp_txid prepared))
               then Inl ''payload txid does not match signed blob''
               else Inr (tx_bytes, tx)))"

text \<open>The requests, after the checks.\<close>

definition relay_known ::
  "string \<Rightarrow> signed_tx \<Rightarrow> prepared_send_payload \<Rightarrow> string \<Rightarrow> relay_answer option call" where
  "relay_known i tx prepared actual_txid w =
     (case apply_relayed_tx_local_state i tx prepared actual_txid w of
        (Panic, w') \<Rightarrow> (Panic, w')
      | (Value _, w') \<Rightarrow> (Value (Some (actual_txid, ''already_known'')), clear_last_error w'))"

definition relay_send ::
  "environment \<Rightarrow> relay_lib \<Rightarrow> string \<Rightarrow> string \<Rightarrow> bytes \<Rightarrow> signed_tx \<Rightarrow> prepared_send_payload \<Rightarrow> world
   \<Rightarrow> (relay_answer option outcome \<times> world) \<times> relay_event list" where
  "relay_send env rl i base_url tx_bytes tx prepared w =
     (let actual_txid = hex_lowercase (sx_hash tx); ask = Asked base_url actual_txid in
      if known_or_false (daemon_knows_tx rl base_url actual_txid 0)
      then (relay_known i tx prepared actual_txid w, [ask])
      else (case relay_broadcast env rl base_url tx_bytes of
        Inl error \<Rightarrow>
          (if known_or_false (daemon_knows_tx rl base_url actual_txid 1)
           then (relay_known i tx prepared actual_txid w, [ask, Broadcast base_url tx_bytes, ask])
           else (null_ptr (map_rpc_error error,
                   ''wallet_relay_prepared: send_raw_transaction failed ('' @ rl_display rl error @ '')'') w,
                 [ask, Broadcast base_url tx_bytes, ask]))
      | Inr _ \<Rightarrow>
          ((case apply_relayed_tx_local_state i tx prepared actual_txid w of
              (Panic, w') \<Rightarrow> (Panic, w')
            | (Value True, w') \<Rightarrow> (Value (Some (actual_txid, ''accepted'')), clear_last_error w')
            | (Value False, w') \<Rightarrow> null_ptr (-13, ''wallet_relay_prepared: wallet '' @ [CHR 39] @ i @ [CHR 39]
                 @ '' not registered'') w'),
           [ask, Broadcast base_url tx_bytes])))"

definition wallet_relay_prepared_impl ::
  "crypto \<Rightarrow> environment \<Rightarrow> relay_lib \<Rightarrow> cptr \<Rightarrow> cptr \<Rightarrow> cptr \<Rightarrow> world
   \<Rightarrow> (relay_answer option outcome \<times> world) \<times> relay_event list" where
  "wallet_relay_prepared_impl cr env rl wallet_id node_url prepared_json w0 =
     (let w = clear_last_error w0; nm = (\<lambda>m. ''wallet_relay_prepared: '' @ m) in
      case (wallet_id, prepared_json) of
        (CStr s, CStr p) \<Rightarrow>
          (case cstr_to_str s of None \<Rightarrow> (null_ptr (-10, nm ''invalid wallet id'') w, [])
           | Some value1 \<Rightarrow> let i = trim value1 in
          if i = [] then (null_ptr (-10, nm ''invalid wallet id'') w, [])
          else (case cstr_to_str p of None \<Rightarrow> (null_ptr (-10, nm ''prepared payload was not UTF-8'') w, [])
           | Some text1 \<Rightarrow>
          (case rl_payload rl text1 of Inl e \<Rightarrow> (null_ptr (-10, nm ''invalid payload ('' @ e @ '')'') w, [])
           | Inr prepared \<Rightarrow>
          (case relay_binding cr prepared i w of
             (Panic, w1) \<Rightarrow> ((Panic, w1), [])
           | (Value (Inl (code, m)), w1) \<Rightarrow> (null_ptr (code, nm m) w1, [])
           | (Value (Inr _), w1) \<Rightarrow>
          (case relay_tx rl prepared of Inl e \<Rightarrow> (null_ptr (-10, nm e) w1, [])
           | Inr (tx_bytes, tx) \<Rightarrow> relay_send env rl i (daemon_base_url env node_url) tx_bytes tx prepared w1)))))
      | _ \<Rightarrow> (null_ptr (-11, nm ''null argument(s)'') w, []))"

text \<open>The exported call; the requests are those of its body.\<close>

definition wallet_relay_prepared_ffi_impl ::
  "crypto \<Rightarrow> environment \<Rightarrow> relay_lib \<Rightarrow> cptr \<Rightarrow> cptr \<Rightarrow> cptr \<Rightarrow> relay_answer option call" where
  "wallet_relay_prepared_ffi_impl cr env rl wallet_id node_url prepared_json =
     run_while_refresh_stopped wallet_id ''wallet_relay_prepared''
       (\<lambda>_ w. fst (wallet_relay_prepared_impl cr env rl wallet_id node_url prepared_json w))"

section \<open>What a relay records\<close>

lemma find_update_first_same:
  "(\<And>x. p (f x) = p x) \<Longrightarrow> find p (update_first p f xs) = map_option f (find p xs)"
  by (induction xs) auto

lemma find_update_first_other:
  "(\<And>x. p (f x) = p x) \<Longrightarrow> (\<And>x. q x \<Longrightarrow> \<not> p x) \<Longrightarrow> find p (update_first q f xs) = find p xs"
  by (induction xs) auto

lemma marked_output_simps [simp]:
  "key_image (mark_tracked_output_spent t o1) = key_image o1"
  "amount (mark_tracked_output_spent t o1) = amount o1"
  "outpoint_of (mark_tracked_output_spent t o1) = outpoint_of o1"
  "block_height (mark_tracked_output_spent t o1) = block_height o1"
  "spent (mark_tracked_output_spent t o1)"
  by (simp_all add: mark_tracked_output_spent_def outpoint_of_def)

definition unspent_sum :: "tracked_output list \<Rightarrow> nat" where
  "unspent_sum outs = sum_list (unspent_amounts outs)"

lemma unspent_sum_simps [simp]:
  "unspent_sum [] = 0"
  "unspent_sum (o1 # outs) = (if spent o1 then 0 else amount o1) + unspent_sum outs"
  by (simp_all add: unspent_sum_def unspent_amounts_def)

lemma unspent_sum_mark:
  "find p outs = Some o1 \<Longrightarrow> \<not> spent o1 \<Longrightarrow>
     unspent_sum (update_first p (mark_tracked_output_spent t) outs) + amount o1 = unspent_sum outs"
  by (induction outs) (auto split: if_splits)

text \<open>An image is settled when the output it belongs to is spent or unknown.\<close>

definition settled :: "hash32 option \<Rightarrow> tracked_output list \<Rightarrow> bool" where
  "settled input outs \<longleftrightarrow>
     (case input of None \<Rightarrow> True
      | Some ki \<Rightarrow> (case find (\<lambda>o1. key_image o1 = ki) outs of None \<Rightarrow> True | Some o1 \<Rightarrow> spent o1))"

lemma spend_input_settled: "settled input outs \<Longrightarrow> spend_relayed_input t input (outs, s) = (outs, s)"
  by (auto simp: settled_def spend_relayed_input_def split: option.splits)

lemma spend_input_settles: "settled input (fst (spend_relayed_input t input (outs, s)))"
  by (cases input)
    (auto simp: settled_def spend_relayed_input_def find_update_first_same split: option.splits)

lemma spend_input_keeps_settled:
  assumes "settled input outs"
  shows "settled input (fst (spend_relayed_input t other (outs, s)))"
proof (cases "other = input")
  case True
  then show ?thesis using spend_input_settles by simp
next
  case False
  then show ?thesis
    using assms
    by (cases input; cases other)
      (auto simp: settled_def spend_relayed_input_def find_update_first_other split: option.splits)
qed

lemma spend_input_sum:
  "unspent_sum outs + s \<le> u64_max \<Longrightarrow> spend_relayed_input t input (outs, s) = (outs', s') \<Longrightarrow>
     unspent_sum outs + s = unspent_sum outs' + s'"
  by (auto simp: spend_relayed_input_def sat_add_def dest: unspent_sum_mark [where t = t]
      split: option.splits if_splits)

lemma spend_input_map:
  "map outpoint_of (fst (spend_relayed_input t input st)) = map outpoint_of (fst st)"
  "map block_height (fst (spend_relayed_input t input st)) = map block_height (fst st)"
  by (cases st; auto simp: spend_relayed_input_def update_first_map_eq split: option.splits)+

abbreviation spend_inputs ::
  "hash32 option \<Rightarrow> hash32 option list \<Rightarrow> tracked_output list \<times> u64 \<Rightarrow> tracked_output list \<times> u64" where
  "spend_inputs t inputs st \<equiv> foldl (\<lambda>st input. spend_relayed_input t input st) st inputs"

lemma spend_inputs_settled: "\<forall>i \<in> set inputs. settled i outs \<Longrightarrow> spend_inputs t inputs (outs, s) = (outs, s)"
  by (induction inputs) (auto simp: spend_input_settled)

lemma spend_inputs_keep:
  "settled i (fst st) \<Longrightarrow> settled i (fst (spend_inputs t inputs st))"
proof (induction inputs arbitrary: st)
  case (Cons a inputs)
  then show ?case using spend_input_keeps_settled [of i "fst st" t a "snd st"] by simp
qed simp

lemma spend_inputs_settle: "i \<in> set inputs \<Longrightarrow> settled i (fst (spend_inputs t inputs st))"
proof (induction inputs arbitrary: st)
  case (Cons a inputs)
  show ?case
  proof (cases "i = a")
    case True
    have "settled a (fst (spend_relayed_input t a st))"
      using spend_input_settles [of a t "fst st" "snd st"] by simp
    then show ?thesis using spend_inputs_keep True by simp
  next
    case False
    then show ?thesis using Cons by simp
  qed
qed simp

lemma spend_inputs_map:
  "map outpoint_of (fst (spend_inputs t inputs st)) = map outpoint_of (fst st)"
  "map block_height (fst (spend_inputs t inputs st)) = map block_height (fst st)"
  by (induction inputs arbitrary: st) (simp_all add: spend_input_map)

lemma spend_inputs_sum:
  assumes "unspent_sum outs + s \<le> u64_max" "spend_inputs t inputs (outs, s) = (outs', s')"
  shows "unspent_sum outs + s = unspent_sum outs' + s'"
  using assms
proof (induction inputs arbitrary: outs s)
  case (Cons a inputs)
  obtain o1 s1 where st: "spend_relayed_input t a (outs, s) = (o1, s1)" by fastforce
  from spend_input_sum [OF Cons.prems(1) st] Cons.IH [of o1 s1] Cons.prems st show ?case by simp
qed simp

lemma total_exact_unspent: "unspent_sum (tracked_outputs w) \<le> u64_max \<Longrightarrow>
    total_exact w \<longleftrightarrow> w_total w = unspent_sum (tracked_outputs w)"
  by (simp add: total_exact_def sat_sum_eq unspent_sum_def)

lemma record_relayed_simps:
  "tracked_outputs (record_relayed tx p t st) =
     fst (spend_inputs (parse_hex_32 t) (sx_inputs tx) (tracked_outputs st, 0))"
  "seen_outpoints (record_relayed tx p t st) = seen_outpoints st"
  "block_timestamps (record_relayed tx p t st) = block_timestamps st"
  "w_quarantine (record_relayed tx p t st) = w_quarantine st"
  "w_gap_limit (record_relayed tx p t st) = w_gap_limit st"
  "w_keys (record_relayed tx p t st) = w_keys st" "w_network (record_relayed tx p t st) = w_network st"
  "w_chain_time (record_relayed tx p t st) = w_chain_time st"
  "w_total (record_relayed tx p t st) =
     w_total st - snd (spend_inputs (parse_hex_32 t) (sx_inputs tx) (tracked_outputs st, 0))"
  "w_unlocked (record_relayed tx p t st) =
     w_unlocked st - snd (spend_inputs (parse_hex_32 t) (sx_inputs tx) (tracked_outputs st, 0))"
  "w_tx_ledger (record_relayed tx p t st) =
     hm_or_insert t (pending_send_row t (pp_amount p) (pp_fee p) (w_chain_time st)) (w_tx_ledger st)"
  by (simp_all add: record_relayed_def Let_def sat_sub_def split: prod.split)

lemma record_relayed_wf:
  assumes "wallet_wf st" "unspent_sum (tracked_outputs st) \<le> u64_max"
  shows "wallet_wf (record_relayed tx p t st)"
proof -
  let ?r = "spend_inputs (parse_hex_32 t) (sx_inputs tx) (tracked_outputs st, 0)"
  have sum: "unspent_sum (tracked_outputs st) = unspent_sum (fst ?r) + snd ?r"
    using spend_inputs_sum [of "tracked_outputs st" 0 "parse_hex_32 t" "sx_inputs tx" "fst ?r" "snd ?r"] assms(2)
    by simp
  have "total_exact st" using assms(1) by (simp add: wallet_wf_def)
  then have "total_exact (record_relayed tx p t st)"
    using total_exact_unspent [of st] total_exact_unspent [of "record_relayed tx p t st"] assms(2) sum
    by (simp add: record_relayed_simps)
  moreover have "set (map outpoint_of (fst ?r)) = set (map outpoint_of (tracked_outputs st))"
    by (simp only: spend_inputs_map fst_conv)
  ultimately show ?thesis
    using assms(1)
    by (auto simp: wallet_wf_def record_relayed_simps window_coherent_def rows_keyed_def hm_get_or_insert
        pending_send_row_def split: if_splits option.splits)
qed

text \<open>Recording the same relay twice changes nothing.\<close>

lemma record_relayed_again: "record_relayed tx p t (record_relayed tx p' t st) = record_relayed tx p' t st"
proof -
  define st1 where "st1 = record_relayed tx p' t st"
  have outs: "spend_inputs (parse_hex_32 t) (sx_inputs tx) (tracked_outputs st1, 0) = (tracked_outputs st1, 0)"
    by (rule spend_inputs_settled) (simp add: st1_def record_relayed_simps spend_inputs_settle)
  have pend: "list_ex (\<lambda>p. pt_txid p = t) (w_pending_outgoing st1)"
    by (auto simp: st1_def record_relayed_def Let_def list_ex_iff split: prod.split)
  have row: "map_of (w_tx_ledger st1) t \<noteq> None"
    by (simp add: st1_def record_relayed_simps hm_get_or_insert split: option.split)
  have "record_relayed tx p t st1 = st1"
    using pend row by (auto simp: record_relayed_def outs sat_sub_def hm_or_insert_def)
  then show ?thesis by (simp add: st1_def)
qed

section \<open>When a relay goes out\<close>

definition relay_checked :: "crypto \<Rightarrow> relay_lib \<Rightarrow> world \<Rightarrow> string \<Rightarrow> prepared_send_payload \<Rightarrow> bytes \<Rightarrow> signed_tx \<Rightarrow> bool" where
  "relay_checked cr rl w i prepared tx_bytes tx \<longleftrightarrow>
     (\<exists>st. map_of (wd_store w) i = Some st \<and> \<not> is_sealed (w_keys st) \<and>
        pp_wallet_binding prepared = Some (wallet_cache_binding cr st)) \<and>
     decode_hex (pp_signed_tx_hex prepared) = Inr tx_bytes \<and> rl_read_tx rl tx_bytes = Inr (tx, []) \<and>
     eq_ignore_ascii_case (hex_lowercase (sx_hash tx)) (trim (pp_txid prepared))"

lemma relay_binding_ok:
  assumes "relay_binding cr prepared i w = (Value (Inr ()), w1)"
  shows "w1 = w \<and> (\<exists>st. map_of (wd_store w) i = Some st \<and> \<not> is_sealed (w_keys st) \<and>
    pp_wallet_binding prepared = Some (wallet_cache_binding cr st)) \<and> \<not> wd_store_poisoned w"
  using assms
  by (auto simp: relay_binding_def on_wallet_def lock_store_def validate_prepared_binding_def
      split: if_splits option.splits sum.splits)

lemma relay_binding_world: "relay_binding cr prepared i w = (r, w1) \<Longrightarrow> w1 = w"
  by (auto simp: relay_binding_def on_wallet_def lock_store_def split: if_splits option.splits)

lemma relay_tx_ok:
  "relay_tx rl prepared = Inr (bs, tx) \<Longrightarrow>
     decode_hex (pp_signed_tx_hex prepared) = Inr bs \<and> rl_read_tx rl bs = Inr (tx, []) \<and>
     eq_ignore_ascii_case (hex_lowercase (sx_hash tx)) (trim (pp_txid prepared))"
  by (auto simp: relay_tx_def split: sum.splits if_splits)

text \<open>Either nothing is sent and the store stays, or every check has passed.\<close>

lemma relay_impl_cases:
  assumes "wallet_relay_prepared_impl cr env rl p u j w = ((r, w'), ev)"
  obtains (refused) "ev = []" "wd_store w' = wd_store w" "r = Value None \<or> r = Panic"
    | (sent) i prepared bs tx where "relay_checked cr rl w i prepared bs tx"
        "((r, w'), ev) = relay_send env rl i (daemon_base_url env u) bs tx prepared (clear_last_error w)"
        "\<not> wd_store_poisoned w"
proof -
  have "ev = [] \<and> wd_store w' = wd_store w \<and> (r = Value None \<or> r = Panic) \<or>
    (\<exists>i prepared bs tx w1. relay_binding cr prepared i (clear_last_error w) = (Value (Inr ()), w1) \<and>
       relay_tx rl prepared = Inr (bs, tx) \<and>
       relay_send env rl i (daemon_base_url env u) bs tx prepared w1 = ((r, w'), ev))"
    using assms
    by (auto simp: wallet_relay_prepared_impl_def Let_def null_ptr_def
        split: cptr.splits option.splits if_splits sum.splits prod.splits outcome.splits
        dest: relay_binding_world)
  then show thesis
  proof (elim disjE exE conjE)
    fix i prepared bs tx w1
    assume a: "relay_binding cr prepared i (clear_last_error w) = (Value (Inr ()), w1)"
      "relay_tx rl prepared = Inr (bs, tx)"
      "relay_send env rl i (daemon_base_url env u) bs tx prepared w1 = ((r, w'), ev)"
    from relay_binding_ok [OF a(1)] relay_tx_ok [OF a(2)] a(3) show thesis
      by (intro sent [of i prepared bs tx]) (auto simp: relay_checked_def)
  qed (use refused in auto)
qed

lemma apply_relayed_cases:
  assumes "apply_relayed_tx_local_state i tx p t w = (r, w')" "map_of (wd_store w) i = Some st"
    "\<not> wd_store_poisoned w"
  shows "r = Value True \<and> w' = put_wallet i (record_relayed tx p t st) w"
  using assms by (auto simp: apply_relayed_tx_local_state_def on_wallet_def lock_store_def)

text \<open>What a finished call means: an answer comes with the bookkeeping done for a checked payload that the
  daemon accepted or already knew; no answer leaves the store alone.\<close>

lemma relay_send_cases:
  assumes "relay_checked cr rl w i prepared bs tx" "\<not> wd_store_poisoned w"
    and "relay_send env rl i url bs tx prepared (clear_last_error w) = ((r, w'), ev)"
  shows "case r of
      Value (Some (t, status)) \<Rightarrow> t = hex_lowercase (sx_hash tx) \<and>
        (\<exists>st. map_of (wd_store w) i = Some st \<and>
           wd_store w' = hm_insert i (record_relayed tx prepared t st) (wd_store w)) \<and>
        (status = ''accepted'' \<and> relay_broadcast env rl url bs = Inr () \<and> Broadcast url bs \<in> set ev \<or>
         status = ''already_known'' \<and> (\<exists>k. daemon_knows_tx rl url t k = Inr True))
    | Value None \<Rightarrow> wd_store w' = wd_store w
    | Panic \<Rightarrow> False"
proof -
  from assms(1) obtain st where st: "map_of (wd_store w) i = Some st" by (auto simp: relay_checked_def)
  have ap: "apply_relayed_tx_local_state i tx prepared t (clear_last_error w) =
      (Value True, put_wallet i (record_relayed tx prepared t st) (clear_last_error w))" for t
    using apply_relayed_cases [of i tx prepared t "clear_last_error w"] st assms(2)
    by (metis error_simps(2,4) surj_pair)
  show ?thesis
    using assms(3) st
    by (auto simp: relay_send_def relay_known_def Let_def ap null_ptr_def put_wallet_def known_or_false_def
        split: if_splits sum.splits)
qed

lemma relay_send_events:
  "relay_send env rl i url bs tx prepared w = (x, ev) \<Longrightarrow>
     length (filter (\<lambda>e. \<exists>u b. e = Broadcast u b) ev) \<le> 1 \<and> (\<forall>u b. Broadcast u b \<in> set ev \<longrightarrow> u = url \<and> b = bs)"
  by (auto simp: relay_send_def Let_def split: if_splits sum.splits)


lemma record_relayed_settled:
  "input \<in> set (sx_inputs tx) \<Longrightarrow> settled input (tracked_outputs (record_relayed tx p t st))"
  by (simp add: record_relayed_simps spend_inputs_settle)

lemma record_relayed_sum:
  assumes "unspent_sum (tracked_outputs st) \<le> u64_max"
  shows "unspent_sum (tracked_outputs (record_relayed tx p t st)) \<le> u64_max"
  using spend_inputs_sum [of "tracked_outputs st" 0 "parse_hex_32 t" "sx_inputs tx"
      "fst (spend_inputs (parse_hex_32 t) (sx_inputs tx) (tracked_outputs st, 0))"
      "snd (spend_inputs (parse_hex_32 t) (sx_inputs tx) (tracked_outputs st, 0))"] assms
  by (simp add: record_relayed_simps)

end
