(* ===== verification/Routing.thy ===== *)
theory Routing
  imports World
begin

text \<open>
  Routing of daemon requests: bounded reading of response bodies (\<open>support/response_limits.rs\<close>), the
  fail-closed choice between a direct connection and the I2P proxy (\<open>support/routing.rs\<close>,
  \<open>ffi/routing.rs\<close>), and the transport that posts requests over it (\<open>support/rpc.rs\<close>).

  URL parsing, the HTTP client and the digest computation are third-party: the parameters \<open>url_lib\<close> and
  \<open>net_lib\<close>. What goes out on the network is observed as a list of hops and requests.
\<close>

section \<open>Bounded response bodies\<close>

definition MAX_JSON_RESPONSE_BYTES :: nat where
  "MAX_JSON_RESPONSE_BYTES = 16 * 1024 * 1024"

definition MAX_BINARY_RESPONSE_BYTES :: "bool \<Rightarrow> nat" where
  "MAX_BINARY_RESPONSE_BYTES mobile = (if mobile then 64 * 1024 * 1024 else 128 * 1024 * 1024)"

datatype io_kind = Invalid_Data | Permission_Denied | Other_Kind string

record response_read_failure =
  rf_kind :: io_kind
  rf_bytes_read :: nat
  rf_message :: string

text \<open>A body as the reader meets it, position by position. It need not end.\<close>

datatype read_event = RByte byte | REnd | RFail io_kind string

type_synonym body_reader = "nat \<Rightarrow> read_event"

text \<open>\<open>reader.take(n).read_to_end\<close> from position \<open>i\<close>: the bytes read and the failure, if any.\<close>

fun read_take :: "body_reader \<Rightarrow> nat \<Rightarrow> nat \<Rightarrow> bytes \<times> (io_kind \<times> string) option" where
  "read_take reader i 0 = ([], None)"
| "read_take reader i (Suc n) =
     (case reader i of
        REnd \<Rightarrow> ([], None)
      | RFail kind message \<Rightarrow> ([], Some (kind, message))
      | RByte b \<Rightarrow> (let (bs, fail) = read_take reader (Suc i) n in (b # bs, fail)))"

definition too_large :: "io_kind \<times> string" where
  "too_large = (Invalid_Data, ''daemon response exceeds byte limit; try a smaller scan batch'')"

definition read_limited_detailed :: "body_reader \<Rightarrow> nat \<Rightarrow> response_read_failure + bytes" where
  "read_limited_detailed reader limit =
     (let (bs, fail) = read_take reader 0 (sat_add limit 1) in
      case fail of
        Some (kind, message) \<Rightarrow> Inl \<lparr>rf_kind = kind, rf_bytes_read = length bs, rf_message = message\<rparr>
      | None \<Rightarrow>
          if limit < length bs
          then Inl \<lparr>rf_kind = fst too_large, rf_bytes_read = length bs, rf_message = snd too_large\<rparr>
          else Inr bs)"

definition read_limited :: "body_reader \<Rightarrow> nat \<Rightarrow> (io_kind \<times> string) + bytes" where
  "read_limited reader limit =
     (case read_limited_detailed reader limit of
        Inl f \<Rightarrow> Inl (rf_kind f, rf_message f) | Inr bs \<Rightarrow> Inr bs)"

record http_response =
  rs_status :: nat
  rs_header :: "string \<Rightarrow> string option"
  rs_reader :: body_reader

definition advertised_too_large :: "http_response \<Rightarrow> nat \<Rightarrow> bool" where
  "advertised_too_large response limit =
     (case rs_header response ''Content-Length'' of None \<Rightarrow> False
      | Some value1 \<Rightarrow> (case parse_unsigned u64_max value1 of None \<Rightarrow> False | Some len1 \<Rightarrow> limit < len1))"

definition read_response :: "http_response \<Rightarrow> nat \<Rightarrow> (io_kind \<times> string) + bytes" where
  "read_response response limit =
     (if advertised_too_large response limit then Inl too_large
      else read_limited (rs_reader response) limit)"

definition read_response_detailed :: "http_response \<Rightarrow> nat \<Rightarrow> response_read_failure + bytes" where
  "read_response_detailed response limit =
     (if advertised_too_large response limit
      then Inl \<lparr>rf_kind = fst too_large, rf_bytes_read = 0, rf_message = snd too_large\<rparr>
      else read_limited_detailed (rs_reader response) limit)"

section \<open>The choice of a route\<close>

record parsed_url =
  u_scheme :: string
  u_host :: "string option"
  u_port :: "nat option"
  u_known_port :: "nat option"
  u_username :: string
  u_password :: "string option"
  u_path :: string
  u_query :: "string option"
  u_fragment :: "string option"

record url_lib =
  ul_parse :: "string \<Rightarrow> parsed_url option"
  ul_text :: "parsed_url \<Rightarrow> string"
  ul_clear_username :: "parsed_url \<Rightarrow> parsed_url option"
  ul_clear_password :: "parsed_url \<Rightarrow> parsed_url option"

definition strip_host :: "string \<Rightarrow> string" where
  "strip_host host = to_ascii_lowercase (trim_end_char (CHR ''.'') host)"

definition i2p_host :: "string \<Rightarrow> bool" where
  "i2p_host host \<longleftrightarrow> strip_host host = ''i2p'' \<or> ends_with (strip_host host) ''.i2p''"

definition onion_host :: "string \<Rightarrow> bool" where
  "onion_host host \<longleftrightarrow> strip_host host = ''onion'' \<or> ends_with (strip_host host) ''.onion''"

definition anonymous_host :: "string \<Rightarrow> bool" where
  "anonymous_host host \<longleftrightarrow> i2p_host host \<or> onion_host host"

text \<open>\<open>netloc.rsplit_once(':')\<close>, or the whole string.\<close>

definition netloc_host :: "string \<Rightarrow> string" where
  "netloc_host netloc =
     (if CHR '':'' \<in> set netloc then rev (tl (dropWhile (\<lambda>c. c \<noteq> CHR '':'') (rev netloc))) else netloc)"

type_synonym address = string

definition resolve_direct ::
  "(string \<Rightarrow> (io_kind \<times> string) + address list) \<Rightarrow> string \<Rightarrow> (io_kind \<times> string) + address list" where
  "resolve_direct to_socket_addrs netloc =
     (if anonymous_host (netloc_host netloc)
      then Inl (Permission_Denied, ''Direct DNS for anonymity-network destinations is forbidden'')
      else to_socket_addrs netloc)"

text \<open>The process-wide setting: the last configured proxy or the reason why it was refused.\<close>

record route_state =
  rt_proxy :: "string + string option"
  rt_poisoned :: bool

definition route_initial :: route_state where
  "route_initial = \<lparr>rt_proxy = Inr None, rt_poisoned = False\<rparr>"

definition parse_proxy :: "url_lib \<Rightarrow> string \<Rightarrow> string + string" where
  "parse_proxy ul raw0 =
     (let raw = trim raw0;
          text1 = (if str_contains raw ''://'' then raw else ''http://'' @ raw) in
      case ul_parse ul text1 of None \<Rightarrow> Inl ''Invalid I2P HTTP proxy''
      | Some url \<Rightarrow>
          if (case u_host url of None \<Rightarrow> False | Some h \<Rightarrow> anonymous_host h)
          then Inl ''The local HTTP proxy cannot itself be an I2P/Tor destination''
          else if u_scheme url \<noteq> ''http'' \<or> u_host url = None \<or> u_known_port url = None
            \<or> u_port url = Some 0 \<or> u_username url \<noteq> '''' \<or> u_password url \<noteq> None
            \<or> u_path url \<noteq> ''/'' \<or> u_query url \<noteq> None \<or> u_fragment url \<noteq> None
          then Inl ''I2P HTTP proxy must be http://host:port (not SOCKS or HTTPS)''
          else Inr (ul_text ul url))"

definition unavailable :: string where
  "unavailable = ''I2P proxy configuration unavailable''"

definition configure_i2p_proxy :: "url_lib \<Rightarrow> string option \<Rightarrow> route_state \<Rightarrow> (string + unit) \<times> route_state" where
  "configure_i2p_proxy ul raw st =
     (let parsed = (case opt_filter (\<lambda>s. trim s \<noteq> []) raw of None \<Rightarrow> Inr None
            | Some s \<Rightarrow> (case parse_proxy ul s of Inl e \<Rightarrow> Inl e | Inr p \<Rightarrow> Inr (Some p))) in
      if rt_poisoned st then (Inl unavailable, st)
      else ((case parsed of Inl e \<Rightarrow> Inl e | Inr _ \<Rightarrow> Inr ()), st\<lparr>rt_proxy := parsed\<rparr>))"

definition proxy_for_url :: "url_lib \<Rightarrow> route_state \<Rightarrow> string \<Rightarrow> string + string option" where
  "proxy_for_url ul st raw_url =
     (case ul_parse ul raw_url of None \<Rightarrow> Inl ''Invalid daemon URL''
      | Some url \<Rightarrow>
          if u_scheme url \<notin> {''http'', ''https''} \<or> u_host url = None \<or> u_fragment url \<noteq> None
            \<or> u_query url \<noteq> None \<or> u_port url = Some 0
          then Inl ''Daemon URL must use HTTP or HTTPS and have no fragment''
          else (let host = the (u_host url) in
            if i2p_host host then
              (if u_scheme url \<noteq> ''http'' then Inl ''Use http:// for the I2P RPC destination''
               else if rt_poisoned st then Inl unavailable
               else (case rt_proxy st of Inl e \<Rightarrow> Inl e
                     | Inr None \<Rightarrow> Inl ''An I2P HTTP proxy is required; direct connections are forbidden''
                     | Inr (Some p) \<Rightarrow> Inr (Some p)))
            else if onion_host host then Inl ''Tor daemon routing is not configured''
            else Inr None))"

record agent =
  ag_timeout_s :: nat
  ag_redirects :: nat
  ag_env_proxy :: bool
  ag_proxy :: "string option"

definition agent_for_url :: "url_lib \<Rightarrow> (string \<Rightarrow> bool) \<Rightarrow> route_state \<Rightarrow> string \<Rightarrow> string + agent" where
  "agent_for_url ul proxy_valid st raw_url =
     (case proxy_for_url ul st raw_url of Inl e \<Rightarrow> Inl e
      | Inr proxy \<Rightarrow>
          (case proxy of
             Some p \<Rightarrow> if \<not> proxy_valid p then Inl ''Invalid I2P HTTP proxy''
               else Inr \<lparr>ag_timeout_s = 120, ag_redirects = 0, ag_env_proxy = False, ag_proxy = Some p\<rparr>
           | None \<Rightarrow> Inr \<lparr>ag_timeout_s = 120, ag_redirects = 0, ag_env_proxy = False, ag_proxy = None\<rparr>))"

text \<open>\<open>wallet_set_i2p_http_proxy\<close>. A string that is not UTF-8 invalidates the route.\<close>

definition wallet_set_i2p_http_proxy ::
  "url_lib \<Rightarrow> cptr \<Rightarrow> route_state \<Rightarrow> world \<Rightarrow> int outcome \<times> route_state \<times> world" where
  "wallet_set_i2p_http_proxy ul proxy st w =
     (let set1 = (\<lambda>value1. let (r, st') = configure_i2p_proxy ul value1 st in
            case r of Inr _ \<Rightarrow> (Value 0, st', w)
            | Inl message \<Rightarrow> (let (o1, w') = record_error (-14) message w in (o1, st', w'))) in
      case proxy of CNull \<Rightarrow> set1 None
      | CStr s \<Rightarrow>
          (case cstr_to_str s of Some v \<Rightarrow> set1 (Some v)
           | None \<Rightarrow>
               let (_, st') = configure_i2p_proxy ul (Some ''://invalid'') st;
                   (o1, w') = record_error (-11) ''Invalid proxy UTF-8'' w in (o1, st', w')))"

section \<open>The transport\<close>

record http_request =
  rq_url :: string
  rq_content_type :: string
  rq_authorization :: "string option"
  rq_body :: bytes

datatype hop = Via_Proxy string | Direct "address list"

type_synonym sent = "(hop \<times> http_request) list"

text \<open>The HTTP client: the host and port it connects to, the system resolver, the answer to the \<open>k\<close>-th
  request of a call, and the digest computation.\<close>

record net_lib =
  nl_netloc :: "string \<Rightarrow> string"
  nl_resolve :: "string \<Rightarrow> (io_kind \<times> string) + address list"
  nl_answer :: "nat \<Rightarrow> hop \<Rightarrow> http_request \<Rightarrow> http_response option"
  nl_challenge :: "string \<Rightarrow> bool"
  nl_respond :: "string \<Rightarrow> string \<Rightarrow> string \<Rightarrow> string \<Rightarrow> bytes \<Rightarrow> string option"

text \<open>An agent with a proxy connects to it; one without resolves the name by \<open>resolve_direct\<close>.\<close>

definition agent_send :: "net_lib \<Rightarrow> agent \<Rightarrow> nat \<Rightarrow> http_request \<Rightarrow> http_response option \<times> sent" where
  "agent_send net ag k req =
     (case ag_proxy ag of
        Some p \<Rightarrow> (nl_answer net k (Via_Proxy p) req, [(Via_Proxy p, req)])
      | None \<Rightarrow>
          (case resolve_direct (nl_resolve net) (nl_netloc net (rq_url req)) of
             Inl _ \<Rightarrow> (None, [])
           | Inr addrs \<Rightarrow> (nl_answer net k (Direct addrs) req, [(Direct addrs, req)])))"

record rpc_transport =
  tr_agent :: agent
  tr_base_url :: string
  tr_credentials :: "(string \<times> string) option"

definition for_url :: "url_lib \<Rightarrow> (string \<Rightarrow> bool) \<Rightarrow> route_state \<Rightarrow> string \<Rightarrow> string + rpc_transport" where
  "for_url ul proxy_valid st raw =
     (case ul_parse ul raw of None \<Rightarrow> Inl ''Invalid daemon URL''
      | Some url \<Rightarrow>
          let credentials = (if u_username url \<noteq> ''''
                then Some (u_username url, opt_get_or '''' (u_password url)) else None) in
          (case ul_clear_username ul url of None \<Rightarrow> Inl ''Invalid daemon URL''
           | Some url1 \<Rightarrow>
          (case ul_clear_password ul url1 of None \<Rightarrow> Inl ''Invalid daemon URL''
           | Some url2 \<Rightarrow>
          (case agent_for_url ul proxy_valid st (ul_text ul url2) of Inl e \<Rightarrow> Inl e
           | Inr ag \<Rightarrow> Inr \<lparr>tr_agent = ag, tr_base_url = trim_end_char (CHR ''/'') (ul_text ul url2),
               tr_credentials = credentials\<rparr>))))"

definition bad_route :: "string \<Rightarrow> bool" where
  "bad_route route \<longleftrightarrow> str_contains route ''://'' \<or> starts_with route ''//''
     \<or> CHR 0x0d \<in> set route \<or> CHR 0x0a \<in> set route"

definition transport_failed :: string where
  "transport_failed = ''Daemon transport failed; no direct-network fallback attempted''"

text \<open>The last stage: refuse redirects and a second 401, then read the body.\<close>

definition accept_response :: "http_response \<Rightarrow> nat \<Rightarrow> string + bytes" where
  "accept_response response limit =
     (if 300 \<le> rs_status response \<and> rs_status response < 400
      then Inl ''Daemon redirects are forbidden; no network fallback attempted''
      else if rs_status response = 401 then Inl ''Daemon authentication failed''
      else (case read_response_detailed response limit of
              Inl _ \<Rightarrow> Inl ''Invalid or oversized daemon HTTP response'' | Inr bs \<Rightarrow> Inr bs))"

definition authenticate ::
  "url_lib \<Rightarrow> net_lib \<Rightarrow> rpc_transport \<Rightarrow> http_request \<Rightarrow> http_response \<Rightarrow> nat
   \<Rightarrow> (string + http_response) \<times> sent" where
  "authenticate ul net t req response limit =
     (case tr_credentials t of None \<Rightarrow> (Inr response, [])
      | Some (username, password) \<Rightarrow>
          let challenge = opt_get_or '''' (rs_header response ''WWW-Authenticate'') in
          (case read_response response limit of Inl _ \<Rightarrow> (Inl ''Invalid authentication response'', [])
           | Inr _ \<Rightarrow>
          if \<not> nl_challenge net challenge then (Inl ''Invalid digest authentication challenge'', [])
          else (case ul_parse ul (rq_url req) of None \<Rightarrow> (Inl ''Invalid daemon URL'', [])
           | Some uri \<Rightarrow>
          (case nl_respond net challenge username password (u_path uri) (rq_body req) of
             None \<Rightarrow> (Inl ''Digest authentication failed'', [])
           | Some header \<Rightarrow>
              (case agent_send net (tr_agent t) 1 (req\<lparr>rq_authorization := Some header\<rparr>) of
                 (None, out) \<Rightarrow> (Inl transport_failed, out)
               | (Some response', out) \<Rightarrow> (Inr response', out))))))"

definition plain_request :: "rpc_transport \<Rightarrow> string \<Rightarrow> bytes \<Rightarrow> http_request" where
  "plain_request t route body =
     \<lparr>rq_url = tr_base_url t @ ''/'' @ trim_start_slash route,
      rq_content_type = (if ends_with route ''.bin'' then ''application/octet-stream'' else ''application/json''),
      rq_authorization = None, rq_body = body\<rparr>"

definition post_blocking ::
  "url_lib \<Rightarrow> net_lib \<Rightarrow> rpc_transport \<Rightarrow> string \<Rightarrow> bytes \<Rightarrow> nat \<Rightarrow> (string + bytes) \<times> sent" where
  "post_blocking ul net t route body limit =
     (if bad_route route then (Inl ''Invalid daemon RPC route'', [])
      else (let req = plain_request t route body in
        case agent_send net (tr_agent t) 0 req of
          (None, out) \<Rightarrow> (Inl transport_failed, out)
        | (Some response, out) \<Rightarrow>
            (case (if rs_status response = 401 then authenticate ul net t req response limit
                   else (Inr response, [])) of
               (Inl e, out') \<Rightarrow> (Inl e, out @ out')
             | (Inr response', out') \<Rightarrow> (accept_response response' limit, out @ out'))))"

definition response_cap :: "bool \<Rightarrow> string \<Rightarrow> nat" where
  "response_cap mobile route =
     (if ends_with route ''.bin'' then MAX_BINARY_RESPONSE_BYTES mobile else MAX_JSON_RESPONSE_BYTES)"

definition post ::
  "bool \<Rightarrow> url_lib \<Rightarrow> net_lib \<Rightarrow> rpc_transport \<Rightarrow> string \<Rightarrow> bytes \<Rightarrow> nat option \<Rightarrow> (string + bytes) \<times> sent" where
  "post mobile ul net t route body response_size_limit =
     (let cap = response_cap mobile route in
      post_blocking ul net t route body (min (opt_get_or cap response_size_limit) cap))"

section \<open>Accepted bodies are complete\<close>

lemma read_take_events:
  "read_take reader i n = (bs, None) \<Longrightarrow>
     (\<forall>j < length bs. reader (i + j) = RByte (bs ! j)) \<and> length bs \<le> n \<and>
     (length bs < n \<longrightarrow> reader (i + length bs) = REnd)"
proof (induction n arbitrary: i bs)
  case (Suc n)
  show ?case
  proof (cases "reader i")
    case (RByte b)
    obtain bs' f where t: "read_take reader (Suc i) n = (bs', f)" by fastforce
    with RByte Suc.prems have bs: "bs = b # bs'" "f = None" by simp_all
    with Suc.IH [of "Suc i" bs'] t RByte show ?thesis by (auto simp: nth_Cons split: nat.splits)
  qed (use Suc.prems in auto)
qed simp

lemma read_take_complete:
  "(\<forall>j < length bs. reader (i + j) = RByte (bs ! j)) \<Longrightarrow> reader (i + length bs) = REnd \<Longrightarrow>
     length bs < n \<Longrightarrow> read_take reader i n = (bs, None)"
proof (induction n arbitrary: i bs)
  case (Suc n)
  show ?case
  proof (cases bs)
    case (Cons b bs')
    have "reader i = RByte b" using Suc.prems(1) [rule_format, of 0] Cons by simp
    moreover have "\<forall>j < length bs'. reader (Suc i + j) = RByte (bs' ! j)"
      using Suc.prems(1) [rule_format, of "Suc j" for j] Cons by simp
    ultimately show ?thesis using Cons Suc.IH [of bs' "Suc i"] Suc.prems(2,3) by simp
  qed (use Suc.prems in auto)
qed simp

definition is_body :: "body_reader \<Rightarrow> bytes \<Rightarrow> bool" where
  "is_body reader bs \<longleftrightarrow> (\<forall>j < length bs. reader j = RByte (bs ! j)) \<and> reader (length bs) = REnd"

lemma read_limited_iff:
  assumes "limit < u64_max"
  shows "read_limited_detailed reader limit = Inr bs \<longleftrightarrow> is_body reader bs \<and> length bs \<le> limit"
proof -
  have n: "sat_add limit (Suc 0) = Suc limit" using assms by (simp add: sat_add_def)
  show ?thesis
  proof
    assume "read_limited_detailed reader limit = Inr bs"
    then have "read_take reader 0 (Suc limit) = (bs, None)" "length bs \<le> limit"
      by (auto simp: read_limited_detailed_def n simp del: read_take.simps
          split: prod.splits option.splits if_splits)
    with read_take_events [OF this(1)] show "is_body reader bs \<and> length bs \<le> limit"
      by (simp add: is_body_def del: read_take.simps)
  next
    assume "is_body reader bs \<and> length bs \<le> limit"
    then have "read_take reader 0 (Suc limit) = (bs, None)" "length bs \<le> limit"
      by (auto simp: is_body_def simp del: read_take.simps intro: read_take_complete)
    then show "read_limited_detailed reader limit = Inr bs"
      by (simp add: read_limited_detailed_def n del: read_take.simps)
  qed
qed

lemma accept_response_cases:
  assumes "accept_response r limit = Inr bs" "limit < u64_max"
  shows "is_body (rs_reader r) bs \<and> length bs \<le> limit \<and> rs_status r \<noteq> 401 \<and>
    \<not> (300 \<le> rs_status r \<and> rs_status r < 400)"
  using assms read_limited_iff [OF assms(2)]
  by (auto simp: accept_response_def read_response_detailed_def split: if_splits sum.splits)

section \<open>Anonymous destinations are never reached directly\<close>

text \<open>What is relied on of the URL parser: its text parses back, and clearing the user information keeps
  the rest.\<close>

definition url_ok :: "url_lib \<Rightarrow> bool" where
  "url_ok ul \<longleftrightarrow>
     (\<forall>u u1. ul_clear_username ul u = Some u1 \<longrightarrow>
        u_host u1 = u_host u \<and> u_scheme u1 = u_scheme u \<and> u_username u1 = '''') \<and>
     (\<forall>u u1. ul_clear_password ul u = Some u1 \<longrightarrow>
        u_host u1 = u_host u \<and> u_scheme u1 = u_scheme u \<and> u_username u1 = u_username u \<and> u_password u1 = None
        \<and> ul_parse ul (ul_text ul u1) = Some u1)"

lemma proxy_for_i2p:
  assumes "proxy_for_url ul st raw = Inr r" "ul_parse ul raw = Some u" "u_host u = Some h"
  shows "if i2p_host h then \<exists>p. r = Some p \<and> rt_proxy st = Inr (Some p) else r = None \<and> \<not> onion_host h"
  using assms by (auto simp: proxy_for_url_def Let_def split: if_splits sum.splits option.splits)

lemma agent_for_url_proxy:
  "agent_for_url ul pv st raw = Inr ag \<Longrightarrow> proxy_for_url ul st raw = Inr (ag_proxy ag) \<and>
     ag_redirects ag = 0 \<and> \<not> ag_env_proxy ag"
  by (auto simp: agent_for_url_def split: sum.splits option.splits if_splits)

lemma for_url_i2p:
  assumes "url_ok ul" "for_url ul pv st raw = Inr t" "ul_parse ul raw = Some u" "u_host u = Some h"
  shows "if i2p_host h then \<exists>p. ag_proxy (tr_agent t) = Some p \<and> rt_proxy st = Inr (Some p)
    else ag_proxy (tr_agent t) = None \<and> \<not> onion_host h"
proof -
  from assms(2,3) obtain u1 u2 where c: "ul_clear_username ul u = Some u1" "ul_clear_password ul u1 = Some u2"
    and ag: "agent_for_url ul pv st (ul_text ul u2) = Inr (tr_agent t)"
    by (auto simp: for_url_def Let_def split: option.splits sum.splits)
  from assms(1,4) c have "ul_parse ul (ul_text ul u2) = Some u2" "u_host u2 = Some h"
    by (auto simp: url_ok_def)
  from proxy_for_i2p [OF conjunct1 [OF agent_for_url_proxy [OF ag]] this] show ?thesis .
qed

lemma agent_send_proxy:
  "ag_proxy ag = Some p \<Longrightarrow> agent_send net ag k req = (x, out) \<Longrightarrow> set out \<subseteq> {(Via_Proxy p, req)} \<and> length out \<le> 1"
  by (auto simp: agent_send_def)

lemma authenticate_proxy:
  assumes "ag_proxy (tr_agent t) = Some p" "authenticate ul net t req r limit = (x, out)"
  shows "(\<forall>(hop, q) \<in> set out. hop = Via_Proxy p) \<and> length out \<le> 1"
  using assms(2)
  by (auto simp: authenticate_def Let_def split: option.splits sum.splits if_splits prod.splits
      dest!: agent_send_proxy [OF assms(1)])

text \<open>A call sends one request, and a second one only to authenticate.\<close>

lemma post_blocking_cases:
  obtains (nothing) "snd (post_blocking ul net t route body limit) = []"
      "\<exists>e. fst (post_blocking ul net t route body limit) = Inl e"
    | (once) req x out where "agent_send net (tr_agent t) 0 req = (x, out)"
        "snd (post_blocking ul net t route body limit) = out"
        "(\<exists>e. fst (post_blocking ul net t route body limit) = Inl e) \<or>
         (\<exists>r. fst (post_blocking ul net t route body limit) = accept_response r limit)"
    | (twice) req x out r y out' where "agent_send net (tr_agent t) 0 req = (x, out)"
        "authenticate ul net t req r limit = (y, out')"
        "snd (post_blocking ul net t route body limit) = out @ out'"
        "(\<exists>e. fst (post_blocking ul net t route body limit) = Inl e) \<or>
         (\<exists>r. fst (post_blocking ul net t route body limit) = accept_response r limit)"
proof (cases "bad_route route")
  case True
  show thesis by (rule nothing) (use True in \<open>simp_all add: post_blocking_def\<close>)
next
  case False
  let ?req = "plain_request t route body"
  obtain x out where s: "agent_send net (tr_agent t) 0 ?req = (x, out)" by fastforce
  show thesis
  proof (cases x)
    case None
    show thesis
      by (rule once [OF s]) (use False s None in \<open>simp_all add: post_blocking_def Let_def\<close>)
  next
    case (Some r)
    show thesis
    proof (cases "rs_status r = 401")
      case True
      obtain y out' where a: "authenticate ul net t ?req r limit = (y, out')" by fastforce
      show thesis
        by (rule twice [OF s a])
          (use False True s a Some in \<open>auto simp: post_blocking_def Let_def split: sum.splits\<close>)
    next
      case no: False
      show thesis
        by (rule once [OF s])
          (use False no s Some in \<open>auto simp: post_blocking_def Let_def\<close>)
    qed
  qed
qed

lemma post_blocking_proxy:
  assumes "ag_proxy (tr_agent t) = Some p"
  shows "(\<forall>(hop, q) \<in> set (snd (post_blocking ul net t route body limit)). hop = Via_Proxy p) \<and>
    length (snd (post_blocking ul net t route body limit)) \<le> 2"
proof (cases rule: post_blocking_cases [of ul net t route body limit])
  case (once req x out)
  then show ?thesis using agent_send_proxy [OF assms once(1)] by auto
next
  case (twice req x out r y out')
  then show ?thesis
    using agent_send_proxy [OF assms twice(1)] authenticate_proxy [OF assms twice(2)] by auto
qed simp

lemma post_blocking_accepts:
  assumes "fst (post_blocking ul net t route body limit) = Inr bs"
  obtains r where "accept_response r limit = Inr bs"
  using assms by (cases rule: post_blocking_cases [of ul net t route body limit]) auto

text \<open>Without a proxy, a direct connection is opened to resolvable names only.\<close>

lemma agent_send_direct:
  "agent_send net ag k req = (x, out) \<Longrightarrow> (Direct addrs, q) \<in> set out \<Longrightarrow>
     \<not> anonymous_host (netloc_host (nl_netloc net (rq_url q)))"
  by (auto simp: agent_send_def resolve_direct_def split: option.splits sum.splits if_splits)

lemma authenticate_direct:
  "authenticate ul net t req r limit = (x, out) \<Longrightarrow> (Direct addrs, q) \<in> set out \<Longrightarrow>
     \<not> anonymous_host (netloc_host (nl_netloc net (rq_url q)))"
  by (auto simp: authenticate_def Let_def split: option.splits sum.splits if_splits prod.splits
      dest: agent_send_direct)

lemma post_blocking_direct:
  assumes "(Direct addrs, q) \<in> set (snd (post_blocking ul net t route body limit))"
  shows "\<not> anonymous_host (netloc_host (nl_netloc net (rq_url q)))"
proof (cases rule: post_blocking_cases [of ul net t route body limit])
  case (once req x out)
  then show ?thesis using assms agent_send_direct [OF once(1)] by auto
next
  case (twice req x out r y out')
  then show ?thesis
    using assms agent_send_direct [OF twice(1)] authenticate_direct [OF twice(2)] by auto
qed (use assms in simp)


text \<open>No host is both.\<close>

lemma i2p_not_onion: "i2p_host h \<Longrightarrow> \<not> onion_host h"
  by (cases "rev (strip_host h)") (auto simp: i2p_host_def onion_host_def ends_with_def)

end
