(* ===== verification/Epee.thy ===== *)
theory Epee
  imports Text_Codec
begin

text \<open>
  The tolerant readers of portable-storage (EPEE) bytes (\<open>support/bulk_bin.rs\<close>): bounded lengths, the
  generic value skipper with its nesting and work limits, the typed array of transaction blobs.

  A reader (\<open>Buf\<close>) is the list of bytes that remain; \<open>chunk\<close> is the whole list, as it is for the
  contiguous buffers the callers pass. Decoding of a variable-length integer and the generic decoder of
  a sequence of blobs belong to a third-party crate: they are the parameters \<open>rv\<close> and \<open>fast\<close>.
  The grammar \<open>epee_body\<close> says which bytes encode a value; the skipper is proved to accept
  exactly those within its limits.
\<close>

unbundle bit_operations_syntax

section \<open>Limits and results\<close>

definition MAX_EPEE_BLOCKS_PER_RESPONSE :: nat where
  "MAX_EPEE_BLOCKS_PER_RESPONSE = 2000"

definition MAX_EPEE_TXS_PER_BLOCK :: nat where
  "MAX_EPEE_TXS_PER_BLOCK = 10 * 1024 * 1024 div 32"

definition MAX_EPEE_OUTPUTS_PER_TX :: nat where
  "MAX_EPEE_OUTPUTS_PER_TX = MAX_EPEE_TXS_PER_BLOCK"

definition MAX_EPEE_BLOB_BYTES :: nat where
  "MAX_EPEE_BLOB_BYTES = 10 * 1024 * 1024"

definition MAX_EPEE_BLOCK_IDS_BYTES :: nat where
  "MAX_EPEE_BLOCK_IDS_BYTES = 4096 * 32"

definition MAX_EPEE_STATUS_BYTES :: nat where
  "MAX_EPEE_STATUS_BYTES = 4 * 1024"

definition MAX_EPEE_NESTING :: nat where
  "MAX_EPEE_NESTING = 64"

definition MAX_EPEE_SKIP_VALUES :: nat where
  "MAX_EPEE_SKIP_VALUES = 1000000"

text \<open>\<open>Epee_Value\<close> stands for the errors of the third-party decoder.\<close>

datatype epee_error = Epee_Format string | Epee_Value

type_synonym 'a epee_result = "epee_error + 'a"
type_synonym varint_reader = "bytes \<Rightarrow> (u64 \<times> bytes) option"

text \<open>A loop \<open>for _ in 0..n\<close> whose body may fail: the first failure ends it.\<close>

fun for_times :: "nat \<Rightarrow> ('s \<Rightarrow> 'e + 's) \<Rightarrow> 's \<Rightarrow> 'e + 's" where
  "for_times 0 f s = Inr s"
| "for_times (Suc n) f s = (case f s of Inl e \<Rightarrow> Inl e | Inr s' \<Rightarrow> for_times n f s')"

section \<open>Lengths and names\<close>

definition checked_epee_sequence_len :: "u64 \<Rightarrow> nat \<Rightarrow> usize epee_result" where
  "checked_epee_sequence_len len1 max1 =
     (if usize_max < len1 then Inl (Epee_Format ''EPEE sequence length overflow'')
      else if max1 < len1 then Inl (Epee_Format ''EPEE sequence length exceeds limit'')
      else Inr len1)"

definition varint_len :: "byte \<Rightarrow> nat" where
  "varint_len start = push_bit (unat (start AND 3)) 1"

definition peek_epee_varint_u64 :: "varint_reader \<Rightarrow> bytes \<Rightarrow> (u64 \<times> usize) option" where
  "peek_epee_varint_u64 rv bs =
     (case bs of [] \<Rightarrow> None
      | start # _ \<Rightarrow>
          let len1 = varint_len start in
          if length bs < len1 then None
          else (case rv (take len1 bs) of None \<Rightarrow> None | Some (value1, _) \<Rightarrow> Some (value1, len1)))"

definition skip_epee_varint_u64 :: "varint_reader \<Rightarrow> bytes \<Rightarrow> (u64 \<times> bytes) epee_result" where
  "skip_epee_varint_u64 rv r =
     (case rv r of None \<Rightarrow> Inl (Epee_Format ''skip_epee_varint_u64: invalid varint'')
      | Some (v, r') \<Rightarrow> Inr (v, r'))"

definition read_epee_field_name :: "(bytes \<Rightarrow> string option) \<Rightarrow> bytes \<Rightarrow> (string \<times> bytes) epee_result" where
  "read_epee_field_name utf8 r =
     (case r of [] \<Rightarrow> Inl (Epee_Format ''read_epee_field_name: EOF reading name length'')
      | l # r1 \<Rightarrow>
          let name_len = unat l in
          if length r1 < name_len then Inl (Epee_Format ''read_epee_field_name: EOF reading field name'')
          else (case utf8 (take name_len r1) of
                  None \<Rightarrow> Inl (Epee_Format ''read_epee_field_name: invalid UTF-8'')
                | Some s \<Rightarrow> Inr (s, drop name_len r1)))"

definition read_epee_len_prefixed_bytes ::
  "varint_reader \<Rightarrow> nat \<Rightarrow> bytes \<Rightarrow> (bytes \<times> bytes) epee_result" where
  "read_epee_len_prefixed_bytes rv max_len r =
     (case skip_epee_varint_u64 rv r of Inl e \<Rightarrow> Inl e
      | Inr (len1, r1) \<Rightarrow>
          if usize_max < len1 then Inl (Epee_Format ''EPEE byte sequence length overflow'')
          else if max_len < len1 then Inl (Epee_Format ''EPEE byte sequence exceeds limit'')
          else if length r1 < len1 then Inl (Epee_Format ''EPEE byte sequence truncated'')
          else Inr (take len1 r1, drop len1 r1))"

definition is_supported_blob_marker :: "byte \<Rightarrow> bool" where
  "is_supported_blob_marker marker \<longleftrightarrow> marker \<in> {0x0a, 0x0b, 0xba, 0xcf}"

section \<open>Skipping a value\<close>

definition fixed_width :: "byte \<Rightarrow> nat option" where
  "fixed_width marker =
     (if marker \<in> {0x01, 0x05, 0x09} then Some 8
      else if marker \<in> {0x02, 0x06} then Some 4
      else if marker \<in> {0x03, 0x07} then Some 2
      else if marker \<in> {0x04, 0x08, 0x0b} then Some 1
      else None)"

text \<open>The state of the skipper: what remains to be read and the values it may still consume.\<close>

type_synonym skip_state = "bytes \<times> nat"

text \<open>The name of a field is skipped without being looked at. The loop over the fields of an object
  reads the name, then the marker (\<open>skip_epee_value_bounded\<close>), then the value.\<close>

definition skip_field_name :: "bytes \<Rightarrow> bytes epee_result" where
  "skip_field_name r =
     (case r of
        [] \<Rightarrow> Inl (Epee_Format ''skip_epee_value_with_known_marker: EOF reading field name length'')
      | l # r1 \<Rightarrow>
          if length r1 < unat l
          then Inl (Epee_Format ''skip_epee_value_with_known_marker: EOF reading field name'')
          else Inr (drop (unat l) r1))"

definition no_marker :: epee_error where
  "no_marker = Epee_Format ''skip_epee_value: unexpected EOF (no marker)''"

function skip_epee_value_with_budget ::
  "varint_reader \<Rightarrow> nat \<Rightarrow> byte \<Rightarrow> skip_state \<Rightarrow> skip_state epee_result" where
  "skip_epee_value_with_budget rv depth marker st =
     (let (r, remaining_values) = st in
      if MAX_EPEE_NESTING \<le> depth \<or> remaining_values = 0
      then Inl (Epee_Format ''EPEE nesting/work limit exceeded'')
      else if marker AND 0x80 \<noteq> 0 then
        (case skip_epee_varint_u64 rv r of Inl e \<Rightarrow> Inl e
         | Inr (elements, r1) \<Rightarrow>
             if remaining_values - 1 < elements then Inl (Epee_Format ''EPEE work limit exceeded'')
             else for_times elements (skip_epee_value_with_budget rv (depth + 1) (marker AND 0x7f))
                    (r1, remaining_values - 1))
      else (case fixed_width marker of
        Some width \<Rightarrow>
          if length r < width
          then Inl (Epee_Format ''skip_epee_value_with_known_marker: EOF reading fixed-width value'')
          else Inr (drop width r, remaining_values - 1)
      | None \<Rightarrow>
          if marker = 0x0a then
            (case skip_epee_varint_u64 rv r of Inl e \<Rightarrow> Inl e
             | Inr (len1, r1) \<Rightarrow>
                 if usize_max < len1
                 then Inl (Epee_Format ''skip_epee_value_with_known_marker: string length overflow'')
                 else if length r1 < len1
                 then Inl (Epee_Format ''skip_epee_value_with_known_marker: EOF reading string'')
                 else Inr (drop len1 r1, remaining_values - 1))
          else if marker = 0x0c then
            (case skip_epee_varint_u64 rv r of Inl e \<Rightarrow> Inl e
             | Inr (fields, r1) \<Rightarrow>
                 if remaining_values - 1 < fields then Inl (Epee_Format ''EPEE work limit exceeded'')
                 else for_times fields
                        (\<lambda>(r2, b). case skip_field_name r2 of Inl e \<Rightarrow> Inl e
                           | Inr [] \<Rightarrow> Inl no_marker
                           | Inr (m # r3) \<Rightarrow> skip_epee_value_with_budget rv (depth + 1) m (r3, b))
                        (r1, remaining_values - 1))
          else Inl (Epee_Format ''Unsupported EPEE marker'')))"
  by pat_completeness auto
termination
  by (relation "measure (\<lambda>(rv, depth, marker, st). MAX_EPEE_NESTING - depth)") auto

declare skip_epee_value_with_budget.simps [simp del]

definition skip_epee_value_bounded :: "varint_reader \<Rightarrow> nat \<Rightarrow> skip_state \<Rightarrow> skip_state epee_result" where
  "skip_epee_value_bounded rv depth st =
     (case st of ([], b) \<Rightarrow> Inl no_marker
      | (marker # r, b) \<Rightarrow> skip_epee_value_with_budget rv depth marker (r, b))"

definition drop_budget :: "skip_state epee_result \<Rightarrow> bytes epee_result" where
  "drop_budget x = (case x of Inl e \<Rightarrow> Inl e | Inr (r, b) \<Rightarrow> Inr r)"

definition skip_epee_value :: "varint_reader \<Rightarrow> bytes \<Rightarrow> bytes epee_result" where
  "skip_epee_value rv r = drop_budget (skip_epee_value_bounded rv 0 (r, MAX_EPEE_SKIP_VALUES))"

definition skip_epee_value_with_known_marker :: "varint_reader \<Rightarrow> byte \<Rightarrow> bytes \<Rightarrow> bytes epee_result" where
  "skip_epee_value_with_known_marker rv marker r =
     drop_budget (skip_epee_value_with_budget rv 0 marker (r, MAX_EPEE_SKIP_VALUES))"

section \<open>What the parameters are relied on for\<close>

text \<open>The third-party variable-length integer: the two low bits of its first byte give its width, the
  value fits 64 bits, and what follows it is not looked at.\<close>

definition vint :: "varint_reader \<Rightarrow> bytes \<Rightarrow> u64 \<Rightarrow> bool" where
  "vint rv p v \<longleftrightarrow> (\<forall>rest. rv (p @ rest) = Some (v, rest))"

definition varint_ok :: "varint_reader \<Rightarrow> bool" where
  "varint_ok rv \<longleftrightarrow>
     (\<forall>bs v rest. rv bs = Some (v, rest) \<longrightarrow>
        v \<le> u64_max \<and> (\<exists>p. p \<noteq> [] \<and> length p = varint_len (hd p) \<and> bs = p @ rest \<and> vint rv p v))"

lemma varint_cases:
  assumes "varint_ok rv" "skip_epee_varint_u64 rv r = Inr (v, rest)"
  obtains p where "r = p @ rest" "vint rv p v" "p \<noteq> []" "length p = varint_len (hd p)" "v \<le> u64_max"
  using assms by (auto simp: skip_epee_varint_u64_def varint_ok_def split: option.splits) blast

lemma vint_skip: "vint rv p v \<Longrightarrow> skip_epee_varint_u64 rv (p @ rest) = Inr (v, rest)"
  by (simp add: vint_def skip_epee_varint_u64_def)

lemma vint_le: "varint_ok rv \<Longrightarrow> vint rv p v \<Longrightarrow> v \<le> u64_max"
  by (metis append_Nil2 varint_ok_def vint_def)

section \<open>The grammar of values\<close>

text \<open>\<open>epee_body rv d m v n\<close>: the bytes \<open>v\<close> are the body of a value whose marker is \<open>m\<close>, at nesting
  depth \<open>d\<close>, made of \<open>n\<close> values in all, itself included.\<close>

inductive epee_body :: "varint_reader \<Rightarrow> nat \<Rightarrow> byte \<Rightarrow> bytes \<Rightarrow> nat \<Rightarrow> bool"
  and epee_elems :: "varint_reader \<Rightarrow> nat \<Rightarrow> byte \<Rightarrow> nat \<Rightarrow> bytes \<Rightarrow> nat \<Rightarrow> bool"
  and epee_fields :: "varint_reader \<Rightarrow> nat \<Rightarrow> nat \<Rightarrow> bytes \<Rightarrow> nat \<Rightarrow> bool"
  for rv :: varint_reader where
  body_fixed: "d < MAX_EPEE_NESTING \<Longrightarrow> m AND 0x80 = 0 \<Longrightarrow> fixed_width m = Some (length v) \<Longrightarrow>
     epee_body rv d m v 1"
| body_string: "d < MAX_EPEE_NESTING \<Longrightarrow> vint rv p (length s) \<Longrightarrow> epee_body rv d 0x0a (p @ s) 1"
| body_array: "d < MAX_EPEE_NESTING \<Longrightarrow> m AND 0x80 \<noteq> 0 \<Longrightarrow> vint rv p k \<Longrightarrow>
     epee_elems rv (Suc d) (m AND 0x7f) k v n \<Longrightarrow> epee_body rv d m (p @ v) (Suc n)"
| body_object: "d < MAX_EPEE_NESTING \<Longrightarrow> vint rv p k \<Longrightarrow> epee_fields rv (Suc d) k v n \<Longrightarrow>
     epee_body rv d 0x0c (p @ v) (Suc n)"
| elems_Nil: "epee_elems rv d m 0 [] 0"
| elems_Cons: "epee_body rv d m v n \<Longrightarrow> epee_elems rv d m k w n' \<Longrightarrow>
     epee_elems rv d m (Suc k) (v @ w) (n + n')"
| fields_Nil: "epee_fields rv d 0 [] 0"
| fields_Cons: "unat l = length name \<Longrightarrow> epee_body rv d m v n \<Longrightarrow> epee_fields rv d k w n' \<Longrightarrow>
     epee_fields rv d (Suc k) (l # name @ m # v @ w) (n + n')"

lemma grammar_positive:
  "epee_body rv d m v n \<Longrightarrow> 0 < n" "epee_elems rv d m k v n \<Longrightarrow> k \<le> n" "epee_fields rv d k v n \<Longrightarrow> k \<le> n"
  by (induction rule: epee_body_epee_elems_epee_fields.inducts) auto

text \<open>One round of the loop over the fields.\<close>

definition skip_field :: "varint_reader \<Rightarrow> nat \<Rightarrow> skip_state \<Rightarrow> skip_state epee_result" where
  "skip_field rv depth = (\<lambda>(r2, b). case skip_field_name r2 of Inl e \<Rightarrow> Inl e
      | Inr [] \<Rightarrow> Inl no_marker
      | Inr (m # r3) \<Rightarrow> skip_epee_value_with_budget rv depth m (r3, b))"

lemma skip_field_name_app: "unat l = length name \<Longrightarrow> skip_field_name (l # name @ r) = Inr r"
  by (simp add: skip_field_name_def)

lemma skip_field_name_cases:
  assumes "skip_field_name r = Inr r'"
  obtains l name where "r = l # name @ r'" "unat l = length name"
proof (cases r)
  case (Cons l r1)
  then have "length (take (unat l) r1) = unat l" "r1 = take (unat l) r1 @ r'"
    using assms by (auto simp: skip_field_name_def split: if_splits)
  then show ?thesis using that Cons by metis
qed (use assms in \<open>simp add: skip_field_name_def\<close>)

lemmas skip_unfold = skip_epee_value_with_budget.simps [of _ _ _ "(r, b)" for r b, folded skip_field_def]

section \<open>The skipper accepts what the grammar allows\<close>

lemma array_not_fixed [simp]:
  "(0x0a::byte) AND 0x80 = 0" "(0x0c::byte) AND 0x80 = 0"
  "fixed_width 0x0a = None" "fixed_width 0x0c = None"
  by (simp_all add: fixed_width_def)

lemma skip_complete:
  assumes "varint_ok rv"
  shows "epee_body rv d m v n \<Longrightarrow>
      \<forall>rest b. n \<le> b \<longrightarrow> skip_epee_value_with_budget rv d m (v @ rest, b) = Inr (rest, b - n)"
    and "epee_elems rv d m k v n \<Longrightarrow>
      \<forall>rest b. n \<le> b \<longrightarrow> for_times k (skip_epee_value_with_budget rv d m) (v @ rest, b) = Inr (rest, b - n)"
    and "epee_fields rv d k v n \<Longrightarrow>
      \<forall>rest b. n \<le> b \<longrightarrow> for_times k (skip_field rv d) (v @ rest, b) = Inr (rest, b - n)"
proof (induction rule: epee_body_epee_elems_epee_fields.inducts)
  case (body_fixed d m v)
  then show ?case by (simp add: skip_unfold)
next
  case (body_string d p s)
  then show ?case using vint_le [OF assms body_string(2)]
    by (simp add: skip_unfold vint_skip usize_max_def)
next
  case (body_array d m p k v n)
  then show ?case using grammar_positive(2) [OF body_array(4)]
    by (auto simp: skip_unfold vint_skip)
next
  case (body_object d p k v n)
  then show ?case using grammar_positive(3) [OF body_object(3)]
    by (auto simp: skip_unfold vint_skip)
next
  case (fields_Cons l name d m v n k w n')
  then show ?case by (simp add: skip_field_def skip_field_name_app)
qed simp_all

section \<open>The skipper accepts nothing else\<close>

lemma for_times_elems:
  assumes "\<And>r b rest b'. f (r, b) = Inr (rest, b') \<Longrightarrow>
      \<exists>v n. r = v @ rest \<and> epee_body rv d m v n \<and> b = b' + n"
    and "for_times k f (r, b) = Inr (rest, b')"
  shows "\<exists>v n. r = v @ rest \<and> epee_elems rv d m k v n \<and> b = b' + n"
  using assms(2)
proof (induction k arbitrary: r b)
  case 0
  then show ?case by (auto intro: elems_Nil)
next
  case (Suc k)
  then obtain r1 b1 where "f (r, b) = Inr (r1, b1)" "for_times k f (r1, b1) = Inr (rest, b')"
    by (auto split: sum.splits)
  from assms(1) [OF this(1)] obtain x i where "r = x @ r1" "epee_body rv d m x i" "b = b1 + i"
    by blast
  moreover from Suc.IH [OF \<open>for_times k f (r1, b1) = Inr (rest, b')\<close>] obtain y j
    where "r1 = y @ rest" "epee_elems rv d m k y j" "b1 = b' + j"
    by blast
  ultimately have "r = (x @ y) @ rest \<and> epee_elems rv d m (Suc k) (x @ y) (i + j) \<and> b = b' + (i + j)"
    by (simp add: elems_Cons)
  then show ?case by blast
qed

lemma for_times_fields:
  assumes "\<And>m r b rest b'. skip_epee_value_with_budget rv d m (r, b) = Inr (rest, b') \<Longrightarrow>
      \<exists>v n. r = v @ rest \<and> epee_body rv d m v n \<and> b = b' + n"
    and "for_times k (skip_field rv d) (r, b) = Inr (rest, b')"
  shows "\<exists>v n. r = v @ rest \<and> epee_fields rv d k v n \<and> b = b' + n"
  using assms(2)
proof (induction k arbitrary: r b)
  case 0
  then show ?case by (auto intro: fields_Nil)
next
  case (Suc k)
  then obtain r1 b1 where s: "skip_field rv d (r, b) = Inr (r1, b1)"
    and l: "for_times k (skip_field rv d) (r1, b1) = Inr (rest, b')"
    by (auto split: sum.splits)
  from s obtain m r3 where n: "skip_field_name r = Inr (m # r3)"
    and v: "skip_epee_value_with_budget rv d m (r3, b) = Inr (r1, b1)"
    by (auto simp: skip_field_def split: sum.splits list.splits)
  from skip_field_name_cases [OF n] obtain c name where "r = c # name @ m # r3" "unat c = length name"
    by metis
  moreover from assms(1) [OF v] obtain x i where "r3 = x @ r1" "epee_body rv d m x i" "b = b1 + i"
    by blast
  moreover from Suc.IH [OF l] obtain y j where "r1 = y @ rest" "epee_fields rv d k y j" "b1 = b' + j"
    by blast
  ultimately have "r = (c # name @ m # x @ y) @ rest \<and>
      epee_fields rv d (Suc k) (c # name @ m # x @ y) (i + j) \<and> b = b' + (i + j)"
    by (simp add: fields_Cons)
  then show ?case by blast
qed

lemma skip_sound:
  assumes "varint_ok rv"
  shows "skip_epee_value_with_budget rv d m (r, b) = Inr (rest, b') \<Longrightarrow>
    \<exists>v n. r = v @ rest \<and> epee_body rv d m v n \<and> b = b' + n"
proof (induction "MAX_EPEE_NESTING - d" arbitrary: d m r b rest b')
  case 0
  then show ?case by (simp add: skip_unfold)
next
  case (Suc x)
  have deep: "\<exists>v n. r = v @ rest \<and> epee_body rv (Suc d) m v n \<and> b = b' + n"
    if "skip_epee_value_with_budget rv (Suc d) m (r, b) = Inr (rest, b')" for m r b rest b'
    using Suc.hyps(1) [OF _ that] Suc.hyps(2) by simp
  have d: "d < MAX_EPEE_NESTING" and b: "0 < b"
    using Suc.prems by (auto simp: skip_unfold split: if_splits)
  consider (array) k r1 where "m AND 0x80 \<noteq> 0" "skip_epee_varint_u64 rv r = Inr (k, r1)"
      "for_times k (skip_epee_value_with_budget rv (Suc d) (m AND 0x7f)) (r1, b - 1) = Inr (rest, b')"
    | (scalar) w where "m AND 0x80 = 0" "fixed_width m = Some w" "w \<le> length r" "rest = drop w r" "b' = b - 1"
    | (strings) l r1 where "m = 0x0a" "skip_epee_varint_u64 rv r = Inr (l, r1)" "l \<le> length r1"
        "rest = drop l r1" "b' = b - 1"
    | (fields) k r1 where "m = 0x0c" "skip_epee_varint_u64 rv r = Inr (k, r1)"
        "for_times k (skip_field rv (Suc d)) (r1, b - 1) = Inr (rest, b')"
    using Suc.prems by (auto simp: skip_unfold split: if_splits sum.splits option.splits)
  then show ?case
  proof cases
    case array
    from varint_cases [OF assms array(2)] obtain p where "r = p @ r1" "vint rv p k" by metis
    with for_times_elems [OF deep array(3)] array(1) d b show ?thesis
      by (fastforce intro: body_array)
  next
    case scalar
    with d b show ?thesis
      by (intro exI [of _ "take w r"] exI [of _ 1]) (auto intro: body_fixed [simplified])
  next
    case strings
    from varint_cases [OF assms strings(2)] obtain p where "r = p @ r1" "vint rv p l" by metis
    with strings d b show ?thesis
      by (intro exI [of _ "p @ take l r1"] exI [of _ 1]) (auto intro!: body_string [simplified])
  next
    case fields
    from varint_cases [OF assms fields(2)] obtain p where "r = p @ r1" "vint rv p k" by metis
    with for_times_fields [OF deep fields(3)] fields(1) d b show ?thesis
      by (fastforce intro: body_object)
  qed
qed

lemma skip_iff:
  assumes "varint_ok rv"
  shows "skip_epee_value_with_budget rv d m (r, b) = Inr (rest, b') \<longleftrightarrow>
    (\<exists>v n. r = v @ rest \<and> epee_body rv d m v n \<and> b = b' + n)"
  using skip_sound [OF assms] skip_complete(1) [OF assms] by fastforce

lemma skip_value_iff:
  assumes "varint_ok rv"
  shows "skip_epee_value rv r = Inr rest \<longleftrightarrow>
    (\<exists>m v n. r = m # v @ rest \<and> epee_body rv 0 m v n \<and> n \<le> MAX_EPEE_SKIP_VALUES)"
proof -
  have "skip_epee_value rv r = Inr rest \<longleftrightarrow> (\<exists>m r' b'. r = m # r' \<and>
      skip_epee_value_with_budget rv 0 m (r', MAX_EPEE_SKIP_VALUES) = Inr (rest, b'))"
    by (auto simp: skip_epee_value_def drop_budget_def skip_epee_value_bounded_def
        split: sum.splits list.splits)
  then show ?thesis by (simp add: skip_iff [OF assms]) (metis le_iff_add add.commute)
qed

lemma known_marker_iff:
  assumes "varint_ok rv"
  shows "skip_epee_value_with_known_marker rv m r = Inr rest \<longleftrightarrow>
    (\<exists>v n. r = v @ rest \<and> epee_body rv 0 m v n \<and> n \<le> MAX_EPEE_SKIP_VALUES)"
proof -
  have "skip_epee_value_with_known_marker rv m r = Inr rest \<longleftrightarrow>
      (\<exists>b'. skip_epee_value_with_budget rv 0 m (r, MAX_EPEE_SKIP_VALUES) = Inr (rest, b'))"
    by (auto simp: skip_epee_value_with_known_marker_def drop_budget_def split: sum.splits)
  then show ?thesis by (simp add: skip_iff [OF assms]) (metis le_iff_add add.commute)
qed

section \<open>The typed array of transaction blobs\<close>

type_synonym blob_state = "bytes list \<times> bytes"
type_synonym blob_seq_reader = "nat \<Rightarrow> nat \<Rightarrow> bytes \<Rightarrow> (bytes list \<times> bytes) option"

definition push_blob :: "bytes list \<Rightarrow> (bytes \<times> bytes) epee_result \<Rightarrow> blob_state epee_result" where
  "push_blob out x = (case x of Inl e \<Rightarrow> Inl e | Inr (b, r) \<Rightarrow> Inr (out @ [b], r))"

text \<open>What remains after an optional marker becomes one payload.\<close>

definition tolerant_rest :: "bytes list \<Rightarrow> bytes \<Rightarrow> blob_state" where
  "tolerant_rest out r = (out @ [if 1 < length r then drop 1 r else r], [])"

definition read_blob_element :: "varint_reader \<Rightarrow> blob_state \<Rightarrow> blob_state epee_result" where
  "read_blob_element rv st =
     (let (out, chunk) = st;
          fits = (\<lambda>rem (len1, used). used \<le> rem \<and> len1 \<le> rem - used);
          case_a = (if 2 \<le> length chunk
                    then opt_filter (fits (length chunk - 1)) (peek_epee_varint_u64 rv (drop 1 chunk))
                    else None) in
      if chunk = [] then Inl (Epee_Format ''read_txs_typed_array_0x8c(blob): EOF reading element'')
      else if case_a \<noteq> None
      then push_blob out (read_epee_len_prefixed_bytes rv MAX_EPEE_BLOB_BYTES (drop 1 chunk))
      else (case peek_epee_varint_u64 rv chunk of
              None \<Rightarrow> Inr (tolerant_rest out chunk)
            | Some (len1, used) \<Rightarrow>
                let rem = length chunk in
                if used \<le> rem \<and> len1 \<le> rem - used
                then push_blob out (read_epee_len_prefixed_bytes rv MAX_EPEE_BLOB_BYTES chunk)
                else if used \<le> rem \<and> rem - used < len1 then Inr (out @ [drop used chunk], [])
                else Inr (tolerant_rest out chunk)))"

definition skip_element :: "varint_reader \<Rightarrow> blob_state \<Rightarrow> blob_state epee_result" where
  "skip_element rv st =
     (case st of
        (out, []) \<Rightarrow> Inl (Epee_Format ''read_txs_typed_array_0x8c: EOF skipping element'')
      | (out, m # r) \<Rightarrow>
          (case skip_epee_value_with_known_marker rv m r of Inl e \<Rightarrow> Inl e | Inr r' \<Rightarrow> Inr (out @ [[]], r')))"

text \<open>The header: marker, element count, schema marker, name of the element type.\<close>

definition read_typed_header ::
  "varint_reader \<Rightarrow> (bytes \<Rightarrow> string option) \<Rightarrow> bytes \<Rightarrow> (usize \<times> string \<times> bytes) epee_result" where
  "read_typed_header rv utf8 r =
     (case r of [] \<Rightarrow> Inl (Epee_Format ''read_txs_typed_array_0x8c: EOF (missing marker)'')
      | marker # r1 \<Rightarrow>
          if marker \<noteq> 0x8c then Inl (Epee_Format ''Unexpected typed-array EPEE marker'')
          else (case skip_epee_varint_u64 rv r1 of Inl e \<Rightarrow> Inl e | Inr (n_u64, r2) \<Rightarrow>
          (case checked_epee_sequence_len n_u64 MAX_EPEE_TXS_PER_BLOCK of Inl e \<Rightarrow> Inl e | Inr n \<Rightarrow>
          (case r2 of [] \<Rightarrow> Inl (Epee_Format ''read_txs_typed_array_0x8c: EOF (missing schema marker)'')
           | _ # r3 \<Rightarrow>
          (case skip_epee_varint_u64 rv r3 of Inl e \<Rightarrow> Inl e | Inr (name_len, r4) \<Rightarrow>
             if usize_max < name_len
             then Inl (Epee_Format ''read_txs_typed_array_0x8c: type name length overflow'')
             else if length r4 < name_len
             then Inl (Epee_Format ''read_txs_typed_array_0x8c: EOF reading type name'')
             else Inr (n, opt_get_or '''' (utf8 (take name_len r4)), drop name_len r4))))))"

definition read_txs_typed_array_0x8c ::
  "varint_reader \<Rightarrow> (bytes \<Rightarrow> string option) \<Rightarrow> blob_seq_reader \<Rightarrow> bytes \<Rightarrow> blob_state epee_result" where
  "read_txs_typed_array_0x8c rv utf8 fast r0 =
     (case read_typed_header rv utf8 r0 of Inl e \<Rightarrow> Inl e
      | Inr (n, elem_type, r) \<Rightarrow>
          if elem_type = ''blob'' then
            (case (if r \<noteq> [] then fast 32 MAX_EPEE_TXS_PER_BLOCK r else None) of
               Some (v, tmp) \<Rightarrow> Inr (v, drop (length r - length tmp) r)
             | None \<Rightarrow> for_times n (read_blob_element rv) ([], r))
          else for_times n (skip_element rv) ([], r))"

section \<open>What the typed array can deliver\<close>

text \<open>The third-party decoder of a sequence of blobs honours its limit and copies what it consumes.\<close>

definition fast_ok :: "blob_seq_reader \<Rightarrow> bool" where
  "fast_ok fast \<longleftrightarrow>
     (\<forall>mn mx r v rest. fast mn mx r = Some (v, rest) \<longrightarrow>
        length v \<le> mx \<and> (\<exists>p. r = p @ rest \<and> sum_list (map length v) \<le> length p))"

text \<open>A reader of a sequence copies at most what it consumes.\<close>

definition copies :: "blob_state \<Rightarrow> blob_state \<Rightarrow> bool" where
  "copies st st' \<longleftrightarrow>
     (\<exists>p. snd st = p @ snd st' \<and>
       sum_list (map length (fst st')) \<le> sum_list (map length (fst st)) + length p)"

lemma copies_refl [simp]: "copies st st"
  by (simp add: copies_def)

lemma copies_trans: "copies a b \<Longrightarrow> copies b c \<Longrightarrow> copies a c"
  by (fastforce simp: copies_def)

lemma for_times_copies:
  assumes "\<And>s s'. f s = Inr s' \<Longrightarrow> copies s s' \<and> length (fst s') = Suc (length (fst s))"
  shows "for_times n f s = Inr s' \<Longrightarrow> copies s s' \<and> length (fst s') = length (fst s) + n"
proof (induction n arbitrary: s)
  case (Suc n)
  then obtain t where "f s = Inr t" "for_times n f t = Inr s'" by (auto split: sum.splits)
  with assms [of s t] Suc.IH [of t] copies_trans [of s t s'] show ?case by simp
qed simp

lemma len_prefixed_cases:
  assumes "varint_ok rv" "read_epee_len_prefixed_bytes rv mx r = Inr (b, rest)"
  obtains p where "r = p @ b @ rest" "vint rv p (length b)" "length b \<le> mx" "p \<noteq> []"
proof -
  from assms(2) obtain l r1 where s: "skip_epee_varint_u64 rv r = Inr (l, r1)" "l \<le> mx" "l \<le> length r1"
      "b = take l r1" "rest = drop l r1"
    by (auto simp: read_epee_len_prefixed_bytes_def split: sum.splits if_splits)
  with varint_cases [OF assms(1) s(1)] that show ?thesis by auto
qed

lemma read_blob_element_copies:
  assumes "varint_ok rv" "read_blob_element rv s = Inr s'"
  shows "copies s s' \<and> length (fst s') = Suc (length (fst s))"
proof -
  have push: "copies (out, r) s' \<and> length (fst s') = Suc (length out)"
    if "push_blob out (read_epee_len_prefixed_bytes rv mx r') = Inr s'" "r = q @ r'" for out r q r' mx
    using that by (auto simp: push_blob_def copies_def split: sum.splits
        elim!: len_prefixed_cases [OF assms(1)])
  obtain out r where [simp]: "s = (out, r)" by (cases s)
  show ?thesis
    using assms(2) push [of out _ "drop 1 r" r "take 1 r"] push [of out _ r r "[]"]
    by (auto simp: read_blob_element_def tolerant_rest_def copies_def Let_def split: if_splits option.splits)
qed

lemma skip_element_copies:
  assumes "varint_ok rv" "skip_element rv s = Inr s'"
  shows "copies s s' \<and> length (fst s') = Suc (length (fst s))"
  using assms
  by (cases s) (auto simp: skip_element_def copies_def known_marker_iff split: list.splits sum.splits)

lemma read_typed_header_cases:
  assumes "varint_ok rv" "read_typed_header rv utf8 r = Inr (n, ty, rest)"
  shows "n \<le> MAX_EPEE_TXS_PER_BLOCK \<and> (\<exists>p. r = p @ rest)"
  using assms(2)
  by (auto simp: read_typed_header_def checked_epee_sequence_len_def
      split: list.splits if_splits sum.splits elim!: varint_cases [OF assms(1)])
    (metis append.assoc append_Cons append_take_drop_id)+

lemma typed_array_bounded:
  assumes "varint_ok rv" "fast_ok fast" "read_txs_typed_array_0x8c rv utf8 fast r = Inr (out, rest)"
  shows "length out \<le> MAX_EPEE_TXS_PER_BLOCK \<and>
    (\<exists>p. r = p @ rest \<and> sum_list (map length out) \<le> length p)"
proof -
  from assms(3) obtain n ty r1 where h: "read_typed_header rv utf8 r = Inr (n, ty, r1)"
    by (auto simp: read_txs_typed_array_0x8c_def split: sum.splits)
  from read_typed_header_cases [OF assms(1) h] obtain q where q: "n \<le> MAX_EPEE_TXS_PER_BLOCK" "r = q @ r1"
    by blast
  consider (fast) v tmp where "fast 32 MAX_EPEE_TXS_PER_BLOCK r1 = Some (v, tmp)" "out = v"
      "rest = drop (length r1 - length tmp) r1"
    | (blobs) "for_times n (read_blob_element rv) ([], r1) = Inr (out, rest)"
    | (other) "for_times n (skip_element rv) ([], r1) = Inr (out, rest)"
    using assms(3) h by (auto simp: read_txs_typed_array_0x8c_def split: if_splits option.splits)
  then have "length out \<le> MAX_EPEE_TXS_PER_BLOCK \<and>
      (\<exists>p. r1 = p @ rest \<and> sum_list (map length out) \<le> length p)"
  proof cases
    case fast
    with assms(2) show ?thesis by (fastforce simp: fast_ok_def)
  next
    case blobs
    from for_times_copies [OF read_blob_element_copies [OF assms(1)] this] q(1) show ?thesis
      by (auto simp: copies_def)
  next
    case other
    from for_times_copies [OF skip_element_copies [OF assms(1)] this] q(1) show ?thesis
      by (auto simp: copies_def)
  qed
  with q(2) show ?thesis by fastforce
qed

section \<open>Blobs come back as they were written\<close>

lemma vint_width:
  assumes "varint_ok rv" "vint rv p v"
  shows "p \<noteq> []" "length p = varint_len (hd p)"
proof -
  have "rv (p @ []) = Some (v, [])" using assms(2) unfolding vint_def by blast
  with assms(1) obtain p' where "p' \<noteq> []" "length p' = varint_len (hd p')" "p @ [] = p' @ []"
    unfolding varint_ok_def by blast
  then show "p \<noteq> []" "length p = varint_len (hd p)" by simp_all
qed

lemma vint_peek:
  assumes "varint_ok rv" "vint rv p v"
  shows "peek_epee_varint_u64 rv (p @ rest) = Some (v, length p)"
proof -
  from vint_width [OF assms] obtain c p' where p: "p = c # p'" "varint_len c = length p"
    by (cases p) auto
  moreover have "take (length p) (p @ rest) = p" by simp
  moreover have "rv p = Some (v, [])" using assms(2) by (metis append_Nil2 vint_def)
  ultimately show ?thesis by (simp add: peek_epee_varint_u64_def)
qed

lemma len_prefixed_exact:
  assumes "varint_ok rv" "vint rv p (length s)" "length s \<le> mx"
  shows "read_epee_len_prefixed_bytes rv mx (p @ s @ rest) = Inr (s, rest)"
  using assms vint_le [OF assms(1,2)]
  by (simp add: read_epee_len_prefixed_bytes_def vint_skip usize_max_def)

text \<open>An element as a marker, its length and its bytes.\<close>

definition marked_blob :: "byte \<times> bytes \<times> bytes \<Rightarrow> bytes" where
  "marked_blob x = (case x of (m, p, s) \<Rightarrow> m # p @ s)"

definition blob_wf :: "varint_reader \<Rightarrow> byte \<times> bytes \<times> bytes \<Rightarrow> bool" where
  "blob_wf rv x \<longleftrightarrow> (case x of (m, p, s) \<Rightarrow> vint rv p (length s) \<and> length s \<le> MAX_EPEE_BLOB_BYTES)"

definition blob_payload :: "byte \<times> bytes \<times> bytes \<Rightarrow> bytes" where
  "blob_payload x = snd (snd x)"

lemma read_blob_element_exact:
  assumes "varint_ok rv" "blob_wf rv x"
  shows "read_blob_element rv (out, marked_blob x @ rest) = Inr (out @ [blob_payload x], rest)"
proof -
  obtain m p s where [simp]: "x = (m, p, s)" by (cases x)
  from assms have w: "vint rv p (length s)" "length s \<le> MAX_EPEE_BLOB_BYTES" by (auto simp: blob_wf_def)
  from vint_width(1) [OF assms(1) w(1)] have "2 \<le> length (marked_blob x @ rest)"
    by (cases p) (auto simp: marked_blob_def)
  then show ?thesis
    using vint_peek [OF assms(1) w(1), of "s @ rest"] len_prefixed_exact [OF assms(1) w]
    by (simp add: read_blob_element_def marked_blob_def blob_payload_def push_blob_def)
qed

lemma read_blobs_exact:
  assumes "varint_ok rv" "\<forall>x \<in> set xs. blob_wf rv x"
  shows "for_times (length xs) (read_blob_element rv) (out, concat (map marked_blob xs) @ rest) =
    Inr (out @ map blob_payload xs, rest)"
  using assms(2)
  by (induction xs arbitrary: out) (simp_all add: read_blob_element_exact [OF assms(1)])

lemma typed_header_exact:
  assumes "varint_ok rv" "vint rv pn n" "n \<le> MAX_EPEE_TXS_PER_BLOCK" "vint rv pl (length name)"
  shows "read_typed_header rv utf8 (0x8c # pn @ c # pl @ name @ r) = Inr (n, opt_get_or '''' (utf8 name), r)"
  using assms vint_le [OF assms(1,2)] vint_le [OF assms(1,4)]
  by (simp add: read_typed_header_def vint_skip checked_epee_sequence_len_def usize_max_def)

section \<open>An instance of the parameter\<close>

text \<open>The portable-storage integer as its format describes it: the two low bits of the first byte give the
  width (1, 2, 4 or 8 bytes), the remaining bits of the little-endian number the value.\<close>

definition le_value :: "bytes \<Rightarrow> nat" where
  "le_value bs = foldr (\<lambda>b a. unat b + 256 * a) bs 0"

definition portable_varint :: varint_reader where
  "portable_varint bs =
     (case bs of [] \<Rightarrow> None
      | start # _ \<Rightarrow>
          if length bs < varint_len start then None
          else Some (le_value (take (varint_len start) bs) div 4, drop (varint_len start) bs))"

lemma le_value_less: "le_value bs < 256 ^ length bs"
proof (induction bs)
  case (Cons b bs)
  have "unat b < 256" using unsigned_less [of b] by simp
  moreover have "le_value (b # bs) = unat b + 256 * le_value bs" by (simp add: le_value_def)
  ultimately show ?case using Cons by simp
qed (simp add: le_value_def)

lemma varint_len_bounds: "0 < varint_len c" "varint_len c \<le> 8"
proof -
  have "unat (c AND 3) < 4"
    using and_mask_less_size [of 2 c] by (simp add: mask_eq_exp_minus_1 word_less_nat_alt word_size)
  then show "0 < varint_len c" "varint_len c \<le> 8"
    by (auto simp: varint_len_def push_bit_eq_mult less_Suc_eq numeral_eq_Suc)
qed

lemma portable_varint_vint:
  assumes "p \<noteq> []" "length p = varint_len (hd p)"
  shows "vint portable_varint p (le_value p div 4)"
proof -
  obtain c p' where p: "p = c # p'" "varint_len c = length p" using assms by (cases p) auto
  have "take (length p) (p @ rest) = p" "drop (length p) (p @ rest) = rest" for rest by simp_all
  then show ?thesis using p by (simp add: vint_def portable_varint_def)
qed

lemma portable_varint_ok: "varint_ok portable_varint"
  unfolding varint_ok_def
proof (intro allI impI)
  fix bs v rest
  assume a: "portable_varint bs = Some (v, rest)"
  then obtain c bs' where bs: "bs = c # bs'" "varint_len c \<le> length bs" "rest = drop (varint_len c) bs"
      "v = le_value (take (varint_len c) bs) div 4"
    by (auto simp: portable_varint_def split: list.splits if_splits)
  let ?p = "take (varint_len c) bs"
  have "le_value ?p < 256 ^ varint_len c" using le_value_less [of ?p] bs(2) by (simp add: min.absorb2)
  also have "\<dots> \<le> 256 ^ 8" using varint_len_bounds(2) by (intro power_increasing) auto
  finally have "v \<le> u64_max" using bs(4) by (simp add: u64_max_def)
  moreover have "?p \<noteq> []" "hd ?p = c" using varint_len_bounds(1) [of c] bs(1) by (auto simp: hd_take)
  moreover have "vint portable_varint ?p v"
    using portable_varint_vint [of ?p] bs(2,4) calculation(2,3) by (simp add: min.absorb2)
  ultimately show "v \<le> u64_max \<and> (\<exists>p. p \<noteq> [] \<and> length p = varint_len (hd p) \<and> bs = p @ rest \<and>
      vint portable_varint p v)"
    using bs(2,3) by (intro conjI exI [of _ ?p]) auto
qed

text \<open>Without markers, a payload whose first bytes read as a small length is taken for a marked element:
  the four-byte payload \<open>01 00 05 06\<close> is delivered as an empty blob and the reader is left inside it.\<close>

lemma markerless_blob_misread:
  "read_blob_element portable_varint ([], [0x10, 0x01, 0x00, 0x05, 0x06]) = Inr ([[]], [0x05, 0x06])"
  by (simp add: read_blob_element_def peek_epee_varint_u64_def portable_varint_def varint_len_def le_value_def
      read_epee_len_prefixed_bytes_def skip_epee_varint_u64_def push_blob_def push_bit_eq_mult usize_max_def)

end
