(* ===== verification/Bulk_Models.thy ===== *)
theory Bulk_Models
  imports Epee "HOL-Library.Sublist"
begin

text \<open>
  Requests and responses of the binary block endpoints (\<open>support/bulk_models.rs\<close>): one builder per
  message, filled field by field, and the tolerant decoding of \<open>blocks\<close> with its three layouts
  (generic, manual objects, length-prefixed blobs).

  The values of single fields are read and written by a third-party crate, the record \<open>epee_lib\<close> of
  parameters; what the code relies on is \<open>lib_ok\<close> (limits honoured, a prefix consumed) and
  \<open>epee_codec_ok\<close> (a written value reads back).
\<close>

section \<open>Messages\<close>

record tx_blob_entry =
  te_blob :: bytes
  te_prunable_hash :: "hash32 option"

record block_complete_entry =
  be_block :: bytes
  be_txs :: "tx_blob_entry list"
  be_pruned :: bool

type_synonym tx_output_indices = "u64 list"
type_synonym block_output_indices = "tx_output_indices list"

record get_blocks_fast_request =
  fq_requested_info :: nat
  fq_block_ids :: bytes
  fq_start_height :: u64
  fq_prune :: bool
  fq_no_miner_tx :: bool
  fq_pool_info_since :: u64
  fq_max_block_count :: u64

record get_blocks_by_height_request =
  hq_heights :: "u64 list"
  hq_prune :: bool

record get_blocks_request =
  rq_start_height :: u64
  rq_count :: u64
  rq_prune :: bool

record get_blocks_fast_response =
  fr_blocks :: "block_complete_entry list"
  fr_start_height :: u64
  fr_current_height :: u64
  fr_output_indices :: "block_output_indices list"
  fr_daemon_time :: "u64 option"
  fr_pool_info_extent :: "nat option"
  fr_status :: "string option"
  fr_untrusted :: "bool option"

record get_blocks_by_height_response =
  hr_blocks :: "block_complete_entry list"
  hr_status :: "string option"
  hr_untrusted :: "bool option"

record get_blocks_response =
  rr_blocks :: "block_complete_entry list"
  rr_output_indices :: "block_output_indices list option"
  rr_status :: "string option"
  rr_untrusted :: "bool option"

section \<open>The third-party reader\<close>

text \<open>\<open>read_epee_value\<close> at each type the builders use. Sequences take the limits the code passes: the
  least size of an element and the greatest length.\<close>

type_synonym 'a value_reader = "bytes \<Rightarrow> ('a \<times> bytes) option"

record epee_lib =
  rd_varint :: varint_reader
  rd_utf8 :: "bytes \<Rightarrow> string option"
  rd_u8 :: "nat value_reader"
  rd_u64 :: "u64 value_reader"
  rd_bool :: "bool value_reader"
  rd_hash :: "hash32 value_reader"
  rd_string :: "nat \<Rightarrow> nat \<Rightarrow> string value_reader"
  rd_blob :: "nat \<Rightarrow> nat \<Rightarrow> bytes value_reader"
  rd_blobs :: blob_seq_reader
  rd_u64s :: "nat \<Rightarrow> nat \<Rightarrow> u64 list value_reader"
  rd_tx_entries :: "nat \<Rightarrow> nat \<Rightarrow> tx_blob_entry list value_reader"
  rd_block_entries :: "nat \<Rightarrow> nat \<Rightarrow> block_complete_entry list value_reader"
  rd_tx_indices :: "nat \<Rightarrow> nat \<Rightarrow> tx_output_indices list value_reader"
  rd_block_indices :: "nat \<Rightarrow> nat \<Rightarrow> block_output_indices list value_reader"

text \<open>The answer of \<open>add_field\<close>: the builder, whether the name is known, what remains to be read.\<close>

type_synonym 'b added = "('b \<times> bool \<times> bytes) epee_result"

definition took :: "('a \<Rightarrow> 'b) \<Rightarrow> ('a \<times> bytes) option \<Rightarrow> 'b added" where
  "took f x = (case x of None \<Rightarrow> Inl Epee_Value | Some (v, r) \<Rightarrow> Inr (f v, True, r))"

definition took_or :: "string \<Rightarrow> ('a \<Rightarrow> 'b) \<Rightarrow> ('a \<times> bytes) option \<Rightarrow> 'b added" where
  "took_or e f x = (case x of None \<Rightarrow> Inl (Epee_Format e) | Some (v, r) \<Rightarrow> Inr (f v, True, r))"

definition not_taken :: "'b \<Rightarrow> bytes \<Rightarrow> 'b added" where
  "not_taken b r = Inr (b, False, r)"

definition required :: "string \<Rightarrow> 'a option \<Rightarrow> 'a epee_result" where
  "required e x = (case x of None \<Rightarrow> Inl (Epee_Format e) | Some v \<Rightarrow> Inr v)"

text \<open>\<open>let consumed = save.len().saturating_sub(tmp.len()); r.advance(consumed)\<close>.\<close>

definition commit_to :: "bytes \<Rightarrow> bytes \<Rightarrow> bytes" where
  "commit_to r tmp = drop (length r - length tmp) r"

lemma took_Inr [simp]: "took f x = Inr y \<longleftrightarrow> (\<exists>v r. x = Some (v, r) \<and> y = (f v, True, r))"
  by (auto simp: took_def split: option.splits)

lemma took_or_Inr [simp]: "took_or e f x = Inr y \<longleftrightarrow> (\<exists>v r. x = Some (v, r) \<and> y = (f v, True, r))"
  by (auto simp: took_or_def split: option.splits)

lemma not_taken_Inr [simp]: "not_taken b r = Inr y \<longleftrightarrow> y = (b, False, r)"
  by (auto simp: not_taken_def)

lemma required_Inr [simp]: "required e x = Inr v \<longleftrightarrow> x = Some v"
  by (auto simp: required_def split: option.splits)

definition quoted :: "string \<Rightarrow> string" where
  "quoted s = CHR 0x27 # s @ [CHR 0x27]"

section \<open>Requests\<close>

record fast_request_builder =
  fqb_requested_info :: "nat option"
  fqb_block_ids :: "bytes option"
  fqb_start_height :: "u64 option"
  fqb_prune :: "bool option"
  fqb_no_miner_tx :: "bool option"
  fqb_pool_info_since :: "u64 option"
  fqb_max_block_count :: "u64 option"

definition fast_request_default :: fast_request_builder where
  "fast_request_default = \<lparr>fqb_requested_info = None, fqb_block_ids = None, fqb_start_height = None,
     fqb_prune = None, fqb_no_miner_tx = None, fqb_pool_info_since = None, fqb_max_block_count = None\<rparr>"

definition fast_request_add_field ::
  "epee_lib \<Rightarrow> fast_request_builder \<Rightarrow> string \<Rightarrow> bytes \<Rightarrow> fast_request_builder added" where
  "fast_request_add_field lib b name r =
     (if name = ''requested_info'' then took (\<lambda>v. b\<lparr>fqb_requested_info := Some v\<rparr>) (rd_u8 lib r)
      else if name = ''block_ids'' then
        took (\<lambda>v. b\<lparr>fqb_block_ids := Some v\<rparr>) (rd_blob lib 0 MAX_EPEE_BLOCK_IDS_BYTES r)
      else if name = ''start_height'' then took (\<lambda>v. b\<lparr>fqb_start_height := Some v\<rparr>) (rd_u64 lib r)
      else if name = ''prune'' then took (\<lambda>v. b\<lparr>fqb_prune := Some v\<rparr>) (rd_bool lib r)
      else if name = ''no_miner_tx'' then took (\<lambda>v. b\<lparr>fqb_no_miner_tx := Some v\<rparr>) (rd_bool lib r)
      else if name = ''pool_info_since'' then took (\<lambda>v. b\<lparr>fqb_pool_info_since := Some v\<rparr>) (rd_u64 lib r)
      else if name = ''max_block_count'' then took (\<lambda>v. b\<lparr>fqb_max_block_count := Some v\<rparr>) (rd_u64 lib r)
      else not_taken b r)"

definition fast_request_finish :: "fast_request_builder \<Rightarrow> get_blocks_fast_request epee_result" where
  "fast_request_finish b =
     (case required ''Required field block_ids missing'' (fqb_block_ids b) of Inl e \<Rightarrow> Inl e | Inr ids \<Rightarrow>
     (case required ''Required field start_height missing'' (fqb_start_height b) of Inl e \<Rightarrow> Inl e | Inr h \<Rightarrow>
     (case required ''Required field prune missing'' (fqb_prune b) of Inl e \<Rightarrow> Inl e | Inr p \<Rightarrow>
       Inr \<lparr>fq_requested_info = opt_get_or 0 (fqb_requested_info b), fq_block_ids = ids,
         fq_start_height = h, fq_prune = p, fq_no_miner_tx = opt_get_or False (fqb_no_miner_tx b),
         fq_pool_info_since = opt_get_or 0 (fqb_pool_info_since b),
         fq_max_block_count = opt_get_or 0 (fqb_max_block_count b)\<rparr>)))"

record by_height_request_builder =
  hqb_heights :: "u64 list option"
  hqb_prune :: "bool option"

definition by_height_request_default :: by_height_request_builder where
  "by_height_request_default = \<lparr>hqb_heights = None, hqb_prune = None\<rparr>"

definition by_height_request_add_field ::
  "epee_lib \<Rightarrow> by_height_request_builder \<Rightarrow> string \<Rightarrow> bytes \<Rightarrow> by_height_request_builder added" where
  "by_height_request_add_field lib b name r =
     (if name = ''heights'' then
        took (\<lambda>v. b\<lparr>hqb_heights := Some v\<rparr>) (rd_u64s lib 8 MAX_EPEE_BLOCKS_PER_RESPONSE r)
      else if name = ''prune'' then took (\<lambda>v. b\<lparr>hqb_prune := Some v\<rparr>) (rd_bool lib r)
      else not_taken b r)"

definition by_height_request_finish :: "by_height_request_builder \<Rightarrow> get_blocks_by_height_request epee_result" where
  "by_height_request_finish b =
     (case required ''Required field heights missing'' (hqb_heights b) of Inl e \<Rightarrow> Inl e | Inr hs \<Rightarrow>
     (case required ''Required field prune missing'' (hqb_prune b) of Inl e \<Rightarrow> Inl e | Inr p \<Rightarrow>
       Inr \<lparr>hq_heights = hs, hq_prune = p\<rparr>))"

record range_request_builder =
  rqb_start_height :: "u64 option"
  rqb_count :: "u64 option"
  rqb_prune :: "bool option"

definition range_request_default :: range_request_builder where
  "range_request_default = \<lparr>rqb_start_height = None, rqb_count = None, rqb_prune = None\<rparr>"

definition range_request_add_field ::
  "epee_lib \<Rightarrow> range_request_builder \<Rightarrow> string \<Rightarrow> bytes \<Rightarrow> range_request_builder added" where
  "range_request_add_field lib b name r =
     (if name = ''start_height'' then took (\<lambda>v. b\<lparr>rqb_start_height := Some v\<rparr>) (rd_u64 lib r)
      else if name = ''count'' then took (\<lambda>v. b\<lparr>rqb_count := Some v\<rparr>) (rd_u64 lib r)
      else if name = ''prune'' then took (\<lambda>v. b\<lparr>rqb_prune := Some v\<rparr>) (rd_bool lib r)
      else not_taken b r)"

definition range_request_finish :: "range_request_builder \<Rightarrow> get_blocks_request epee_result" where
  "range_request_finish b =
     (case required ''Required field start_height missing'' (rqb_start_height b) of Inl e \<Rightarrow> Inl e | Inr h \<Rightarrow>
     (case required ''Required field count missing'' (rqb_count b) of Inl e \<Rightarrow> Inl e | Inr c \<Rightarrow>
     (case required ''Required field prune missing'' (rqb_prune b) of Inl e \<Rightarrow> Inl e | Inr p \<Rightarrow>
       Inr \<lparr>rq_start_height = h, rq_count = c, rq_prune = p\<rparr>)))"

section \<open>Entries\<close>

record tx_blob_builder =
  teb_blob :: "bytes option"
  teb_prunable_hash :: "hash32 option"

definition tx_blob_default :: tx_blob_builder where
  "tx_blob_default = \<lparr>teb_blob = None, teb_prunable_hash = None\<rparr>"

definition tx_blob_add_field :: "epee_lib \<Rightarrow> tx_blob_builder \<Rightarrow> string \<Rightarrow> bytes \<Rightarrow> tx_blob_builder added" where
  "tx_blob_add_field lib b name r =
     (if name = ''blob'' then took (\<lambda>v. b\<lparr>teb_blob := Some v\<rparr>) (rd_blob lib 0 MAX_EPEE_BLOB_BYTES r)
      else if name = ''prunable_hash'' then took (\<lambda>v. b\<lparr>teb_prunable_hash := Some v\<rparr>) (rd_hash lib r)
      else not_taken b r)"

definition tx_blob_finish :: "tx_blob_builder \<Rightarrow> tx_blob_entry epee_result" where
  "tx_blob_finish b =
     (case required ''Required field blob missing'' (teb_blob b) of Inl e \<Rightarrow> Inl e | Inr blob \<Rightarrow>
       Inr \<lparr>te_blob = blob, te_prunable_hash = teb_prunable_hash b\<rparr>)"

text \<open>\<open>TxOutputIndices\<close> and \<open>BlockOutputIndices\<close> have one optional field \<open>indices\<close> each.\<close>

definition tx_indices_add_field ::
  "epee_lib \<Rightarrow> u64 list option \<Rightarrow> string \<Rightarrow> bytes \<Rightarrow> u64 list option added" where
  "tx_indices_add_field lib b name r =
     (if name = ''indices'' then took Some (rd_u64s lib 8 MAX_EPEE_OUTPUTS_PER_TX r) else not_taken b r)"

definition tx_indices_finish :: "u64 list option \<Rightarrow> tx_output_indices epee_result" where
  "tx_indices_finish b = Inr (opt_get_or [] b)"

definition block_indices_add_field ::
  "epee_lib \<Rightarrow> tx_output_indices list option \<Rightarrow> string \<Rightarrow> bytes \<Rightarrow> tx_output_indices list option added" where
  "block_indices_add_field lib b name r =
     (if name = ''indices'' then took Some (rd_tx_indices lib 0 MAX_EPEE_TXS_PER_BLOCK r) else not_taken b r)"

definition block_indices_finish :: "tx_output_indices list option \<Rightarrow> block_output_indices epee_result" where
  "block_indices_finish b = Inr (opt_get_or [] b)"

record entry_builder =
  beb_block :: "bytes option"
  beb_txs :: "tx_blob_entry list option"
  beb_pruned :: "bool option"

definition entry_default :: entry_builder where
  "entry_default = \<lparr>beb_block = None, beb_txs = None, beb_pruned = None\<rparr>"

definition plain_blob :: "bytes \<Rightarrow> tx_blob_entry" where
  "plain_blob blob = \<lparr>te_blob = blob, te_prunable_hash = None\<rparr>"

text \<open>The field \<open>txs\<close>: entries, plain blobs, the typed array \<open>0x8c\<close>, in this order.\<close>

definition read_entry_txs :: "epee_lib \<Rightarrow> bytes \<Rightarrow> (tx_blob_entry list \<times> bytes) epee_result" where
  "read_entry_txs lib r =
     (case (if r \<noteq> [] then rd_tx_entries lib 32 MAX_EPEE_TXS_PER_BLOCK r else None) of
        Some (v, tmp) \<Rightarrow> Inr (v, commit_to r tmp)
      | None \<Rightarrow>
     (case (if r \<noteq> [] then rd_blobs lib 32 MAX_EPEE_TXS_PER_BLOCK r else None) of
        Some (v, tmp) \<Rightarrow> Inr (map plain_blob v, commit_to r tmp)
      | None \<Rightarrow>
        if r \<noteq> [] \<and> hd r = 0x8c then
          (case read_txs_typed_array_0x8c (rd_varint lib) (rd_utf8 lib) (rd_blobs lib) r of
             Inl e \<Rightarrow> Inl e | Inr (v, r') \<Rightarrow> Inr (map plain_blob v, r'))
        else
          (case rd_blobs lib 32 MAX_EPEE_TXS_PER_BLOCK r of
             None \<Rightarrow> Inl Epee_Value | Some (v, r') \<Rightarrow> Inr (map plain_blob v, r'))))"

definition entry_add_field :: "epee_lib \<Rightarrow> entry_builder \<Rightarrow> string \<Rightarrow> bytes \<Rightarrow> entry_builder added" where
  "entry_add_field lib b name r =
     (if name = ''block'' then took (\<lambda>v. b\<lparr>beb_block := Some v\<rparr>) (rd_blob lib 0 MAX_EPEE_BLOB_BYTES r)
      else if name = ''txs'' then
        (case read_entry_txs lib r of Inl e \<Rightarrow> Inl e | Inr (v, r') \<Rightarrow> Inr (b\<lparr>beb_txs := Some v\<rparr>, True, r'))
      else if name \<in> {''txs_blob'', ''txs_blobs'', ''txs_bytes'', ''txs_byte'', ''txs_data'', ''transactions''} then
        took (\<lambda>v. b\<lparr>beb_txs := Some v\<rparr>) (rd_tx_entries lib 32 MAX_EPEE_TXS_PER_BLOCK r)
      else if name = ''pruned'' then took (\<lambda>v. b\<lparr>beb_pruned := Some v\<rparr>) (rd_bool lib r)
      else (case skip_epee_value (rd_varint lib) r of Inl e \<Rightarrow> Inl e | Inr r' \<Rightarrow> Inr (b, True, r')))"

definition entry_finish :: "entry_builder \<Rightarrow> block_complete_entry epee_result" where
  "entry_finish b =
     (case required (''block_complete_entry missing '' @ quoted ''block'') (beb_block b) of Inl e \<Rightarrow> Inl e | Inr block \<Rightarrow>
       Inr \<lparr>be_block = block, be_txs = opt_get_or [] (beb_txs b), be_pruned = opt_get_or False (beb_pruned b)\<rparr>)"

section \<open>An entry from the payload of a blob\<close>

text \<open>The loop over the fields returns early with the answer of the whole function: \<open>Ok(None)\<close> when the
  payload does not look like an entry, an error when a value the builder declined cannot be skipped.\<close>

type_synonym entry_state = "entry_builder \<times> bytes"

definition blob_entry_field ::
  "epee_lib \<Rightarrow> entry_state \<Rightarrow> block_complete_entry option epee_result + entry_state" where
  "blob_entry_field lib st =
     (let (builder, r) = st in
      case read_epee_field_name (rd_utf8 lib) r of Inl _ \<Rightarrow> Inl (Inr None)
      | Inr (name, r1) \<Rightarrow>
          (case entry_add_field lib builder name r1 of
             Inl _ \<Rightarrow> Inl (Inr None)
           | Inr (builder', True, r2) \<Rightarrow> Inr (builder', r2)
           | Inr (builder', False, []) \<Rightarrow> Inl (Inr None)
           | Inr (builder', False, marker # r2) \<Rightarrow>
               (case skip_epee_value_with_known_marker (rd_varint lib) marker r2 of
                  Inl e \<Rightarrow> Inl (Inl e) | Inr r3 \<Rightarrow> Inr (builder', r3))))"

definition try_decode_block_complete_entry_from_blob_payload ::
  "epee_lib \<Rightarrow> bytes \<Rightarrow> block_complete_entry option epee_result" where
  "try_decode_block_complete_entry_from_blob_payload lib payload =
     (if payload = [] then Inr None
      else (case skip_epee_varint_u64 (rd_varint lib) payload of Inl _ \<Rightarrow> Inr None
      | Inr (field_count, r) \<Rightarrow>
          if 1000 < field_count then Inr None
          else (case for_times field_count (blob_entry_field lib) (entry_default, r) of
                  Inl answer \<Rightarrow> answer
                | Inr (builder, _) \<Rightarrow>
                    (case entry_finish builder of Inr entry \<Rightarrow> Inr (Some entry) | Inl _ \<Rightarrow> Inr None))))"

section \<open>The field \<open>blocks\<close>\<close>

text \<open>The two endpoints decode \<open>blocks\<close> by the same steps and differ in the texts of their errors.\<close>

record blocks_errors =
  bx_no_container :: epee_error
  bx_no_element :: epee_error
  bx_element :: epee_error
  bx_length :: "epee_error \<Rightarrow> epee_error"
  bx_typed_length :: "epee_error \<Rightarrow> epee_error"
  bx_container :: epee_error
  bx_entry :: epee_error

definition fast_blocks_errors :: blocks_errors where
  "fast_blocks_errors =
     (let at = (\<lambda>e. Epee_Format (''getblocks.bin decode failed in field '' @ quoted ''blocks'' @ '': '' @ e)) in
      \<lparr>bx_no_container = at ''EOF (missing container marker)'',
       bx_no_element = at ''EOF (missing element marker)'',
       bx_element = at ''unexpected element marker (expected object marker 0x0c)'',
       bx_length = (\<lambda>_. at ''failed to read array length''),
       bx_typed_length = (\<lambda>_. at ''failed to read typed-array length''),
       bx_container = at ''unexpected container marker (expected 0x0d or 0x8c)'',
       bx_entry = at ''block entry EOF (missing element bytes)''\<rparr>)"

definition range_blocks_errors :: blocks_errors where
  "range_blocks_errors =
     (let at = (\<lambda>e. Epee_Format (''get_blocks.bin decode failed in field '' @ quoted ''blocks'' @ '': '' @ e)) in
      \<lparr>bx_no_container = at ''EOF (missing container marker)'',
       bx_no_element = at ''EOF (missing element marker)'',
       bx_element = at ''unexpected element marker'',
       bx_length = (\<lambda>e. e),
       bx_typed_length = (\<lambda>e. e),
       bx_container = at ''unexpected container marker'',
       bx_entry = at ''block entry EOF''\<rparr>)"

definition blocks_container :: "epee_lib \<Rightarrow> blocks_errors \<Rightarrow> bytes \<Rightarrow> (u64 \<times> bytes) epee_result" where
  "blocks_container lib errs r =
     (case r of [] \<Rightarrow> Inl (bx_no_container errs)
      | container_marker # r1 \<Rightarrow>
          if container_marker = 0x0d then
            (case r1 of [] \<Rightarrow> Inl (bx_no_element errs)
             | elem_marker # r2 \<Rightarrow>
                 if elem_marker \<noteq> 0x0c then Inl (bx_element errs)
                 else (case skip_epee_varint_u64 (rd_varint lib) r2 of
                         Inl e \<Rightarrow> Inl (bx_length errs e) | Inr nr \<Rightarrow> Inr nr))
          else if container_marker = 0x8c then
            (case skip_epee_varint_u64 (rd_varint lib) r1 of
               Inl e \<Rightarrow> Inl (bx_typed_length errs e) | Inr nr \<Rightarrow> Inr nr)
          else Inl (bx_container errs))"

text \<open>Attempt 1: objects written field by field. Every failure has the same consequence, so it carries
  nothing.\<close>

definition object_field :: "epee_lib \<Rightarrow> entry_state \<Rightarrow> unit + entry_state" where
  "object_field lib st =
     (let (builder, r) = st in
      case read_epee_field_name (rd_utf8 lib) r of Inl _ \<Rightarrow> Inl ()
      | Inr (name, r1) \<Rightarrow>
          (case entry_add_field lib builder name r1 of
             Inl _ \<Rightarrow> Inl ()
           | Inr (builder', True, r2) \<Rightarrow> Inr (builder', r2)
           | Inr (builder', False, r2) \<Rightarrow>
               (case skip_epee_value (rd_varint lib) r2 of Inl _ \<Rightarrow> Inl () | Inr r3 \<Rightarrow> Inr (builder', r3))))"

type_synonym entries_state = "block_complete_entry list \<times> bytes"

definition object_entry :: "epee_lib \<Rightarrow> entries_state \<Rightarrow> unit + entries_state" where
  "object_entry lib st =
     (let (obj_out, r) = st in
      case skip_epee_varint_u64 (rd_varint lib) r of Inl _ \<Rightarrow> Inl ()
      | Inr (field_count, r1) \<Rightarrow>
          (case for_times field_count (object_field lib) (entry_default, r1) of Inl _ \<Rightarrow> Inl ()
           | Inr (builder, r2) \<Rightarrow>
               (case entry_finish builder of Inl _ \<Rightarrow> Inl () | Inr entry \<Rightarrow> Inr (obj_out @ [entry], r2))))"

text \<open>Attempt 2: length-prefixed blobs, each an encoded entry or the raw bytes of a block.\<close>

definition raw_entry :: "bytes \<Rightarrow> block_complete_entry" where
  "raw_entry payload = \<lparr>be_block = payload, be_txs = [], be_pruned = True\<rparr>"

definition blob_entry :: "epee_lib \<Rightarrow> blocks_errors \<Rightarrow> entries_state \<Rightarrow> entries_state epee_result" where
  "blob_entry lib errs st =
     (let (out, r) = st in
      if r = [] then Inl (bx_entry errs)
      else (let r1 = (if is_supported_blob_marker (hd r) then drop 1 r else r) in
        case read_epee_len_prefixed_bytes (rd_varint lib) MAX_EPEE_BLOB_BYTES r1 of Inl e \<Rightarrow> Inl e
        | Inr (payload, r2) \<Rightarrow>
            (case try_decode_block_complete_entry_from_blob_payload lib payload of
               Inl e \<Rightarrow> Inl e
             | Inr (Some entry) \<Rightarrow> Inr (out @ [entry], r2)
             | Inr None \<Rightarrow> Inr (out @ [raw_entry payload], r2))))"

definition read_blocks :: "epee_lib \<Rightarrow> blocks_errors \<Rightarrow> bytes \<Rightarrow> entries_state epee_result" where
  "read_blocks lib errs r =
     (case (if r \<noteq> [] then rd_block_entries lib 32 MAX_EPEE_BLOCKS_PER_RESPONSE r else None) of
        Some (v, tmp) \<Rightarrow> Inr (v, commit_to r tmp)
      | None \<Rightarrow>
     (case blocks_container lib errs r of Inl e \<Rightarrow> Inl e
      | Inr (len1, savepoint) \<Rightarrow>
     (case checked_epee_sequence_len len1 MAX_EPEE_BLOCKS_PER_RESPONSE of Inl e \<Rightarrow> Inl e
      | Inr n \<Rightarrow>
     (case for_times n (object_entry lib) ([], savepoint) of
        Inr (obj_out, reader_obj) \<Rightarrow> Inr (obj_out, commit_to savepoint reader_obj)
      | Inl _ \<Rightarrow>
     (case for_times n (blob_entry lib errs) ([], savepoint) of
        Inl e \<Rightarrow> Inl e
      | Inr (out, reader_blob) \<Rightarrow> Inr (out, commit_to savepoint reader_blob))))))"

section \<open>Responses\<close>

record fast_response_builder =
  frb_blocks :: "block_complete_entry list option"
  frb_start_height :: "u64 option"
  frb_current_height :: "u64 option"
  frb_output_indices :: "block_output_indices list option"
  frb_daemon_time :: "u64 option"
  frb_pool_info_extent :: "nat option"
  frb_status :: "string option"
  frb_untrusted :: "bool option"

definition fast_response_default :: fast_response_builder where
  "fast_response_default = \<lparr>frb_blocks = None, frb_start_height = None, frb_current_height = None,
     frb_output_indices = None, frb_daemon_time = None, frb_pool_info_extent = None, frb_status = None,
     frb_untrusted = None\<rparr>"

definition fast_field_error :: "string \<Rightarrow> string" where
  "fast_field_error name = ''getblocks.bin decode failed in field '' @ quoted name"

definition fast_response_add_field ::
  "epee_lib \<Rightarrow> fast_response_builder \<Rightarrow> string \<Rightarrow> bytes \<Rightarrow> fast_response_builder added" where
  "fast_response_add_field lib b name r =
     (if name = ''blocks'' then
        (case read_blocks lib fast_blocks_errors r of
           Inl e \<Rightarrow> Inl e | Inr (v, r') \<Rightarrow> Inr (b\<lparr>frb_blocks := Some v\<rparr>, True, r'))
      else if name = ''start_height'' then
        took_or (fast_field_error name) (\<lambda>v. b\<lparr>frb_start_height := Some v\<rparr>) (rd_u64 lib r)
      else if name = ''current_height'' then
        took_or (fast_field_error name) (\<lambda>v. b\<lparr>frb_current_height := Some v\<rparr>) (rd_u64 lib r)
      else if name = ''output_indices'' then
        took_or (fast_field_error name) (\<lambda>v. b\<lparr>frb_output_indices := Some v\<rparr>)
          (rd_block_indices lib 0 MAX_EPEE_BLOCKS_PER_RESPONSE r)
      else if name = ''daemon_time'' then
        took_or (fast_field_error name) (\<lambda>v. b\<lparr>frb_daemon_time := Some v\<rparr>) (rd_u64 lib r)
      else if name = ''pool_info_extent'' then
        took_or (fast_field_error name) (\<lambda>v. b\<lparr>frb_pool_info_extent := Some v\<rparr>) (rd_u8 lib r)
      else if name = ''status'' then
        took_or (fast_field_error name) (\<lambda>v. b\<lparr>frb_status := Some v\<rparr>) (rd_string lib 0 MAX_EPEE_STATUS_BYTES r)
      else if name = ''untrusted'' then
        took_or (fast_field_error name) (\<lambda>v. b\<lparr>frb_untrusted := Some v\<rparr>) (rd_bool lib r)
      else not_taken b r)"

definition missing_field :: "string \<Rightarrow> string" where
  "missing_field name = ''response missing '' @ quoted name"

definition fast_response_finish :: "fast_response_builder \<Rightarrow> get_blocks_fast_response epee_result" where
  "fast_response_finish b =
     (case required (missing_field ''blocks'') (frb_blocks b) of Inl e \<Rightarrow> Inl e | Inr blocks \<Rightarrow>
     (case required (missing_field ''start_height'') (frb_start_height b) of Inl e \<Rightarrow> Inl e | Inr s \<Rightarrow>
     (case required (missing_field ''current_height'') (frb_current_height b) of Inl e \<Rightarrow> Inl e | Inr c \<Rightarrow>
     (case required (missing_field ''output_indices'') (frb_output_indices b) of Inl e \<Rightarrow> Inl e | Inr o1 \<Rightarrow>
       Inr \<lparr>fr_blocks = blocks, fr_start_height = s, fr_current_height = c, fr_output_indices = o1,
         fr_daemon_time = frb_daemon_time b, fr_pool_info_extent = frb_pool_info_extent b,
         fr_status = frb_status b, fr_untrusted = frb_untrusted b\<rparr>))))"

record by_height_response_builder =
  hrb_blocks :: "block_complete_entry list option"
  hrb_status :: "string option"
  hrb_untrusted :: "bool option"

definition by_height_response_default :: by_height_response_builder where
  "by_height_response_default = \<lparr>hrb_blocks = None, hrb_status = None, hrb_untrusted = None\<rparr>"

definition by_height_response_add_field ::
  "epee_lib \<Rightarrow> by_height_response_builder \<Rightarrow> string \<Rightarrow> bytes \<Rightarrow> by_height_response_builder added" where
  "by_height_response_add_field lib b name r =
     (if name = ''blocks'' then
        took (\<lambda>v. b\<lparr>hrb_blocks := Some v\<rparr>) (rd_block_entries lib 32 MAX_EPEE_BLOCKS_PER_RESPONSE r)
      else if name = ''status'' then
        took (\<lambda>v. b\<lparr>hrb_status := Some v\<rparr>) (rd_string lib 0 MAX_EPEE_STATUS_BYTES r)
      else if name = ''untrusted'' then took (\<lambda>v. b\<lparr>hrb_untrusted := Some v\<rparr>) (rd_bool lib r)
      else not_taken b r)"

definition by_height_response_finish :: "by_height_response_builder \<Rightarrow> get_blocks_by_height_response epee_result" where
  "by_height_response_finish b =
     (case required (missing_field ''blocks'') (hrb_blocks b) of Inl e \<Rightarrow> Inl e | Inr blocks \<Rightarrow>
       Inr \<lparr>hr_blocks = blocks, hr_status = hrb_status b, hr_untrusted = hrb_untrusted b\<rparr>)"

record range_response_builder =
  rrb_blocks :: "block_complete_entry list option"
  rrb_output_indices :: "block_output_indices list option"
  rrb_status :: "string option"
  rrb_untrusted :: "bool option"

definition range_response_default :: range_response_builder where
  "range_response_default =
     \<lparr>rrb_blocks = None, rrb_output_indices = None, rrb_status = None, rrb_untrusted = None\<rparr>"

definition range_response_add_field ::
  "epee_lib \<Rightarrow> range_response_builder \<Rightarrow> string \<Rightarrow> bytes \<Rightarrow> range_response_builder added" where
  "range_response_add_field lib b name r =
     (if name = ''blocks'' then
        (case read_blocks lib range_blocks_errors r of
           Inl e \<Rightarrow> Inl e | Inr (v, r') \<Rightarrow> Inr (b\<lparr>rrb_blocks := Some v\<rparr>, True, r'))
      else if name = ''output_indices'' then
        took_or (''get_blocks.bin decode failed in field '' @ quoted ''output_indices'')
          (\<lambda>v. b\<lparr>rrb_output_indices := Some v\<rparr>) (rd_block_indices lib 0 MAX_EPEE_BLOCKS_PER_RESPONSE r)
      else if name = ''status'' then
        took (\<lambda>v. b\<lparr>rrb_status := Some v\<rparr>) (rd_string lib 0 MAX_EPEE_STATUS_BYTES r)
      else if name = ''untrusted'' then took (\<lambda>v. b\<lparr>rrb_untrusted := Some v\<rparr>) (rd_bool lib r)
      else not_taken b r)"

definition range_response_finish :: "range_response_builder \<Rightarrow> get_blocks_response epee_result" where
  "range_response_finish b =
     (case required (missing_field ''blocks'') (rrb_blocks b) of Inl e \<Rightarrow> Inl e | Inr blocks \<Rightarrow>
       Inr \<lparr>rr_blocks = blocks, rr_output_indices = rrb_output_indices b, rr_status = rrb_status b,
         rr_untrusted = rrb_untrusted b\<rparr>)"

section \<open>Writing\<close>

record epee_enc =
  wr_u8 :: "nat \<Rightarrow> bytes"
  wr_u64 :: "u64 \<Rightarrow> bytes"
  wr_bool :: "bool \<Rightarrow> bytes"
  wr_hash :: "hash32 \<Rightarrow> bytes"
  wr_string :: "string \<Rightarrow> bytes"
  wr_blob :: "bytes \<Rightarrow> bytes"
  wr_u64s :: "u64 list \<Rightarrow> bytes"
  wr_tx_entries :: "tx_blob_entry list \<Rightarrow> bytes"
  wr_block_entries :: "block_complete_entry list \<Rightarrow> bytes"
  wr_tx_indices :: "tx_output_indices list \<Rightarrow> bytes"
  wr_block_indices :: "block_output_indices list \<Rightarrow> bytes"

text \<open>\<open>write_fields\<close>: the names and the encoded values, in the order they are written. An absent option
  writes nothing.\<close>

definition field_if :: "string \<Rightarrow> ('a \<Rightarrow> bytes) \<Rightarrow> 'a option \<Rightarrow> (string \<times> bytes) list" where
  "field_if name w x = (case x of None \<Rightarrow> [] | Some v \<Rightarrow> [(name, w v)])"

definition fast_request_fields :: "epee_enc \<Rightarrow> get_blocks_fast_request \<Rightarrow> (string \<times> bytes) list" where
  "fast_request_fields enc q =
     [(''requested_info'', wr_u8 enc (fq_requested_info q)), (''block_ids'', wr_blob enc (fq_block_ids q)),
      (''start_height'', wr_u64 enc (fq_start_height q)), (''prune'', wr_bool enc (fq_prune q)),
      (''no_miner_tx'', wr_bool enc (fq_no_miner_tx q)),
      (''pool_info_since'', wr_u64 enc (fq_pool_info_since q)),
      (''max_block_count'', wr_u64 enc (fq_max_block_count q))]"

definition by_height_request_fields :: "epee_enc \<Rightarrow> get_blocks_by_height_request \<Rightarrow> (string \<times> bytes) list" where
  "by_height_request_fields enc q =
     [(''heights'', wr_u64s enc (hq_heights q)), (''prune'', wr_bool enc (hq_prune q))]"

definition range_request_fields :: "epee_enc \<Rightarrow> get_blocks_request \<Rightarrow> (string \<times> bytes) list" where
  "range_request_fields enc q =
     [(''start_height'', wr_u64 enc (rq_start_height q)), (''count'', wr_u64 enc (rq_count q)),
      (''prune'', wr_bool enc (rq_prune q))]"

definition tx_indices_fields :: "epee_enc \<Rightarrow> tx_output_indices \<Rightarrow> (string \<times> bytes) list" where
  "tx_indices_fields enc x = [(''indices'', wr_u64s enc x)]"

definition block_indices_fields :: "epee_enc \<Rightarrow> block_output_indices \<Rightarrow> (string \<times> bytes) list" where
  "block_indices_fields enc x = [(''indices'', wr_tx_indices enc x)]"

definition tx_blob_fields :: "epee_enc \<Rightarrow> tx_blob_entry \<Rightarrow> (string \<times> bytes) list" where
  "tx_blob_fields enc e =
     (''blob'', wr_blob enc (te_blob e)) # field_if ''prunable_hash'' (wr_hash enc) (te_prunable_hash e)"

definition tx_blob_number_of_fields :: "tx_blob_entry \<Rightarrow> nat" where
  "tx_blob_number_of_fields e = 1 + (if te_prunable_hash e \<noteq> None then 1 else 0)"

definition entry_fields :: "epee_enc \<Rightarrow> block_complete_entry \<Rightarrow> (string \<times> bytes) list" where
  "entry_fields enc e =
     [(''block'', wr_blob enc (be_block e)), (''txs'', wr_tx_entries enc (be_txs e)),
      (''pruned'', wr_bool enc (be_pruned e))]"

definition fast_response_fields :: "epee_enc \<Rightarrow> get_blocks_fast_response \<Rightarrow> (string \<times> bytes) list" where
  "fast_response_fields enc x =
     [(''blocks'', wr_block_entries enc (fr_blocks x)), (''start_height'', wr_u64 enc (fr_start_height x)),
      (''current_height'', wr_u64 enc (fr_current_height x)),
      (''output_indices'', wr_block_indices enc (fr_output_indices x))]
     @ field_if ''daemon_time'' (wr_u64 enc) (fr_daemon_time x)
     @ field_if ''pool_info_extent'' (wr_u8 enc) (fr_pool_info_extent x)
     @ field_if ''status'' (wr_string enc) (fr_status x)
     @ field_if ''untrusted'' (wr_bool enc) (fr_untrusted x)"

definition by_height_response_fields :: "epee_enc \<Rightarrow> get_blocks_by_height_response \<Rightarrow> (string \<times> bytes) list" where
  "by_height_response_fields enc x =
     (''blocks'', wr_block_entries enc (hr_blocks x))
     # field_if ''status'' (wr_string enc) (hr_status x) @ field_if ''untrusted'' (wr_bool enc) (hr_untrusted x)"

definition range_response_fields :: "epee_enc \<Rightarrow> get_blocks_response \<Rightarrow> (string \<times> bytes) list" where
  "range_response_fields enc x =
     (''blocks'', wr_block_entries enc (rr_blocks x))
     # field_if ''output_indices'' (wr_block_indices enc) (rr_output_indices x)
     @ field_if ''status'' (wr_string enc) (rr_status x) @ field_if ''untrusted'' (wr_bool enc) (rr_untrusted x)"

text \<open>\<open>number_of_fields\<close> is a constant for every message but \<open>TxBlobEntry\<close>.\<close>

definition fast_request_number_of_fields :: nat where "fast_request_number_of_fields = 7"
definition by_height_request_number_of_fields :: nat where "by_height_request_number_of_fields = 2"
definition range_request_number_of_fields :: nat where "range_request_number_of_fields = 3"
definition fast_response_number_of_fields :: nat where "fast_response_number_of_fields = 8"
definition by_height_response_number_of_fields :: nat where "by_height_response_number_of_fields = 3"
definition range_response_number_of_fields :: nat where "range_response_number_of_fields = 4"

lemma length_field_if [simp]: "length (field_if name w x) = (if x = None then 0 else 1)"
  by (cases x) (auto simp: field_if_def)

lemma number_of_fields_requests:
  "length (fast_request_fields enc q) = fast_request_number_of_fields"
  "length (by_height_request_fields enc q1) = by_height_request_number_of_fields"
  "length (range_request_fields enc q2) = range_request_number_of_fields"
  "length (tx_blob_fields enc e) = tx_blob_number_of_fields e"
  by (simp_all add: fast_request_fields_def fast_request_number_of_fields_def by_height_request_fields_def
      by_height_request_number_of_fields_def range_request_fields_def range_request_number_of_fields_def
      tx_blob_fields_def tx_blob_number_of_fields_def)

text \<open>A response announces its full number of fields even when it writes fewer.\<close>

lemma number_of_fields_responses:
  "length (fast_response_fields enc x) = fast_response_number_of_fields \<longleftrightarrow>
     fr_daemon_time x \<noteq> None \<and> fr_pool_info_extent x \<noteq> None \<and> fr_status x \<noteq> None \<and> fr_untrusted x \<noteq> None"
  "length (by_height_response_fields enc y) = by_height_response_number_of_fields \<longleftrightarrow>
     hr_status y \<noteq> None \<and> hr_untrusted y \<noteq> None"
  "length (range_response_fields enc z) = range_response_number_of_fields \<longleftrightarrow>
     rr_output_indices z \<noteq> None \<and> rr_status z \<noteq> None \<and> rr_untrusted z \<noteq> None"
  by (auto simp: fast_response_fields_def fast_response_number_of_fields_def by_height_response_fields_def
      by_height_response_number_of_fields_def range_response_fields_def range_response_number_of_fields_def)

section \<open>Reading back what was written\<close>

text \<open>The third-party driver of an object: it reads a name and calls \<open>add_field\<close> on what follows.\<close>

fun add_fields :: "('b \<Rightarrow> string \<Rightarrow> bytes \<Rightarrow> 'b added) \<Rightarrow> 'b \<Rightarrow> string list \<Rightarrow> bytes \<Rightarrow> ('b \<times> bytes) epee_result" where
  "add_fields add b [] r = Inr (b, r)"
| "add_fields add b (name # names) r =
     (case add b name r of Inl e \<Rightarrow> Inl e
      | Inr (b', known, r') \<Rightarrow> if known then add_fields add b' names r' else Inl Epee_Value)"

definition written :: "(string \<times> bytes) list \<Rightarrow> bytes \<Rightarrow> bytes" where
  "written fs rest = concat (map snd fs) @ rest"

text \<open>A value written by the crate reads back, whatever follows, within the limits of the type.\<close>

definition epee_codec_ok :: "epee_lib \<Rightarrow> epee_enc \<Rightarrow> bool" where
  "epee_codec_ok lib enc \<longleftrightarrow>
     (\<forall>v rest. v < 256 \<longrightarrow> rd_u8 lib (wr_u8 enc v @ rest) = Some (v, rest))
   \<and> (\<forall>v rest. v \<le> u64_max \<longrightarrow> rd_u64 lib (wr_u64 enc v @ rest) = Some (v, rest))
   \<and> (\<forall>v rest. rd_bool lib (wr_bool enc v @ rest) = Some (v, rest))
   \<and> (\<forall>v rest mn mx. length v \<le> mx \<longrightarrow> rd_string lib mn mx (wr_string enc v @ rest) = Some (v, rest))
   \<and> (\<forall>v rest mn mx. length v \<le> mx \<longrightarrow> rd_blob lib mn mx (wr_blob enc v @ rest) = Some (v, rest))
   \<and> (\<forall>v rest mn mx. length v \<le> mx \<and> (\<forall>x \<in> set v. x \<le> u64_max) \<longrightarrow>
        rd_u64s lib mn mx (wr_u64s enc v @ rest) = Some (v, rest))"

lemma fast_request_round_trip:
  assumes "epee_codec_ok lib enc" "fq_requested_info q < 256" "length (fq_block_ids q) \<le> MAX_EPEE_BLOCK_IDS_BYTES"
    "fq_start_height q \<le> u64_max" "fq_pool_info_since q \<le> u64_max" "fq_max_block_count q \<le> u64_max"
  shows "\<exists>b. add_fields (fast_request_add_field lib) fast_request_default (map fst (fast_request_fields enc q))
      (written (fast_request_fields enc q) rest) = Inr (b, rest) \<and> fast_request_finish b = Inr q"
  using assms
  by (simp add: epee_codec_ok_def fast_request_fields_def written_def fast_request_add_field_def took_def
      fast_request_finish_def fast_request_default_def required_def)

lemma by_height_request_round_trip:
  assumes "epee_codec_ok lib enc" "length (hq_heights q) \<le> MAX_EPEE_BLOCKS_PER_RESPONSE"
    "\<forall>h \<in> set (hq_heights q). h \<le> u64_max"
  shows "\<exists>b. add_fields (by_height_request_add_field lib) by_height_request_default
      (map fst (by_height_request_fields enc q)) (written (by_height_request_fields enc q) rest) = Inr (b, rest)
    \<and> by_height_request_finish b = Inr q"
  using assms
  by (simp add: epee_codec_ok_def by_height_request_fields_def written_def by_height_request_add_field_def took_def
      by_height_request_finish_def by_height_request_default_def required_def)

lemma range_request_round_trip:
  assumes "epee_codec_ok lib enc" "rq_start_height q \<le> u64_max" "rq_count q \<le> u64_max"
  shows "\<exists>b. add_fields (range_request_add_field lib) range_request_default (map fst (range_request_fields enc q))
      (written (range_request_fields enc q) rest) = Inr (b, rest) \<and> range_request_finish b = Inr q"
  using assms
  by (simp add: epee_codec_ok_def range_request_fields_def written_def range_request_add_field_def took_def
      range_request_finish_def range_request_default_def required_def)

section \<open>Bounds on what a response can deliver\<close>

definition reads_suffix :: "'a value_reader \<Rightarrow> bool" where
  "reads_suffix f \<longleftrightarrow> (\<forall>r v rest. f r = Some (v, rest) \<longrightarrow> suffix rest r)"

definition reads_limited :: "(nat \<Rightarrow> nat \<Rightarrow> 'a list value_reader) \<Rightarrow> bool" where
  "reads_limited f \<longleftrightarrow>
     (\<forall>mn mx r v rest. f mn mx r = Some (v, rest) \<longrightarrow> length v \<le> mx \<and> suffix rest r)"

text \<open>The generic decoder of a sequence of entries fills one builder per entry.\<close>

inductive builds :: "('b \<Rightarrow> string \<Rightarrow> bytes \<Rightarrow> 'b added) \<Rightarrow> 'b \<Rightarrow> 'b \<Rightarrow> bool" for add b0 where
  builds_start: "builds add b0 b0"
| builds_field: "builds add b0 b \<Longrightarrow> add b name r = Inr (b', known, r') \<Longrightarrow> builds add b0 b'"

definition entries_built :: "epee_lib \<Rightarrow> bool" where
  "entries_built lib \<longleftrightarrow>
     (\<forall>mn mx r v rest. rd_block_entries lib mn mx r = Some (v, rest) \<longrightarrow>
        (\<forall>e \<in> set v. \<exists>b. builds (entry_add_field lib) entry_default b \<and> entry_finish b = Inr e))"

definition lib_ok :: "epee_lib \<Rightarrow> bool" where
  "lib_ok lib \<longleftrightarrow> varint_ok (rd_varint lib) \<and> fast_ok (rd_blobs lib) \<and> reads_suffix (rd_bool lib)
     \<and> reads_limited (rd_blob lib) \<and> reads_limited (rd_tx_entries lib)
     \<and> reads_limited (rd_block_entries lib) \<and> entries_built lib"

definition entry_bounded :: "block_complete_entry \<Rightarrow> bool" where
  "entry_bounded e \<longleftrightarrow> length (be_block e) \<le> MAX_EPEE_BLOB_BYTES \<and> length (be_txs e) \<le> MAX_EPEE_TXS_PER_BLOCK"

definition builder_bounded :: "entry_builder \<Rightarrow> bool" where
  "builder_bounded b \<longleftrightarrow>
     (\<forall>v. beb_block b = Some v \<longrightarrow> length v \<le> MAX_EPEE_BLOB_BYTES) \<and>
     (\<forall>t. beb_txs b = Some t \<longrightarrow> length t \<le> MAX_EPEE_TXS_PER_BLOCK)"

lemma commit_to_suffix [simp]: "suffix tmp r \<Longrightarrow> commit_to r tmp = tmp"
  by (auto simp: commit_to_def suffix_def)

lemma fast_ok_suffix: "fast_ok f \<Longrightarrow> f mn mx r = Some (v, rest) \<Longrightarrow> length v \<le> mx \<and> suffix rest r"
  unfolding fast_ok_def suffix_def by blast

lemma typed_array_suffix:
  assumes "varint_ok rv" "fast_ok fast" "read_txs_typed_array_0x8c rv utf8 fast r = Inr (out, rest)"
  shows "length out \<le> MAX_EPEE_TXS_PER_BLOCK \<and> suffix rest r"
  using typed_array_bounded [OF assms] by (auto simp: suffix_def)

lemma read_entry_txs_bounded:
  assumes "lib_ok lib" "read_entry_txs lib r = Inr (v, rest)"
  shows "length v \<le> MAX_EPEE_TXS_PER_BLOCK \<and> suffix rest r"
proof -
  have "varint_ok (rd_varint lib)" "fast_ok (rd_blobs lib)" "reads_limited (rd_tx_entries lib)"
    using assms(1) by (simp_all add: lib_ok_def)
  note parts = typed_array_suffix [OF this(1,2)] fast_ok_suffix [OF this(2)]
    this(3) [unfolded reads_limited_def, rule_format]
  from assms(2) show ?thesis
    by (auto simp: read_entry_txs_def split: if_splits option.splits sum.splits dest!: parts)
qed

lemma skip_value_suffix: "varint_ok rv \<Longrightarrow> skip_epee_value rv r = Inr rest \<Longrightarrow> suffix rest r"
  by (auto simp: skip_value_iff suffix_def)

lemma known_marker_suffix: "varint_ok rv \<Longrightarrow> skip_epee_value_with_known_marker rv m r = Inr rest \<Longrightarrow> suffix rest r"
  by (auto simp: known_marker_iff suffix_def)

lemma varint_suffix: "varint_ok rv \<Longrightarrow> skip_epee_varint_u64 rv r = Inr (v, rest) \<Longrightarrow> suffix rest r"
  by (erule (1) varint_cases) (simp add: suffix_def)

lemma field_name_suffix: "read_epee_field_name utf8 r = Inr (name, rest) \<Longrightarrow> suffix rest r"
  by (auto simp: read_epee_field_name_def Let_def suffix_drop suffix_ConsI split: list.splits if_splits option.splits)

lemma len_prefixed_suffix:
  assumes "varint_ok rv" "read_epee_len_prefixed_bytes rv mx r = Inr (b, rest)"
  shows "length b \<le> mx \<and> suffix rest r"
  using len_prefixed_cases [OF assms] by (metis append.assoc suffix_def)

lemma entry_add_field_bounded:
  assumes "lib_ok lib" "builder_bounded b" "entry_add_field lib b name r = Inr (b', known, rest)"
  shows "builder_bounded b' \<and> suffix rest r"
proof -
  have ok: "varint_ok (rd_varint lib)" "reads_limited (rd_blob lib)" "reads_limited (rd_tx_entries lib)"
    "reads_suffix (rd_bool lib)"
    using assms(1) by (simp_all add: lib_ok_def)
  note parts = skip_value_suffix [OF ok(1)] ok(2,3) [unfolded reads_limited_def, rule_format]
    ok(4) [unfolded reads_suffix_def, rule_format] read_entry_txs_bounded [OF assms(1)]
  from assms(2,3) show ?thesis
    by (auto simp: entry_add_field_def builder_bounded_def split: if_splits sum.splits dest: parts)
qed

lemma entry_default_bounded [simp]: "builder_bounded entry_default"
  by (simp add: builder_bounded_def entry_default_def)

lemma entry_finish_bounded: "builder_bounded b \<Longrightarrow> entry_finish b = Inr e \<Longrightarrow> entry_bounded e"
  by (cases "beb_txs b")
    (auto simp: entry_finish_def builder_bounded_def entry_bounded_def required_def split: option.splits)

text \<open>A loop whose body keeps an invariant keeps it.\<close>

lemma for_times_invariant:
  assumes "\<And>s s'. P s \<Longrightarrow> f s = Inr s' \<Longrightarrow> P s'"
  shows "P s \<Longrightarrow> for_times n f s = Inr s' \<Longrightarrow> P s'"
  by (induction n arbitrary: s) (auto split: sum.splits intro: assms)

lemma object_field_cases:
  assumes "object_field lib (b, r) = Inr (b', rest)"
  obtains name r1 known r2 where "read_epee_field_name (rd_utf8 lib) r = Inr (name, r1)"
    "entry_add_field lib b name r1 = Inr (b', known, r2)"
    "rest = r2 \<or> skip_epee_value (rd_varint lib) r2 = Inr rest"
  using assms by (auto simp: object_field_def split: sum.splits bool.splits)

lemma object_field_bounded:
  assumes "lib_ok lib" "builder_bounded (fst s) \<and> suffix (snd s) r" "object_field lib s = Inr s'"
  shows "builder_bounded (fst s') \<and> suffix (snd s') r"
proof -
  have v: "varint_ok (rd_varint lib)" using assms(1) by (simp add: lib_ok_def)
  obtain b0 r0 b' rest where [simp]: "s = (b0, r0)" "s' = (b', rest)" by (cases s, cases s')
  from assms(3) obtain name r1 known r2 where f: "read_epee_field_name (rd_utf8 lib) r0 = Inr (name, r1)"
    "entry_add_field lib b0 name r1 = Inr (b', known, r2)"
    "rest = r2 \<or> skip_epee_value (rd_varint lib) r2 = Inr rest"
    by (auto elim: object_field_cases)
  from f(3) have "suffix rest r2" using skip_value_suffix [OF v] by auto
  with entry_add_field_bounded [OF assms(1) _ f(2)] field_name_suffix [OF f(1)] assms(2) show ?thesis
    by (auto intro: suffix_order.trans)
qed

lemma blob_entry_field_cases:
  assumes "blob_entry_field lib (b, r) = Inr (b', rest)"
  obtains name r1 known r2 where "read_epee_field_name (rd_utf8 lib) r = Inr (name, r1)"
    "entry_add_field lib b name r1 = Inr (b', known, r2)"
  using assms by (auto simp: blob_entry_field_def split: sum.splits bool.splits list.splits)

lemma blob_entry_field_bounded:
  assumes "lib_ok lib" "builder_bounded (fst s)" "blob_entry_field lib s = Inr s'"
  shows "builder_bounded (fst s')"
  using assms(2,3)
  by (cases s, cases s') (auto elim!: blob_entry_field_cases dest: entry_add_field_bounded [OF assms(1)])

lemma blob_entry_field_answer:
  "blob_entry_field lib s = Inl x \<Longrightarrow> x = Inr None \<or> (\<exists>e. x = Inl e)"
  by (auto simp: blob_entry_field_def split: prod.splits sum.splits bool.splits list.splits)

lemma for_times_answer:
  assumes "\<And>s x. f s = Inl x \<Longrightarrow> Q x"
  shows "for_times n f s = Inl x \<Longrightarrow> Q x"
  by (induction n arbitrary: s) (auto split: sum.splits intro: assms)

lemma blob_loop_answer: "for_times n (blob_entry_field lib) s \<noteq> Inl (Inr (Some e))"
  using for_times_answer [where f = "blob_entry_field lib" and Q = "\<lambda>x. x = Inr None \<or> (\<exists>e. x = Inl e)"]
    blob_entry_field_answer by blast

lemma blob_loop_bounded:
  assumes "lib_ok lib" "for_times n (blob_entry_field lib) (entry_default, r) = Inr s'"
  shows "builder_bounded (fst s')"
  by (rule for_times_invariant [OF blob_entry_field_bounded [OF assms(1)] _ assms(2)]) simp_all

lemma try_decode_bounded:
  assumes "lib_ok lib" "try_decode_block_complete_entry_from_blob_payload lib p = Inr (Some e)"
  shows "entry_bounded e"
  using assms(2)
  by (auto simp: try_decode_block_complete_entry_from_blob_payload_def blob_loop_answer
      split: if_splits sum.splits)
    (metis fst_conv blob_loop_bounded [OF assms(1)] entry_finish_bounded)

definition entries_ok :: "bytes \<Rightarrow> nat \<Rightarrow> entries_state \<Rightarrow> bool" where
  "entries_ok r0 k st \<longleftrightarrow> length (fst st) = k \<and> (\<forall>e \<in> set (fst st). entry_bounded e) \<and> suffix (snd st) r0"

lemma for_times_counted:
  assumes "\<And>k s s'. P k s \<Longrightarrow> f s = Inr s' \<Longrightarrow> P (Suc k) s'"
  shows "P k s \<Longrightarrow> for_times n f s = Inr s' \<Longrightarrow> P (k + n) s'"
proof (induction n arbitrary: k s)
  case (Suc n)
  then obtain t where "f s = Inr t" "for_times n f t = Inr s'" by (auto split: sum.splits)
  with Suc.IH [OF assms [OF Suc.prems(1)]] show ?case by simp
qed simp

lemma object_entry_ok:
  assumes "lib_ok lib" "entries_ok r0 k s" "object_entry lib s = Inr s'"
  shows "entries_ok r0 (Suc k) s'"
proof -
  have v: "varint_ok (rd_varint lib)" using assms(1) by (simp add: lib_ok_def)
  obtain out r where [simp]: "s = (out, r)" by (cases s)
  from assms(3) obtain n r1 b r2 e where o: "skip_epee_varint_u64 (rd_varint lib) r = Inr (n, r1)"
    "for_times n (object_field lib) (entry_default, r1) = Inr (b, r2)" "entry_finish b = Inr e"
    "s' = (out @ [e], r2)"
    by (auto simp: object_entry_def split: sum.splits)
  have "builder_bounded b \<and> suffix r2 r1"
    using for_times_invariant [where P = "\<lambda>s. builder_bounded (fst s) \<and> suffix (snd s) r1",
        OF object_field_bounded [OF assms(1)] _ o(2)] by simp
  with o varint_suffix [OF v o(1)] entry_finish_bounded assms(2) show ?thesis
    by (auto simp: entries_ok_def intro: suffix_order.trans)
qed

lemma blob_entry_ok:
  assumes "lib_ok lib" "entries_ok r0 k s" "blob_entry lib errs s = Inr s'"
  shows "entries_ok r0 (Suc k) s'"
proof -
  have v: "varint_ok (rd_varint lib)" using assms(1) by (simp add: lib_ok_def)
  obtain out r where [simp]: "s = (out, r)" by (cases s)
  define r1 where "r1 = (if is_supported_blob_marker (hd r) then drop 1 r else r)"
  then have r1: "suffix r1 r" by (simp add: suffix_drop)
  from assms(3) obtain p r2 e where o:
    "read_epee_len_prefixed_bytes (rd_varint lib) MAX_EPEE_BLOB_BYTES r1 = Inr (p, r2)"
    "e = raw_entry p \<or> try_decode_block_complete_entry_from_blob_payload lib p = Inr (Some e)"
    "s' = (out @ [e], r2)"
    using that
    by (auto simp: blob_entry_def r1_def [symmetric] split: sum.splits if_splits option.splits) metis+
  from len_prefixed_suffix [OF v o(1)] o(2) have "entry_bounded e"
    by (auto simp: raw_entry_def entry_bounded_def dest: try_decode_bounded [OF assms(1)])
  with o r1 len_prefixed_suffix [OF v o(1)] assms(2) show ?thesis
    by (auto simp: entries_ok_def intro: suffix_order.trans)
qed

lemma builds_bounded:
  assumes "lib_ok lib"
  shows "builds (entry_add_field lib) entry_default b \<Longrightarrow> builder_bounded b"
  by (induction rule: builds.induct) (auto dest: entry_add_field_bounded [OF assms])

lemma blocks_container_suffix:
  assumes "varint_ok (rd_varint lib)" "blocks_container lib errs r = Inr (n, rest)"
  shows "suffix rest r"
  using assms(2)
  by (auto simp: blocks_container_def split: list.splits if_splits sum.splits
      dest!: varint_suffix [OF assms(1)] intro: suffix_ConsI)

lemma read_blocks_cases [consumes 1, case_names generic objects blobs]:
  assumes "read_blocks lib errs r = Inr (out, rest)"
  obtains tmp where "rd_block_entries lib 32 MAX_EPEE_BLOCKS_PER_RESPONSE r = Some (out, tmp)"
      "rest = commit_to r tmp"
    | n sp tmp where "n \<le> MAX_EPEE_BLOCKS_PER_RESPONSE" "blocks_container lib errs r = Inr (n, sp)"
      "for_times n (object_entry lib) ([], sp) = Inr (out, tmp)" "rest = commit_to sp tmp"
    | n sp tmp where "n \<le> MAX_EPEE_BLOCKS_PER_RESPONSE" "blocks_container lib errs r = Inr (n, sp)"
      "for_times n (blob_entry lib errs) ([], sp) = Inr (out, tmp)" "rest = commit_to sp tmp"
proof (cases "if r \<noteq> [] then rd_block_entries lib 32 MAX_EPEE_BLOCKS_PER_RESPONSE r else None")
  case None
  with assms obtain n sp where c: "blocks_container lib errs r = Inr (n, sp)" "n \<le> MAX_EPEE_BLOCKS_PER_RESPONSE"
      "(case for_times n (object_entry lib) ([], sp) of
          Inr (obj_out, reader_obj) \<Rightarrow> Inr (obj_out, commit_to sp reader_obj)
        | Inl _ \<Rightarrow> (case for_times n (blob_entry lib errs) ([], sp) of Inl e \<Rightarrow> Inl e
            | Inr (out, reader_blob) \<Rightarrow> Inr (out, commit_to sp reader_blob))) = Inr (out, rest)"
    by (simp add: read_blocks_def checked_epee_sequence_len_def split: sum.splits prod.splits if_splits)
  show thesis
  proof (cases "for_times n (object_entry lib) ([], sp)")
    case (Inl a)
    with c(3) obtain tmp where "for_times n (blob_entry lib errs) ([], sp) = Inr (out, tmp)"
        "rest = commit_to sp tmp"
      by (auto split: sum.splits)
    with that(3) c show thesis by blast
  next
    case (Inr t)
    with that(2) c show thesis by (cases t) simp
  qed
next
  case (Some vt)
  with that(1) assms show thesis by (cases vt) (auto simp: read_blocks_def split: if_splits)
qed

text \<open>Whatever the daemon sends, \<open>blocks\<close> delivers at most the number of entries a request may ask for,
  each within the limits of an entry, and leaves the reader after what it consumed.\<close>

lemma read_blocks_bounded:
  assumes "lib_ok lib" "read_blocks lib errs r = Inr (out, rest)"
  shows "length out \<le> MAX_EPEE_BLOCKS_PER_RESPONSE \<and> (\<forall>e \<in> set out. entry_bounded e) \<and> suffix rest r"
proof -
  have v: "varint_ok (rd_varint lib)" and l: "reads_limited (rd_block_entries lib)" and e: "entries_built lib"
    using assms(1) by (simp_all add: lib_ok_def)
  from assms(2) show ?thesis
  proof (cases rule: read_blocks_cases)
    case (generic tmp)
    then have "length out \<le> MAX_EPEE_BLOCKS_PER_RESPONSE" "suffix tmp r"
      using l by (auto simp: reads_limited_def)
    moreover have "\<forall>x \<in> set out. entry_bounded x"
      using e generic(1) builds_bounded [OF assms(1)] entry_finish_bounded
      unfolding entries_built_def by meson
    ultimately show ?thesis using generic(2) by simp
  next
    case (objects n sp tmp)
    have "entries_ok sp 0 ([], sp)" by (simp add: entries_ok_def)
    from for_times_counted [where P = "entries_ok sp", OF object_entry_ok [OF assms(1)] this objects(3)]
    have "length out = n" "\<forall>e \<in> set out. entry_bounded e" "suffix tmp sp"
      by (simp_all add: entries_ok_def)
    with objects(1,4) suffix_order.trans [OF _ blocks_container_suffix [OF v objects(2)]] show ?thesis by simp
  next
    case (blobs n sp tmp)
    have "entries_ok sp 0 ([], sp)" by (simp add: entries_ok_def)
    from for_times_counted [where P = "entries_ok sp", OF blob_entry_ok [OF assms(1)] this blobs(3)]
    have "length out = n" "\<forall>e \<in> set out. entry_bounded e" "suffix tmp sp"
      by (simp_all add: entries_ok_def)
    with blobs(1,4) suffix_order.trans [OF _ blocks_container_suffix [OF v blobs(2)]] show ?thesis by simp
  qed
qed

end
