(* ===== verification/Daemon_Rpc.thy ===== *)
theory Daemon_Rpc
  imports Routing Bulk_Models Env_Config
begin

text \<open>
  The blocking daemon client of \<open>lib.rs\<close> (\<open>BlockingRpcTransport\<close>): JSON and binary posts, the request
  bodies of the block endpoints, JSON-RPC calls with their error mapping, block hashes by height and the
  daemon's height and tip time (\<open>fetch_daemon_status\<close>).

  Every call is a function of the number of requests sent before it; it answers with its result and what
  it sent. JSON text, \<open>Display\<close> texts of errors and the portable-storage driver belong to third-party
  crates: the parameters \<open>daemon_lib\<close>.
\<close>

section \<open>JSON values and the environment of a call\<close>

datatype json = JNull | JBool bool | JInt int | JFloat string | JStr string
  | JArr "json list" | JObj "(string \<times> json) list"

definition json_get :: "string \<Rightarrow> json \<Rightarrow> json option" where
  "json_get key v = (case v of JObj kvs \<Rightarrow> map_of kvs key | _ \<Rightarrow> None)"

definition as_u64 :: "json \<Rightarrow> u64 option" where
  "as_u64 v = (case v of JInt n \<Rightarrow> if 0 \<le> n \<and> n \<le> int u64_max then Some (nat n) else None | _ \<Rightarrow> None)"

definition as_i64 :: "json \<Rightarrow> int option" where
  "as_i64 v = (case v of JInt n \<Rightarrow> if - (2 ^ 63) \<le> n \<and> n < 2 ^ 63 then Some n else None | _ \<Rightarrow> None)"

definition as_str :: "json \<Rightarrow> string option" where
  "as_str v = (case v of JStr s \<Rightarrow> Some s | _ \<Rightarrow> None)"

record daemon_lib =
  dl_net :: net_lib
  dl_mobile :: bool
  dl_status_text :: "http_response \<Rightarrow> string"
  dl_body_text :: "http_response \<Rightarrow> string option"
  dl_transport_text :: "http_request \<Rightarrow> string"
  dl_json_text :: "json \<Rightarrow> bytes"
  dl_json_parse :: "bytes \<Rightarrow> string + json"
  dl_encode :: "(string \<times> bytes) list \<Rightarrow> string + bytes"
  dl_enc :: epee_enc
  dl_by_height :: "bytes \<Rightarrow> string + get_blocks_by_height_response"
  dl_range :: "bytes \<Rightarrow> string + get_blocks_response"
  dl_fast :: "bytes \<Rightarrow> string + get_blocks_fast_response"

record blocking_transport =
  bt_agent :: agent
  bt_base_url :: string

type_synonym 'a rpc = "nat \<Rightarrow> 'a \<times> sent"

section \<open>Requests\<close>

definition blocking_new ::
  "url_lib \<Rightarrow> (string \<Rightarrow> bool) \<Rightarrow> route_state \<Rightarrow> string \<Rightarrow> world \<Rightarrow> (int + blocking_transport) \<times> world" where
  "blocking_new ul proxy_valid st raw_url w =
     (let base_url = trim_end_char (CHR ''/'') raw_url in
      if base_url = [] then (Inl (-14), w)
      else (case agent_for_url ul proxy_valid st base_url of
              Inl message \<Rightarrow> (Inl (-14), set_last_error message w)
            | Inr ag \<Rightarrow> (Inr \<lparr>bt_agent = ag, bt_base_url = base_url\<rparr>, w)))"

text \<open>\<open>auth_header\<close> is \<open>None\<close> in every transport that is built.\<close>

definition request_with :: "string \<Rightarrow> blocking_transport \<Rightarrow> string \<Rightarrow> bytes \<Rightarrow> http_request" where
  "request_with content_type t route body =
     \<lparr>rq_url = bt_base_url t @ ''/'' @ trim_start_slash route, rq_content_type = content_type,
      rq_authorization = None, rq_body = body\<rparr>"

definition request_for :: "blocking_transport \<Rightarrow> string \<Rightarrow> bytes \<Rightarrow> http_request" where
  "request_for t route body = request_with ''application/json'' t route body"

definition request_for_bin :: "blocking_transport \<Rightarrow> string \<Rightarrow> bytes \<Rightarrow> http_request" where
  "request_for_bin t route body = request_with ''application/octet-stream'' t route body"

text \<open>\<open>send_bytes\<close> of the HTTP client: a status of 400 or more is an error.\<close>

definition send_bytes :: "daemon_lib \<Rightarrow> blocking_transport \<Rightarrow> http_request \<Rightarrow> (ureq_error + http_response) rpc" where
  "send_bytes dl t req k =
     (case agent_send (dl_net dl) (bt_agent t) k req of
        (None, out) \<Rightarrow> (Inl (Ureq_Transport (dl_transport_text dl req)), out)
      | (Some r, out) \<Rightarrow>
          (if 400 \<le> rs_status r
           then Inl (Ureq_Status (rs_status r) (dl_status_text dl r) (dl_body_text dl r))
           else Inr r, out))"

definition post_with ::
  "daemon_lib \<Rightarrow> blocking_transport \<Rightarrow> string \<Rightarrow> http_request \<Rightarrow> nat \<Rightarrow> (interface_error + bytes) rpc" where
  "post_with dl t route req limit k =
     (case send_bytes dl t req k of
        (Inl err, out) \<Rightarrow> (Inl (map_ureq_error route err), out)
      | (Inr r, out) \<Rightarrow>
          (case read_response r limit of
             Inl (_, message) \<Rightarrow> (Inl (InterfaceError message), out) | Inr bs \<Rightarrow> (Inr bs, out)))"

definition post_bytes :: "daemon_lib \<Rightarrow> blocking_transport \<Rightarrow> string \<Rightarrow> bytes \<Rightarrow> (interface_error + bytes) rpc" where
  "post_bytes dl t route body = post_with dl t route (request_for t route body) MAX_JSON_RESPONSE_BYTES"

definition post_bin :: "daemon_lib \<Rightarrow> blocking_transport \<Rightarrow> string \<Rightarrow> bytes \<Rightarrow> (interface_error + bytes) rpc" where
  "post_bin dl t route body =
     post_with dl t route (request_for_bin t route body) (MAX_BINARY_RESPONSE_BYTES (dl_mobile dl))"

section \<open>Blocks\<close>

definition decoded :: "(bytes \<Rightarrow> string + 'a) \<Rightarrow> (interface_error + bytes) \<times> sent \<Rightarrow> (interface_error + 'a) \<times> sent" where
  "decoded f x =
     (case x of (Inl e, out) \<Rightarrow> (Inl e, out)
      | (Inr bs, out) \<Rightarrow>
          (case f bs of Inl e \<Rightarrow> (Inl (InvalidInterface (''epee decode: '' @ e)), out) | Inr v \<Rightarrow> (Inr v, out)))"

definition encoded_post ::
  "daemon_lib \<Rightarrow> blocking_transport \<Rightarrow> string \<Rightarrow> (string \<times> bytes) list \<Rightarrow> (interface_error + bytes) rpc" where
  "encoded_post dl t route fs k =
     (case dl_encode dl fs of Inl e \<Rightarrow> (Inl (InvalidInterface (''epee encode: '' @ e)), [])
      | Inr body \<Rightarrow> post_bin dl t route body k)"

definition get_blocks_by_height_bin ::
  "daemon_lib \<Rightarrow> blocking_transport \<Rightarrow> u64 list \<Rightarrow> bool \<Rightarrow> (interface_error + get_blocks_by_height_response) rpc" where
  "get_blocks_by_height_bin dl t heights prune k =
     decoded (dl_by_height dl)
       (encoded_post dl t ''get_blocks_by_height.bin''
         (by_height_request_fields (dl_enc dl) \<lparr>hq_heights = heights, hq_prune = prune\<rparr>) k)"

definition le_bytes_u64 :: "u64 \<Rightarrow> bytes" where
  "le_bytes_u64 n = map (\<lambda>i. word_of_nat ((n div 256 ^ i) mod 256)) [0, 1, 2, 3, 4, 5, 6, 7]"

text \<open>The body of \<open>/get_blocks.bin\<close>, written out by hand: the storage header, three fields, and for each
  its length-prefixed name, its marker and its value.\<close>

definition PREFIX_BEFORE_PRUNE_VALUE :: bytes where
  "PREFIX_BEFORE_PRUNE_VALUE =
     [0x01, 0x11, 0x01, 0x01, 0x01, 0x01, 0x02, 0x01, 0x01, 0x0c, 0x05, 0x70, 0x72, 0x75,
      0x6e, 0x65, 0x0b]"

definition PREFIX_AFTER_PRUNE_VALUE :: bytes where
  "PREFIX_AFTER_PRUNE_VALUE =
     [0x0c, 0x73, 0x74, 0x61, 0x72, 0x74, 0x5f, 0x68, 0x65, 0x69, 0x67, 0x68, 0x74, 0x05]"

definition GET_BLOCKS_BIN_MID :: bytes where
  "GET_BLOCKS_BIN_MID =
     [0x0f, 0x6d, 0x61, 0x78, 0x5f, 0x62, 0x6c, 0x6f, 0x63, 0x6b, 0x5f, 0x63, 0x6f, 0x75,
      0x6e, 0x74, 0x05]"

definition range_request_body :: "u64 \<Rightarrow> u64 \<Rightarrow> bool \<Rightarrow> bytes" where
  "range_request_body start_height block_count prune =
     PREFIX_BEFORE_PRUNE_VALUE @ [if prune then 1 else 0] @ PREFIX_AFTER_PRUNE_VALUE
     @ le_bytes_u64 start_height @ GET_BLOCKS_BIN_MID @ le_bytes_u64 block_count"

definition get_blocks_bin ::
  "daemon_lib \<Rightarrow> blocking_transport \<Rightarrow> u64 \<Rightarrow> u64 \<Rightarrow> bool \<Rightarrow> (interface_error + get_blocks_response) rpc" where
  "get_blocks_bin dl t start_height block_count prune k =
     decoded (dl_range dl) (post_bin dl t ''get_blocks.bin'' (range_request_body start_height block_count prune) k)"

definition fast_request :: "hash32 list \<Rightarrow> u64 \<Rightarrow> bool \<Rightarrow> nat \<Rightarrow> get_blocks_fast_request" where
  "fast_request block_ids start_height prune batch =
     \<lparr>fq_requested_info = 0, fq_block_ids = concat block_ids, fq_start_height = start_height,
      fq_prune = prune, fq_no_miner_tx = False, fq_pool_info_since = 0, fq_max_block_count = batch\<rparr>"

definition get_blocks_fast_bin ::
  "environment \<Rightarrow> daemon_lib \<Rightarrow> blocking_transport \<Rightarrow> hash32 list \<Rightarrow> u64 \<Rightarrow> bool
   \<Rightarrow> (interface_error + get_blocks_fast_response) rpc" where
  "get_blocks_fast_bin env dl t block_ids start_height prune k =
     decoded (dl_fast dl)
       (encoded_post dl t ''get_blocks.bin''
         (fast_request_fields (dl_enc dl)
           (fast_request block_ids start_height prune (bulk_fetch_batch_from_env (dl_mobile dl) env))) k)"

section \<open>JSON-RPC\<close>

definition json_payload :: "string \<Rightarrow> json \<Rightarrow> json" where
  "json_payload method params =
     JObj [(''jsonrpc'', JStr ''2.0''), (''id'', JStr ''0''), (''method'', JStr method), (''params'', params)]"

definition error_text :: "interface_error \<Rightarrow> string" where
  "error_text e = (case e of InterfaceError m \<Rightarrow> m | InvalidInterface m \<Rightarrow> m | InternalError m \<Rightarrow> m)"

definition json_rpc_call ::
  "daemon_lib \<Rightarrow> blocking_transport \<Rightarrow> string \<Rightarrow> json \<Rightarrow> (int \<times> string + json) rpc" where
  "json_rpc_call dl t method params k =
     (let req = request_for t ''json_rpc'' (dl_json_text dl (json_payload method params)) in
      case send_bytes dl t req k of
        (Inl err, out) \<Rightarrow>
          (Inl (-15, ''json_rpc '' @ method @ '': '' @ error_text (map_ureq_error ''json_rpc'' err)), out)
      | (Inr r, out) \<Rightarrow>
          (case read_response r MAX_JSON_RESPONSE_BYTES of
             Inl (_, message) \<Rightarrow> (Inl (-15, ''json_rpc '' @ method @ '': '' @ message), out)
           | Inr bs \<Rightarrow>
          (case dl_json_parse dl bs of
             Inl message \<Rightarrow> (Inl (-15, ''json decode for '' @ method @ '': '' @ message), out)
           | Inr value1 \<Rightarrow>
          (case json_get ''error'' value1 of
             Some error_obj \<Rightarrow>
               let msg = opt_get_or ''daemon returned error'' (Option.bind (json_get ''message'' error_obj) as_str);
                   code = opt_get_or 0 (Option.bind (json_get ''code'' error_obj) as_i64) in
               (Inl (-15, ''json_rpc '' @ method @ '' returned error '' @ show_int code @ '': '' @ msg), out)
           | None \<Rightarrow> (Inr value1, out)))))"

section \<open>A block hash by height\<close>

text \<open>\<open>u8::from_str_radix(_, 16)\<close> on two characters: a leading plus sign is accepted.\<close>

definition radix16_pair :: "char \<Rightarrow> char \<Rightarrow> byte option" where
  "radix16_pair a b =
     (if a = CHR ''+'' then hex_val b
      else (case (hex_val a, hex_val b) of (Some x, Some y) \<Rightarrow> Some (16 * x + y) | _ \<Rightarrow> None))"

text \<open>\<open>&hash_hex[i*2..i*2+2]\<close> panics when an end of the slice falls inside a character.\<close>

fun hash_pairs :: "nat \<Rightarrow> string \<Rightarrow> (nat + bytes) outcome" where
  "hash_pairs i (a # b # rest) =
     (if is_cont (code_of a) \<or> (case rest of [] \<Rightarrow> False | c # _ \<Rightarrow> is_cont (code_of c)) then Panic
      else (case radix16_pair a b of
              None \<Rightarrow> Value (Inl i)
            | Some x \<Rightarrow>
                (case hash_pairs (Suc i) rest of
                   Panic \<Rightarrow> Panic | Value (Inl j) \<Rightarrow> Value (Inl j) | Value (Inr bs) \<Rightarrow> Value (Inr (x # bs)))))"
| "hash_pairs i _ = Value (Inr [])"

definition decode_block_hash :: "(nat \<Rightarrow> string) \<Rightarrow> json \<Rightarrow> (int \<times> string + hash32) outcome" where
  "decode_block_hash radix_error value1 =
     (case json_get ''result'' value1 of
        None \<Rightarrow> Value (Inl (-15, ''on_get_block_hash response missing result''))
      | Some result1 \<Rightarrow>
          (case as_str result1 of
             None \<Rightarrow> Value (Inl (-15, ''on_get_block_hash result was not a string''))
           | Some hash_hex \<Rightarrow>
               if length hash_hex \<noteq> 64
               then Value (Inl (-15, ''on_get_block_hash returned unexpected hash length '' @
                      show_nat (length hash_hex) @ '' (expected 64)''))
               else (case hash_pairs 0 hash_hex of
                       Panic \<Rightarrow> Panic
                     | Value (Inl i) \<Rightarrow>
                         Value (Inl (-15, ''on_get_block_hash returned invalid hex at byte '' @ show_nat i
                           @ '': '' @ radix_error i))
                     | Value (Inr bs) \<Rightarrow> Value (Inr bs))))"

definition get_block_hash_by_height_json ::
  "daemon_lib \<Rightarrow> (nat \<Rightarrow> string) \<Rightarrow> blocking_transport \<Rightarrow> u64 \<Rightarrow> (int \<times> string + hash32) outcome rpc" where
  "get_block_hash_by_height_json dl radix_error t height k =
     (if 2 ^ 63 \<le> height
      then (Value (Inl (-16, ''get_block_hash_by_height_json: height overflow: '' @ show_nat height)), [])
      else (case json_rpc_call dl t ''on_get_block_hash'' (JArr [JInt (int height)]) k of
              (Inl e, out) \<Rightarrow> (Value (Inl e), out)
            | (Inr value1, out) \<Rightarrow> (decode_block_hash radix_error value1, out)))"

section \<open>The daemon's height and tip time\<close>

record daemon_status =
  ds_height :: u64
  ds_top_block_timestamp :: u64

definition latest_block_index :: "daemon_status \<Rightarrow> usize" where
  "latest_block_index s = sat_sub (ds_height s) 1"

definition info_status :: "json \<Rightarrow> (int \<times> string) + daemon_status" where
  "info_status info =
     (case json_get ''result'' info of
        None \<Rightarrow> Inl (-15, ''daemon get_info response missing result/error'')
      | Some result1 \<Rightarrow>
          (case (Option.bind (json_get ''height'' result1) as_u64,
                 Option.bind (json_get ''top_block_timestamp'' result1) as_u64) of
             (Some height, Some ts) \<Rightarrow> Inr \<lparr>ds_height = height, ds_top_block_timestamp = ts\<rparr>
           | _ \<Rightarrow> Inl (-15, ''daemon get_info response missing height/top_block_timestamp'')))"

definition count_status :: "json \<Rightarrow> (int \<times> string) + daemon_status" where
  "count_status response =
     (case json_get ''result'' response of
        None \<Rightarrow> Inl (-15, ''daemon get_block_count response missing result/error'')
      | Some result1 \<Rightarrow>
          (case Option.bind (json_get ''count'' result1) as_u64 of
             Some height \<Rightarrow> Inr \<lparr>ds_height = height, ds_top_block_timestamp = 0\<rparr>
           | None \<Rightarrow> Inl (-15, ''daemon get_block_count response missing count'')))"

definition and_then :: "'e + 'a \<Rightarrow> ('a \<Rightarrow> 'e + 'b) \<Rightarrow> 'e + 'b" where
  "and_then x f = (case x of Inl e \<Rightarrow> Inl e | Inr v \<Rightarrow> f v)"

definition fetch_daemon_status ::
  "daemon_lib \<Rightarrow> blocking_transport \<Rightarrow> ((int \<times> string) + daemon_status) rpc" where
  "fetch_daemon_status dl t k =
     (let (info, out) = json_rpc_call dl t ''get_info'' (JObj []) k in
      case and_then info info_status of
        Inr status \<Rightarrow> (Inr status, out)
      | Inl (_, first_message) \<Rightarrow>
          (let (response, out') = json_rpc_call dl t ''get_block_count'' (JObj []) (k + length out) in
           case and_then response count_status of
             Inr status \<Rightarrow> (Inr status, out @ out')
           | Inl (code, message) \<Rightarrow>
               (Inl (code, message @ ''; initial get_info attempt also failed: '' @ first_message), out @ out')))"

definition resolve_daemon_tip_timestamp ::
  "url_lib \<Rightarrow> (string \<Rightarrow> bool) \<Rightarrow> route_state \<Rightarrow> daemon_lib \<Rightarrow> string \<Rightarrow> world \<Rightarrow> u64 \<times> sent \<times> world" where
  "resolve_daemon_tip_timestamp ul proxy_valid st dl base_url w =
     (case blocking_new ul proxy_valid st base_url w of
        (Inl _, w') \<Rightarrow> (0, [], w')
      | (Inr t, w') \<Rightarrow>
          (case fetch_daemon_status dl t 0 of
             (Inr status, out) \<Rightarrow> (ds_top_block_timestamp status, out, w')
           | (Inl _, out) \<Rightarrow> (0, out, w')))"

section \<open>The hand-written request body is well-formed\<close>

lemma length_le_bytes_u64 [simp]: "length (le_bytes_u64 n) = 8"
  by (simp add: le_bytes_u64_def)

lemma le_value_Cons: "le_value (b # bs) = unat b + 256 * le_value bs"
  by (simp add: le_value_def)

text \<open>The digits of a number in base 256, least significant first.\<close>

fun base256 :: "nat \<Rightarrow> nat \<Rightarrow> bytes" where
  "base256 0 n = []"
| "base256 (Suc k) n = word_of_nat (n mod 256) # base256 k (n div 256)"

lemma le_value_base256: "n < 256 ^ k \<Longrightarrow> le_value (base256 k n) = n"
proof (induction k arbitrary: n)
  case (Suc k)
  then have "n div 256 < 256 ^ k" by (simp add: less_mult_imp_div_less)
  then have "le_value (base256 k (n div 256)) = n div 256" by (rule Suc.IH)
  moreover have "unat (word_of_nat (n mod 256) :: byte) = n mod 256"
    by (simp add: unat_of_nat)
  ultimately show ?case by (simp add: le_value_Cons)
qed (simp add: le_value_def)

lemma base256_map: "base256 k n = map (\<lambda>i. word_of_nat ((n div 256 ^ i) mod 256)) [0..<k]"
proof (induction k arbitrary: n)
  case (Suc k)
  have "[0..<Suc k] = 0 # map Suc [0..<k]" by (simp add: map_Suc_upt upt_conv_Cons del: upt_Suc)
  then show ?case by (simp add: Suc.IH comp_def div_mult2_eq)
qed simp

lemma le_bytes_base256: "le_bytes_u64 n = base256 8 n"
proof -
  have "[0..<8] = [0, 1, 2, 3, 4, 5, 6, 7 :: nat]" by (simp add: upt_rec)
  then show ?thesis by (simp only: le_bytes_u64_def base256_map)
qed

lemma le_bytes_u64_value: "n \<le> u64_max \<Longrightarrow> le_value (le_bytes_u64 n) = n"
  by (simp add: le_bytes_base256 le_value_base256 u64_max_def)

lemma vint_small: "vint portable_varint [0x0c] 3"
  using portable_varint_vint [of "[0x0c]"] by (simp add: varint_len_def le_value_def)

lemma fixed_field:
  "fixed_width m = Some (length v) \<Longrightarrow> m AND 0x80 = 0 \<Longrightarrow> epee_body rv 1 m v 1"
  by (intro body_fixed) (simp_all add: MAX_EPEE_NESTING_def)

definition text_bytes :: "string \<Rightarrow> bytes" where
  "text_bytes s = map byte_of s"

lemma range_request_body_fields:
  "range_request_body s c p =
     [0x01, 0x11, 0x01, 0x01, 0x01, 0x01, 0x02, 0x01, 0x01] @ [0x0c] @
     (0x05 # text_bytes ''prune'' @ 0x0b # [if p then 1 else 0] @
      0x0c # text_bytes ''start_height'' @ 0x05 # le_bytes_u64 s @
      0x0f # text_bytes ''max_block_count'' @ 0x05 # le_bytes_u64 c @ [])"
  by (simp add: range_request_body_def PREFIX_BEFORE_PRUNE_VALUE_def PREFIX_AFTER_PRUNE_VALUE_def
      GET_BLOCKS_BIN_MID_def text_bytes_def byte_of_def)

lemma range_request_grammar:
  "epee_body portable_varint 0 0x0c (drop 9 (range_request_body s c p)) 4"
proof -
  have "epee_fields portable_varint 1 3
     (0x05 # text_bytes ''prune'' @ 0x0b # [if p then 1 else 0] @
      0x0c # text_bytes ''start_height'' @ 0x05 # le_bytes_u64 s @
      0x0f # text_bytes ''max_block_count'' @ 0x05 # le_bytes_u64 c @ []) (1 + (1 + (1 + 0)))"
    unfolding numeral_3_eq_3
    by (intro fields_Cons fields_Nil fixed_field) (simp_all add: text_bytes_def fixed_width_def)
  from body_object [of 0, OF _ vint_small] this show ?thesis
    by (simp add: range_request_body_fields MAX_EPEE_NESTING_def numeral_eq_Suc)
qed

section \<open>Block hashes\<close>

lemma radix16_hex_digits: "radix16_pair (hex_digit (unat b div 16)) (hex_digit (unat b mod 16)) = Some b"
proof -
  have n: "unat b div 16 < 16" "unat b mod 16 < 16" using unat_byte_bound [of b] by auto
  then have "hex_digit (unat b div 16) \<noteq> CHR ''+''"
    using code_of_hex_digit [OF n(1)] by (auto simp: code_of_def split: if_splits)
  moreover have "16 * word_of_nat (unat b div 16) + word_of_nat (unat b mod 16) = b"
  proof -
    have "16 * word_of_nat (unat b div 16) + word_of_nat (unat b mod 16) =
        (word_of_nat (16 * (unat b div 16) + unat b mod 16) :: byte)"
      by (simp only: of_nat_add of_nat_mult of_nat_numeral)
    also have "\<dots> = b" by (simp only: mult_div_mod_eq of_nat_unat ucast_id)
    finally show ?thesis .
  qed
  ultimately show ?thesis using n by (simp add: radix16_pair_def hex_val_hex_digit)
qed

lemma hex_digit_not_cont: "n < 16 \<Longrightarrow> \<not> is_cont (code_of (hex_digit n))"
  by (simp add: code_of_hex_digit is_cont_def)

lemma hash_pairs_hex: "hash_pairs i (hex_lowercase bs) = Value (Inr bs)"
proof (induction bs arbitrary: i)
  case (Cons b bs)
  have n: "unat b div 16 < 16" "unat b mod 16 < 16" using unat_byte_bound [of b] by auto
  have "\<not> (case hex_lowercase bs of [] \<Rightarrow> False | c # _ \<Rightarrow> is_cont (code_of c))"
  proof (cases bs)
    case (Cons c cs)
    have "unat c div 16 < 16" using unat_byte_bound [of c] by auto
    with Cons show ?thesis by (simp add: hex_lowercase_def hex_byte_def hex_digit_not_cont)
  qed (simp add: hex_lowercase_def)
  moreover have "hex_lowercase (b # bs) =
      hex_digit (unat b div 16) # hex_digit (unat b mod 16) # hex_lowercase bs"
    by (simp add: hex_lowercase_def hex_byte_def)
  ultimately show ?case using Cons.IH radix16_hex_digits [of b] hex_digit_not_cont [OF n(1)] by simp
qed (simp add: hex_lowercase_def)

lemma hash_pairs_length: "hash_pairs i s = Value (Inr bs) \<Longrightarrow> length bs = length s div 2"
  by (induction i s arbitrary: bs rule: hash_pairs.induct)
    (auto split: if_splits option.splits outcome.splits sum.splits list.splits)

lemma decode_block_hash_round_trip:
  assumes "json_get ''result'' v = Some (JStr (hex_lowercase h))" "length h = 32"
  shows "decode_block_hash re v = Value (Inr h)"
  using assms by (simp add: decode_block_hash_def as_str_def hash_pairs_hex)

lemma decode_block_hash_length:
  "decode_block_hash re v = Value (Inr h) \<Longrightarrow> length h = 32"
  by (auto simp: decode_block_hash_def split: option.splits if_splits outcome.splits sum.splits
      dest: hash_pairs_length)

text \<open>A string of 64 bytes with a two-byte character across a slice boundary makes the decoder panic.\<close>

lemma decode_block_hash_panics:
  "decode_block_hash re (JObj [(''result'', JStr ([CHR ''a'', CHR 0xC3, CHR 0xA9] @ replicate 61 (CHR ''0'')))])
     = Panic"
  by (simp add: decode_block_hash_def json_get_def as_str_def radix16_pair_def is_cont_def code_of_def)

section \<open>Daemon status\<close>

lemma send_bytes_sent: "send_bytes dl t req k = (x, out) \<Longrightarrow> length out \<le> 1"
  by (auto simp: send_bytes_def agent_send_def split: option.splits sum.splits prod.splits)

lemma json_rpc_sent: "json_rpc_call dl t m p k = (x, out) \<Longrightarrow> length out \<le> 1"
  by (auto simp: json_rpc_call_def Let_def split: sum.splits prod.splits option.splits dest: send_bytes_sent)

lemma fetch_daemon_status_cases:
  assumes "fetch_daemon_status dl t k = (x, out)"
  obtains (info) v s where "json_rpc_call dl t ''get_info'' (JObj []) k = (Inr v, out)" "info_status v = Inr s" "x = Inr s"
    | (fallback) i out1 r out2 where "json_rpc_call dl t ''get_info'' (JObj []) k = (i, out1)"
        "\<forall>s. and_then i info_status \<noteq> Inr s"
        "json_rpc_call dl t ''get_block_count'' (JObj []) (k + length out1) = (r, out2)" "out = out1 @ out2"
        "(\<exists>s. x = Inr s \<and> and_then r count_status = Inr s) \<or> (\<exists>e. x = Inl e)"
proof -
  obtain i out1 where i: "json_rpc_call dl t ''get_info'' (JObj []) k = (i, out1)" by fastforce
  obtain r out2 where r: "json_rpc_call dl t ''get_block_count'' (JObj []) (k + length out1) = (r, out2)"
    by fastforce
  show thesis
  proof (cases "and_then i info_status")
    case (Inr s)
    with i assms show thesis
      by (intro info [of "case i of Inr v \<Rightarrow> v" s])
        (auto simp: fetch_daemon_status_def and_then_def split: sum.splits)
  next
    case (Inl e)
    with i r assms have "x = (case and_then r count_status of Inr s \<Rightarrow> Inr s
        | Inl (c, m) \<Rightarrow> Inl (c, m @ ''; initial get_info attempt also failed: '' @ snd e))" "out = out1 @ out2"
      by (auto simp: fetch_daemon_status_def split: sum.splits prod.splits)
    with Inl show thesis
      by (intro fallback [OF i _ r]) (auto split: sum.splits)
  qed
qed

lemma count_status_no_time: "count_status v = Inr s \<Longrightarrow> ds_top_block_timestamp s = 0"
  by (auto simp: count_status_def split: option.splits)

lemma blocking_new_i2p:
  assumes "blocking_new ul pv st raw w = (Inr t, w')" "ul_parse ul (trim_end_char (CHR ''/'') raw) = Some u"
    "u_host u = Some h"
  shows "if i2p_host h then \<exists>p. ag_proxy (bt_agent t) = Some p \<and> rt_proxy st = Inr (Some p)
    else ag_proxy (bt_agent t) = None \<and> \<not> onion_host h"
proof -
  from assms(1) have "agent_for_url ul pv st (trim_end_char (CHR ''/'') raw) = Inr (bt_agent t)"
    by (auto simp: blocking_new_def Let_def split: if_splits sum.splits)
  from proxy_for_i2p [OF conjunct1 [OF agent_for_url_proxy [OF this]] assms(2,3)] show ?thesis .
qed

lemma json_rpc_proxy:
  assumes "ag_proxy (bt_agent t) = Some p" "json_rpc_call dl t m ps k = (x, out)"
  shows "\<forall>(hop, q) \<in> set out. hop = Via_Proxy p"
  using assms
  by (auto simp: json_rpc_call_def send_bytes_def Let_def split: sum.splits prod.splits option.splits
      dest!: agent_send_proxy)

lemma post_with_proxy:
  assumes "ag_proxy (bt_agent t) = Some p" "post_with dl t route req limit k = (x, out)"
  shows "\<forall>(hop, q) \<in> set out. hop = Via_Proxy p"
  using assms
  by (auto simp: post_with_def send_bytes_def split: sum.splits prod.splits option.splits
      dest!: agent_send_proxy)

end
