(* ===== verification/Scan.thy ===== *)
theory Scan
  imports Wallet_Invariants
begin

text \<open>
  Scanning a block (the block loop of \<open>wallet_refresh_impl\<close> in \<open>ffi/refresh.rs\<close> and
  \<open>support/key_image.rs\<close>): accepting owned outputs, replaying known heights, detecting spends by
  key image, attributing spends whose transaction is unknown, fees and timestamps. The ownership
  scanner and the curve operations are parameters; a block carries what the code reads of it.
\<close>

section \<open>Data\<close>

record wallet_output =
  wo_transaction :: hash32
  wo_index :: u64
  wo_key :: hash32
  wo_key_offset :: bytes
  wo_amount :: u64
  wo_timelock :: timelock
  wo_subaddress :: "(u32 \<times> u32) option"

record scannable_block =
  sb_hash :: hash32
  sb_previous :: hash32
  sb_timestamp :: u64
  sb_miner :: pruned_tx
  sb_miner_hash :: hash32
  sb_tx_hashes :: "hash32 list"
  sb_txs :: "pruned_tx list"

record ki_ops =
  ko_canonical :: "bytes \<Rightarrow> bytes option"
  ko_zero :: bytes
  ko_add :: "bytes \<Rightarrow> bytes \<Rightarrow> bytes"
  ko_biased_hash :: "bytes \<Rightarrow> bytes"
  ko_decompress :: "bytes \<Rightarrow> bytes option"
  ko_identity :: bytes
  ko_mul :: "bytes \<Rightarrow> bytes \<Rightarrow> bytes"
  ko_compress :: "bytes \<Rightarrow> bytes"

text \<open>The working state of a refresh.\<close>

record scan_state = chain_view +
  ss_known_fees :: "(string, u64) hmap"
  ss_marker :: "u64 option"
  ss_owned_keys :: "hash32 hset"
  ss_height :: u64
  ss_tip_time :: u64

section \<open>Owned outputs\<close>

definition derive_key_image_bytes :: "ki_ops \<Rightarrow> wallet_output \<Rightarrow> bytes \<Rightarrow> bytes" where
  "derive_key_image_bytes ko out spend_scalar =
     (let ko_dalek = opt_get_or (ko_zero ko) (ko_canonical ko (wo_key_offset out));
          x = ko_add ko spend_scalar ko_dalek;
          hp = opt_get_or (ko_identity ko) (ko_decompress ko (ko_biased_hash ko (wo_key out))) in
      ko_compress ko (ko_mul ko hp x))"

definition accept_owned_output ::
    "outpoint \<Rightarrow> hash32 \<Rightarrow> outpoint hset \<Rightarrow> hash32 hset \<Rightarrow> bool \<times> outpoint hset \<times> hash32 hset" where
  "accept_owned_output op pk seen owned =
     (if op \<in> set seen \<or> pk \<in> set owned then (False, seen, owned)
      else (True, hs_insert op seen, hs_insert pk owned))"

definition relocate_replayed_output ::
    "tracked_output list \<Rightarrow> outpoint \<Rightarrow> hash32 \<Rightarrow> u64 \<Rightarrow> string + tracked_output list" where
  "relocate_replayed_output outs op pk height =
     (case find (\<lambda>o1. outpoint_of o1 = op) outs of
        None \<Rightarrow> Inl ''known output is missing from tracked outputs''
      | Some output \<Rightarrow>
          if public_key output \<noteq> pk
          then Inl ''replayed output key does not match its transaction outpoint''
          else Inr (update_first (\<lambda>o1. outpoint_of o1 = op) (block_height_update (\<lambda>_. height)) outs))"

text \<open>\<open>retain_mut\<close> with its side effects on the two sets.\<close>

fun reconcile_loop ::
    "u64 \<Rightarrow> hash32 hset \<Rightarrow> hash32 hset \<Rightarrow> tracked_output list \<Rightarrow> outpoint hset \<Rightarrow> hash32 hset \<Rightarrow>
     tracked_output list \<times> outpoint hset \<times> hash32 hset" where
  "reconcile_loop height txs images [] seen keys = ([], seen, keys)"
| "reconcile_loop height txs images (out # outs) seen keys =
     (if block_height out = height \<and> tx_hash out \<notin> set txs
      then reconcile_loop height txs images outs
             (hs_remove (outpoint_of out) seen) (hs_remove (public_key out) keys)
      else
        let out1 = (if spending_height out = Some height \<and> key_image out \<notin> set images
                    then out\<lparr>spent := False, spending_txid := None, spending_height := None\<rparr> else out);
            (rest, seen1, keys1) = reconcile_loop height txs images outs seen keys in
        (out1 # rest, seen1, keys1))"

definition reconcile_replayed_height ::
    "u64 \<Rightarrow> hash32 hset \<Rightarrow> hash32 hset \<Rightarrow> scan_state \<Rightarrow> scan_state" where
  "reconcile_replayed_height height txs images s =
     (let (outs, seen, keys) = reconcile_loop height txs images (tracked_outputs s)
                                 (seen_outpoints s) (ss_owned_keys s) in
      s\<lparr>tracked_outputs := outs, seen_outpoints := seen, ss_owned_keys := keys\<rparr>)"

section \<open>Spends\<close>

fun input_key_image :: "tx_input \<Rightarrow> hash32 option" where
  "input_key_image (TxGen h) = None"
| "input_key_image (TxToKey a ki) = Some ki"

definition tx_key_images :: "pruned_tx \<Rightarrow> hash32 list" where
  "tx_key_images tx = List.map_filter input_key_image (tx_inputs tx)"

definition key_image_index :: "tracked_output list \<Rightarrow> (hash32, nat) hmap" where
  "key_image_index outs =
     foldl (\<lambda>m (i, o1). if key_image o1 \<noteq> zero_image then hm_or_insert (key_image o1) i m else m)
       [] (enumerate 0 outs)"

definition mark_miner_spend :: "hash32 \<Rightarrow> u64 \<Rightarrow> (hash32, nat) hmap \<Rightarrow> tracked_output list \<Rightarrow> hash32 \<Rightarrow> tracked_output list" where
  "mark_miner_spend txid th kis outs ki =
     (case map_of kis ki of
        None \<Rightarrow> outs
      | Some i \<Rightarrow> outs[i := (outs ! i)\<lparr>spent := True, spending_txid := Some txid, spending_height := Some th\<rparr>])"

text \<open>\<open>apply_spend\<close> for one input of a transaction whose hash may be unknown.\<close>

definition apply_spend_input ::
    "hash32 option \<Rightarrow> u64 \<Rightarrow> (hash32, u64) hmap \<Rightarrow> (hash32, nat) hmap \<Rightarrow> scan_state \<Rightarrow> hash32 \<Rightarrow> scan_state" where
  "apply_spend_input txid th block_fees kis s ki =
     (case map_of kis ki of
        None \<Rightarrow> s
      | Some i \<Rightarrow>
          let out = tracked_outputs s ! i;
              out1 = out\<lparr>spent := True, spending_height := Some th,
                         spending_txid := (if spending_txid out = None then txid else spending_txid out)\<rparr>;
              s1 = s\<lparr>tracked_outputs := (tracked_outputs s)[i := out1]\<rparr> in
          (case txid of
             None \<Rightarrow> s1
           | Some t \<Rightarrow>
               (case map_of block_fees t of
                  None \<Rightarrow> s1
                | Some fee \<Rightarrow> s1\<lparr>ss_known_fees := hm_or_insert (hex_lowercase t) fee (ss_known_fees s1)\<rparr>)))"

definition apply_spend ::
    "u64 \<Rightarrow> (hash32, u64) hmap \<Rightarrow> (hash32, nat) hmap \<Rightarrow> scan_state \<Rightarrow> hash32 option \<times> pruned_tx \<Rightarrow> scan_state" where
  "apply_spend th block_fees kis s tt =
     foldl (apply_spend_input (fst tt) th block_fees kis) s (tx_key_images (snd tt))"

definition is_miner_decoded :: "pruned_tx \<Rightarrow> bool" where
  "is_miner_decoded tx = (case tx_inputs tx of TxGen h # rest \<Rightarrow> True | _ \<Rightarrow> False)"

definition decoded_non_miner :: "scannable_block \<Rightarrow> pruned_tx list" where
  "decoded_non_miner b =
     (case sb_txs b of
        first # rest \<Rightarrow>
          if is_miner_decoded first \<and> length (sb_txs b) = length (sb_tx_hashes b) + 1 then rest else sb_txs b
      | [] \<Rightarrow> [])"

definition block_tx_fees :: "scannable_block \<Rightarrow> (hash32, u64) hmap" where
  "block_tx_fees b =
     foldl (\<lambda>m (txid, tx). case transaction_network_fee tx of None \<Rightarrow> m | Some fee \<Rightarrow> hm_insert txid fee m)
       [(sb_miner_hash b, 0)] (zip (sb_tx_hashes b) (decoded_non_miner b))"

text \<open>The transactions of a block in the order their inputs are applied: those paired with a hash,
  then the surplus without one.\<close>

definition spend_txs :: "scannable_block \<Rightarrow> (hash32 option \<times> pruned_tx) list" where
  "spend_txs b =
     zip (map Some (sb_tx_hashes b)) (decoded_non_miner b) @
     map (\<lambda>tx. (None, tx)) (drop (length (sb_tx_hashes b)) (decoded_non_miner b))"

definition detect_spends :: "u64 \<Rightarrow> scannable_block \<Rightarrow> scan_state \<Rightarrow> scan_state" where
  "detect_spends th b s =
     (let kis = key_image_index (tracked_outputs s);
          s1 = s\<lparr>tracked_outputs :=
                  foldl (mark_miner_spend (sb_miner_hash b) th kis) (tracked_outputs s)
                    (tx_key_images (sb_miner b))\<rparr> in
      foldl (apply_spend th (block_tx_fees b) kis) s1 (spend_txs b))"

section \<open>Applying scanned outputs\<close>

definition learn_fee :: "scannable_block \<Rightarrow> hash32 \<Rightarrow> scan_state \<Rightarrow> scan_state" where
  "learn_fee b txid s =
     (case map_of (block_tx_fees b) txid of
        None \<Rightarrow> s
      | Some fee \<Rightarrow> s\<lparr>ss_known_fees := hm_or_insert (hex_lowercase txid) fee (ss_known_fees s)\<rparr>)"

definition new_tracked :: "ki_ops \<Rightarrow> master_keys option \<Rightarrow> u64 \<Rightarrow> scannable_block \<Rightarrow> wallet_output \<Rightarrow> tracked_output" where
  "new_tracked ko master th b out =
     (let (major, minor) = opt_get_or (0, 0) (wo_subaddress out) in
      \<lparr>tx_hash = wo_transaction out, index_in_tx = wo_index out, public_key = wo_key out,
       key_image = (case master of Some m \<Rightarrow> derive_key_image_bytes ko out (mk_spend_scalar m)
                                 | None \<Rightarrow> zero_image),
       amount = wo_amount out, block_height = th, additional_timelock = wo_timelock out,
       is_coinbase = (wo_transaction out = sb_miner_hash b), subaddress_major = major,
       subaddress_minor = minor, spent = False, spending_txid = None, spending_height = None\<rparr>)"

definition apply_output ::
    "ki_ops \<Rightarrow> master_keys option \<Rightarrow> u64 \<Rightarrow> scannable_block \<Rightarrow> scan_state \<Rightarrow> wallet_output \<Rightarrow> string + scan_state" where
  "apply_output ko master th b s out =
     (let key = (wo_transaction out, wo_index out); pk = wo_key out in
      if key \<in> set (seen_outpoints s)
      then (case relocate_replayed_output (tracked_outputs s) key pk th of
              Inl e \<Rightarrow> Inl e
            | Inr outs \<Rightarrow> Inr (learn_fee b (wo_transaction out) (s\<lparr>tracked_outputs := outs\<rparr>)))
      else (case accept_owned_output key pk (seen_outpoints s) (ss_owned_keys s) of
              (False, _) \<Rightarrow> Inr s
            | (True, seen, owned) \<Rightarrow>
                Inr (learn_fee b (wo_transaction out)
                  (s\<lparr>seen_outpoints := seen, ss_owned_keys := owned,
                     ss_marker := (if master = None
                                   then Some (case ss_marker s of None \<Rightarrow> th | Some h \<Rightarrow> min h th)
                                   else ss_marker s),
                     tracked_outputs := tracked_outputs s @ [new_tracked ko master th b out]\<rparr>))))"

fun apply_outputs ::
    "ki_ops \<Rightarrow> master_keys option \<Rightarrow> u64 \<Rightarrow> scannable_block \<Rightarrow> wallet_output list \<Rightarrow> scan_state \<Rightarrow>
     string + scan_state" where
  "apply_outputs ko master th b [] s = Inr s"
| "apply_outputs ko master th b (out # outs) s =
     (case apply_output ko master th b s out of
        Inl e \<Rightarrow> Inl e
      | Inr s1 \<Rightarrow> apply_outputs ko master th b outs s1)"

text \<open>Spends of this height without a transaction go to the only change transaction of the height
  that received less than was spent; \<open>sum\<close> wraps at 64 bits in the release profile.\<close>

definition unattributed_at :: "u64 \<Rightarrow> tracked_output \<Rightarrow> bool" where
  "unattributed_at th o1 \<longleftrightarrow> spent o1 \<and> spending_txid o1 = None \<and> spending_height o1 = Some th"

definition change_txids_at :: "u64 \<Rightarrow> tracked_output list \<Rightarrow> hash32 hset" where
  "change_txids_at th outs =
     (let unattr = filter (unattributed_at th) outs;
          unattr_spent = sat_sum (map amount unattr);
          change = hs_of_list (map tx_hash
                     (filter (\<lambda>o1. \<not> unattributed_at th o1 \<and> \<not> spent o1 \<and> block_height o1 = th) outs));
          rest = filter (\<lambda>t. t \<notin> tx_hash ` set unattr) change in
      filter (\<lambda>t. let incoming = sum_list (map amount
                        (filter (\<lambda>o1. \<not> spent o1 \<and> block_height o1 = th \<and> tx_hash o1 = t) outs)) mod (u64_max + 1) in
                  0 < incoming \<and> incoming < unattr_spent) rest)"

definition attach_change :: "u64 \<Rightarrow> tracked_output list \<Rightarrow> tracked_output list" where
  "attach_change th outs =
     (case change_txids_at th outs of
        [t] \<Rightarrow> map (\<lambda>o1. if unattributed_at th o1 then o1\<lparr>spending_txid := Some t\<rparr> else o1) outs
      | _ \<Rightarrow> outs)"

section \<open>One block\<close>

definition scan_block ::
    "ki_ops \<Rightarrow> u64 \<Rightarrow> master_keys option \<Rightarrow> u64 hset \<Rightarrow> (scannable_block \<Rightarrow> string + wallet_output list) \<Rightarrow>
     scannable_block \<Rightarrow> scan_state \<Rightarrow> string + scan_state" where
  "scan_block ko restore master replay_heights scanner b s =
     (let th = ss_height s;
          (st, hs) = push_recent_block_hash_parts restore (recent_block_hashes_start_height s)
                       (recent_block_hashes s) th (sb_hash b);
          s1 = s\<lparr>recent_block_hashes_start_height := st, recent_block_hashes := hs,
                 ss_tip_time := (if 0 < sb_timestamp b \<and> ss_tip_time s < sb_timestamp b
                                 then sb_timestamp b else ss_tip_time s)\<rparr>;
          s2 = (if th \<in> set replay_heights
                then reconcile_replayed_height th (hs_of_list (sb_miner_hash b # sb_tx_hashes b))
                       (hs_of_list (concat (map tx_key_images (sb_txs b)))) s1
                else s1);
          s3 = detect_spends th b s2 in
      case scanner b of
        Inl e \<Rightarrow> Inl (''wallet_refresh: scanner failed at height '' @ show_nat th @ '': '' @ e)
      | Inr outs \<Rightarrow>
          (case apply_outputs ko master th b outs s3 of
             Inl e \<Rightarrow> Inl (''wallet_refresh: '' @ e @ '' at height '' @ show_nat th)
           | Inr s4 \<Rightarrow>
               let s5 = s4\<lparr>tracked_outputs := attach_change th (tracked_outputs s4)\<rparr>;
                   touched = list_ex (\<lambda>o1. block_height o1 = th \<or> spending_height o1 = Some th) (tracked_outputs s5);
                   s6 = (if 0 < sb_timestamp b \<and> touched
                         then s5\<lparr>block_timestamps := hm_insert th (sb_timestamp b) (block_timestamps s5)\<rparr> else s5) in
               Inr (s6\<lparr>ss_height := sat_add th 1\<rparr>)))"

end
