(* ===== verification/Send_Core.thy ===== *)
theory Send_Core
  imports Relay Daemon_Rpc Scan
begin

text \<open>
  What sends and fee previews share (\<open>ffi/send.rs\<close>, \<open>ffi/preview_fee.rs\<close>): opening the daemon, the
  order of the spendable outputs, the selection loop, the reconstruction of the selected outputs with
  their decoys, and the question whether key images are spent.

  A call is a computation on \<open>sender\<close>: the process, the number of requests asked so far, and the
  transactions given to the daemon. It ends with a value, with an error code and message, or in a panic.
  Address parsing, the scanner, decoy selection, transaction construction, signing and the daemon's
  answers are the parameters \<open>send_lib\<close>; its types \<open>'i\<close> and \<open>'n\<close> are the inputs with their decoys and
  the signable transaction, which the code only passes on. The answer to a request, and what the random
  generator feeds into a construction, may depend on the number of requests before it.
\<close>

section \<open>Computations that can fail\<close>

record sender =
  sn_world :: world
  sn_calls :: nat
  sn_sent :: "(string \<times> bytes) list"

datatype 'a flow = Done 'a | Failed int string | Panicked

type_synonym 'a sending = "sender \<Rightarrow> 'a flow \<times> sender"

definition done1 :: "'a \<Rightarrow> 'a sending" where
  "done1 x s = (Done x, s)"

definition fail :: "int \<Rightarrow> string \<Rightarrow> 'a sending" where
  "fail code message s = (Failed code message, s)"

definition bnd :: "'a sending \<Rightarrow> ('a \<Rightarrow> 'b sending) \<Rightarrow> 'b sending" where
  "bnd m f s =
     (case m s of (Done x, s') \<Rightarrow> f x s'
      | (Failed code message, s') \<Rightarrow> (Failed code message, s') | (Panicked, s') \<Rightarrow> (Panicked, s'))"

text \<open>\<open>?\<close> turned into a value: the error message of a computation that failed.\<close>

definition catching :: "'a sending \<Rightarrow> (string + 'a) sending" where
  "catching m s =
     (case m s of (Done x, s') \<Rightarrow> (Done (Inr x), s')
      | (Failed _ message, s') \<Rightarrow> (Done (Inl message), s') | (Panicked, s') \<Rightarrow> (Panicked, s'))"

definition ask :: "(nat \<Rightarrow> 'a) \<Rightarrow> 'a sending" where
  "ask f s = (Done (f (sn_calls s)), s\<lparr>sn_calls := Suc (sn_calls s)\<rparr>)"

fun each :: "('a \<Rightarrow> 'b sending) \<Rightarrow> 'a list \<Rightarrow> 'b list sending" where
  "each f [] = done1 []"
| "each f (x # xs) = bnd (f x) (\<lambda>y. bnd (each f xs) (\<lambda>ys. done1 (y # ys)))"

text \<open>\<open>WALLET_STORE.lock().expect(...)\<close> and a lookup, or the update of a wallet that is there.\<close>

definition read_wallet :: "string \<Rightarrow> stored_wallet option sending" where
  "read_wallet i s =
     (if wd_store_poisoned (sn_world s) then (Panicked, s) else (Done (map_of (wd_store (sn_world s)) i), s))"

definition change_wallet :: "string \<Rightarrow> (stored_wallet \<Rightarrow> stored_wallet) \<Rightarrow> unit sending" where
  "change_wallet i f s =
     (if wd_store_poisoned (sn_world s) then (Panicked, s)
      else (case map_of (wd_store (sn_world s)) i of None \<Rightarrow> (Done (), s)
            | Some st \<Rightarrow> (Done (), s\<lparr>sn_world := put_wallet i (f st) (sn_world s)\<rparr>)))"

text \<open>The whole call: an error is recorded and answered with a null pointer, a result clears the error.\<close>

definition run_sending :: "'a sending \<Rightarrow> world \<Rightarrow> ('a option outcome \<times> world) \<times> (string \<times> bytes) list" where
  "run_sending m w =
     (let (r, s) = m \<lparr>sn_world = clear_last_error w, sn_calls = 0, sn_sent = []\<rparr> in
      case r of Done x \<Rightarrow> ((Value (Some x), clear_last_error (sn_world s)), sn_sent s)
      | Failed code message \<Rightarrow> (null_ptr (code, message) (sn_world s), sn_sent s)
      | Panicked \<Rightarrow> ((Panic, sn_world s), sn_sent s))"

section \<open>The parameters\<close>

datatype fee_error = Fee_Interface interface_error | Fee_Other string

datatype transactions_error = Tx_Interface interface_error | Tx_Not_Found | Tx_Pruned

text \<open>A signing worker: not started, panicked, or the answer of the third-party signer.\<close>

datatype sign_worker = No_Worker string | Worker_Panicked | Worker_Done "string + signed_tx"

type_synonym fee_rate = "u64 \<times> u64"
type_synonym view_pair = "bytes \<times> bytes"
type_synonym recipient = string

record ('i, 'n) send_lib =
  sl_address :: "network \<Rightarrow> string \<Rightarrow> recipient option"
  sl_url :: url_lib
  sl_proxy_valid :: "string \<Rightarrow> bool"
  sl_routes :: route_state
  sl_status :: daemon_lib
  sl_daemon :: "rpc_transport \<Rightarrow> nat \<Rightarrow> string + unit"
  sl_latest_block :: "string \<Rightarrow> nat \<Rightarrow> string + usize"
  sl_fee_rate :: "string \<Rightarrow> fee_priority \<Rightarrow> u64 \<Rightarrow> nat \<Rightarrow> fee_error + fee_rate"
  sl_block :: "string \<Rightarrow> u64 \<Rightarrow> nat \<Rightarrow> interface_error + scannable_block"
  sl_scan :: "view_pair \<Rightarrow> (u32 \<times> u32) list \<Rightarrow> scannable_block \<Rightarrow> wallet_output list option"
  sl_decoys :: "string \<Rightarrow> nat \<Rightarrow> usize \<Rightarrow> wallet_output \<Rightarrow> nat \<Rightarrow> transactions_error + 'i"
  sl_bin_daemon :: "string \<Rightarrow> nat \<Rightarrow> interface_error + unit"
  sl_bin_decoys :: "string \<Rightarrow> nat \<Rightarrow> usize \<Rightarrow> wallet_output \<Rightarrow> nat \<Rightarrow> transactions_error + 'i"
  sl_construct :: "'i list \<Rightarrow> (recipient \<times> u64) list \<Rightarrow> view_pair \<Rightarrow> fee_rate \<Rightarrow> nat \<Rightarrow> string + 'n"
  sl_fee :: "'n \<Rightarrow> u64"
  sl_sign :: "'n \<Rightarrow> bytes \<Rightarrow> nat \<Rightarrow> sign_worker"
  sl_serialize :: "signed_tx \<Rightarrow> bytes"
  sl_raw_call :: "string \<Rightarrow> string \<Rightarrow> nat \<Rightarrow> interface_error + string"
  sl_raw_json :: "string \<Rightarrow> send_raw_tx_response option"
  sl_route :: "string \<Rightarrow> string \<Rightarrow> nat \<Rightarrow> string + string"
  sl_spent_json :: "string \<Rightarrow> string + nat list \<times> string option"
  sl_pays_json :: "string \<Rightarrow> string + (string \<times> u64) list"
  sl_filter_json :: "string \<Rightarrow> string + u32 option"
  sl_display :: "interface_error \<Rightarrow> string"
  sl_tx_debug :: "transactions_error \<Rightarrow> string"
  sl_in_budget :: "nat \<Rightarrow> bool"

section \<open>Spent key images\<close>

definition key_images_params :: "hash32 list \<Rightarrow> string" where
  "key_images_params kis =
     (let q = CHR 0x22; hex = (\<lambda>ki. q # filter (\<lambda>c. c \<noteq> CHR '' '') (hex_dump_prefix ki 32) @ [q]);
          commas = (case kis of [] \<Rightarrow> [] | ki # rest \<Rightarrow> hex ki @ concat (map (\<lambda>k. CHR '','' # hex k) rest)) in
      CHR 0x7B # q # ''key_images'' @ [q, CHR '':'', CHR 0x5B] @ commas @ [CHR 0x5D, CHR 0x7D])"

definition rpc_is_key_image_spent :: "('i, 'n) send_lib \<Rightarrow> nat \<Rightarrow> hash32 list \<Rightarrow> string + nat list" where
  "rpc_is_key_image_spent sl k key_images =
     (if key_images = [] then Inr []
      else (case sl_route sl ''is_key_image_spent'' (key_images_params key_images) k of
        Inl e \<Rightarrow> Inl (''is_key_image_spent rpc failed: '' @ e)
      | Inr raw \<Rightarrow>
          (case sl_spent_json sl raw of
             Inl e \<Rightarrow> Inl (''is_key_image_spent parse failed: '' @ e)
           | Inr (spent_status, status) \<Rightarrow>
               if length spent_status \<noteq> length key_images
               then Inl (''is_key_image_spent returned '' @ show_nat (length spent_status) @ '' entries, expected ''
                      @ show_nat (length key_images))
               else (case status of
                       Some t \<Rightarrow> if t \<noteq> ''OK'' then Inl (''is_key_image_spent returned status='' @ t)
                         else Inr spent_status
                     | None \<Rightarrow> Inr spent_status))))"

section \<open>Opening a call\<close>

definition tick :: "string \<Rightarrow> string" where
  "tick s = CHR 39 # s @ [CHR 39]"

definition wallet_snapshot :: "string \<Rightarrow> string \<Rightarrow> stored_wallet sending" where
  "wallet_snapshot nm i =
     bnd (read_wallet i) (\<lambda>st. case st of
       None \<Rightarrow> fail (-13) (nm @ '': wallet '' @ tick i @ '' not registered'') | Some state \<Rightarrow> done1 state)"

text \<open>\<open>RpcTransport::new\<close>: the routed transport, then the third-party client over it.\<close>

definition connect_daemon :: "('i, 'n) send_lib \<Rightarrow> string \<Rightarrow> string \<Rightarrow> unit sending" where
  "connect_daemon sl nm base_url =
     bnd (ask (\<lambda>k. case for_url (sl_url sl) (sl_proxy_valid sl) (sl_routes sl) base_url of
            Inl e \<Rightarrow> Inl (sl_display sl (InterfaceError e)) | Inr t \<Rightarrow> sl_daemon sl t k))
       (\<lambda>r. case r of
          Inl e \<Rightarrow> fail (-16) (nm @ '': failed to connect daemon '' @ tick base_url @ '': '' @ e)
        | Inr _ \<Rightarrow> done1 ())"

definition daemon_tip :: "('i, 'n) send_lib \<Rightarrow> string \<Rightarrow> string \<Rightarrow> daemon_status sending" where
  "daemon_tip sl nm base_url =
     bnd (ask (sl_latest_block sl base_url)) (\<lambda>r. case r of
       Inl e \<Rightarrow> fail (-16) (nm @ '': failed to query daemon height '' @ tick base_url @ '': '' @ e)
     | Inr n \<Rightarrow> (\<lambda>s.
         let (time, _, w') = resolve_daemon_tip_timestamp (sl_url sl) (sl_proxy_valid sl) (sl_routes sl)
               (sl_status sl) base_url (sn_world s) in
         (Done \<lparr>ds_height = sat_add n 1, ds_top_block_timestamp = time\<rparr>, s\<lparr>sn_world := w'\<rparr>)))"

definition spend_keys :: "crypto \<Rightarrow> string \<Rightarrow> string \<Rightarrow> wallet_keys \<Rightarrow> (master_keys \<times> view_pair) sending" where
  "spend_keys cr nm what keys =
     (case keys of
        Sealed _ \<Rightarrow> fail (-40) (nm @ '': wallet is sealed; authenticate before '' @ what)
      | Unsealed master \<Rightarrow>
          (case to_view_pair cr keys of
             Inl code \<Rightarrow> fail code (nm @ '': failed to construct view pair'')
           | Inr pair \<Rightarrow> done1 (master, pair)))"

definition query_fee_rate :: "environment \<Rightarrow> ('i, 'n) send_lib \<Rightarrow> string \<Rightarrow> string \<Rightarrow> fee_rate sending" where
  "query_fee_rate env sl nm base_url =
     bnd (ask (sl_fee_rate sl base_url (walletcore_fee_priority env) (fee_rate_max_per_weight_cap env)))
       (\<lambda>r. case r of
          Inl (Fee_Interface e) \<Rightarrow> fail (map_rpc_error e) (nm @ '': fee_rate failed'')
        | Inl (Fee_Other _) \<Rightarrow> fail (-16) (nm @ '': fee_rate failed'')
        | Inr rate \<Rightarrow> done1 rate)"

definition ring_len_eff :: "nat \<Rightarrow> nat" where
  "ring_len_eff ring_len = (if ring_len < 2 then 16 else ring_len)"

text \<open>The subaddresses the scanner of a send registers: account 0 up to the gap limit, or five beyond the
  highest minor index of a tracked output. \<open>SubaddressIndex::new(0, 0)\<close> is \<open>None\<close>.\<close>

definition send_subaddresses :: "stored_wallet \<Rightarrow> (u32 \<times> u32) list" where
  "send_subaddresses snapshot =
     (let gap_limit = max (w_gap_limit snapshot) 1;
          max_minor = Max (insert 0 (set (map subaddress_minor (tracked_outputs snapshot))));
          register_up_to = max gap_limit (min u32_max (max_minor + 5)) in
      map (\<lambda>minor. (0, minor)) [1..<Suc register_up_to])"

definition preview_subaddresses :: "stored_wallet \<Rightarrow> (u32 \<times> u32) list" where
  "preview_subaddresses snapshot = map (\<lambda>minor. (0, minor)) [1..<Suc (max (w_gap_limit snapshot) 1)]"

section \<open>The inputs to choose from\<close>

text \<open>The shared policy of \<open>Input_Policy\<close>; its query is one request.\<close>

definition spendable_inputs ::
  "crypto \<Rightarrow> ('i, 'n) send_lib \<Rightarrow> string \<Rightarrow> stored_wallet \<Rightarrow> daemon_status \<Rightarrow> bool
   \<Rightarrow> (tracked_output list \<times> stored_wallet) sending" where
  "spendable_inputs cr sl i snapshot daemon allow_release s =
     (case spendable cr i snapshot (\<lambda>kis w. (rpc_is_key_image_spent sl (sn_calls s) kis, w))
             (ds_height daemon) (ds_top_block_timestamp daemon) allow_release (sn_world s) of
        (Inl e, w') \<Rightarrow> (Failed (-16) e, s\<lparr>sn_world := w', sn_calls := Suc (sn_calls s)\<rparr>)
      | (Inr r, w') \<Rightarrow> (Done r, s\<lparr>sn_world := w', sn_calls := Suc (sn_calls s)\<rparr>))"

text \<open>Both sorts are stable.\<close>

definition selection_order :: "input_select_mode \<Rightarrow> tracked_output list \<Rightarrow> tracked_output list" where
  "selection_order mode outs =
     (case mode of SmallestFirst \<Rightarrow> sort_key amount outs
      | LargestFirst \<Rightarrow> sort_key (\<lambda>o1. - int (amount o1)) outs)"

type_synonym selection = "tracked_output list \<times> u64"

definition pick :: "tracked_output \<Rightarrow> selection \<Rightarrow> selection" where
  "pick o1 sel = (fst sel @ [o1], sat_add (snd sel) (amount o1))"

fun pick_until :: "u64 \<Rightarrow> tracked_output list \<Rightarrow> selection \<Rightarrow> selection" where
  "pick_until needed [] sel = sel"
| "pick_until needed (o1 # outs) sel =
     (let sel' = pick o1 sel in if needed \<le> snd sel' then sel' else pick_until needed outs sel')"

definition is_selected :: "selection \<Rightarrow> tracked_output \<Rightarrow> bool" where
  "is_selected sel o1 = list_ex (\<lambda>s. outpoint_of s = outpoint_of o1) (fst sel)"

text \<open>One more input, and more inputs until the needed sum is reached; \<open>None\<close> when none was added.\<close>

fun pick_one :: "tracked_output list \<Rightarrow> selection \<Rightarrow> selection option" where
  "pick_one [] sel = None"
| "pick_one (o1 # outs) sel = (if is_selected sel o1 then pick_one outs sel else Some (pick o1 sel))"

fun pick_more :: "u64 \<Rightarrow> tracked_output list \<Rightarrow> selection \<Rightarrow> bool \<Rightarrow> selection option" where
  "pick_more needed [] sel added = (if added then Some sel else None)"
| "pick_more needed (o1 # outs) sel added =
     (if is_selected sel o1 then pick_more needed outs sel added
      else (let sel' = pick o1 sel in if needed \<le> snd sel' then Some sel' else pick_more needed outs sel' True))"


section \<open>Reconstructing the selected outputs\<close>

text \<open>The messages of one place that builds inputs. \<open>usize::try_from\<close> of a block height does not fail on
  the 64-bit targets.\<close>

record build_texts =
  tt_fetch :: "interface_error \<Rightarrow> u64 \<Rightarrow> string"
  tt_scan :: "u64 \<Rightarrow> string"
  tt_missing :: string
  tt_bin :: "interface_error \<Rightarrow> string"
  tt_decoys :: "transactions_error \<Rightarrow> string"

definition call_texts :: "('i, 'n) send_lib \<Rightarrow> string \<Rightarrow> string \<Rightarrow> string \<Rightarrow> build_texts" where
  "call_texts sl nm missing base_url =
     \<lparr>tt_fetch = (\<lambda>_ h. nm @ '': RPC block fetch failed at height '' @ show_nat h),
      tt_scan = (\<lambda>h. nm @ '': scanner failed at height '' @ show_nat h),
      tt_missing = missing,
      tt_bin = (\<lambda>e. nm @ '': failed to construct bin16 decoy daemon for '' @ tick base_url @ '': '' @ sl_display sl e),
      tt_decoys = (\<lambda>e. nm @ '': decoy selection failed ('' @ sl_tx_debug sl e @ '')'')\<rparr>"

definition subset_texts :: "('i, 'n) send_lib \<Rightarrow> build_texts" where
  "subset_texts sl =
     \<lparr>tt_fetch = (\<lambda>e h. ''RPC block fetch failed at height '' @ show_nat h @ '' ('' @ sl_display sl e @ '')''),
      tt_scan = (\<lambda>h. ''scanner failed at height '' @ show_nat h),
      tt_missing = ''failed to reconstruct selected output'',
      tt_bin = (\<lambda>e. ''failed to construct bin16 decoy daemon ('' @ sl_display sl e @ '')''),
      tt_decoys = (\<lambda>e. ''decoy selection failed ('' @ sl_tx_debug sl e @ '')'')\<rparr>"

text \<open>What every input of a call is built with.\<close>

record spend_ctx =
  cx_url :: string
  cx_pair :: view_pair
  cx_subs :: "(u32 \<times> u32) list"
  cx_ring :: nat
  cx_latest :: usize

definition is_output_of :: "tracked_output \<Rightarrow> wallet_output \<Rightarrow> bool" where
  "is_output_of t wo \<longleftrightarrow> wo_transaction wo = tx_hash t \<and> wo_index wo = index_in_tx t"

definition reconstruct ::
  "('i, 'n) send_lib \<Rightarrow> spend_ctx \<Rightarrow> build_texts \<Rightarrow> tracked_output \<Rightarrow> wallet_output sending" where
  "reconstruct sl cx tx t =
     bnd (ask (sl_block sl (cx_url cx) (block_height t))) (\<lambda>r. case r of
       Inl e \<Rightarrow> fail (map_rpc_error e) (tt_fetch tx e (block_height t))
     | Inr block \<Rightarrow>
         (case sl_scan sl (cx_pair cx) (cx_subs cx) block of
            None \<Rightarrow> fail (-16) (tt_scan tx (block_height t))
          | Some outputs \<Rightarrow>
              (case find (is_output_of t) outputs of
                 None \<Rightarrow> fail (-16) (tt_missing tx) | Some wallet_out \<Rightarrow> done1 wallet_out)))"

definition transactions_code :: "transactions_error \<Rightarrow> int" where
  "transactions_code e = (case e of Tx_Interface inner \<Rightarrow> map_rpc_error inner | Tx_Not_Found \<Rightarrow> -16 | Tx_Pruned \<Rightarrow> -16)"

definition choose_decoys :: "build_texts \<Rightarrow> (nat \<Rightarrow> transactions_error + 'i) \<Rightarrow> 'i sending" where
  "choose_decoys tx decoys =
     bnd (ask decoys) (\<lambda>r. case r of
       Inl e \<Rightarrow> fail (transactions_code e) (tt_decoys tx e) | Inr input \<Rightarrow> done1 input)"

definition with_decoys ::
  "environment \<Rightarrow> ('i, 'n) send_lib \<Rightarrow> spend_ctx \<Rightarrow> build_texts \<Rightarrow> wallet_output \<Rightarrow> 'i sending" where
  "with_decoys env sl cx tx wallet_out =
     (if walletcore_decoy_mode_bin16 env
      then bnd (ask (sl_bin_daemon sl (cx_url cx))) (\<lambda>r. case r of
             Inl e \<Rightarrow> fail (map_rpc_error e) (tt_bin tx e)
           | Inr _ \<Rightarrow> choose_decoys tx (sl_bin_decoys sl (cx_url cx) 16 (cx_latest cx) wallet_out))
      else choose_decoys tx (sl_decoys sl (cx_url cx) (cx_ring cx) (cx_latest cx) wallet_out))"

definition build_input ::
  "environment \<Rightarrow> ('i, 'n) send_lib \<Rightarrow> spend_ctx \<Rightarrow> build_texts \<Rightarrow> tracked_output \<Rightarrow> 'i sending" where
  "build_input env sl cx tx t = bnd (reconstruct sl cx tx t) (with_decoys env sl cx tx)"

text \<open>Inputs checked against the tracked key image: the first mismatch quarantines its output, and the
  others are not built.\<close>

definition signer_image :: "ki_ops \<Rightarrow> master_keys \<Rightarrow> wallet_output \<Rightarrow> bytes" where
  "signer_image ko master wallet_out = derive_key_image_bytes ko wallet_out (mk_spend_scalar master)"

definition quarantine_output :: "string \<Rightarrow> tracked_output \<Rightarrow> unit sending" where
  "quarantine_output i t = change_wallet i (\<lambda>state. state\<lparr>w_quarantine := hs_insert (outpoint_of t) (w_quarantine state)\<rparr>)"

fun checked_inputs ::
  "environment \<Rightarrow> ki_ops \<Rightarrow> ('i, 'n) send_lib \<Rightarrow> spend_ctx \<Rightarrow> build_texts \<Rightarrow> master_keys \<Rightarrow> string \<Rightarrow> tracked_output list
   \<Rightarrow> 'i list option sending" where
  "checked_inputs env ko sl cx tx master i [] = done1 (Some [])"
| "checked_inputs env ko sl cx tx master i (t # ts) =
     bnd (reconstruct sl cx tx t) (\<lambda>wallet_out.
       if signer_image ko master wallet_out \<noteq> key_image t
       then bnd (quarantine_output i t) (\<lambda>_. done1 None)
       else bnd (with_decoys env sl cx tx wallet_out) (\<lambda>input.
              bnd (checked_inputs env ko sl cx tx master i ts) (\<lambda>r.
                done1 (map_option (\<lambda>inputs. input # inputs) r))))"

section \<open>The selection loop\<close>

datatype round_out = Mismatch | Retry_With selection | Enough selection u64

text \<open>What a loop does about a mismatch: leave it for another attempt, select again, or not check.\<close>

datatype mismatch_policy = Restart_Attempt | Restart_Round | Unchecked

record spend_plan =
  sp_name :: string
  sp_id :: string
  sp_master :: master_keys
  sp_pays :: "(recipient \<times> u64) list"
  sp_needed :: u64
  sp_rate :: fee_rate
  sp_policy :: mismatch_policy

definition insufficient :: "string \<Rightarrow> string \<Rightarrow> u64 \<Rightarrow> string \<Rightarrow> u64 \<Rightarrow> 'a sending" where
  "insufficient nm what have need needed =
     fail (-18) (nm @ '': insufficient unlocked funds'' @ what @ '' (have '' @ show_nat have @ '', '' @ need @ '' ''
       @ show_nat needed @ '')'')"

definition first_selection :: "spend_plan \<Rightarrow> tracked_output list \<Rightarrow> selection \<Rightarrow> selection sending" where
  "first_selection sp outs sel =
     (if fst sel \<noteq> [] then done1 sel
      else (let sel' = pick_until (sp_needed sp) outs sel in
        if snd sel' < sp_needed sp
        then insufficient (sp_name sp) '''' (snd sel') ''need'' (sp_needed sp) else done1 sel'))"

definition round_inputs ::
  "environment \<Rightarrow> ki_ops \<Rightarrow> ('i, 'n) send_lib \<Rightarrow> spend_ctx \<Rightarrow> build_texts \<Rightarrow> spend_plan \<Rightarrow> selection
   \<Rightarrow> 'i list option sending" where
  "round_inputs env ko sl cx tx sp sel =
     (if sp_policy sp = Unchecked
      then bnd (each (build_input env sl cx tx) (fst sel)) (\<lambda>inputs. done1 (Some inputs))
      else checked_inputs env ko sl cx tx (sp_master sp) (sp_id sp) (fst sel))"

definition construct ::
  "('i, 'n) send_lib \<Rightarrow> spend_ctx \<Rightarrow> spend_plan \<Rightarrow> 'i list \<Rightarrow> (string + 'n) sending" where
  "construct sl cx sp inputs = ask (sl_construct sl inputs (sp_pays sp) (cx_pair cx) (sp_rate sp))"

definition select_round ::
  "environment \<Rightarrow> ki_ops \<Rightarrow> ('i, 'n) send_lib \<Rightarrow> spend_ctx \<Rightarrow> build_texts \<Rightarrow> spend_plan
   \<Rightarrow> tracked_output list \<Rightarrow> selection \<Rightarrow> round_out sending" where
  "select_round env ko sl cx tx sp outs sel0 =
     bnd (first_selection sp outs sel0) (\<lambda>sel.
     bnd (round_inputs env ko sl cx tx sp sel) (\<lambda>r. case r of None \<Rightarrow> done1 Mismatch
     | Some inputs \<Rightarrow>
     bnd (construct sl cx sp inputs) (\<lambda>c. case c of
       Inl message \<Rightarrow>
         if str_contains message ''not enough funds''
         then (case pick_one outs sel of
                 None \<Rightarrow> insufficient (sp_name sp) '' for amount+fee'' (snd sel) ''need at least'' (sp_needed sp)
               | Some sel' \<Rightarrow> done1 (Retry_With sel'))
         else fail (-16) (sp_name sp @ '': transaction construction failed ('' @ message @ '')'')
     | Inr intent \<Rightarrow>
         let fee = sl_fee sl intent; needed_total = sat_add (sp_needed sp) fee in
         if needed_total \<le> snd sel then done1 (Enough sel fee)
         else (case pick_more needed_total outs sel False of
                 None \<Rightarrow> insufficient (sp_name sp) '' for amount+fee'' (snd sel) ''need'' needed_total
               | Some sel' \<Rightarrow> done1 (Retry_With sel')))))"

datatype rounds_end = Restarted | Found selection u64 | Exhausted selection

definition max_selection_rounds :: nat where
  "max_selection_rounds = 24"

primrec select_rounds ::
  "(selection \<Rightarrow> round_out sending) \<Rightarrow> mismatch_policy \<Rightarrow> nat \<Rightarrow> selection \<Rightarrow> rounds_end sending" where
  "select_rounds step policy 0 sel = done1 (Exhausted sel)"
| "select_rounds step policy (Suc n) sel =
     bnd (step sel) (\<lambda>r. case r of
       Enough sel' fee \<Rightarrow> done1 (Found sel' fee)
     | Retry_With sel' \<Rightarrow> select_rounds step policy n sel'
     | Mismatch \<Rightarrow> if policy = Restart_Attempt then done1 Restarted else select_rounds step policy n ([], 0))"


section \<open>The final transaction\<close>

text \<open>The selected outputs are built again, without the key-image check, and signed on a worker thread.\<close>

definition sign_transaction_on_large_stack :: "('i, 'n) send_lib \<Rightarrow> 'n \<Rightarrow> bytes \<Rightarrow> (string + signed_tx) sending" where
  "sign_transaction_on_large_stack sl intent spend_key =
     ask (\<lambda>k. case sl_sign sl intent spend_key k of
       No_Worker e \<Rightarrow> Inl (''failed to start transaction signing worker: '' @ e)
     | Worker_Panicked \<Rightarrow> Inl ''transaction signing worker panicked''
     | Worker_Done r \<Rightarrow> r)"

definition final_transaction ::
  "environment \<Rightarrow> ('i, 'n) send_lib \<Rightarrow> spend_ctx \<Rightarrow> build_texts \<Rightarrow> spend_plan \<Rightarrow> tracked_output list
   \<Rightarrow> (signed_tx \<times> u64) sending" where
  "final_transaction env sl cx tx sp selected =
     bnd (each (build_input env sl cx tx) selected) (\<lambda>inputs.
     bnd (construct sl cx sp inputs) (\<lambda>c. case c of
       Inl message \<Rightarrow> fail (-16) (sp_name sp @ '': transaction construction failed ('' @ message @ '')'')
     | Inr intent \<Rightarrow>
     bnd (sign_transaction_on_large_stack sl intent (mk_spend_scalar (sp_master sp))) (\<lambda>r. case r of
       Inl message \<Rightarrow> fail (-16) (sp_name sp @ '': signing failed ('' @ message @ '')'')
     | Inr tx \<Rightarrow> done1 (tx, sl_fee sl intent))))"

text \<open>The payload of a prepared send.\<close>

definition prepared_payload ::
  "crypto \<Rightarrow> ('i, 'n) send_lib \<Rightarrow> stored_wallet \<Rightarrow> signed_tx \<Rightarrow> u64 \<Rightarrow> u64 \<Rightarrow> prepared_send_payload" where
  "prepared_payload cr sl snapshot tx amt fee =
     \<lparr>pp_txid = hex_lowercase (sx_hash tx), pp_amount = amt, pp_fee = fee,
      pp_signed_tx_hex = hex_lowercase (sl_serialize sl tx),
      pp_wallet_binding = Some (wallet_cache_binding cr snapshot)\<rparr>"

text \<open>Handing a transaction to the daemon.\<close>

definition broadcast ::
  "environment \<Rightarrow> ('i, 'n) send_lib \<Rightarrow> string \<Rightarrow> bytes \<Rightarrow> (interface_error + unit) sending" where
  "broadcast env sl base_url tx_blob s =
     (let k = sn_calls s in
      (Done (broadcast_send_raw_transaction env (sl_display sl) (sl_raw_json sl) (sl_bin_daemon sl base_url k)
         (\<lambda>_ hex. sl_raw_call sl base_url hex k) tx_blob),
       s\<lparr>sn_calls := Suc k, sn_sent := sn_sent s @ [(base_url, tx_blob)]\<rparr>))"

section \<open>Bookkeeping\<close>

text \<open>After a broadcast: the first tracked output with the outpoint of each selected one is marked. The sum
  of the amounts is taken in 64 bits.\<close>

definition mark_selected :: "hash32 \<Rightarrow> tracked_output list \<Rightarrow> tracked_output list \<Rightarrow> tracked_output list" where
  "mark_selected txid selected outs =
     foldl (\<lambda>outs t. update_first (\<lambda>o1. outpoint_of o1 = outpoint_of t) (mark_tracked_output_spent (Some txid)) outs)
       outs selected"

definition record_sent :: "hash32 \<Rightarrow> tracked_output list \<Rightarrow> stored_wallet \<Rightarrow> stored_wallet" where
  "record_sent txid selected state =
     (let spent_sum = sum_list (map amount selected) mod 2 ^ 64 in
      state\<lparr>tracked_outputs := mark_selected txid selected (tracked_outputs state),
        w_total := sat_sub (w_total state) spent_sum, w_unlocked := sat_sub (w_unlocked state) spent_sum\<rparr>)"

definition record_pending :: "string \<Rightarrow> u64 \<Rightarrow> u64 \<Rightarrow> stored_wallet \<Rightarrow> stored_wallet" where
  "record_pending hex amt fee state =
     state\<lparr>w_pending_outgoing := w_pending_outgoing state @
         [\<lparr>pt_txid = hex, pt_amount = amt, pt_fee = fee, pt_created_at = w_chain_time state\<rparr>],
       w_tx_ledger := hm_insert hex (pending_send_row hex amt fee (w_chain_time state)) (w_tx_ledger state)\<rparr>"

text \<open>After a double-spend reply: the selected outputs whose images the daemon calls spent are
  quarantined, and marked as spent when it says so of the chain.\<close>

definition input_images :: "signed_tx \<Rightarrow> hash32 list" where
  "input_images tx = concat (map (\<lambda>input. case input of None \<Rightarrow> [] | Some ki \<Rightarrow> [ki]) (sx_inputs tx))"

definition reported_outputs :: "hash32 list \<Rightarrow> nat list \<Rightarrow> tracked_output list \<Rightarrow> (tracked_output \<times> nat) list" where
  "reported_outputs kis statuses selected =
     concat (map (\<lambda>(ki, st). if st = 0 then [] else map (\<lambda>o1. (o1, st)) (filter (\<lambda>o1. key_image o1 = ki) selected))
       (zip kis statuses))"

definition record_report :: "tracked_output \<times> nat \<Rightarrow> stored_wallet \<Rightarrow> stored_wallet" where
  "record_report = (\<lambda>(o1, st) state.
     (let state1 = state\<lparr>w_quarantine := hs_insert (outpoint_of o1) (w_quarantine state)\<rparr> in
      if st = 1
      then state1\<lparr>tracked_outputs := update_first (\<lambda>x. outpoint_of x = outpoint_of o1) (\<lambda>x. x\<lparr>spent := True\<rparr>)
        (tracked_outputs state1)\<rparr>
      else state1))"

definition double_spend_sweep ::
  "('i, 'n) send_lib \<Rightarrow> string \<Rightarrow> signed_tx \<Rightarrow> tracked_output list \<Rightarrow> nat sending" where
  "double_spend_sweep sl i tx selected =
     bnd (ask (\<lambda>k. rpc_is_key_image_spent sl k (input_images tx))) (\<lambda>r. case r of
       Inl _ \<Rightarrow> done1 0
     | Inr statuses \<Rightarrow>
         let reported = reported_outputs (input_images tx) statuses selected in
         bnd (each (\<lambda>x. change_wallet i (record_report x)) reported) (\<lambda>_. done1 (length reported)))"

end
