(* ===== verification/Send.thy ===== *)
theory Send
  imports Send_Core
begin

text \<open>
  Sending to one destination (\<open>wallet_send\<close> and \<open>wallet_prepare_send\<close> of \<open>ffi/send.rs\<close>): attempts that
  choose inputs, sign and either return the signed transaction or broadcast it, the treatment of a
  refused broadcast, and the bookkeeping after an accepted one.
\<close>

section \<open>Configuration\<close>

definition walletcore_send_retry_max :: "environment \<Rightarrow> usize" where
  "walletcore_send_retry_max env =
     (if env ''WALLETCORE_SEND_AUTORETRY'' = Some ''0'' then 0
      else opt_get_or 2 (Option.bind (env ''WALLETCORE_SEND_RETRY_MAX'') (\<lambda>v. parse_unsigned usize_max (trim v))))"

definition is_double_spend_tagged_broadcast_error :: "string \<Rightarrow> bool" where
  "is_double_spend_tagged_broadcast_error s = str_contains s ''broadcast failed (double_spend):''"

definition is_invalid_input_tagged :: "string \<Rightarrow> bool" where
  "is_invalid_input_tagged s = str_contains s ''broadcast failed (invalid_input):''"

definition should_bisect :: "environment \<Rightarrow> nat \<Rightarrow> string \<Rightarrow> bool" where
  "should_bisect env quarantined_this_call err_text \<longleftrightarrow>
     walletcore_send_bisect_enabled env \<and>
     (case env ''WALLETCORE_SEND_BISECT'' of None \<Rightarrow> False
      | Some s \<Rightarrow> s = ''1'' \<or> eq_ignore_ascii_case s ''true'') \<and>
     quarantined_this_call = 0 \<and> \<not> is_http_client_failed_error err_text \<and>
     (is_invalid_input_send_raw_tx_error err_text \<or> is_double_spend_send_raw_tx_error err_text)"

section \<open>Bisecting a refused selection\<close>

text \<open>A subset of the inputs is built, signed and broadcast as a payment of its own.\<close>

definition subset_transaction ::
  "environment \<Rightarrow> ('i, 'n) send_lib \<Rightarrow> spend_ctx \<Rightarrow> spend_plan \<Rightarrow> tracked_output list \<Rightarrow> signed_tx sending" where
  "subset_transaction env sl cx sp part1 =
     bnd (each (build_input env sl cx (subset_texts sl)) part1) (\<lambda>inputs.
     bnd (construct sl cx sp inputs) (\<lambda>c. case c of
       Inl message \<Rightarrow> fail (-16) (''construct failed ('' @ message @ '')'')
     | Inr intent \<Rightarrow>
     bnd (sign_transaction_on_large_stack sl intent (mk_spend_scalar (sp_master sp))) (\<lambda>r. case r of
       Inl message \<Rightarrow> fail (-16) (''sign failed ('' @ message @ '')'') | Inr tx \<Rightarrow> done1 tx)))"

definition subset_tag :: "string \<Rightarrow> string" where
  "subset_tag e_text =
     (if is_invalid_input_send_raw_tx_error e_text then ''invalid_input''
      else if is_double_spend_send_raw_tx_error e_text then ''double_spend'' else ''other'')"

definition try_subset ::
  "environment \<Rightarrow> ('i, 'n) send_lib \<Rightarrow> spend_ctx \<Rightarrow> spend_plan \<Rightarrow> tracked_output list \<Rightarrow> tracked_output list
   \<Rightarrow> (string + unit) sending" where
  "try_subset env sl cx sp selected part1 =
     bnd (catching (subset_transaction env sl cx sp part1)) (\<lambda>r. case r of Inl message \<Rightarrow> done1 (Inl message)
     | Inr tx \<Rightarrow>
     bnd (broadcast env sl (cx_url cx) (sl_serialize sl tx)) (\<lambda>b. case b of Inr _ \<Rightarrow> done1 (Inr ())
     | Inl e \<Rightarrow>
         let e_text = sl_display sl e in
         bnd (if is_double_spend_send_raw_tx_error e_text
              then double_spend_sweep sl (sp_id sp) tx selected else done1 0) (\<lambda>_.
           done1 (Inl (''broadcast failed ('' @ subset_tag e_text @ ''): '' @ e_text)))))"

text \<open>The loop stops when the time budget is used up or one candidate is left. The fuel is one
  more than the number of inputs, which is enough: every round shortens the interval.\<close>

primrec send_bisect ::
  "(tracked_output list \<Rightarrow> (string + unit) sending) \<Rightarrow> (nat \<Rightarrow> bool) \<Rightarrow> tracked_output list
   \<Rightarrow> nat \<Rightarrow> nat \<Rightarrow> nat \<Rightarrow> string option \<Rightarrow> (nat \<times> string option) sending" where
  "send_bisect try1 in_budget all1 0 lo hi last_err = done1 (hi, last_err)"
| "send_bisect try1 in_budget all1 (Suc n) lo hi last_err =
     bnd (ask in_budget) (\<lambda>ok.
       if ok \<and> lo + 1 < hi then
         (let mid = (lo + hi) div 2 in
          bnd (try1 (take mid all1)) (\<lambda>r. case r of
            Inr _ \<Rightarrow> send_bisect try1 in_budget all1 n (max mid (lo + 1)) hi last_err
          | Inl e \<Rightarrow>
              if is_invalid_input_tagged e \<or> is_double_spend_tagged_broadcast_error e
              then send_bisect try1 in_budget all1 n lo (max mid (lo + 1)) (Some e)
              else send_bisect try1 in_budget all1 n (max mid (lo + 1)) hi last_err))
       else done1 (hi, last_err))"

definition insert_quarantine :: "string \<Rightarrow> tracked_output \<Rightarrow> bool sending" where
  "insert_quarantine i bad s =
     (if wd_store_poisoned (sn_world s) then (Done False, s)
      else (case map_of (wd_store (sn_world s)) i of None \<Rightarrow> (Done False, s)
            | Some state \<Rightarrow>
                (Done (outpoint_of bad \<notin> set (w_quarantine state)),
                 s\<lparr>sn_world := put_wallet i (state\<lparr>w_quarantine := hs_insert (outpoint_of bad) (w_quarantine state)\<rparr>)
                   (sn_world s)\<rparr>)))"

definition probe_candidate :: "environment \<Rightarrow> ('i, 'n) send_lib \<Rightarrow> tracked_output \<Rightarrow> nat option sending" where
  "probe_candidate env sl bad =
     (if walletcore_decoy_probe_enabled env
      then bnd (ask (\<lambda>k. rpc_is_key_image_spent sl k [key_image bad])) (\<lambda>r. case r of
             Inl _ \<Rightarrow> done1 None
           | Inr statuses \<Rightarrow> done1 (Some (case statuses of [] \<Rightarrow> 255 | st # _ \<Rightarrow> st)))
      else done1 None)"

text \<open>Whether the last candidate was newly quarantined.\<close>

definition bisect_candidate ::
  "environment \<Rightarrow> ('i, 'n) send_lib \<Rightarrow> string \<Rightarrow> tracked_output list \<Rightarrow> nat \<Rightarrow> string option \<Rightarrow> bool sending" where
  "bisect_candidate env sl i all1 hi last_err =
     (if hi \<le> length all1 \<and> 0 < hi then
        (let bad = all1 ! (hi - 1) in
         bnd (probe_candidate env sl bad) (\<lambda>candidate_spent_status.
           let last_err_is_double_spend = (case last_err of None \<Rightarrow> False
                 | Some e \<Rightarrow> is_double_spend_tagged_broadcast_error e \<or> is_double_spend_send_raw_tx_error e);
               allow_quarantine = (\<not> last_err_is_double_spend
                 \<or> candidate_spent_status = Some 1 \<or> candidate_spent_status = Some 2) in
           if allow_quarantine then insert_quarantine i bad else done1 False))
      else done1 False)"

section \<open>One attempt\<close>

datatype send_answer = Prepared_Answer prepared_send_payload | Sent_Answer string u64 | Fee_Answer u64

datatype attempt_out = Answer send_answer | Next_Attempt nat

definition refused_broadcast ::
  "environment \<Rightarrow> ('i, 'n) send_lib \<Rightarrow> spend_ctx \<Rightarrow> spend_plan \<Rightarrow> usize \<Rightarrow> nat \<Rightarrow> nat
   \<Rightarrow> tracked_output list \<Rightarrow> signed_tx \<Rightarrow> interface_error \<Rightarrow> attempt_out sending" where
  "refused_broadcast env sl cx sp max_retries attempt quarantined0 selected tx e =
     (let code = map_rpc_error e; err_text = sl_display sl e;
          msg = sp_name sp @ '': send_raw_transaction failed ('' @ err_text @ '')'' in
      bnd (if is_double_spend_send_raw_tx_error err_text
           then bnd (double_spend_sweep sl (sp_id sp) tx selected) (\<lambda>n. done1 (sat_add quarantined0 n))
           else done1 quarantined0) (\<lambda>quarantined.
      if \<not> should_bisect env quarantined err_text then fail code msg
      else (let all1 = sort_key (\<lambda>o1. - int (amount o1)) selected in
        bnd (send_bisect (try_subset env sl cx sp selected) (sl_in_budget sl) all1 (Suc (length all1)) 0 (length all1) None)
          (\<lambda>(hi, last_err).
        bnd (bisect_candidate env sl (sp_id sp) all1 hi last_err) (\<lambda>newly_inserted.
          if newly_inserted \<and> attempt < max_retries then done1 (Next_Attempt (sat_add quarantined 1))
          else if newly_inserted
          then fail code (sp_name sp @ '': send_raw_transaction failed; quarantined '' @ show_nat quarantined
                 @ ''; retries exhausted ('' @ show_nat attempt @ ''/'' @ show_nat max_retries @ '') ('' @ err_text @ '')'')
          else fail code msg)))))"

definition accepted_broadcast ::
  "spend_plan \<Rightarrow> tracked_output list \<Rightarrow> signed_tx \<Rightarrow> u64 \<Rightarrow> attempt_out sending" where
  "accepted_broadcast sp selected tx fee =
     (let hex = hex_lowercase (sx_hash tx) in
      bnd (change_wallet (sp_id sp) (record_sent (sx_hash tx) selected)) (\<lambda>_.
      bnd (change_wallet (sp_id sp) (record_pending hex (sp_needed sp) fee)) (\<lambda>_.
        done1 (Answer (Sent_Answer hex fee)))))"

definition selected_of :: "rounds_end \<Rightarrow> tracked_output list option" where
  "selected_of r = (case r of Restarted \<Rightarrow> None | Found sel _ \<Rightarrow> Some (fst sel) | Exhausted sel \<Rightarrow> Some (fst sel))"

text \<open>From the chosen inputs to the answer.\<close>

definition settle_attempt ::
  "crypto \<Rightarrow> environment \<Rightarrow> ('i, 'n) send_lib \<Rightarrow> spend_ctx \<Rightarrow> build_texts \<Rightarrow> spend_plan \<Rightarrow> bool \<Rightarrow> usize \<Rightarrow> nat \<Rightarrow> nat
   \<Rightarrow> stored_wallet \<Rightarrow> tracked_output list \<Rightarrow> attempt_out sending" where
  "settle_attempt cr env sl cx tt sp prepare_only max_retries attempt quarantined snapshot selected =
     bnd (final_transaction env sl cx tt sp selected) (\<lambda>(tx, fee).
       if prepare_only
       then done1 (Answer (Prepared_Answer (prepared_payload cr sl snapshot tx (sp_needed sp) fee)))
       else bnd (broadcast env sl (cx_url cx) (sl_serialize sl tx)) (\<lambda>b. case b of
              Inl e \<Rightarrow> refused_broadcast env sl cx sp max_retries attempt quarantined selected tx e
            | Inr _ \<Rightarrow> accepted_broadcast sp selected tx fee))"

definition send_attempt ::
  "crypto \<Rightarrow> environment \<Rightarrow> ki_ops \<Rightarrow> ('i, 'n) send_lib \<Rightarrow> spend_ctx \<Rightarrow> build_texts \<Rightarrow> spend_plan \<Rightarrow> daemon_status
   \<Rightarrow> bool \<Rightarrow> usize \<Rightarrow> nat \<Rightarrow> nat \<Rightarrow> stored_wallet \<Rightarrow> attempt_out sending" where
  "send_attempt cr env ko sl cx tt sp daemon prepare_only max_retries attempt quarantined snapshot0 =
     bnd (spendable_inputs cr sl (sp_id sp) snapshot0 daemon (attempt = 0)) (\<lambda>(outs, snapshot).
     bnd (select_rounds (select_round env ko sl cx tt sp (selection_order (walletcore_input_select_mode env) outs))
            (sp_policy sp) max_selection_rounds ([], 0)) (\<lambda>r. case selected_of r of
       None \<Rightarrow> done1 (Next_Attempt (sat_add quarantined 1))
     | Some selected \<Rightarrow>
         settle_attempt cr env sl cx tt sp prepare_only max_retries attempt quarantined snapshot selected))"

section \<open>The attempts\<close>

text \<open>The \<open>n\<close> attempts that are left, from attempt number \<open>attempt\<close>. A later attempt reads the wallet again.\<close>

primrec send_attempts ::
  "(nat \<Rightarrow> nat \<Rightarrow> stored_wallet \<Rightarrow> attempt_out sending) \<Rightarrow> string \<Rightarrow> string \<Rightarrow> usize \<Rightarrow> nat \<Rightarrow> nat \<Rightarrow> nat \<Rightarrow> stored_wallet
   \<Rightarrow> send_answer sending" where
  "send_attempts run nm i max_retries 0 attempt quarantined snapshot =
     fail (-16) (nm @ '': failed after retries (max_retries='' @ show_nat max_retries @ '')'')"
| "send_attempts run nm i max_retries (Suc n) attempt quarantined snapshot0 =
     bnd (if attempt = 0 then done1 snapshot0 else wallet_snapshot nm i) (\<lambda>snapshot.
     bnd (run attempt quarantined snapshot) (\<lambda>r. case r of
       Answer answer \<Rightarrow> done1 answer
     | Next_Attempt quarantined' \<Rightarrow> send_attempts run nm i max_retries n (attempt + 1) quarantined' snapshot))"

definition utf8_arg :: "string \<Rightarrow> cptr \<Rightarrow> string sending" where
  "utf8_arg message p =
     (case p of CNull \<Rightarrow> fail (-11) message
      | CStr s \<Rightarrow> (case cstr_to_str s of None \<Rightarrow> fail (-10) message | Some t \<Rightarrow> done1 (trim t)))"

text \<open>Everything before the first attempt.\<close>

definition send_opening ::
  "crypto \<Rightarrow> environment \<Rightarrow> ('i, 'n) send_lib \<Rightarrow> cptr \<Rightarrow> cptr \<Rightarrow> cptr \<Rightarrow> u64 \<Rightarrow> nat
   \<Rightarrow> (spend_ctx \<times> spend_plan \<times> daemon_status \<times> stored_wallet) sending" where
  "send_opening cr env sl wallet_id node_url to_address amount_piconero ring_len =
     (let nm = ''wallet_send''; base_url = daemon_base_url env node_url in
      if wallet_id = CNull \<or> to_address = CNull then fail (-11) (nm @ '': null argument(s)'')
      else
      bnd (utf8_arg (nm @ '': wallet_id contained invalid UTF-8'') wallet_id) (\<lambda>i.
      bnd (utf8_arg (nm @ '': to_address contained invalid UTF-8'') to_address) (\<lambda>recipient_str.
      bnd (wallet_snapshot nm i) (\<lambda>snapshot.
      case sl_address sl (w_network snapshot) recipient_str of
        None \<Rightarrow> fail (-10) (nm @ '': invalid recipient address for wallet network'')
      | Some recipient1 \<Rightarrow>
      bnd (connect_daemon sl nm base_url) (\<lambda>_.
      bnd (daemon_tip sl nm base_url) (\<lambda>daemon.
      bnd (spend_keys cr nm ''sending'' (w_keys snapshot)) (\<lambda>(master, pair).
      bnd (query_fee_rate env sl nm base_url) (\<lambda>rate.
        done1
         (\<lparr>cx_url = base_url, cx_pair = pair, cx_subs = send_subaddresses snapshot,
           cx_ring = ring_len_eff ring_len, cx_latest = latest_block_index daemon\<rparr>,
          \<lparr>sp_name = nm, sp_id = i, sp_master = master, sp_pays = [(recipient1, amount_piconero)],
           sp_needed = amount_piconero, sp_rate = rate, sp_policy = Restart_Attempt\<rparr>,
          daemon, snapshot)))))))))"

definition wallet_send_body ::
  "crypto \<Rightarrow> environment \<Rightarrow> ki_ops \<Rightarrow> ('i, 'n) send_lib \<Rightarrow> cptr \<Rightarrow> cptr \<Rightarrow> cptr \<Rightarrow> u64 \<Rightarrow> nat \<Rightarrow> bool
   \<Rightarrow> send_answer sending" where
  "wallet_send_body cr env ko sl wallet_id node_url to_address amount_piconero ring_len prepare_only =
     bnd (send_opening cr env sl wallet_id node_url to_address amount_piconero ring_len) (\<lambda>(cx, sp, daemon, snapshot).
       let max_retries = walletcore_send_retry_max env;
           tt = call_texts sl (sp_name sp) (sp_name sp @ '': failed to reconstruct selected output (not found after scan)'')
                  (cx_url cx) in
       send_attempts (send_attempt cr env ko sl cx tt sp daemon prepare_only max_retries) (sp_name sp) (sp_id sp)
         max_retries (Suc max_retries) 0 0 snapshot)"

definition wallet_send_impl ::
  "crypto \<Rightarrow> environment \<Rightarrow> ki_ops \<Rightarrow> ('i, 'n) send_lib \<Rightarrow> cptr \<Rightarrow> cptr \<Rightarrow> cptr \<Rightarrow> u64 \<Rightarrow> nat \<Rightarrow> bool \<Rightarrow> world
   \<Rightarrow> (send_answer option outcome \<times> world) \<times> (string \<times> bytes) list" where
  "wallet_send_impl cr env ko sl wallet_id node_url to_address amount_piconero ring_len prepare_only =
     run_sending (wallet_send_body cr env ko sl wallet_id node_url to_address amount_piconero ring_len prepare_only)"

definition wallet_send_ffi_impl ::
  "crypto \<Rightarrow> environment \<Rightarrow> ki_ops \<Rightarrow> ('i, 'n) send_lib \<Rightarrow> cptr \<Rightarrow> cptr \<Rightarrow> cptr \<Rightarrow> u64 \<Rightarrow> nat \<Rightarrow> send_answer option call" where
  "wallet_send_ffi_impl cr env ko sl wallet_id node_url to_address amt ring_len =
     run_while_refresh_stopped wallet_id ''wallet_send''
       (\<lambda>_ w. fst (wallet_send_impl cr env ko sl wallet_id node_url to_address amt ring_len False w))"

definition wallet_prepare_send_ffi_impl ::
  "crypto \<Rightarrow> environment \<Rightarrow> ki_ops \<Rightarrow> ('i, 'n) send_lib \<Rightarrow> cptr \<Rightarrow> cptr \<Rightarrow> cptr \<Rightarrow> u64 \<Rightarrow> nat \<Rightarrow> send_answer option call" where
  "wallet_prepare_send_ffi_impl cr env ko sl wallet_id node_url to_address amt ring_len =
     run_while_refresh_stopped wallet_id ''wallet_prepare_send''
       (\<lambda>_ w. fst (wallet_send_impl cr env ko sl wallet_id node_url to_address amt ring_len True w))"

end
