(* ===== verification/Send_Filter.thy ===== *)
theory Send_Filter
  imports Send
begin

text \<open>
  Calls that pay several destinations (\<open>ffi/send.rs\<close>, \<open>ffi/preview_fee.rs\<close>): \<open>wallet_send_with_filter\<close>,
  \<open>wallet_prepare_send_with_filter\<close>, \<open>wallet_preview_fee\<close> and \<open>wallet_preview_fee_with_filter\<close>. They open
  in the same way, \<open>open_payments\<close>, and use the selection loop of \<open>Send_Core\<close>.
\<close>

section \<open>Opening\<close>

text \<open>The filter argument: absent for \<open>wallet_preview_fee\<close>; null, empty or not UTF-8 means no filter.\<close>

definition parse_pays :: "('i, 'n) send_lib \<Rightarrow> string \<Rightarrow> string \<Rightarrow> (string \<times> u64) list sending" where
  "parse_pays sl nm text1 =
     (case sl_pays_json sl text1 of
        Inl e \<Rightarrow> fail (-11) (nm @ '': invalid destinations JSON ('' @ e @ '')'')
      | Inr pays \<Rightarrow> if pays = [] then fail (-11) (nm @ '': empty destinations'') else done1 pays)"

definition parse_filter :: "('i, 'n) send_lib \<Rightarrow> string \<Rightarrow> cptr \<Rightarrow> u32 option sending" where
  "parse_filter sl nm p =
     (case (case p of CNull \<Rightarrow> None | CStr s \<Rightarrow> cstr_to_str s) of
        None \<Rightarrow> done1 None
      | Some s \<Rightarrow>
          if s = [] then done1 None
          else (case sl_filter_json sl s of
                  Inl e \<Rightarrow> fail (-11) (nm @ '': invalid filter JSON ('' @ e @ '')'') | Inr f \<Rightarrow> done1 f))"

definition resolve_pays ::
  "('i, 'n) send_lib \<Rightarrow> string \<Rightarrow> network \<Rightarrow> (string \<times> u64) list \<Rightarrow> ((recipient \<times> u64) list \<times> u64) sending" where
  "resolve_pays sl nm net pays =
     bnd (each (\<lambda>(address, amt). case sl_address sl net address of
            None \<Rightarrow> fail (-10) (nm @ '': invalid destination address'') | Some r \<Rightarrow> done1 (r, amt)) pays)
       (\<lambda>destinations. done1 (destinations, foldl sat_add 0 (map snd destinations)))"

definition keep_minor :: "u32 option \<Rightarrow> tracked_output list \<Rightarrow> tracked_output list" where
  "keep_minor f outs =
     (case f of None \<Rightarrow> outs
      | Some minor \<Rightarrow> filter (\<lambda>o1. subaddress_major o1 = 0 \<and> subaddress_minor o1 = minor) outs)"

record opened =
  op_snapshot :: stored_wallet
  op_ctx :: spend_ctx
  op_plan :: spend_plan
  op_outputs :: "tracked_output list"

definition open_payments ::
  "crypto \<Rightarrow> environment \<Rightarrow> ('i, 'n) send_lib \<Rightarrow> string \<Rightarrow> string \<Rightarrow> (stored_wallet \<Rightarrow> (u32 \<times> u32) list) \<Rightarrow> mismatch_policy
   \<Rightarrow> cptr \<Rightarrow> cptr \<Rightarrow> cptr \<Rightarrow> cptr \<Rightarrow> nat \<Rightarrow> opened sending" where
  "open_payments cr env sl nm what subs policy wallet_id node_url destinations_json filter_json ring_len =
     (if wallet_id = CNull \<or> destinations_json = CNull then fail (-11) (nm @ '': null argument(s)'')
      else
      bnd (utf8_arg (nm @ '': wallet_id contained invalid UTF-8'') wallet_id) (\<lambda>i.
      bnd (utf8_arg (nm @ '': destinations_json invalid UTF-8'') destinations_json) (\<lambda>dests_str.
      bnd (parse_pays sl nm dests_str) (\<lambda>pays.
      bnd (parse_filter sl nm filter_json) (\<lambda>f.
      bnd (wallet_snapshot nm i) (\<lambda>snapshot0.
      let base_url = daemon_base_url env node_url in
      bnd (connect_daemon sl nm base_url) (\<lambda>_.
      bnd (daemon_tip sl nm base_url) (\<lambda>daemon.
      bnd (spend_keys cr nm what (w_keys snapshot0)) (\<lambda>(master, pair).
      bnd (resolve_pays sl nm (w_network snapshot0) pays) (\<lambda>(destinations, total_needed).
      bnd (spendable_inputs cr sl i snapshot0 daemon True) (\<lambda>(outs, snapshot).
      bnd (query_fee_rate env sl nm base_url) (\<lambda>rate.
        done1 \<lparr>op_snapshot = snapshot,
          op_ctx = \<lparr>cx_url = base_url, cx_pair = pair, cx_subs = subs snapshot0,
            cx_ring = ring_len_eff ring_len, cx_latest = latest_block_index daemon\<rparr>,
          op_plan = \<lparr>sp_name = nm, sp_id = i, sp_master = master, sp_pays = destinations, sp_needed = total_needed,
            sp_rate = rate, sp_policy = policy\<rparr>,
          op_outputs = selection_order (walletcore_input_select_mode env) (keep_minor f outs)\<rparr>))))))))))))"

section \<open>Sending with a filter\<close>

definition send_filter_opening ::
  "crypto \<Rightarrow> environment \<Rightarrow> ('i, 'n) send_lib \<Rightarrow> cptr \<Rightarrow> cptr \<Rightarrow> cptr \<Rightarrow> cptr \<Rightarrow> nat \<Rightarrow> opened sending" where
  "send_filter_opening cr env sl =
     open_payments cr env sl ''wallet_send_with_filter'' ''sending'' send_subaddresses Restart_Round"

text \<open>The search for one bad input after an \<open>invalid_input\<close> reply: subsets are broadcast, the result is only
  logged. The fuel is the number of inputs: every round shortens the interval.\<close>

definition filter_tag :: "string \<Rightarrow> string" where
  "filter_tag e_text = (if is_invalid_input_send_raw_tx_error e_text then ''invalid_input'' else ''other'')"

definition try_filter_subset ::
  "environment \<Rightarrow> ('i, 'n) send_lib \<Rightarrow> spend_ctx \<Rightarrow> spend_plan \<Rightarrow> tracked_output list \<Rightarrow> (string + unit) sending" where
  "try_filter_subset env sl cx sp part1 =
     bnd (catching (subset_transaction env sl cx sp part1)) (\<lambda>r. case r of Inl message \<Rightarrow> done1 (Inl message)
     | Inr tx \<Rightarrow>
     bnd (broadcast env sl (cx_url cx) (sl_serialize sl tx)) (\<lambda>b. case b of Inr _ \<Rightarrow> done1 (Inr ())
     | Inl e \<Rightarrow> done1 (Inl (''broadcast failed ('' @ filter_tag (sl_display sl e) @ ''): '' @ sl_display sl e))))"

primrec filter_bisect ::
  "(tracked_output list \<Rightarrow> (string + unit) sending) \<Rightarrow> (nat \<Rightarrow> bool) \<Rightarrow> tracked_output list
   \<Rightarrow> nat \<Rightarrow> nat \<Rightarrow> nat \<Rightarrow> unit sending" where
  "filter_bisect try1 in_budget all1 0 lo hi = done1 ()"
| "filter_bisect try1 in_budget all1 (Suc n) lo hi =
     (if hi \<le> lo then done1 ()
      else bnd (ask in_budget) (\<lambda>ok.
        if \<not> ok then done1 ()
        else (let mid = max ((lo + hi) div 2) (lo + 1) in
          bnd (try1 (drop lo (take mid all1))) (\<lambda>r.
            let (lo', hi') = (case r of Inr _ \<Rightarrow> (mid, hi)
                  | Inl e \<Rightarrow> if is_invalid_input_tagged e then (lo, mid) else (mid, hi)) in
            if hi' - lo' = 1 then done1 () else filter_bisect try1 in_budget all1 n lo' hi'))))"

definition filter_refused ::
  "environment \<Rightarrow> ('i, 'n) send_lib \<Rightarrow> spend_ctx \<Rightarrow> spend_plan \<Rightarrow> tracked_output list \<Rightarrow> interface_error
   \<Rightarrow> send_answer sending" where
  "filter_refused env sl cx sp selected e =
     (let code = map_rpc_error e;
          msg = sp_name sp @ '': send_raw_transaction failed ('' @ sl_display sl e @ '')'' in
      bnd (if walletcore_send_bisect_enabled env \<and> is_invalid_input_send_raw_tx_error msg
           then filter_bisect (try_filter_subset env sl cx sp) (sl_in_budget sl)
                  (sort_key (\<lambda>o1. - int (amount o1)) selected) (length selected) 0 (length selected)
           else done1 ())
        (\<lambda>_. fail code msg))"

text \<open>After an accepted broadcast the selected outputs are marked; no pending row is written.\<close>

definition filter_accepted :: "spend_plan \<Rightarrow> tracked_output list \<Rightarrow> signed_tx \<Rightarrow> u64 \<Rightarrow> send_answer sending" where
  "filter_accepted sp selected tx fee =
     bnd (change_wallet (sp_id sp) (record_sent (sx_hash tx) selected)) (\<lambda>_.
       done1 (Sent_Answer (hex_lowercase (sx_hash tx)) fee))"

definition filter_texts :: "('i, 'n) send_lib \<Rightarrow> string \<Rightarrow> spend_ctx \<Rightarrow> build_texts" where
  "filter_texts sl who cx =
     call_texts sl ''wallet_send_with_filter'' (who @ '': failed to reconstruct selected output'') (cx_url cx)"

definition filter_rounds ::
  "environment \<Rightarrow> ki_ops \<Rightarrow> ('i, 'n) send_lib \<Rightarrow> opened \<Rightarrow> rounds_end sending" where
  "filter_rounds env ko sl op =
     select_rounds (select_round env ko sl (op_ctx op) (filter_texts sl ''wallet_send'' (op_ctx op)) (op_plan op)
       (op_outputs op)) (sp_policy (op_plan op)) max_selection_rounds ([], 0)"

definition filter_settle ::
  "crypto \<Rightarrow> environment \<Rightarrow> ('i, 'n) send_lib \<Rightarrow> opened \<Rightarrow> bool \<Rightarrow> tracked_output list \<Rightarrow> send_answer sending" where
  "filter_settle cr env sl op prepare_only selected =
     (let cx = op_ctx op; sp = op_plan op in
      bnd (final_transaction env sl cx (filter_texts sl ''wallet_send_with_filter'' cx) sp selected) (\<lambda>(tx, fee).
        if prepare_only
        then done1 (Prepared_Answer (prepared_payload cr sl (op_snapshot op) tx (sp_needed sp) fee))
        else bnd (broadcast env sl (cx_url cx) (sl_serialize sl tx)) (\<lambda>b. case b of
               Inl e \<Rightarrow> filter_refused env sl cx sp selected e
             | Inr _ \<Rightarrow> filter_accepted sp selected tx fee)))"

text \<open>\<open>Restarted\<close> does not occur under \<open>Restart_Round\<close>.\<close>

definition wallet_send_with_filter_impl ::
  "crypto \<Rightarrow> environment \<Rightarrow> ki_ops \<Rightarrow> ('i, 'n) send_lib \<Rightarrow> cptr \<Rightarrow> cptr \<Rightarrow> cptr \<Rightarrow> cptr \<Rightarrow> nat \<Rightarrow> bool \<Rightarrow> world
   \<Rightarrow> (send_answer option outcome \<times> world) \<times> (string \<times> bytes) list" where
  "wallet_send_with_filter_impl cr env ko sl wallet_id node_url destinations_json filter_json ring_len prepare_only =
     run_sending
       (bnd (send_filter_opening cr env sl wallet_id node_url destinations_json filter_json ring_len) (\<lambda>op.
        bnd (filter_rounds env ko sl op) (\<lambda>r.
          filter_settle cr env sl op prepare_only (opt_get_or [] (selected_of r)))))"

definition wallet_send_with_filter_ffi_impl ::
  "crypto \<Rightarrow> environment \<Rightarrow> ki_ops \<Rightarrow> ('i, 'n) send_lib \<Rightarrow> cptr \<Rightarrow> cptr \<Rightarrow> cptr \<Rightarrow> cptr \<Rightarrow> nat \<Rightarrow> send_answer option call" where
  "wallet_send_with_filter_ffi_impl cr env ko sl wallet_id node_url destinations_json filter_json ring_len =
     run_while_refresh_stopped wallet_id ''wallet_send_with_filter''
       (\<lambda>_ w. fst (wallet_send_with_filter_impl cr env ko sl wallet_id node_url destinations_json filter_json ring_len False w))"

definition wallet_prepare_send_with_filter_ffi_impl ::
  "crypto \<Rightarrow> environment \<Rightarrow> ki_ops \<Rightarrow> ('i, 'n) send_lib \<Rightarrow> cptr \<Rightarrow> cptr \<Rightarrow> cptr \<Rightarrow> cptr \<Rightarrow> nat \<Rightarrow> send_answer option call" where
  "wallet_prepare_send_with_filter_ffi_impl cr env ko sl wallet_id node_url destinations_json filter_json ring_len =
     run_while_refresh_stopped wallet_id ''wallet_prepare_send_with_filter''
       (\<lambda>_ w. fst (wallet_send_with_filter_impl cr env ko sl wallet_id node_url destinations_json filter_json ring_len True w))"

section \<open>Previewing the fee\<close>

definition preview_opening ::
  "crypto \<Rightarrow> environment \<Rightarrow> ('i, 'n) send_lib \<Rightarrow> cptr \<Rightarrow> cptr \<Rightarrow> cptr \<Rightarrow> nat \<Rightarrow> opened sending" where
  "preview_opening cr env sl wallet_id node_url destinations_json ring_len =
     open_payments cr env sl ''wallet_preview_fee'' ''preparing a send'' preview_subaddresses Unchecked
       wallet_id node_url destinations_json CNull ring_len"

definition preview_filter_opening ::
  "crypto \<Rightarrow> environment \<Rightarrow> ('i, 'n) send_lib \<Rightarrow> cptr \<Rightarrow> cptr \<Rightarrow> cptr \<Rightarrow> cptr \<Rightarrow> nat \<Rightarrow> opened sending" where
  "preview_filter_opening cr env sl =
     open_payments cr env sl ''wallet_preview_fee_with_filter'' ''preparing a send'' preview_subaddresses Unchecked"

definition placeholder_fee :: u64 where
  "placeholder_fee = 30700000"

definition preview_rounds :: "environment \<Rightarrow> ki_ops \<Rightarrow> ('i, 'n) send_lib \<Rightarrow> opened \<Rightarrow> send_answer sending" where
  "preview_rounds env ko sl op =
     (let sp = op_plan op;
          tt = call_texts sl (sp_name sp) (sp_name sp @ '': failed to reconstruct selected output'') (cx_url (op_ctx op)) in
      bnd (select_rounds (select_round env ko sl (op_ctx op) tt sp (op_outputs op)) (sp_policy sp)
             max_selection_rounds ([], 0)) (\<lambda>r. case r of
        Found _ fee \<Rightarrow> done1 (Fee_Answer fee)
      | _ \<Rightarrow> fail (-16) (sp_name sp @ '': fee estimation did not converge (too many selection rounds)'')))"

definition preview_body :: "environment \<Rightarrow> ki_ops \<Rightarrow> ('i, 'n) send_lib \<Rightarrow> opened \<Rightarrow> send_answer sending" where
  "preview_body env ko sl op =
     (if walletcore_disable_decoys env then done1 (Fee_Answer placeholder_fee) else preview_rounds env ko sl op)"

definition wallet_preview_fee_impl ::
  "crypto \<Rightarrow> environment \<Rightarrow> ki_ops \<Rightarrow> ('i, 'n) send_lib \<Rightarrow> cptr \<Rightarrow> cptr \<Rightarrow> cptr \<Rightarrow> nat \<Rightarrow> world
   \<Rightarrow> (send_answer option outcome \<times> world) \<times> (string \<times> bytes) list" where
  "wallet_preview_fee_impl cr env ko sl wallet_id node_url destinations_json ring_len =
     run_sending (bnd (preview_opening cr env sl wallet_id node_url destinations_json ring_len) (preview_body env ko sl))"

definition wallet_preview_fee_with_filter_impl ::
  "crypto \<Rightarrow> environment \<Rightarrow> ki_ops \<Rightarrow> ('i, 'n) send_lib \<Rightarrow> cptr \<Rightarrow> cptr \<Rightarrow> cptr \<Rightarrow> cptr \<Rightarrow> nat \<Rightarrow> world
   \<Rightarrow> (send_answer option outcome \<times> world) \<times> (string \<times> bytes) list" where
  "wallet_preview_fee_with_filter_impl cr env ko sl wallet_id node_url destinations_json filter_json ring_len =
     run_sending (bnd (preview_filter_opening cr env sl wallet_id node_url destinations_json filter_json ring_len)
       (preview_body env ko sl))"

definition wallet_preview_fee_ffi_impl ::
  "crypto \<Rightarrow> environment \<Rightarrow> ki_ops \<Rightarrow> ('i, 'n) send_lib \<Rightarrow> cptr \<Rightarrow> cptr \<Rightarrow> cptr \<Rightarrow> nat \<Rightarrow> send_answer option call" where
  "wallet_preview_fee_ffi_impl cr env ko sl wallet_id node_url destinations_json ring_len =
     run_while_refresh_stopped wallet_id ''wallet_preview_fee''
       (\<lambda>_ w. fst (wallet_preview_fee_impl cr env ko sl wallet_id node_url destinations_json ring_len w))"

definition wallet_preview_fee_with_filter_ffi_impl ::
  "crypto \<Rightarrow> environment \<Rightarrow> ki_ops \<Rightarrow> ('i, 'n) send_lib \<Rightarrow> cptr \<Rightarrow> cptr \<Rightarrow> cptr \<Rightarrow> cptr \<Rightarrow> nat \<Rightarrow> send_answer option call" where
  "wallet_preview_fee_with_filter_ffi_impl cr env ko sl wallet_id node_url destinations_json filter_json ring_len =
     run_while_refresh_stopped wallet_id ''wallet_preview_fee_with_filter''
       (\<lambda>_ w. fst (wallet_preview_fee_with_filter_impl cr env ko sl wallet_id node_url destinations_json filter_json ring_len w))"

end
