(* ===== verification/Sweep.thy ===== *)
theory Sweep
  imports Send_Filter
begin

text \<open>
  Sweeping a wallet to one address (\<open>ffi/sweep.rs\<close>): every eligible output that is not change of a
  pending transaction and is at least the dust limit becomes an input, and the amount is what the fee
  leaves of their sum. Inputs are built and signed as in \<open>Send_Core\<close>; the search after a refused
  broadcast is the one of \<open>Send_Filter\<close>.
\<close>

section \<open>The outputs that are swept\<close>

definition walletcore_sweep_min_input_piconero :: "environment \<Rightarrow> u64" where
  "walletcore_sweep_min_input_piconero env =
     opt_get_or 50000000
       (Option.bind (env ''WALLETCORE_SWEEP_MIN_INPUT_PICONERO'') (\<lambda>s. parse_unsigned u64_max (trim s)))"

definition pending_txids :: "stored_wallet \<Rightarrow> string set" where
  "pending_txids snapshot =
     set (map (\<lambda>p. to_ascii_lowercase (trim (pt_txid p))) (w_pending_outgoing snapshot))"

definition not_pending_change :: "stored_wallet \<Rightarrow> tracked_output \<Rightarrow> bool" where
  "not_pending_change snapshot o1 \<longleftrightarrow>
     pending_txids snapshot = {} \<or> hex_lowercase (tx_hash o1) \<notin> pending_txids snapshot"

definition sum_piconero :: "tracked_output list \<Rightarrow> u64" where
  "sum_piconero outs = sum_list (map amount outs) mod 2 ^ 64"

definition nothing_to_sweep :: "string \<Rightarrow> u64 \<Rightarrow> tracked_output list \<Rightarrow> 'a sending" where
  "nothing_to_sweep nm min_input spendable1 =
     (let skipped = filter (\<lambda>o1. amount o1 < min_input) spendable1 in
      fail (-18) (nm @ '': no unlocked funds to sweep (all outputs below min_input_piconero='' @ show_nat min_input
        @ '' skipped_count='' @ show_nat (length skipped) @ '' skipped_sum='' @ show_nat (sum_piconero skipped) @ '')''))"

definition above_dust :: "string \<Rightarrow> u64 \<Rightarrow> tracked_output list \<Rightarrow> tracked_output list sending" where
  "above_dust nm min_input spendable1 =
     (let kept = filter (\<lambda>o1. min_input \<le> amount o1) spendable1 in
      if kept = [] then nothing_to_sweep nm min_input spendable1 else done1 kept)"

section \<open>Opening a sweep\<close>

text \<open>A preview refuses a filter that does not parse, a sweep takes it as no filter.\<close>

definition filter_text :: "cptr \<Rightarrow> string option" where
  "filter_text p = (case p of CNull \<Rightarrow> None | CStr s \<Rightarrow> cstr_to_str s)"

definition preview_sweep_filter :: "('i, 'n) send_lib \<Rightarrow> string \<Rightarrow> cptr \<Rightarrow> u32 option sending" where
  "preview_sweep_filter sl nm p =
     (case filter_text p of
        None \<Rightarrow> done1 None
      | Some s \<Rightarrow>
          if trim s = [] then done1 None
          else (case sl_filter_json sl s of
                  Inl e \<Rightarrow> fail (-11) (nm @ '': invalid filter JSON ('' @ e @ '')'') | Inr f \<Rightarrow> done1 f))"

definition sweep_filter :: "('i, 'n) send_lib \<Rightarrow> cptr \<Rightarrow> u32 option" where
  "sweep_filter sl p =
     (case filter_text p of
        None \<Rightarrow> None
      | Some s \<Rightarrow> if trim s = [] then None
                 else (case sl_filter_json sl (trim s) of Inl _ \<Rightarrow> None | Inr f \<Rightarrow> f))"

definition sweep_recipient :: "('i, 'n) send_lib \<Rightarrow> string \<Rightarrow> network \<Rightarrow> string \<Rightarrow> recipient sending" where
  "sweep_recipient sl nm net text1 =
     (case sl_address sl net text1 of
        None \<Rightarrow> fail (-10) (nm @ '': invalid destination address'') | Some r \<Rightarrow> done1 r)"

definition sweepable ::
  "crypto \<Rightarrow> ('i, 'n) send_lib \<Rightarrow> string \<Rightarrow> stored_wallet \<Rightarrow> daemon_status \<Rightarrow> u32 option
   \<Rightarrow> (tracked_output list \<times> stored_wallet) sending" where
  "sweepable cr sl i snapshot0 daemon f =
     bnd (spendable_inputs cr sl i snapshot0 daemon True) (\<lambda>(outs, snapshot).
       done1 (keep_minor f (filter (not_pending_change snapshot0) outs), snapshot))"

definition sweep_plan ::
  "string \<Rightarrow> string \<Rightarrow> master_keys \<Rightarrow> recipient \<Rightarrow> fee_rate \<Rightarrow> spend_plan" where
  "sweep_plan nm i master recipient1 rate =
     \<lparr>sp_name = nm, sp_id = i, sp_master = master, sp_pays = [(recipient1, 0)], sp_needed = 0, sp_rate = rate,
      sp_policy = Unchecked\<rparr>"

definition sweep_context :: "string \<Rightarrow> view_pair \<Rightarrow> stored_wallet \<Rightarrow> nat \<Rightarrow> daemon_status \<Rightarrow> spend_ctx" where
  "sweep_context base_url pair snapshot ring_len daemon =
     \<lparr>cx_url = base_url, cx_pair = pair, cx_subs = preview_subaddresses snapshot, cx_ring = ring_len_eff ring_len,
      cx_latest = latest_block_index daemon\<rparr>"

definition preview_sweep_opening ::
  "crypto \<Rightarrow> environment \<Rightarrow> ('i, 'n) send_lib \<Rightarrow> cptr \<Rightarrow> cptr \<Rightarrow> cptr \<Rightarrow> cptr \<Rightarrow> nat \<Rightarrow> opened sending" where
  "preview_sweep_opening cr env sl wallet_id node_url to_address filter_json ring_len =
     (let nm = ''wallet_preview_sweep_with_filter''; base_url = daemon_base_url env node_url in
      if wallet_id = CNull \<or> to_address = CNull then fail (-11) (nm @ '': null argument(s)'')
      else
      bnd (utf8_arg (nm @ '': wallet_id contained invalid UTF-8'') wallet_id) (\<lambda>i.
      bnd (utf8_arg (nm @ '': to_address contained invalid UTF-8'') to_address) (\<lambda>addr_str.
      bnd (preview_sweep_filter sl nm filter_json) (\<lambda>f.
      bnd (wallet_snapshot nm i) (\<lambda>snapshot0.
      bnd (connect_daemon sl nm base_url) (\<lambda>_.
      bnd (daemon_tip sl nm base_url) (\<lambda>daemon.
      bnd (spend_keys cr nm ''spending'' (w_keys snapshot0)) (\<lambda>(master, pair).
      bnd (sweep_recipient sl nm (w_network snapshot0) addr_str) (\<lambda>recipient1.
      bnd (sweepable cr sl i snapshot0 daemon f) (\<lambda>(outs, snapshot).
      if outs = [] then fail (-18) (nm @ '': no unlocked funds to sweep'')
      else
      bnd (query_fee_rate env sl nm base_url) (\<lambda>rate.
      bnd (above_dust nm (walletcore_sweep_min_input_piconero env) (selection_order LargestFirst outs)) (\<lambda>selected.
        done1 \<lparr>op_snapshot = snapshot, op_ctx = sweep_context base_url pair snapshot0 ring_len daemon,
          op_plan = sweep_plan nm i master recipient1 rate, op_outputs = selected\<rparr>))))))))))))"

definition sweep_opening ::
  "crypto \<Rightarrow> environment \<Rightarrow> ('i, 'n) send_lib \<Rightarrow> cptr \<Rightarrow> cptr \<Rightarrow> cptr \<Rightarrow> cptr \<Rightarrow> nat \<Rightarrow> opened sending" where
  "sweep_opening cr env sl wallet_id node_url to_address filter_json ring_len =
     (let nm = ''wallet_sweep_with_filter''; base_url = daemon_base_url env node_url in
      if wallet_id = CNull \<or> to_address = CNull then fail (-11) (nm @ '': null argument(s)'')
      else
      bnd (utf8_arg (nm @ '': wallet_id contained invalid UTF-8'') wallet_id) (\<lambda>i.
      bnd (utf8_arg (nm @ '': to_address contained invalid UTF-8'') to_address) (\<lambda>to_addr_str.
      bnd (wallet_snapshot nm i) (\<lambda>snapshot0.
      let f = sweep_filter sl filter_json in
      bnd (sweep_recipient sl nm (w_network snapshot0) to_addr_str) (\<lambda>recipient1.
      bnd (connect_daemon sl nm base_url) (\<lambda>_.
      bnd (daemon_tip sl nm base_url) (\<lambda>daemon.
      bnd (spend_keys cr nm ''spending'' (w_keys snapshot0)) (\<lambda>(master, pair).
      bnd (sweepable cr sl i snapshot0 daemon f) (\<lambda>(outs, snapshot).
      bnd (above_dust nm (walletcore_sweep_min_input_piconero env) outs) (\<lambda>selected.
      bnd (query_fee_rate env sl nm base_url) (\<lambda>rate.
        done1 \<lparr>op_snapshot = snapshot, op_ctx = sweep_context base_url pair snapshot0 ring_len daemon,
          op_plan = sweep_plan nm i master recipient1 rate, op_outputs = selected\<rparr>)))))))))))"

section \<open>The amount and the fee\<close>

text \<open>The payment of one round: what the guessed fee leaves of the inputs.\<close>

definition construct_sweep ::
  "('i, 'n) send_lib \<Rightarrow> spend_ctx \<Rightarrow> spend_plan \<Rightarrow> 'i list \<Rightarrow> u64 \<Rightarrow> u64 \<Rightarrow> (string + 'n) sending" where
  "construct_sweep sl cx sp inputs inputs_sum fee_guess =
     construct sl cx (sp\<lparr>sp_pays := map (\<lambda>(r, _). (r, sat_sub inputs_sum fee_guess)) (sp_pays sp)\<rparr>) inputs"

definition max_sweep_rounds :: nat where
  "max_sweep_rounds = 8"

text \<open>The last guess, and the last transaction that could be built.\<close>

primrec sweep_rounds ::
  "(u64 \<Rightarrow> (string + 'n) sending) \<Rightarrow> ('n \<Rightarrow> u64) \<Rightarrow> string \<Rightarrow> nat \<Rightarrow> u64 \<Rightarrow> 'n option \<Rightarrow> (u64 \<times> 'n option) sending" where
  "sweep_rounds try1 fee_of nm 0 fee_guess intent0 = done1 (fee_guess, intent0)"
| "sweep_rounds try1 fee_of nm (Suc n) fee_guess intent0 =
     bnd (try1 fee_guess) (\<lambda>c. case c of
       Inl message \<Rightarrow>
         if str_contains message ''not enough funds''
         then sweep_rounds try1 fee_of nm n (sat_add fee_guess 50000000) intent0
         else fail (-16) (nm @ '': transaction construction failed ('' @ message @ '')'')
     | Inr intent \<Rightarrow>
         if fee_of intent = fee_guess then done1 (fee_guess, Some intent)
         else sweep_rounds try1 fee_of nm n (fee_of intent) (Some intent))"

definition sweep_fee_loop ::
  "('i, 'n) send_lib \<Rightarrow> opened \<Rightarrow> 'i list \<Rightarrow> (u64 \<times> 'n option) sending" where
  "sweep_fee_loop sl op inputs =
     sweep_rounds (construct_sweep sl (op_ctx op) (op_plan op) inputs (sum_piconero (op_outputs op))) (sl_fee sl)
       (sp_name (op_plan op)) max_sweep_rounds 0 None"

definition cannot_pay_fee :: "string \<Rightarrow> u64 \<Rightarrow> u64 \<Rightarrow> 'a sending" where
  "cannot_pay_fee nm inputs_sum fee =
     fail (-18) (nm @ '': insufficient unlocked funds to pay fee (inputs '' @ show_nat inputs_sum
       @ '', necessary_fee '' @ show_nat fee @ '')'')"

definition sweep_inputs :: "environment \<Rightarrow> ('i, 'n) send_lib \<Rightarrow> opened \<Rightarrow> 'i list sending" where
  "sweep_inputs env sl op =
     (let nm = sp_name (op_plan op) in
      each (build_input env sl (op_ctx op)
        (call_texts sl nm (nm @ '': failed to reconstruct selected output'') (cx_url (op_ctx op)))) (op_outputs op))"

section \<open>Previewing\<close>

datatype sweep_answer =
  Sweep_Previewed u64 u64 | Sweep_Prepared prepared_send_payload | Sweep_Sent string u64 u64

definition preview_sweep_body :: "environment \<Rightarrow> ('i, 'n) send_lib \<Rightarrow> opened \<Rightarrow> sweep_answer sending" where
  "preview_sweep_body env sl op =
     (let selected_sum = sum_piconero (op_outputs op) in
      if walletcore_disable_decoys env
      then done1 (Sweep_Previewed (sat_sub selected_sum placeholder_fee) placeholder_fee)
      else
      bnd (sweep_inputs env sl op) (\<lambda>inputs.
      bnd (sweep_fee_loop sl op inputs) (\<lambda>(fee, _).
        let amt = sat_sub selected_sum fee in
        if selected_sum \<le> fee \<or> amt = 0 then cannot_pay_fee (sp_name (op_plan op)) selected_sum fee
        else done1 (Sweep_Previewed amt fee))))"

definition wallet_preview_sweep_with_filter_impl ::
  "crypto \<Rightarrow> environment \<Rightarrow> ('i, 'n) send_lib \<Rightarrow> cptr \<Rightarrow> cptr \<Rightarrow> cptr \<Rightarrow> cptr \<Rightarrow> nat \<Rightarrow> world
   \<Rightarrow> (sweep_answer option outcome \<times> world) \<times> (string \<times> bytes) list" where
  "wallet_preview_sweep_with_filter_impl cr env sl wallet_id node_url to_address filter_json ring_len =
     run_sending (bnd (preview_sweep_opening cr env sl wallet_id node_url to_address filter_json ring_len)
       (preview_sweep_body env sl))"

definition wallet_preview_sweep_with_filter_ffi_impl ::
  "crypto \<Rightarrow> environment \<Rightarrow> ('i, 'n) send_lib \<Rightarrow> cptr \<Rightarrow> cptr \<Rightarrow> cptr \<Rightarrow> cptr \<Rightarrow> nat \<Rightarrow> sweep_answer option call" where
  "wallet_preview_sweep_with_filter_ffi_impl cr env sl wallet_id node_url to_address filter_json ring_len =
     run_while_refresh_stopped wallet_id ''wallet_preview_sweep_with_filter''
       (\<lambda>_ w. fst (wallet_preview_sweep_with_filter_impl cr env sl wallet_id node_url to_address filter_json ring_len w))"

text \<open>The call without a filter goes through the exported symbol of the other one.\<close>

definition wallet_preview_sweep_ffi_impl ::
  "crypto \<Rightarrow> environment \<Rightarrow> ('i, 'n) send_lib \<Rightarrow> cptr \<Rightarrow> cptr \<Rightarrow> cptr \<Rightarrow> nat \<Rightarrow> world \<Rightarrow> sweep_answer option \<times> world" where
  "wallet_preview_sweep_ffi_impl cr env sl wallet_id node_url to_address ring_len w0 =
     (let w = clear_last_error w0 in
      if wallet_id = CNull \<or> to_address = CNull
      then (None, set_last_error ''wallet_preview_sweep: null argument(s)'' w)
      else guard ''wallet_preview_sweep_with_filter'' None
             (wallet_preview_sweep_with_filter_ffi_impl cr env sl wallet_id node_url to_address CNull ring_len) w)"

section \<open>Sweeping\<close>

text \<open>The search for one bad input: a subset that cannot be built or pays no fee is no signal.\<close>

definition sweep_subset_texts :: "('i, 'n) send_lib \<Rightarrow> build_texts" where
  "sweep_subset_texts sl =
     \<lparr>tt_fetch = (\<lambda>e _. ''block fetch failed: '' @ sl_display sl e), tt_scan = (\<lambda>_. ''scanner failed''),
      tt_missing = ''failed to reconstruct selected output'',
      tt_bin = (\<lambda>e. ''failed to construct bin16 decoy daemon: '' @ sl_display sl e),
      tt_decoys = (\<lambda>e. ''decoy selection failed: '' @ sl_tx_debug sl e)\<rparr>"

definition within_budget :: "('i, 'n) send_lib \<Rightarrow> unit sending" where
  "within_budget sl =
     bnd (ask (sl_in_budget sl)) (\<lambda>ok. if ok then done1 () else fail (-16) ''bisect budget exceeded'')"

primrec sweep_subset_rounds ::
  "('i, 'n) send_lib \<Rightarrow> (u64 \<Rightarrow> (string + 'n) sending) \<Rightarrow> nat \<Rightarrow> u64 \<Rightarrow> 'n option \<Rightarrow> 'n option sending" where
  "sweep_subset_rounds sl try1 0 fee_guess intent0 = done1 intent0"
| "sweep_subset_rounds sl try1 (Suc n) fee_guess intent0 =
     bnd (within_budget sl) (\<lambda>_.
     bnd (try1 fee_guess) (\<lambda>c. case c of
       Inl message \<Rightarrow>
         if str_contains message ''not enough funds'' then fail (-16) (''subset cannot pay fee: '' @ message)
         else fail (-16) (''tx construction failed: '' @ message)
     | Inr intent \<Rightarrow>
         if sl_fee sl intent = fee_guess then done1 (Some intent)
         else sweep_subset_rounds sl try1 n (sl_fee sl intent) (Some intent)))"

definition sweep_subset_transaction ::
  "environment \<Rightarrow> ('i, 'n) send_lib \<Rightarrow> spend_ctx \<Rightarrow> spend_plan \<Rightarrow> tracked_output list \<Rightarrow> signed_tx sending" where
  "sweep_subset_transaction env sl cx sp part1 =
     (if part1 = [] then fail (-16) ''empty subset''
      else
      bnd (each (\<lambda>t. bnd (within_budget sl) (\<lambda>_. build_input env sl cx (sweep_subset_texts sl) t)) part1) (\<lambda>inputs.
      bnd (sweep_subset_rounds sl (construct_sweep sl cx sp inputs (sum_piconero part1)) max_sweep_rounds 0 None) (\<lambda>r.
      case r of None \<Rightarrow> fail (-16) ''fee convergence failed''
      | Some intent \<Rightarrow>
      bnd (sign_transaction_on_large_stack sl intent (mk_spend_scalar (sp_master sp))) (\<lambda>signed. case signed of
        Inl message \<Rightarrow> fail (-16) (''sign failed: '' @ message) | Inr tx \<Rightarrow> done1 tx))))"

definition try_sweep_subset ::
  "environment \<Rightarrow> ('i, 'n) send_lib \<Rightarrow> spend_ctx \<Rightarrow> spend_plan \<Rightarrow> tracked_output list \<Rightarrow> (string + unit) sending" where
  "try_sweep_subset env sl cx sp part1 =
     bnd (catching (sweep_subset_transaction env sl cx sp part1)) (\<lambda>r. case r of Inl message \<Rightarrow> done1 (Inl message)
     | Inr tx \<Rightarrow>
     bnd (broadcast env sl (cx_url cx) (sl_serialize sl tx)) (\<lambda>b. case b of Inr _ \<Rightarrow> done1 (Inr ())
     | Inl e \<Rightarrow> done1 (Inl ((if is_invalid_input_send_raw_tx_error (sl_display sl e)
                            then ''broadcast failed (invalid_input): '' else ''broadcast failed (non-signal): '')
                           @ sl_display sl e))))"

definition sweep_refused ::
  "environment \<Rightarrow> ('i, 'n) send_lib \<Rightarrow> opened \<Rightarrow> interface_error \<Rightarrow> sweep_answer sending" where
  "sweep_refused env sl op e =
     (let code = map_rpc_error e; outs = op_outputs op;
          msg = sp_name (op_plan op) @ '': send_raw_transaction failed ('' @ sl_display sl e @ '')'' in
      bnd (if walletcore_sweep_bisect_enabled env \<and> is_invalid_input_send_raw_tx_error msg
           then filter_bisect (try_sweep_subset env sl (op_ctx op) (op_plan op)) (sl_in_budget sl) outs
                  (length outs) 0 (length outs)
           else done1 ())
        (\<lambda>_. fail code msg))"

definition sweep_accepted :: "opened \<Rightarrow> signed_tx \<Rightarrow> u64 \<Rightarrow> u64 \<Rightarrow> sweep_answer sending" where
  "sweep_accepted op tx amt fee =
     (let hex = hex_lowercase (sx_hash tx); i = sp_id (op_plan op) in
      bnd (change_wallet i (record_sent (sx_hash tx) (op_outputs op))) (\<lambda>_.
      bnd (change_wallet i (record_pending hex amt fee)) (\<lambda>_.
        done1 (Sweep_Sent hex amt fee))))"

text \<open>The amount and fee after the loop are those of the last transaction that could be built.\<close>

definition sweep_totals :: "('n \<Rightarrow> u64) \<Rightarrow> u64 \<Rightarrow> 'n option \<Rightarrow> u64 \<times> u64" where
  "sweep_totals fee_of inputs_sum intent =
     (case intent of None \<Rightarrow> (0, 0) | Some it \<Rightarrow> (sat_sub inputs_sum (fee_of it), fee_of it))"

definition sweep_body ::
  "crypto \<Rightarrow> environment \<Rightarrow> ('i, 'n) send_lib \<Rightarrow> bool \<Rightarrow> opened \<Rightarrow> sweep_answer sending" where
  "sweep_body cr env sl prepare_only op =
     (let nm = sp_name (op_plan op); cx = op_ctx op; inputs_sum = sum_piconero (op_outputs op) in
      bnd (sweep_inputs env sl op) (\<lambda>inputs.
      bnd (sweep_fee_loop sl op inputs) (\<lambda>(_, final_intent).
      let (final_amount, final_fee) = sweep_totals (sl_fee sl) inputs_sum final_intent in
      if final_amount = 0 \<or> inputs_sum \<le> final_fee then cannot_pay_fee nm inputs_sum final_fee
      else (case final_intent of None \<Rightarrow> fail (-16) (nm @ '': fee estimation did not converge'')
      | Some intent \<Rightarrow>
      bnd (sign_transaction_on_large_stack sl intent (mk_spend_scalar (sp_master (op_plan op)))) (\<lambda>r. case r of
        Inl message \<Rightarrow> fail (-16) (nm @ '': signing failed ('' @ message @ '')'')
      | Inr tx \<Rightarrow>
          if prepare_only
          then done1 (Sweep_Prepared (prepared_payload cr sl (op_snapshot op) tx final_amount final_fee))
          else bnd (broadcast env sl (cx_url cx) (sl_serialize sl tx)) (\<lambda>b. case b of
                 Inl e \<Rightarrow> sweep_refused env sl op e
               | Inr _ \<Rightarrow> sweep_accepted op tx final_amount final_fee))))))"

definition wallet_sweep_with_filter_impl ::
  "crypto \<Rightarrow> environment \<Rightarrow> ('i, 'n) send_lib \<Rightarrow> cptr \<Rightarrow> cptr \<Rightarrow> cptr \<Rightarrow> cptr \<Rightarrow> nat \<Rightarrow> bool \<Rightarrow> world
   \<Rightarrow> (sweep_answer option outcome \<times> world) \<times> (string \<times> bytes) list" where
  "wallet_sweep_with_filter_impl cr env sl wallet_id node_url to_address filter_json ring_len prepare_only =
     run_sending (bnd (sweep_opening cr env sl wallet_id node_url to_address filter_json ring_len)
       (sweep_body cr env sl prepare_only))"

definition wallet_sweep_with_filter_ffi_impl ::
  "crypto \<Rightarrow> environment \<Rightarrow> ('i, 'n) send_lib \<Rightarrow> cptr \<Rightarrow> cptr \<Rightarrow> cptr \<Rightarrow> cptr \<Rightarrow> nat \<Rightarrow> sweep_answer option call" where
  "wallet_sweep_with_filter_ffi_impl cr env sl wallet_id node_url to_address filter_json ring_len =
     run_while_refresh_stopped wallet_id ''wallet_sweep_with_filter''
       (\<lambda>_ w. fst (wallet_sweep_with_filter_impl cr env sl wallet_id node_url to_address filter_json ring_len False w))"

definition wallet_prepare_sweep_with_filter_ffi_impl ::
  "crypto \<Rightarrow> environment \<Rightarrow> ('i, 'n) send_lib \<Rightarrow> cptr \<Rightarrow> cptr \<Rightarrow> cptr \<Rightarrow> cptr \<Rightarrow> nat \<Rightarrow> sweep_answer option call" where
  "wallet_prepare_sweep_with_filter_ffi_impl cr env sl wallet_id node_url to_address filter_json ring_len =
     run_while_refresh_stopped wallet_id ''wallet_prepare_sweep_with_filter''
       (\<lambda>_ w. fst (wallet_sweep_with_filter_impl cr env sl wallet_id node_url to_address filter_json ring_len True w))"

definition whole_wallet_sweep ::
  "crypto \<Rightarrow> environment \<Rightarrow> ('i, 'n) send_lib \<Rightarrow> string \<Rightarrow> bool \<Rightarrow> cptr \<Rightarrow> cptr \<Rightarrow> cptr \<Rightarrow> nat \<Rightarrow> sweep_answer option call" where
  "whole_wallet_sweep cr env sl ctx prepare_only wallet_id node_url to_address ring_len w0 =
     (let w = clear_last_error w0 in
      if wallet_id = CNull \<or> to_address = CNull then null_ptr (-11, ctx @ '': null argument(s)'') w
      else run_while_refresh_stopped wallet_id ctx
             (\<lambda>_ w. fst (wallet_sweep_with_filter_impl cr env sl wallet_id node_url to_address CNull ring_len
               prepare_only w)) w)"

definition wallet_sweep_ffi_impl ::
  "crypto \<Rightarrow> environment \<Rightarrow> ('i, 'n) send_lib \<Rightarrow> cptr \<Rightarrow> cptr \<Rightarrow> cptr \<Rightarrow> nat \<Rightarrow> sweep_answer option call" where
  "wallet_sweep_ffi_impl cr env sl = whole_wallet_sweep cr env sl ''wallet_sweep'' False"

definition wallet_prepare_sweep_ffi_impl ::
  "crypto \<Rightarrow> environment \<Rightarrow> ('i, 'n) send_lib \<Rightarrow> cptr \<Rightarrow> cptr \<Rightarrow> cptr \<Rightarrow> nat \<Rightarrow> sweep_answer option call" where
  "wallet_prepare_sweep_ffi_impl cr env sl = whole_wallet_sweep cr env sl ''wallet_prepare_sweep'' True"

end
