(* ===== verification/Send_Frame.thy ===== *)
theory Send_Frame
  imports Sweep
begin

text \<open>
  What sends, previews and sweeps leave of the store. The locale \<open>sending_frame\<close> is the contract of a
  relation between the state before and after a computation: it is a preorder that holds across requests
  and across changes of the quarantine of one wallet. Everything before a broadcast is proved once
  against it. \<open>book_frame\<close> adds broadcasts and the daemon's double-spend reports, and covers the failing
  paths. Both are interpreted: \<open>quiet\<close> says that nothing was broadcast and only quarantine and unlocked
  balance changed, \<open>books_kept\<close> that ledger, pending records and total were kept.
\<close>

named_theorems runs_intro \<open>rules for composed computations\<close>

section \<open>Store relations\<close>

definition store_moves :: "(stored_wallet \<Rightarrow> stored_wallet \<Rightarrow> bool) \<Rightarrow> string \<Rightarrow> world \<Rightarrow> world \<Rightarrow> bool" where
  "store_moves Q i w w' \<longleftrightarrow>
     wd_store_poisoned w' = wd_store_poisoned w \<and>
     (\<forall>j. j \<noteq> i \<longrightarrow> map_of (wd_store w') j = map_of (wd_store w) j) \<and>
     rel_option Q (map_of (wd_store w) i) (map_of (wd_store w') i)"

definition reflagged :: "stored_wallet \<Rightarrow> stored_wallet \<Rightarrow> bool" where
  "reflagged st st' \<longleftrightarrow> (\<exists>q u. st' = st\<lparr>w_quarantine := q, w_unlocked := u\<rparr>)"

definition flagged :: "stored_wallet \<Rightarrow> stored_wallet \<Rightarrow> bool" where
  "flagged st st' \<longleftrightarrow> reflagged st st' \<and> (distinct (w_quarantine st) \<longrightarrow> distinct (w_quarantine st'))"

definition marked_or_same :: "tracked_output \<Rightarrow> tracked_output \<Rightarrow> bool" where
  "marked_or_same o1 o2 \<longleftrightarrow> o2 = o1 \<or> o2 = o1\<lparr>spent := True\<rparr>"

definition booked :: "stored_wallet \<Rightarrow> stored_wallet \<Rightarrow> bool" where
  "booked st st' \<longleftrightarrow>
     (\<exists>outs q u. st' = st\<lparr>tracked_outputs := outs, w_quarantine := q, w_unlocked := u\<rparr> \<and>
        list_all2 marked_or_same (tracked_outputs st) outs)"

definition quiet :: "string \<Rightarrow> sender \<Rightarrow> sender \<Rightarrow> bool" where
  "quiet i s s' \<longleftrightarrow> store_moves flagged i (sn_world s) (sn_world s') \<and> sn_sent s' = sn_sent s"

definition books_kept :: "string \<Rightarrow> sender \<Rightarrow> sender \<Rightarrow> bool" where
  "books_kept i s s' \<longleftrightarrow> store_moves booked i (sn_world s) (sn_world s')"

lemma reflaggedI: "reflagged st (st\<lparr>w_quarantine := q, w_unlocked := u\<rparr>)" "reflagged st (st\<lparr>w_quarantine := q\<rparr>)"
  unfolding reflagged_def by (rule exI [of _ q], rule exI [of _ u], simp)
    (rule exI [of _ q], rule exI [of _ "w_unlocked st"], simp)

lemma reflagged_refl [simp]: "reflagged st st"
  using reflaggedI(2) [of st "w_quarantine st"] by simp

lemma flaggedI:
  assumes "distinct (w_quarantine st) \<longrightarrow> distinct q"
  shows "flagged st (st\<lparr>w_quarantine := q, w_unlocked := u\<rparr>)" "flagged st (st\<lparr>w_quarantine := q\<rparr>)"
  using assms by (simp_all add: flagged_def reflaggedI)

lemma flagged_refl [simp]: "flagged st st"
  by (simp add: flagged_def)

lemma flagged_reflagged: "flagged st st' \<Longrightarrow> reflagged st st'"
  by (simp add: flagged_def)

lemma reflaggedE:
  assumes "reflagged st st'"
  obtains q u where "st' = st\<lparr>w_quarantine := q, w_unlocked := u\<rparr>"
  using assms unfolding reflagged_def by blast

lemmas flaggedE = reflaggedE [OF flagged_reflagged]

lemma reflagged_trans:
  assumes "reflagged a b" "reflagged b c" shows "reflagged a c"
proof -
  obtain q u q' u' where "b = a\<lparr>w_quarantine := q, w_unlocked := u\<rparr>" "c = b\<lparr>w_quarantine := q', w_unlocked := u'\<rparr>"
    using assms by (elim reflaggedE) blast
  then have "c = a\<lparr>w_quarantine := q', w_unlocked := u'\<rparr>" by simp
  then show ?thesis using reflaggedI(1) by simp
qed

lemma flagged_trans: "flagged a b \<Longrightarrow> flagged b c \<Longrightarrow> flagged a c"
  using reflagged_trans by (auto simp: flagged_def)

lemma reflagged_simps:
  assumes "reflagged st st'"
  shows "tracked_outputs st' = tracked_outputs st" "w_keys st' = w_keys st" "w_network st' = w_network st"
    "w_total st' = w_total st" "w_tx_ledger st' = w_tx_ledger st" "w_pending_outgoing st' = w_pending_outgoing st"
    "w_chain_time st' = w_chain_time st" "wallet_cache_binding cr st' = wallet_cache_binding cr st"
  using assms by (elim reflaggedE; simp add: wallet_cache_binding_def)+

lemmas flagged_simps = reflagged_simps [OF flagged_reflagged]

lemma flagged_wf: "flagged st st' \<Longrightarrow> wallet_wf st \<Longrightarrow> wallet_wf st'"
  by (frule flaggedE) (auto simp: flagged_def wallet_wf_def total_exact_def window_coherent_def rows_keyed_def)

lemma apply_statuses_flagged: "apply_statuses st outs ss h a = (r, st') \<Longrightarrow> flagged st st'"
  by (auto simp: apply_statuses_def Let_def status_fold_distinct intro!: flaggedI split: if_splits)

lemma marked_or_same_refl [simp]: "marked_or_same o1 o1"
  by (simp add: marked_or_same_def)

lemma marked_or_same_trans: "marked_or_same a b \<Longrightarrow> marked_or_same b c \<Longrightarrow> marked_or_same a c"
  by (auto simp: marked_or_same_def)

lemma bookedI: "list_all2 marked_or_same (tracked_outputs st) outs \<Longrightarrow>
    booked st (st\<lparr>tracked_outputs := outs, w_quarantine := q, w_unlocked := u\<rparr>)"
  by (auto simp: booked_def)

lemma bookedE:
  assumes "booked st st'"
  obtains outs q u where "st' = st\<lparr>tracked_outputs := outs, w_quarantine := q, w_unlocked := u\<rparr>"
    "list_all2 marked_or_same (tracked_outputs st) outs"
  using assms unfolding booked_def by blast

lemma booked_refl [simp]: "booked st st"
  using bookedI [of st "tracked_outputs st" "w_unlocked st" "w_quarantine st"] by (simp add: list.rel_refl)

lemma booked_trans:
  assumes "booked a b" "booked b c" shows "booked a c"
proof -
  obtain o1 q u where b: "b = a\<lparr>tracked_outputs := o1, w_quarantine := q, w_unlocked := u\<rparr>"
    and l1: "list_all2 marked_or_same (tracked_outputs a) o1" using assms(1) by (rule bookedE)
  obtain o2 q' u' where c: "c = b\<lparr>tracked_outputs := o2, w_quarantine := q', w_unlocked := u'\<rparr>"
    and l2: "list_all2 marked_or_same (tracked_outputs b) o2" using assms(2) by (rule bookedE)
  have "list_all2 marked_or_same (tracked_outputs a) o2"
    using list_all2_trans [OF marked_or_same_trans l1] l2 b by simp
  then have "booked a (a\<lparr>tracked_outputs := o2, w_quarantine := q', w_unlocked := u'\<rparr>)" by (rule bookedI)
  moreover have "c = a\<lparr>tracked_outputs := o2, w_quarantine := q', w_unlocked := u'\<rparr>" using b c by simp
  ultimately show ?thesis by simp
qed

lemma flagged_booked: "flagged st st' \<Longrightarrow> booked st st'"
  by (erule flaggedE) (use bookedI [of st "tracked_outputs st"] in \<open>simp add: list.rel_refl\<close>)

lemma booked_simps:
  assumes "booked st st'"
  shows "w_keys st' = w_keys st" "w_total st' = w_total st" "w_tx_ledger st' = w_tx_ledger st"
    "w_pending_outgoing st' = w_pending_outgoing st" "w_last_scanned st' = w_last_scanned st"
  using assms by (elim bookedE; simp)+

lemma store_moves_refl: "(\<And>st. Q st st) \<Longrightarrow> wd_store w' = wd_store w \<Longrightarrow>
    wd_store_poisoned w' = wd_store_poisoned w \<Longrightarrow> store_moves Q i w w'"
  by (simp add: store_moves_def option.rel_refl)

lemma rel_option_trans:
  "(\<And>a b c. Q a b \<Longrightarrow> Q b c \<Longrightarrow> Q a c) \<Longrightarrow> rel_option Q x y \<Longrightarrow> rel_option Q y z \<Longrightarrow> rel_option Q x z"
  by (cases x; cases y; cases z) auto

lemma store_moves_trans:
  assumes "\<And>a b c. Q a b \<Longrightarrow> Q b c \<Longrightarrow> Q a c" "store_moves Q i u v" "store_moves Q i v w"
  shows "store_moves Q i u w"
proof -
  have "rel_option Q (map_of (wd_store u) i) (map_of (wd_store w) i)"
    using assms by (auto simp: store_moves_def intro: rel_option_trans [of Q _ "map_of (wd_store v) i"])
  then show ?thesis using assms(2,3) by (simp add: store_moves_def)
qed

lemma store_moves_insert:
  "map_of (wd_store w) i = Some st \<Longrightarrow> Q st st' \<Longrightarrow> wd_store w' = hm_insert i st' (wd_store w) \<Longrightarrow>
     wd_store_poisoned w' = wd_store_poisoned w \<Longrightarrow> store_moves Q i w w'"
  by (simp add: store_moves_def)

section \<open>Computations that keep a relation\<close>

text \<open>\<open>runs R m\<close>: the relation holds between the states before and after, whatever the outcome.\<close>

definition runs :: "(sender \<Rightarrow> sender \<Rightarrow> bool) \<Rightarrow> 'a sending \<Rightarrow> bool" where
  "runs R m \<longleftrightarrow> (\<forall>s. R s (snd (m s)))"

lemma runs_splits [runs_intro]:
  "(\<And>e. r = Inl e \<Longrightarrow> runs R (f e)) \<Longrightarrow> (\<And>x. r = Inr x \<Longrightarrow> runs R (g x)) \<Longrightarrow> runs R (case r of Inl e \<Rightarrow> f e | Inr x \<Rightarrow> g x)"
  "(o1 = None \<Longrightarrow> runs R a) \<Longrightarrow> (\<And>x. o1 = Some x \<Longrightarrow> runs R (h x)) \<Longrightarrow> runs R (case o1 of None \<Rightarrow> a | Some x \<Rightarrow> h x)"
  "(\<And>x y. p = (x, y) \<Longrightarrow> runs R (k x y)) \<Longrightarrow> runs R (case p of (x, y) \<Rightarrow> k x y)"
  "(b \<Longrightarrow> runs R m1) \<Longrightarrow> (\<not> b \<Longrightarrow> runs R m2) \<Longrightarrow> runs R (if b then m1 else m2)"
  "runs R (l v) \<Longrightarrow> runs R (Let v l)"
  by (auto split: sum.split option.split prod.split)

lemma bnd_Done: "bnd m f s = (Done y, s2) \<longleftrightarrow> (\<exists>x s1. m s = (Done x, s1) \<and> f x s1 = (Done y, s2))"
  by (auto simp: bnd_def split: prod.splits flow.splits)

lemma done1_Done [simp]: "done1 x s = (Done y, s') \<longleftrightarrow> y = x \<and> s' = s"
  by (auto simp: done1_def)

lemma fail_Done [simp]: "fail c m s = (Done y, s') \<longleftrightarrow> False"
  by (simp add: fail_def)

text \<open>The wallet a call names: the empty id when the argument is null or not UTF-8.\<close>

definition arg_id :: "cptr \<Rightarrow> string" where
  "arg_id p = (case p of CNull \<Rightarrow> [] | CStr s \<Rightarrow> (case cstr_to_str s of None \<Rightarrow> [] | Some t \<Rightarrow> trim t))"

lemma utf8_arg_Done: "utf8_arg m p s = (Done t, s') \<Longrightarrow> t = arg_id p \<and> s' = s"
  by (auto simp: utf8_arg_def arg_id_def split: cptr.splits option.splits)

locale sending_frame =
  fixes i :: string and R :: "sender \<Rightarrow> sender \<Rightarrow> bool"
  assumes R_trans: "R s t \<Longrightarrow> R t u \<Longrightarrow> R s u"
    and R_same: "wd_store (sn_world s') = wd_store (sn_world s) \<Longrightarrow>
      wd_store_poisoned (sn_world s') = wd_store_poisoned (sn_world s) \<Longrightarrow> sn_sent s' = sn_sent s \<Longrightarrow> R s s'"
    and R_flag: "map_of (wd_store (sn_world s)) i = Some st \<Longrightarrow> flagged st st' \<Longrightarrow>
      wd_store (sn_world s') = hm_insert i st' (wd_store (sn_world s)) \<Longrightarrow>
      wd_store_poisoned (sn_world s') = wd_store_poisoned (sn_world s) \<Longrightarrow> sn_sent s' = sn_sent s \<Longrightarrow> R s s'"
begin

lemma R_refl: "R s s"
  by (rule R_same) simp_all

lemma runs_done1 [runs_intro]: "runs R (done1 x)"
  by (simp add: runs_def done1_def R_refl)

lemma runs_fail [runs_intro]: "runs R (fail c m)"
  by (simp add: runs_def fail_def R_refl)

lemma runs_ask [runs_intro]: "runs R (ask f)"
  by (simp add: runs_def ask_def R_same)

lemma runs_bnd [runs_intro]:
  assumes "runs R m" "\<And>x. runs R (f x)"
  shows "runs R (bnd m f)"
  unfolding runs_def
proof
  fix s
  obtain r s1 where m: "m s = (r, s1)" by fastforce
  have "R s s1" using assms(1) m unfolding runs_def by (metis snd_conv)
  moreover have "R s1 (snd (f x s1))" for x using assms(2) unfolding runs_def by blast
  ultimately show "R s (snd (bnd m f s))"
    by (cases r) (auto simp: bnd_def m intro: R_trans)
qed

lemma runs_bnd_Done:
  assumes "runs R m" "\<And>x s s1. m s = (Done x, s1) \<Longrightarrow> runs R (f x)"
  shows "runs R (bnd m f)"
  unfolding runs_def
proof
  fix s
  obtain r s1 where m: "m s = (r, s1)" by fastforce
  have "R s s1" using assms(1) m unfolding runs_def by (metis snd_conv)
  moreover have "R s1 (snd (f x s1))" if "r = Done x" for x
    using assms(2) [of s x s1] m that unfolding runs_def by blast
  ultimately show "R s (snd (bnd m f s))"
    by (cases r) (auto simp: bnd_def m intro: R_trans)
qed

lemma runs_catching [runs_intro]:
  assumes "runs R m" shows "runs R (catching m)"
  unfolding runs_def
proof
  fix s
  have "R s (snd (m s))" using assms unfolding runs_def by blast
  then show "R s (snd (catching m s))" by (cases "m s"; cases "fst (m s)") (simp_all add: catching_def)
qed

lemma runs_each [runs_intro]: "(\<And>x. runs R (f x)) \<Longrightarrow> runs R (each f xs)"
  by (induction xs) (auto intro!: runs_intro)

lemma runs_read_wallet [runs_intro]: "runs R (read_wallet j)"
  by (simp add: runs_def read_wallet_def R_refl)

lemma R_put: "map_of (wd_store (sn_world s)) i = Some st \<Longrightarrow> flagged st st' \<Longrightarrow>
    R s (s\<lparr>sn_world := put_wallet i st' (sn_world s)\<rparr>)"
  by (rule R_flag) (simp_all add: put_wallet_def)

lemma runs_change_flag [runs_intro]:
  assumes "\<And>st. flagged st (f st)" shows "runs R (change_wallet i f)"
  unfolding runs_def change_wallet_def
  by (auto simp: R_refl assms split: option.split intro: R_put)

lemma runs_quarantine_output [runs_intro]: "runs R (quarantine_output i t)"
  unfolding quarantine_output_def by (intro runs_intro flaggedI) simp

lemma runs_insert_quarantine [runs_intro]: "runs R (insert_quarantine i bad)"
  unfolding runs_def insert_quarantine_def
  by (auto simp: R_refl flaggedI split: option.split intro: R_put)

subsection \<open>Opening, inputs, selection, construction\<close>

lemma runs_wallet_snapshot [runs_intro]: "runs R (wallet_snapshot nm j)"
  unfolding wallet_snapshot_def by (intro runs_intro)

lemma runs_connect_daemon [runs_intro]: "runs R (connect_daemon sl nm url)"
  unfolding connect_daemon_def by (intro runs_intro)

lemma runs_daemon_tip [runs_intro]: "runs R (daemon_tip sl nm url)"
proof -
  have "runs R (\<lambda>s. let (time, _, w') = resolve_daemon_tip_timestamp ul pv st dl url (sn_world s) in
          (Done \<lparr>ds_height = h, ds_top_block_timestamp = time\<rparr>, s\<lparr>sn_world := w'\<rparr>))" for h ul pv st dl
    unfolding runs_def
    by (auto simp: resolve_daemon_tip_timestamp_def blocking_new_def set_last_error_def Let_def
        split: prod.split sum.split intro!: R_same)
  then show ?thesis unfolding daemon_tip_def by (intro runs_intro)
qed

lemma runs_spend_keys [runs_intro]: "runs R (spend_keys cr nm what keys)"
  unfolding spend_keys_def by (auto split: wallet_keys.split intro!: runs_intro)

lemma runs_query_fee_rate [runs_intro]: "runs R (query_fee_rate env sl nm url)"
  unfolding query_fee_rate_def by (auto split: sum.split fee_error.split intro!: runs_intro)

lemma runs_reconstruct [runs_intro]: "runs R (reconstruct sl cx tx t)"
  unfolding reconstruct_def by (intro runs_intro)

lemma runs_with_decoys [runs_intro]: "runs R (with_decoys env sl cx tx wo)"
  unfolding with_decoys_def choose_decoys_def by (intro runs_intro)

lemma runs_build_input [runs_intro]: "runs R (build_input env sl cx tx t)"
  unfolding build_input_def by (intro runs_intro)

lemma runs_construct [runs_intro]: "runs R (construct sl cx sp inputs)"
  unfolding construct_def by (intro runs_intro)

lemma runs_sign [runs_intro]: "runs R (sign_transaction_on_large_stack sl it k)"
  unfolding sign_transaction_on_large_stack_def by (intro runs_intro)

lemma runs_insufficient [runs_intro]: "runs R (insufficient nm what have need needed)"
  unfolding insufficient_def by (intro runs_intro)

lemma runs_checked_inputs [runs_intro]: "j = i \<Longrightarrow> runs R (checked_inputs env ko sl cx tx master j ts)"
  by (induction ts) (auto intro!: runs_intro)

lemma runs_select_round [runs_intro]: "sp_id sp = i \<Longrightarrow> runs R (select_round env ko sl cx tx sp outs sel)"
  unfolding select_round_def first_selection_def round_inputs_def by (auto intro!: runs_intro)

lemma runs_select_rounds [runs_intro]:
  assumes "\<And>sel. runs R (step sel)" shows "runs R (select_rounds step policy n sel)"
  by (induction n arbitrary: sel) (auto intro!: runs_intro assms split: round_out.split)

lemma runs_spendable_inputs [runs_intro]: "j = i \<Longrightarrow> runs R (spendable_inputs cr sl j snapshot daemon allow)"
  unfolding runs_def
proof (intro allI)
  fix s :: sender assume j: "j = i"
  define q where "q = (\<lambda>kis (w :: world). (rpc_is_key_image_spent sl (sn_calls s) kis, w))"
  obtain r w' where sp: "spendable cr i snapshot q (ds_height daemon) (ds_top_block_timestamp daemon) allow (sn_world s)
      = (r, w')" by fastforce
  have w': "w' = sn_world s \<or> (\<exists>st st'. map_of (wd_store (sn_world s)) i = Some st \<and> flagged st st' \<and>
      w' = put_wallet i st' (sn_world s))"
    using sp unfolding spendable_def reconcile_with_def q_def put_wallet_def Let_def
    by (auto split: if_splits option.splits sum.splits prod.splits intro: apply_statuses_flagged)
  have "R s (s\<lparr>sn_world := w', sn_calls := Suc (sn_calls s)\<rparr>)"
    using w'
  proof (elim disjE exE conjE)
    assume "w' = sn_world s"
    then show ?thesis by (intro R_same) simp_all
  next
    fix st st'
    assume "map_of (wd_store (sn_world s)) i = Some st" "flagged st st'" "w' = put_wallet i st' (sn_world s)"
    then show ?thesis by (intro R_flag [of s st st']) (simp_all add: put_wallet_def)
  qed
  then show "R s (snd (spendable_inputs cr sl j snapshot daemon allow s))"
    using sp by (simp add: spendable_inputs_def q_def j split: sum.split)
qed

lemma runs_final_transaction [runs_intro]: "runs R (final_transaction env sl cx tx sp outs)"
  unfolding final_transaction_def by (intro runs_intro)

subsection \<open>The calls up to the broadcast\<close>

lemma runs_utf8_arg [runs_intro]: "runs R (utf8_arg m p)"
  unfolding utf8_arg_def by (auto intro!: runs_intro split: cptr.split)

lemma runs_parse_pays [runs_intro]: "runs R (parse_pays sl nm t)"
  unfolding parse_pays_def by (intro runs_intro)

lemma runs_parse_filter [runs_intro]: "runs R (parse_filter sl nm p)"
  unfolding parse_filter_def by (intro runs_intro)

lemma runs_resolve_pays [runs_intro]: "runs R (resolve_pays sl nm net pays)"
  unfolding resolve_pays_def by (intro runs_intro)

lemma runs_subset_transaction [runs_intro]: "runs R (subset_transaction env sl cx sp part1)"
  unfolding subset_transaction_def by (intro runs_intro)

lemma runs_probe_candidate [runs_intro]: "runs R (probe_candidate env sl bad)"
  unfolding probe_candidate_def by (intro runs_intro)

lemma runs_bisect_candidate [runs_intro]: "j = i \<Longrightarrow> runs R (bisect_candidate env sl j all1 hi e)"
  unfolding bisect_candidate_def by (auto simp: Let_def intro!: runs_intro)

lemma runs_send_bisect [runs_intro]:
  assumes "\<And>part1. runs R (try1 part1)" shows "runs R (send_bisect try1 b all1 n lo hi e)"
  by (induction n arbitrary: lo hi e) (auto intro!: runs_intro assms simp: Let_def)

lemma runs_filter_bisect [runs_intro]:
  assumes "\<And>part1. runs R (try1 part1)" shows "runs R (filter_bisect try1 b all1 n lo hi)"
  by (induction n arbitrary: lo hi) (auto intro!: runs_intro assms simp: Let_def)

lemma runs_preview_sweep_filter [runs_intro]: "runs R (preview_sweep_filter sl nm p)"
  unfolding preview_sweep_filter_def by (intro runs_intro)

lemma runs_sweep_recipient [runs_intro]: "runs R (sweep_recipient sl nm net t)"
  unfolding sweep_recipient_def by (intro runs_intro)

lemma runs_sweepable [runs_intro]: "j = i \<Longrightarrow> runs R (sweepable cr sl j snapshot daemon f)"
  unfolding sweepable_def by (intro runs_intro)

lemma runs_above_dust [runs_intro]: "runs R (above_dust nm m outs)"
  unfolding above_dust_def nothing_to_sweep_def Let_def by (intro runs_intro)

lemma runs_sweep_rounds [runs_intro]:
  assumes "\<And>g. runs R (try1 g)" shows "runs R (sweep_rounds try1 fee_of nm n g it)"
  by (induction n arbitrary: g it) (auto intro!: runs_intro assms)

lemma runs_sweep_fee_loop [runs_intro]: "runs R (sweep_fee_loop sl op inputs)"
  unfolding sweep_fee_loop_def construct_sweep_def by (intro runs_intro)

lemma runs_cannot_pay_fee [runs_intro]: "runs R (cannot_pay_fee nm s f)"
  unfolding cannot_pay_fee_def by (intro runs_intro)

lemma runs_sweep_inputs [runs_intro]: "runs R (sweep_inputs env sl op)"
  unfolding sweep_inputs_def Let_def by (intro runs_intro)

lemma runs_within_budget [runs_intro]: "runs R (within_budget sl)"
  unfolding within_budget_def by (intro runs_intro)

lemma runs_sweep_subset_rounds [runs_intro]:
  assumes "\<And>g. runs R (try1 g)" shows "runs R (sweep_subset_rounds sl try1 n g it)"
  by (induction n arbitrary: g it) (auto intro!: runs_intro assms)

lemma runs_sweep_subset_transaction [runs_intro]: "runs R (sweep_subset_transaction env sl cx sp part1)"
  unfolding sweep_subset_transaction_def construct_sweep_def by (intro runs_intro)

lemma runs_preview_rounds [runs_intro]: "sp_id (op_plan op) = i \<Longrightarrow> runs R (preview_rounds env ko sl op)"
  unfolding preview_rounds_def by (auto simp: Let_def intro!: runs_intro split: rounds_end.split)

lemma runs_preview_body [runs_intro]: "sp_id (op_plan op) = i \<Longrightarrow> runs R (preview_body env ko sl op)"
  unfolding preview_body_def by (intro runs_intro)

lemma runs_preview_sweep_body [runs_intro]: "runs R (preview_sweep_body env sl op)"
  unfolding preview_sweep_body_def Let_def by (intro runs_intro)

lemma runs_id:
  "arg_id p = i \<Longrightarrow> runs R (f i) \<Longrightarrow> runs R (bnd (utf8_arg m p) f)"
  by (rule runs_bnd_Done) (auto dest: utf8_arg_Done intro: runs_utf8_arg)

lemma runs_open_payments:
  assumes "arg_id wallet_id = i"
  shows "runs R (open_payments cr env sl nm what subs policy wallet_id url dests f ring)"
  unfolding open_payments_def
  by (rule runs_splits(4), rule runs_fail, rule runs_id [OF assms]) (intro runs_intro; simp)

lemma runs_send_opening:
  assumes "arg_id wallet_id = i"
  shows "runs R (send_opening cr env sl wallet_id url to_address amt ring)"
  unfolding send_opening_def Let_def
  by (rule runs_splits(4), rule runs_fail, rule runs_id [OF assms]) (intro runs_intro; simp)

lemma runs_preview_sweep_opening:
  assumes "arg_id wallet_id = i"
  shows "runs R (preview_sweep_opening cr env sl wallet_id url to_address f ring)"
  unfolding preview_sweep_opening_def Let_def
  by (rule runs_splits(4), rule runs_fail, rule runs_id [OF assms]) (intro runs_intro; simp)

lemma runs_sweep_opening:
  assumes "arg_id wallet_id = i"
  shows "runs R (sweep_opening cr env sl wallet_id url to_address f ring)"
  unfolding sweep_opening_def Let_def
  by (rule runs_splits(4), rule runs_fail, rule runs_id [OF assms]) (intro runs_intro; simp)

end

section \<open>Broadcasts and reports\<close>

lemma record_report_booked: "booked st (record_report x st)"
proof -
  obtain o1 n where x: "x = (o1, n)" by force
  let ?q = "hs_insert (outpoint_of o1) (w_quarantine st)"
  let ?m = "update_first (\<lambda>x. outpoint_of x = outpoint_of o1) (\<lambda>x. x\<lparr>spent := True\<rparr>) (tracked_outputs st)"
  have "list_all2 marked_or_same outs (update_first p (\<lambda>x. x\<lparr>spent := True\<rparr>) outs)" for p outs
    by (induction outs) (auto simp: marked_or_same_def list.rel_refl)
  then have "booked st (st\<lparr>tracked_outputs := ?m, w_quarantine := ?q, w_unlocked := w_unlocked st\<rparr>)"
    by (rule bookedI)
  moreover have "booked st (st\<lparr>w_quarantine := ?q\<rparr>)" by (intro flagged_booked flaggedI) simp
  moreover have "record_report x st = (if n = 1 then st\<lparr>tracked_outputs := ?m, w_quarantine := ?q\<rparr>
      else st\<lparr>w_quarantine := ?q\<rparr>)"
    by (simp add: record_report_def x Let_def)
  ultimately show ?thesis by simp
qed

text \<open>A frame that looks at the store only, up to quarantine, unlocked balance and spent flags.\<close>

locale book_frame = sending_frame +
  assumes R_report: "map_of (wd_store (sn_world s)) i = Some st \<Longrightarrow> booked st st' \<Longrightarrow>
      R s (s\<lparr>sn_world := put_wallet i st' (sn_world s)\<rparr>)"
    and R_sent: "R s (s\<lparr>sn_calls := k, sn_sent := l\<rparr>)"
begin

lemma runs_broadcast [runs_intro]: "runs R (broadcast env sl url blob)"
  unfolding runs_def broadcast_def by (simp add: Let_def R_sent)

lemma runs_change_booked:
  assumes "\<And>st. booked st (f st)" shows "runs R (change_wallet i f)"
  unfolding runs_def change_wallet_def
  by (auto simp: R_refl assms split: option.split intro: R_report)

lemma runs_double_spend_sweep [runs_intro]: "j = i \<Longrightarrow> runs R (double_spend_sweep sl j tx selected)"
  unfolding double_spend_sweep_def Let_def
  by (auto intro!: runs_intro runs_change_booked record_report_booked)

lemma runs_try_subset [runs_intro]: "sp_id sp = i \<Longrightarrow> runs R (try_subset env sl cx sp selected part1)"
  unfolding try_subset_def Let_def by (intro runs_intro)

lemma runs_try_filter_subset [runs_intro]: "runs R (try_filter_subset env sl cx sp part1)"
  unfolding try_filter_subset_def by (intro runs_intro)

lemma runs_try_sweep_subset [runs_intro]: "runs R (try_sweep_subset env sl cx sp part1)"
  unfolding try_sweep_subset_def by (intro runs_intro)

lemma runs_refused_broadcast [runs_intro]:
  "sp_id sp = i \<Longrightarrow> runs R (refused_broadcast env sl cx sp max_retries attempt q selected tx e)"
  unfolding refused_broadcast_def Let_def by (intro runs_intro)

lemma runs_filter_refused [runs_intro]: "runs R (filter_refused env sl cx sp selected e)"
  unfolding filter_refused_def Let_def by (intro runs_intro)

lemma runs_sweep_refused [runs_intro]: "runs R (sweep_refused env sl op e)"
  unfolding sweep_refused_def Let_def by (intro runs_intro)

text \<open>\<open>keeps_unless Q m\<close>: the relation holds unless \<open>m\<close> ends with a value of \<open>Q\<close>.\<close>

definition keeps_unless :: "('a \<Rightarrow> bool) \<Rightarrow> 'a sending \<Rightarrow> bool" where
  "keeps_unless Q m \<longleftrightarrow> (\<forall>s. (\<exists>x. fst (m s) = Done x \<and> Q x) \<or> R s (snd (m s)))"

lemma keeps_runs: "runs R m \<Longrightarrow> keeps_unless Q m"
  by (simp add: keeps_unless_def runs_def)

lemma keeps_bnd:
  assumes "runs R m" "\<And>x s s1. m s = (Done x, s1) \<Longrightarrow> keeps_unless Q (f x)"
  shows "keeps_unless Q (bnd m f)"
  unfolding keeps_unless_def
proof
  fix s
  obtain r s1 where m: "m s = (r, s1)" by fastforce
  have "R s s1" using assms(1) m unfolding runs_def by (metis snd_conv)
  moreover have "(\<exists>y. fst (f x s1) = Done y \<and> Q y) \<or> R s1 (snd (f x s1))" if "r = Done x" for x
    using assms(2) [of s x s1] m that unfolding keeps_unless_def by blast
  ultimately show "(\<exists>x. fst (bnd m f s) = Done x \<and> Q x) \<or> R s (snd (bnd m f s))"
    by (cases r) (auto simp: bnd_def m intro: R_trans)
qed

lemma keeps_bnd_value:
  assumes "keeps_unless Q m" "\<And>x. Q x \<Longrightarrow> \<exists>y. f x = done1 y \<and> Q' y" "\<And>x. \<not> Q x \<Longrightarrow> keeps_unless Q' (f x)"
  shows "keeps_unless Q' (bnd m f)"
  unfolding keeps_unless_def
proof
  fix s
  obtain r s1 where m: "m s = (r, s1)" by fastforce
  have k: "(\<exists>x. r = Done x \<and> Q x) \<or> R s s1" using assms(1) m unfolding keeps_unless_def by (metis fst_conv snd_conv)
  show "(\<exists>x. fst (bnd m f s) = Done x \<and> Q' x) \<or> R s (snd (bnd m f s))"
  proof (cases "\<exists>x. r = Done x \<and> Q x")
    case True
    then obtain x y where "r = Done x" "f x = done1 y" "Q' y" using assms(2) by blast
    then show ?thesis by (simp add: bnd_def m done1_def)
  next
    case False
    then have "R s s1" using k by blast
    moreover have "(\<exists>y. fst (f x s1) = Done y \<and> Q' y) \<or> R s1 (snd (f x s1))" if "r = Done x" for x
      using assms(3) [of x] False that unfolding keeps_unless_def by blast
    ultimately show ?thesis by (cases r) (auto simp: bnd_def m intro: R_trans)
  qed
qed

lemma keeps_change_then:
  assumes "\<And>s. \<not> wd_store_poisoned (sn_world s) \<Longrightarrow> \<exists>x. fst (f () s) = Done x \<and> Q x"
  shows "keeps_unless Q (bnd (change_wallet j g) f)"
  unfolding keeps_unless_def bnd_def change_wallet_def
  using assms by (auto simp: R_refl put_wallet_def split: option.split prod.split flow.split)

end

section \<open>The two frames\<close>

interpretation qf: sending_frame i "quiet i" for i
proof
  show "quiet i s u" if "quiet i s t" "quiet i t u" for s t u
    using that store_moves_trans [OF flagged_trans] by (auto simp: quiet_def)
  show "quiet i s s'" if "wd_store (sn_world s') = wd_store (sn_world s)"
    "wd_store_poisoned (sn_world s') = wd_store_poisoned (sn_world s)" "sn_sent s' = sn_sent s" for s s'
    using that by (simp add: quiet_def store_moves_refl)
  show "quiet i s s'" if "map_of (wd_store (sn_world s)) i = Some st" "flagged st st'"
    "wd_store (sn_world s') = hm_insert i st' (wd_store (sn_world s))"
    "wd_store_poisoned (sn_world s') = wd_store_poisoned (sn_world s)" "sn_sent s' = sn_sent s" for s s' st st'
    using that store_moves_insert by (simp add: quiet_def)
qed

interpretation bf: book_frame i "books_kept i" for i
proof
  show "books_kept i s u" if "books_kept i s t" "books_kept i t u" for s t u
    using that store_moves_trans [OF booked_trans] by (auto simp: books_kept_def)
  show "books_kept i s s'" if "wd_store (sn_world s') = wd_store (sn_world s)"
    "wd_store_poisoned (sn_world s') = wd_store_poisoned (sn_world s)" "sn_sent s' = sn_sent s" for s s'
    using that by (simp add: books_kept_def store_moves_refl)
  show "books_kept i s s'" if "map_of (wd_store (sn_world s)) i = Some st" "flagged st st'"
    "wd_store (sn_world s') = hm_insert i st' (wd_store (sn_world s))"
    "wd_store_poisoned (sn_world s') = wd_store_poisoned (sn_world s)" "sn_sent s' = sn_sent s" for s s' st st'
    using store_moves_insert [of _ i st booked, OF that(1) flagged_booked [OF that(2)] that(3,4)]
    by (simp add: books_kept_def)
  show "books_kept i s (s\<lparr>sn_world := put_wallet i st' (sn_world s)\<rparr>)"
    if "map_of (wd_store (sn_world s)) i = Some st" "booked st st'" for s st st'
    using that store_moves_insert [of _ i st booked] by (simp add: books_kept_def put_wallet_def)
  show "books_kept i s (s\<lparr>sn_calls := k, sn_sent := l\<rparr>)" for s k l
    by (simp add: books_kept_def store_moves_refl)
qed

end
