(* ===== verification/Send_Correct.thy ===== *)
theory Send_Correct
  imports Send_Frame
begin

text \<open>
  What sends, previews and sweeps guarantee: prepared transactions and previews broadcast nothing, a send
  that does not report a transaction keeps the books, the selection covers what it has to pay, a
  reported transaction was accepted by the daemon and is recorded once, and its outputs and totals agree.
\<close>

section \<open>Preparing and previewing\<close>

context sending_frame begin

lemma runs_prepare_settle:
  "runs R (settle_attempt cr env sl cx tt sp True max_retries attempt q snapshot selected)"
  unfolding settle_attempt_def by (intro runs_intro) simp_all

lemma runs_prepare_attempt:
  "sp_id sp = i \<Longrightarrow> runs R (send_attempt cr env ko sl cx tt sp daemon True max_retries attempt q snapshot)"
  unfolding send_attempt_def by (intro runs_intro runs_prepare_settle)

lemma runs_send_attempts:
  assumes "\<And>a q st. runs R (run a q st)"
  shows "runs R (send_attempts run nm j max_retries n attempt q snapshot)"
  by (induction n arbitrary: attempt q snapshot) (auto intro!: runs_intro assms split: attempt_out.split)

end

lemma wallet_snapshot_Done:
  "wallet_snapshot nm i s = (Done st, s') \<longleftrightarrow>
     s' = s \<and> \<not> wd_store_poisoned (sn_world s) \<and> map_of (wd_store (sn_world s)) i = Some st"
  by (auto simp: wallet_snapshot_def read_wallet_def bnd_Done split: option.splits if_splits)

lemma spend_keys_Done: "spend_keys cr nm what keys s = (Done r, s') \<Longrightarrow> \<not> is_sealed keys \<and> s' = s"
  by (auto simp: spend_keys_def split: wallet_keys.splits sum.splits)

lemma send_opening_Done:
  assumes "send_opening cr env sl wallet_id url to_address amt ring s = (Done (cx, sp, daemon, snapshot), s')"
  shows "sp_id sp = arg_id wallet_id" "sp_needed sp = amt" "sp_policy sp = Restart_Attempt"
    "cx_url cx = daemon_base_url env url" "map_of (wd_store (sn_world s)) (arg_id wallet_id) = Some snapshot"
    "\<not> is_sealed (w_keys snapshot)"
  using assms unfolding send_opening_def Let_def
  by (auto simp: bnd_Done wallet_snapshot_Done dest!: spend_keys_Done dest!: utf8_arg_Done split: if_splits prod.splits option.splits)

context sending_frame begin

lemma runs_prepare_send:
  assumes "arg_id wallet_id = i"
  shows "runs R (wallet_send_body cr env ko sl wallet_id url to_address amt ring True)"
  unfolding wallet_send_body_def Let_def
  by (rule runs_bnd_Done [OF runs_send_opening [OF assms]])
    (auto intro!: runs_send_attempts runs_prepare_attempt simp: assms simp del: send_attempts.simps
      dest!: send_opening_Done(1) split: prod.split)

end

lemma open_payments_id:
  assumes "open_payments cr env sl nm what subs policy wallet_id url dests f ring s = (Done op, s')"
  shows "sp_id (op_plan op) = arg_id wallet_id" "sp_policy (op_plan op) = policy"
  using assms unfolding open_payments_def Let_def
  by (auto simp: bnd_Done dest!: utf8_arg_Done split: if_splits prod.splits)

lemma preview_sweep_opening_id:
  assumes "preview_sweep_opening cr env sl wallet_id url to_address f ring s = (Done op, s')"
  shows "sp_id (op_plan op) = arg_id wallet_id"
  using assms unfolding preview_sweep_opening_def Let_def
  by (auto simp: bnd_Done sweep_plan_def dest!: utf8_arg_Done split: if_splits prod.splits)

lemma sweep_opening_id:
  assumes "sweep_opening cr env sl wallet_id url to_address f ring s = (Done op, s')"
  shows "sp_id (op_plan op) = arg_id wallet_id"
  using assms unfolding sweep_opening_def Let_def
  by (auto simp: bnd_Done sweep_plan_def dest!: utf8_arg_Done split: if_splits prod.splits)

context sending_frame begin

lemma runs_filter_rounds: "sp_id (op_plan op) = i \<Longrightarrow> runs R (filter_rounds env ko sl op)"
  unfolding filter_rounds_def by (intro runs_intro)

lemma runs_prepare_filter_settle: "runs R (filter_settle cr env sl op True selected)"
  unfolding filter_settle_def Let_def by (intro runs_intro) simp_all

lemma runs_prepare_filter:
  assumes "arg_id wallet_id = i"
  shows "runs R (bnd (send_filter_opening cr env sl wallet_id url dests f ring) (\<lambda>op.
    bnd (filter_rounds env ko sl op) (\<lambda>r. filter_settle cr env sl op True (opt_get_or [] (selected_of r)))))"
  unfolding send_filter_opening_def
  by (rule runs_bnd_Done [OF runs_open_payments [OF assms]])
    (auto intro!: runs_bnd runs_filter_rounds runs_prepare_filter_settle simp: assms dest!: open_payments_id(1))

lemma runs_preview:
  assumes "arg_id wallet_id = i"
  shows "runs R (bnd (preview_opening cr env sl wallet_id url dests ring) (preview_body env ko sl))"
    and "runs R (bnd (preview_filter_opening cr env sl wallet_id url dests f ring) (preview_body env ko sl))"
  unfolding preview_opening_def preview_filter_opening_def
  by (rule runs_bnd_Done [OF runs_open_payments [OF assms]],
      auto intro!: runs_preview_body simp: assms dest!: open_payments_id(1))+

lemma runs_preview_sweep:
  assumes "arg_id wallet_id = i"
  shows "runs R (bnd (preview_sweep_opening cr env sl wallet_id url to_address f ring) (preview_sweep_body env sl))"
  by (intro runs_bnd runs_preview_sweep_opening [OF assms] runs_preview_sweep_body)

lemma runs_prepare_sweep_body: "runs R (sweep_body cr env sl True op)"
  unfolding sweep_body_def Let_def by (intro runs_intro) simp_all

lemma runs_prepare_sweep:
  assumes "arg_id wallet_id = i"
  shows "runs R (bnd (sweep_opening cr env sl wallet_id url to_address f ring) (sweep_body cr env sl True))"
  by (intro runs_bnd runs_sweep_opening [OF assms] runs_prepare_sweep_body)

end

text \<open>A call whose computation is quiet.\<close>

definition quiet_call :: "cptr \<Rightarrow> world \<Rightarrow> ('a option outcome \<times> world) \<times> (string \<times> bytes) list \<Rightarrow> bool" where
  "quiet_call wallet_id w res \<longleftrightarrow> snd res = [] \<and> store_moves flagged (arg_id wallet_id) w (snd (fst res))"

lemma store_moves_errors [simp]:
  "store_moves Q i (clear_last_error w) w' = store_moves Q i w w'"
  "store_moves Q i w (clear_last_error w') = store_moves Q i w w'"
  "store_moves Q i w (set_last_error m w') = store_moves Q i w w'"
  by (simp_all add: store_moves_def clear_last_error_def set_last_error_def)

lemma run_sending_quiet: "runs (quiet (arg_id wallet_id)) m \<Longrightarrow> quiet_call wallet_id w (run_sending m w)"
  unfolding runs_def quiet_call_def run_sending_def quiet_def null_ptr_def
  by (auto simp: Let_def split: prod.split flow.split dest!: spec [of _ "\<lparr>sn_world = clear_last_error w, sn_calls = 0, sn_sent = []\<rparr>"])

lemma prepared_calls_are_quiet:
  "quiet_call wallet_id w (wallet_send_impl cr env ko sl wallet_id url to_address amt ring True w)"
  "quiet_call wallet_id w (wallet_send_with_filter_impl cr env ko sl wallet_id url dests f ring True w)"
  "quiet_call wallet_id w (wallet_sweep_with_filter_impl cr env sl wallet_id url to_address f ring True w)"
  unfolding wallet_send_impl_def wallet_send_with_filter_impl_def wallet_sweep_with_filter_impl_def
  by (intro run_sending_quiet qf.runs_prepare_send qf.runs_prepare_filter qf.runs_prepare_sweep refl)+

lemma previews_are_quiet:
  "quiet_call wallet_id w (wallet_preview_fee_impl cr env ko sl wallet_id url dests ring w)"
  "quiet_call wallet_id w (wallet_preview_fee_with_filter_impl cr env ko sl wallet_id url dests f ring w)"
  "quiet_call wallet_id w (wallet_preview_sweep_with_filter_impl cr env sl wallet_id url to_address f ring w)"
  unfolding wallet_preview_fee_impl_def wallet_preview_fee_with_filter_impl_def wallet_preview_sweep_with_filter_impl_def
  by (intro run_sending_quiet qf.runs_preview qf.runs_preview_sweep refl)+

section \<open>Calls that report no transaction\<close>

context book_frame begin

lemma change_wallet_then:
  "\<not> wd_store_poisoned (sn_world s) \<Longrightarrow> fst (bnd (change_wallet j f) (\<lambda>_. done1 x) s) = Done x"
  by (auto simp: change_wallet_def put_wallet_def bnd_def done1_def split: option.split)

lemma keeps_accepted: "keeps_unless (\<lambda>a. \<exists>h f. a = Answer (Sent_Answer h f)) (accepted_broadcast sp selected tx fee)"
  unfolding accepted_broadcast_def Let_def
  by (rule keeps_change_then) (simp add: change_wallet_then)

lemma keeps_filter_accepted: "keeps_unless (\<lambda>a. \<exists>h f. a = Sent_Answer h f) (filter_accepted sp selected tx fee)"
  unfolding filter_accepted_def by (rule keeps_change_then) (simp add: done1_def)

lemma keeps_sweep_accepted: "keeps_unless (\<lambda>a. \<exists>h x f. a = Sweep_Sent h x f) (sweep_accepted op tx amt fee)"
  unfolding sweep_accepted_def Let_def
  by (rule keeps_change_then) (simp add: change_wallet_then)

lemma keeps_broadcast_then:
  assumes "\<And>e. runs R (m1 e)" "keeps_unless Q m2"
  shows "keeps_unless Q (bnd (broadcast env sl url blob) (\<lambda>b. case b of Inl e \<Rightarrow> m1 e | Inr _ \<Rightarrow> m2))"
  by (rule keeps_bnd [OF runs_broadcast]) (auto intro: keeps_runs assms split: sum.split)

lemma keeps_settle:
  assumes "sp_id sp = i"
  shows "keeps_unless (\<lambda>a. \<exists>h f. a = Answer (Sent_Answer h f))
    (settle_attempt cr env sl cx tt sp prepare max_retries attempt q snapshot selected)"
proof (cases prepare)
  case True
  then show ?thesis by (simp add: keeps_runs runs_prepare_settle)
next
  case False
  then show ?thesis unfolding settle_attempt_def
    by (auto intro!: keeps_bnd [OF runs_final_transaction] keeps_broadcast_then keeps_accepted
        runs_refused_broadcast assms split: prod.split)
qed

lemma keeps_attempt:
  assumes "sp_id sp = i"
  shows "keeps_unless (\<lambda>a. \<exists>h f. a = Answer (Sent_Answer h f))
    (send_attempt cr env ko sl cx tt sp daemon prepare max_retries attempt q snapshot)"
  unfolding send_attempt_def
  by (auto intro!: keeps_bnd runs_intro keeps_settle keeps_runs [OF runs_done1] simp: assms split: option.split)

lemma keeps_attempts:
  assumes "\<And>a q st. keeps_unless (\<lambda>x. \<exists>h f. x = Answer (Sent_Answer h f)) (run a q st)"
  shows "keeps_unless (\<lambda>x. \<exists>h f. x = Sent_Answer h f) (send_attempts run nm j max_retries n attempt q snapshot)"
proof (induction n arbitrary: attempt q snapshot)
  case 0
  then show ?case by (simp add: keeps_runs runs_fail)
next
  case (Suc n)
  show ?case
    unfolding send_attempts.simps
    by (rule keeps_bnd, intro runs_intro, rule keeps_bnd_value [OF assms])
      (auto split: attempt_out.split intro: keeps_runs runs_done1 Suc.IH)
qed

lemma keeps_cases:
  "(b \<Longrightarrow> keeps_unless Q m1) \<Longrightarrow> (\<not> b \<Longrightarrow> keeps_unless Q m2) \<Longrightarrow> keeps_unless Q (if b then m1 else m2)"
  "(o1 = None \<Longrightarrow> keeps_unless Q' a) \<Longrightarrow> (\<And>x. o1 = Some x \<Longrightarrow> keeps_unless Q' (h x)) \<Longrightarrow>
     keeps_unless Q' (case o1 of None \<Rightarrow> a | Some x \<Rightarrow> h x)"
  "(\<And>x y. p = (x, y) \<Longrightarrow> keeps_unless Q'' (k x y)) \<Longrightarrow> keeps_unless Q'' (case p of (x, y) \<Rightarrow> k x y)"
  by (auto split: option.split prod.split)

lemma keeps_send:
  assumes "arg_id wallet_id = i"
  shows "keeps_unless (\<lambda>x. \<exists>h f. x = Sent_Answer h f)
    (wallet_send_body cr env ko sl wallet_id url to_address amt ring prepare)"
  unfolding wallet_send_body_def Let_def
  by (rule keeps_bnd [OF runs_send_opening [OF assms]])
    (auto intro!: keeps_attempts keeps_attempt simp: assms simp del: send_attempts.simps
      dest!: send_opening_Done(1) split: prod.split)

lemma keeps_filter_settle:
  assumes "sp_id (op_plan op) = i"
  shows "keeps_unless (\<lambda>x. \<exists>h f. x = Sent_Answer h f) (filter_settle cr env sl op prepare selected)"
  unfolding filter_settle_def Let_def
  by (auto intro!: keeps_bnd [OF runs_final_transaction] keeps_broadcast_then keeps_filter_accepted
      runs_filter_refused keeps_runs [OF runs_done1] split: prod.split)

lemma keeps_filter_send:
  assumes "arg_id wallet_id = i"
  shows "keeps_unless (\<lambda>x. \<exists>h f. x = Sent_Answer h f)
    (bnd (send_filter_opening cr env sl wallet_id url dests f ring) (\<lambda>op.
     bnd (filter_rounds env ko sl op) (\<lambda>r. filter_settle cr env sl op prepare (opt_get_or [] (selected_of r)))))"
  unfolding send_filter_opening_def
  by (rule keeps_bnd [OF runs_open_payments [OF assms]])
    (auto intro!: keeps_bnd runs_filter_rounds keeps_filter_settle simp: assms dest!: open_payments_id(1))

lemma keeps_sweep_body:
  "keeps_unless (\<lambda>x. \<exists>h a f. x = Sweep_Sent h a f) (sweep_body cr env sl prepare op)"
  unfolding sweep_body_def Let_def
  by (intro keeps_bnd runs_sweep_inputs runs_sweep_fee_loop keeps_cases keeps_runs [OF runs_cannot_pay_fee]
      keeps_runs [OF runs_fail] runs_sign)
    (auto intro!: keeps_cases keeps_broadcast_then keeps_sweep_accepted runs_sweep_refused
      keeps_runs [OF runs_done1] keeps_runs [OF runs_fail] split: sum.split)

lemma keeps_sweep:
  assumes "arg_id wallet_id = i"
  shows "keeps_unless (\<lambda>x. \<exists>h a f. x = Sweep_Sent h a f)
    (bnd (sweep_opening cr env sl wallet_id url to_address f ring) (sweep_body cr env sl prepare))"
  by (intro keeps_bnd runs_sweep_opening [OF assms] keeps_sweep_body)

end

lemma run_sending_keeps:
  assumes "bf.keeps_unless (arg_id wallet_id) Q m"
  shows "(\<exists>x. fst (fst (run_sending m w)) = Value (Some x) \<and> Q x) \<or>
    store_moves booked (arg_id wallet_id) w (snd (fst (run_sending m w)))"
proof -
  let ?s = "\<lparr>sn_world = clear_last_error w, sn_calls = 0, sn_sent = []\<rparr>"
  obtain r s' where m: "m ?s = (r, s')" by fastforce
  have "(\<exists>x. r = Done x \<and> Q x) \<or> books_kept (arg_id wallet_id) ?s s'"
    using assms m unfolding bf.keeps_unless_def by (metis fst_conv snd_conv)
  then show ?thesis
    by (cases r) (auto simp: run_sending_def m books_kept_def null_ptr_def)
qed

lemma unreported_calls_keep_the_books:
  "(\<exists>h f. fst (fst (wallet_send_impl cr env ko sl wallet_id url to_address amt ring prepare w)) = Value (Some (Sent_Answer h f))) \<or>
   store_moves booked (arg_id wallet_id) w (snd (fst (wallet_send_impl cr env ko sl wallet_id url to_address amt ring prepare w)))"
  "(\<exists>h f. fst (fst (wallet_send_with_filter_impl cr env ko sl wallet_id url dests flt ring prepare w)) = Value (Some (Sent_Answer h f))) \<or>
   store_moves booked (arg_id wallet_id) w (snd (fst (wallet_send_with_filter_impl cr env ko sl wallet_id url dests flt ring prepare w)))"
  "(\<exists>h a f. fst (fst (wallet_sweep_with_filter_impl cr env sl wallet_id url to_address flt ring prepare w)) = Value (Some (Sweep_Sent h a f))) \<or>
   store_moves booked (arg_id wallet_id) w (snd (fst (wallet_sweep_with_filter_impl cr env sl wallet_id url to_address flt ring prepare w)))"
  using run_sending_keeps [OF bf.keeps_send [OF refl]] run_sending_keeps [OF bf.keeps_filter_send [OF refl]]
    run_sending_keeps [OF bf.keeps_sweep [OF refl]]
  unfolding wallet_send_impl_def wallet_send_with_filter_impl_def wallet_sweep_with_filter_impl_def by fast+

section \<open>The selection\<close>

text \<open>Outputs that may be spent together, and their sum.\<close>

definition sel_ok :: "tracked_output list \<Rightarrow> selection \<Rightarrow> bool" where
  "sel_ok outs sel \<longleftrightarrow> distinct (map outpoint_of (fst sel)) \<and> set (fst sel) \<subseteq> set outs \<and>
     snd sel = sat_sum (map amount (fst sel))"

lemma sel_ok_empty [simp]: "sel_ok outs ([], 0)"
  by (simp add: sel_ok_def)

lemma is_selected_iff: "is_selected sel o1 \<longleftrightarrow> outpoint_of o1 \<in> outpoint_of ` set (fst sel)"
  by (simp add: is_selected_def list_ex_iff image_iff) (rule bex_cong [OF refl eq_commute])

lemma pick_ok: "sel_ok outs sel \<Longrightarrow> o1 \<in> set outs \<Longrightarrow> \<not> is_selected sel o1 \<Longrightarrow> sel_ok outs (pick o1 sel)"
  by (simp add: sel_ok_def pick_def is_selected_iff sat_sum_snoc)

lemma pick_until_ok:
  "sel_ok outs sel \<Longrightarrow> set xs \<subseteq> set outs \<Longrightarrow> distinct (map outpoint_of xs) \<Longrightarrow> \<forall>x \<in> set xs. \<not> is_selected sel x \<Longrightarrow>
     sel_ok outs (pick_until needed xs sel)"
proof (induction xs arbitrary: sel)
  case (Cons x xs)
  have "\<forall>y \<in> set xs. \<not> is_selected (pick x sel) y"
    using Cons.prems(3,4) by (auto simp: is_selected_iff pick_def image_iff)
  then show ?case using Cons by (simp add: Let_def pick_ok)
qed simp

lemma pick_one_ok: "sel_ok outs sel \<Longrightarrow> set xs \<subseteq> set outs \<Longrightarrow> pick_one xs sel = Some sel' \<Longrightarrow> sel_ok outs sel'"
  by (induction xs) (auto simp: pick_ok split: if_splits)

lemma pick_more_ok:
  "sel_ok outs sel \<Longrightarrow> set xs \<subseteq> set outs \<Longrightarrow> pick_more needed xs sel added = Some sel' \<Longrightarrow> sel_ok outs sel'"
proof (induction xs arbitrary: sel added)
  case (Cons x xs)
  show ?case
  proof (cases "is_selected sel x")
    case False
    then have ok: "sel_ok outs (pick x sel)" using Cons.prems by (simp add: pick_ok)
    show ?thesis
    proof (cases "needed \<le> snd (pick x sel)")
      case True
      then have "sel' = pick x sel" using Cons.prems(3) False by (simp add: Let_def)
      then show ?thesis using ok by simp
    next
      case less: False
      then show ?thesis using Cons.IH [OF ok, of True] Cons.prems False by (simp add: Let_def)
    qed
  qed (use Cons in simp)
qed (auto split: if_splits)

lemma first_selection_ok:
  "first_selection sp outs sel s = (Done sel', s') \<Longrightarrow> sel_ok outs sel \<Longrightarrow> distinct (map outpoint_of outs) \<Longrightarrow> sel_ok outs sel'"
  using pick_until_ok [of outs sel outs "sp_needed sp"]
  by (auto simp: first_selection_def Let_def insufficient_def is_selected_iff split: if_splits)

lemma each_length: "each f xs s = (Done ys, s') \<Longrightarrow> length ys = length xs"
  by (induction xs arbitrary: ys s s') (auto simp: bnd_Done)

lemma checked_inputs_length:
  "checked_inputs env ko sl cx tx master i ts s = (Done (Some inputs), s') \<Longrightarrow> length inputs = length ts"
proof (induction ts arbitrary: inputs s s')
  case (Cons t ts)
  then show ?case by (fastforce simp: bnd_Done split: if_splits dest!: sym [of "Some _"])
qed simp

lemma round_inputs_length: "round_inputs env ko sl cx tx sp sel s = (Done (Some inputs), s') \<Longrightarrow> length inputs = length (fst sel)"
  by (auto simp: round_inputs_def bnd_Done dest: each_length checked_inputs_length split: if_splits)

text \<open>What a round, and the rounds, end with.\<close>

definition covers :: "('i, 'n) send_lib \<Rightarrow> spend_ctx \<Rightarrow> spend_plan \<Rightarrow> tracked_output list \<Rightarrow> selection \<Rightarrow> u64 \<Rightarrow> bool" where
  "covers sl cx sp outs sel fee \<longleftrightarrow>
     sel_ok outs sel \<and> sat_add (sp_needed sp) fee \<le> snd sel \<and>
     (\<exists>inputs k intent. length inputs = length (fst sel) \<and>
        sl_construct sl inputs (sp_pays sp) (cx_pair cx) (sp_rate sp) k = Inr intent \<and> fee = sl_fee sl intent)"

lemma select_round_ok:
  assumes "select_round env ko sl cx tx sp outs sel s = (Done r, s')" "sel_ok outs sel" "distinct (map outpoint_of outs)"
  shows "case r of Mismatch \<Rightarrow> True | Retry_With sel' \<Rightarrow> sel_ok outs sel' | Enough sel' fee \<Rightarrow> covers sl cx sp outs sel' fee"
proof -
  obtain sel1 s1 inputs s2 where first: "first_selection sp outs sel s = (Done sel1, s1)"
    and ins: "round_inputs env ko sl cx tx sp sel1 s1 = (Done inputs, s2)"
    using assms(1) by (auto simp: select_round_def bnd_Done)
  have ok: "sel_ok outs sel1" using first_selection_ok [OF first assms(2,3)] .
  show ?thesis
  proof (cases inputs)
    case None
    then show ?thesis using assms(1) first ins by (simp add: select_round_def bnd_Done)
  next
    case (Some ys)
    then have len: "length ys = length (fst sel1)" using ins round_inputs_length by blast
    show ?thesis using assms(1) first ins Some ok len
      by (auto simp: select_round_def bnd_Done construct_def ask_def insufficient_def covers_def Let_def
          split: sum.splits if_splits option.splits dest: pick_one_ok pick_more_ok)
  qed
qed

lemma select_rounds_ok:
  assumes "select_rounds (select_round env ko sl cx tx sp outs) policy n sel s = (Done r, s')" "sel_ok outs sel"
    "distinct (map outpoint_of outs)"
  shows "case r of Restarted \<Rightarrow> True | Found sel' fee \<Rightarrow> covers sl cx sp outs sel' fee | Exhausted sel' \<Rightarrow> sel_ok outs sel'"
  using assms(1,2)
proof (induction n arbitrary: sel s)
  case (Suc n)
  obtain r1 s1 where r1: "select_round env ko sl cx tx sp outs sel s = (Done r1, s1)"
    and rest: "(case r1 of Enough sel' fee \<Rightarrow> done1 (Found sel' fee)
      | Retry_With sel' \<Rightarrow> select_rounds (select_round env ko sl cx tx sp outs) policy n sel'
      | Mismatch \<Rightarrow> if policy = Restart_Attempt then done1 Restarted
          else select_rounds (select_round env ko sl cx tx sp outs) policy n ([], 0)) s1 = (Done r, s')"
    using Suc.prems(1) by (auto simp: bnd_Done)
  show ?case
    using select_round_ok [OF r1 Suc.prems(2) assms(3)] rest Suc.IH
    by (cases r1) (auto split: if_splits)
qed simp

section \<open>What an accepted send records\<close>

lemma find_own_outpoint:
  "distinct (map outpoint_of outs) \<Longrightarrow> t \<in> set outs \<Longrightarrow> find (\<lambda>o1. outpoint_of o1 = outpoint_of t) outs = Some t"
  by (induction outs) (auto simp: image_iff)

lemma map_outpoint_marked [simp]:
  "map outpoint_of (update_first p (mark_tracked_output_spent x) outs) = map outpoint_of outs"
  by (induction outs) auto

lemma unmarked_stays:
  "t' \<in> set outs \<Longrightarrow> \<not> p t' \<Longrightarrow> t' \<in> set (update_first p (mark_tracked_output_spent x) outs)"
  by (induction outs) auto

lemma map_mark_selected:
  "map outpoint_of (mark_selected txid selected outs) = map outpoint_of outs"
  unfolding mark_selected_def by (induction selected arbitrary: outs) simp_all

text \<open>Marking distinct unspent outputs takes exactly their amounts off the unspent sum.\<close>

lemma mark_selected_sum:
  "distinct (map outpoint_of outs) \<Longrightarrow> distinct (map outpoint_of selected) \<Longrightarrow>
     \<forall>t \<in> set selected. t \<in> set outs \<and> \<not> spent t \<Longrightarrow>
     unspent_sum (mark_selected txid selected outs) + sum_list (map amount selected) = unspent_sum outs"
proof (induction selected arbitrary: outs)
  case Nil
  then show ?case by (simp add: mark_selected_def)
next
  case (Cons t ts)
  let ?outs = "update_first (\<lambda>o1. outpoint_of o1 = outpoint_of t) (mark_tracked_output_spent (Some txid)) outs"
  have "outpoint_of t' \<noteq> outpoint_of t" if "t' \<in> set ts" for t'
    using Cons.prems(2) that by (metis distinct.simps(2) image_eqI list.map(2) set_map)
  then have "\<forall>t' \<in> set ts. t' \<in> set ?outs \<and> \<not> spent t'"
    using Cons.prems(3) by (auto intro!: unmarked_stays)
  then have "unspent_sum (mark_selected txid ts ?outs) + sum_list (map amount ts) = unspent_sum ?outs"
    using Cons.IH [of ?outs] Cons.prems by simp
  moreover have "unspent_sum ?outs + amount t = unspent_sum outs"
    using unspent_sum_mark find_own_outpoint [OF Cons.prems(1)] Cons.prems(3) by simp
  ultimately show ?case by (simp add: mark_selected_def)
qed


lemma record_sent_simps:
  "tracked_outputs (record_sent txid selected st) = mark_selected txid selected (tracked_outputs st)"
  "w_total (record_sent txid selected st) = w_total st - sum_list (map amount selected) mod 2 ^ 64"
  "w_tx_ledger (record_sent txid selected st) = w_tx_ledger st"
  "w_pending_outgoing (record_sent txid selected st) = w_pending_outgoing st"
  "w_chain_time (record_sent txid selected st) = w_chain_time st"
  by (simp_all add: record_sent_def Let_def sat_sub_def)

lemma record_pending_simps:
  "tracked_outputs (record_pending hex amt fee st) = tracked_outputs st"
  "w_total (record_pending hex amt fee st) = w_total st"
  by (simp_all add: record_pending_def)

lemma record_sent_total:
  assumes "wallet_wf st" "distinct (map outpoint_of (tracked_outputs st))" "distinct (map outpoint_of selected)"
    "\<forall>t \<in> set selected. t \<in> set (tracked_outputs st) \<and> \<not> spent t" "unspent_sum (tracked_outputs st) \<le> u64_max"
  shows "w_total (record_sent txid selected st) + sum_list (map amount selected) = w_total st"
    and "total_exact (record_sent txid selected st)"
proof -
  let ?S = "sum_list (map amount selected)"
  have sum: "unspent_sum (mark_selected txid selected (tracked_outputs st)) + ?S = unspent_sum (tracked_outputs st)"
    using assms by (intro mark_selected_sum) auto
  have tot: "w_total st = unspent_sum (tracked_outputs st)"
    using assms total_exact_unspent by (simp add: wallet_wf_def)
  have "?S mod 2 ^ 64 = ?S"
    using sum assms(5) by (intro mod_less) (simp add: u64_max_def)
  then show one: "w_total (record_sent txid selected st) + ?S = w_total st"
    using tot sum by (simp add: record_sent_simps)
  then show "total_exact (record_sent txid selected st)"
    using total_exact_unspent [of "record_sent txid selected st"] tot sum assms(5) by (simp add: record_sent_simps)
qed

lemma recorded_send_wf:
  assumes "wallet_wf st" "distinct (map outpoint_of (tracked_outputs st))" "distinct (map outpoint_of selected)"
    "\<forall>t \<in> set selected. t \<in> set (tracked_outputs st) \<and> \<not> spent t" "unspent_sum (tracked_outputs st) \<le> u64_max"
  shows "wallet_wf (record_pending hex amt fee (record_sent txid selected st))"
proof -
  have "total_exact (record_pending hex amt fee (record_sent txid selected st))"
    using record_sent_total(2) [OF assms] by (simp add: total_exact_def record_pending_simps)
  moreover have "set (map outpoint_of (mark_selected txid selected (tracked_outputs st))) =
      set (map outpoint_of (tracked_outputs st))"
    by (simp only: map_mark_selected)
  ultimately show ?thesis
    using assms(1)
    by (auto simp: wallet_wf_def record_pending_def record_sent_def Let_def window_coherent_def rows_keyed_def
        pending_send_row_def split: if_splits)
qed

section \<open>From the request to the record\<close>

text \<open>One broadcast, accepted, and the bookkeeping of its transaction on the wallet as it was.\<close>

definition sent_step ::
  "environment \<Rightarrow> ('i, 'n) send_lib \<Rightarrow> string \<Rightarrow> string \<Rightarrow> u64 \<Rightarrow> sender \<Rightarrow> send_answer \<Rightarrow> sender \<Rightarrow> bool" where
  "sent_step env sl url i amt s an s' \<longleftrightarrow>
     (\<exists>st q tx sel fee k.
        an = Sent_Answer (hex_lowercase (sx_hash tx)) fee \<and>
        map_of (wd_store (sn_world s)) i = Some st \<and> flagged st q \<and>
        (distinct (map outpoint_of (tracked_outputs st)) \<longrightarrow> distinct (map outpoint_of sel)) \<and>
        (\<forall>t \<in> set sel. t \<in> set (tracked_outputs st) \<and> \<not> spent t) \<and>
        sn_sent s' = sn_sent s @ [(url, sl_serialize sl tx)] \<and>
        broadcast_send_raw_transaction env (sl_display sl) (sl_raw_json sl) (sl_bin_daemon sl url k)
          (\<lambda>_ hex. sl_raw_call sl url hex k) (sl_serialize sl tx) = Inr () \<and>
        map_of (wd_store (sn_world s')) i =
          Some (record_pending (hex_lowercase (sx_hash tx)) amt fee (record_sent (sx_hash tx) sel q)) \<and>
        (\<forall>j. j \<noteq> i \<longrightarrow> map_of (wd_store (sn_world s')) j = map_of (wd_store (sn_world s)) j))"

lemma quietD: "runs (quiet i) m \<Longrightarrow> m s = (r, s') \<Longrightarrow> quiet i s s'"
  unfolding runs_def by (metis snd_conv)

lemma quiet_wallet:
  "quiet i s s' \<Longrightarrow> map_of (wd_store (sn_world s)) i = Some st \<Longrightarrow>
     \<exists>st'. map_of (wd_store (sn_world s')) i = Some st' \<and> flagged st st'"
  by (auto simp: quiet_def store_moves_def option_rel_Some1)

lemma quiet_then_sent:
  assumes "quiet i s t" "sent_step env sl url i amt t an u" "map_of (wd_store (sn_world s)) i \<noteq> None"
  shows "sent_step env sl url i amt s an u"
proof -
  obtain st where st: "map_of (wd_store (sn_world s)) i = Some st" using assms(3) by blast
  then obtain st' where st': "map_of (wd_store (sn_world t)) i = Some st'" "flagged st st'"
    using quiet_wallet [OF assms(1)] by blast
  have rest: "sn_sent t = sn_sent s" "\<And>j. j \<noteq> i \<Longrightarrow> map_of (wd_store (sn_world t)) j = map_of (wd_store (sn_world s)) j"
    using assms(1) by (auto simp: quiet_def store_moves_def)
  show ?thesis
    using assms(2) st st' rest flagged_trans [OF st'(2)] unfolding sent_step_def
    by (auto simp: flagged_simps [OF st'(2)]) blast+
qed

lemma refused_not_done:
  assumes "env ''WALLETCORE_SEND_BISECT'' = None"
  shows "refused_broadcast env sl cx sp max_retries attempt q selected tx e s \<noteq> (Done out, s')"
  using assms by (auto simp: refused_broadcast_def Let_def bnd_Done should_bisect_def split: if_splits)

lemma change_wallet_Done:
  assumes "change_wallet i f s = (Done u, s')" "map_of (wd_store (sn_world s)) i = Some st"
  shows "map_of (wd_store (sn_world s')) i = Some (f st)" "sn_sent s' = sn_sent s"
    "\<And>j. j \<noteq> i \<Longrightarrow> map_of (wd_store (sn_world s')) j = map_of (wd_store (sn_world s)) j"
  using assms by (auto simp: change_wallet_def put_wallet_def split: if_splits)

lemma accepted_records:
  assumes "accepted_broadcast sp sel tx fee s = (Done out, s')" "map_of (wd_store (sn_world s)) (sp_id sp) = Some q"
  shows "out = Answer (Sent_Answer (hex_lowercase (sx_hash tx)) fee)" "sn_sent s' = sn_sent s"
    "map_of (wd_store (sn_world s')) (sp_id sp) =
       Some (record_pending (hex_lowercase (sx_hash tx)) (sp_needed sp) fee (record_sent (sx_hash tx) sel q))"
    "\<And>j. j \<noteq> sp_id sp \<Longrightarrow> map_of (wd_store (sn_world s')) j = map_of (wd_store (sn_world s)) j"
proof -
  obtain u1 s1 u2 where c1: "change_wallet (sp_id sp) (record_sent (sx_hash tx) sel) s = (Done u1, s1)"
    and c2: "change_wallet (sp_id sp) (record_pending (hex_lowercase (sx_hash tx)) (sp_needed sp) fee) s1 = (Done u2, s')"
    and out: "out = Answer (Sent_Answer (hex_lowercase (sx_hash tx)) fee)"
    using assms(1) by (auto simp: accepted_broadcast_def Let_def bnd_Done)
  note one = change_wallet_Done [OF c1 assms(2)]
  note two = change_wallet_Done [OF c2 one(1)]
  show "out = Answer (Sent_Answer (hex_lowercase (sx_hash tx)) fee)" "sn_sent s' = sn_sent s"
    "map_of (wd_store (sn_world s')) (sp_id sp) =
       Some (record_pending (hex_lowercase (sx_hash tx)) (sp_needed sp) fee (record_sent (sx_hash tx) sel q))"
    "\<And>j. j \<noteq> sp_id sp \<Longrightarrow> map_of (wd_store (sn_world s')) j = map_of (wd_store (sn_world s)) j"
    using out one two by simp_all
qed

text \<open>Outputs of a snapshot that may be selected.\<close>

definition selectable :: "tracked_output list \<Rightarrow> tracked_output list \<Rightarrow> bool" where
  "selectable outs sel \<longleftrightarrow>
     (distinct (map outpoint_of outs) \<longrightarrow> distinct (map outpoint_of sel)) \<and> (\<forall>t \<in> set sel. t \<in> set outs \<and> \<not> spent t)"

lemma settle_sent:
  assumes "settle_attempt cr env sl cx tt sp False max_retries attempt q snapshot sel s = (Done out, s')"
    and "env ''WALLETCORE_SEND_BISECT'' = None"
    and st: "map_of (wd_store (sn_world s)) (sp_id sp) = Some st" and sel: "selectable (tracked_outputs st) sel"
  shows "\<exists>an. out = Answer an \<and> sent_step env sl (cx_url cx) (sp_id sp) (sp_needed sp) s an s'"
proof -
  obtain tx fee s1 b s2 where
    fin: "final_transaction env sl cx tt sp sel s = (Done (tx, fee), s1)"
    and br: "broadcast env sl (cx_url cx) (sl_serialize sl tx) s1 = (Done b, s2)"
    and rest: "(case b of Inl e \<Rightarrow> refused_broadcast env sl cx sp max_retries attempt q sel tx e
            | Inr _ \<Rightarrow> accepted_broadcast sp sel tx fee) s2 = (Done out, s')"
    using assms(1) by (auto simp: settle_attempt_def bnd_Done)
  then have acc: "accepted_broadcast sp sel tx fee s2 = (Done out, s')" "b = Inr ()"
    by (cases b; simp add: refused_not_done [of env, OF assms(2)])+
  have quiet: "quiet (sp_id sp) s s1" by (rule quietD [OF qf.runs_final_transaction fin])
  obtain q where q: "map_of (wd_store (sn_world s1)) (sp_id sp) = Some q" "flagged st q"
    using quiet_wallet [OF quiet st] by blast
  have s2: "s2 = s1\<lparr>sn_calls := Suc (sn_calls s1), sn_sent := sn_sent s1 @ [(cx_url cx, sl_serialize sl tx)]\<rparr>"
    and ok: "broadcast_send_raw_transaction env (sl_display sl) (sl_raw_json sl) (sl_bin_daemon sl (cx_url cx) (sn_calls s1))
      (\<lambda>_ hex. sl_raw_call sl (cx_url cx) hex (sn_calls s1)) (sl_serialize sl tx) = Inr ()"
    using br acc(2) by (auto simp: broadcast_def Let_def)
  have "map_of (wd_store (sn_world s2)) (sp_id sp) = Some q" using q s2 by simp
  note rec = accepted_records [OF acc(1) this]
  have frame: "sn_sent s1 = sn_sent s"
    "\<And>j. j \<noteq> sp_id sp \<Longrightarrow> map_of (wd_store (sn_world s1)) j = map_of (wd_store (sn_world s)) j"
    using quiet by (auto simp: quiet_def store_moves_def)
  have "sent_step env sl (cx_url cx) (sp_id sp) (sp_needed sp) s (Sent_Answer (hex_lowercase (sx_hash tx)) fee) s'"
    unfolding sent_step_def
    by (rule exI [of _ st], rule exI [of _ q], rule exI [of _ tx], rule exI [of _ sel], rule exI [of _ fee],
        rule exI [of _ "sn_calls s1"])
      (use st q sel rec ok frame s2 in \<open>simp add: selectable_def\<close>)
  then show ?thesis using rec(1) by blast
qed

lemma selection_order_simps [simp]:
  "set (selection_order mode outs) = set outs"
  "distinct (map outpoint_of (selection_order mode outs)) = distinct (map outpoint_of outs)"
  by (simp_all add: selection_order_def distinct_map split: input_select_mode.split)

lemma spendable_inputs_Done:
  assumes "spendable_inputs cr sl i snapshot daemon allow s = (Done (outs, snapshot'), s')"
  shows "selectable (tracked_outputs snapshot) outs" "reflagged snapshot snapshot'"
    "\<forall>o1 \<in> set outs. is_unlocked o1 (ds_height daemon) (ds_top_block_timestamp daemon) \<and>
       outpoint_of o1 \<notin> set (w_quarantine snapshot')"
  using assms unfolding spendable_inputs_def spendable_def reconcile_with_def selectable_def
  by (auto simp: Let_def distinct_map distinct_map_filter inj_on_def reflaggedI
      split: prod.splits sum.splits if_splits option.splits)

lemma covers_selectable:
  "sel_ok (selection_order mode outs) sel \<Longrightarrow> selectable all1 outs \<Longrightarrow> selectable all1 (fst sel)"
  by (auto simp: selectable_def sel_ok_def)

lemma chosen_selectable:
  assumes "select_rounds (select_round env ko sl cx tx sp (selection_order mode outs)) policy n ([], 0) s = (Done r, s')"
    and "selected_of r = Some sel" and "selectable all1 outs" and "distinct (map outpoint_of all1)"
  shows "selectable all1 sel"
proof -
  have d: "distinct (map outpoint_of (selection_order mode outs))" using assms(3,4) by (simp add: selectable_def)
  show ?thesis
    using select_rounds_ok [OF assms(1) _ d] assms(2) covers_selectable [OF _ assms(3)]
    by (cases r) (auto simp: selected_of_def covers_def)
qed

lemma attempt_sent:
  assumes "send_attempt cr env ko sl cx tt sp daemon False max_retries attempt q snapshot s = (Done out, s')"
    and nb: "env ''WALLETCORE_SEND_BISECT'' = None"
    and st: "map_of (wd_store (sn_world s)) (sp_id sp) = Some st" "tracked_outputs snapshot = tracked_outputs st"
    and d: "distinct (map outpoint_of (tracked_outputs st))"
  shows "case out of Answer an \<Rightarrow> sent_step env sl (cx_url cx) (sp_id sp) (sp_needed sp) s an s'
         | Next_Attempt _ \<Rightarrow> quiet (sp_id sp) s s'"
proof -
  obtain outs snap1 s1 r s2 where
    sp1: "spendable_inputs cr sl (sp_id sp) snapshot daemon (attempt = 0) s = (Done (outs, snap1), s1)"
    and rd: "select_rounds (select_round env ko sl cx tt sp (selection_order (walletcore_input_select_mode env) outs))
            (sp_policy sp) max_selection_rounds ([], 0) s1 = (Done r, s2)"
    and rest: "(case selected_of r of None \<Rightarrow> done1 (Next_Attempt (sat_add q 1))
      | Some selected \<Rightarrow> settle_attempt cr env sl cx tt sp False max_retries attempt q snap1 selected) s2 = (Done out, s')"
    using assms(1) by (auto simp: send_attempt_def bnd_Done)
  have quiet: "quiet (sp_id sp) s s2"
    using qf.R_trans [OF quietD [OF qf.runs_spendable_inputs [OF refl] sp1]
        quietD [OF qf.runs_select_rounds [OF qf.runs_select_round [OF refl]] rd]] .
  show ?thesis
  proof (cases "selected_of r")
    case None
    then show ?thesis using rest quiet by auto
  next
    case (Some sel)
    obtain st2 where st2: "map_of (wd_store (sn_world s2)) (sp_id sp) = Some st2" "flagged st st2"
      using quiet_wallet [OF quiet st(1)] by blast
    have "selectable (tracked_outputs st) outs" using spendable_inputs_Done(1) [OF sp1] st(2) by simp
    then have ok: "selectable (tracked_outputs st2) sel"
      using chosen_selectable [OF rd Some _ d] flagged_simps(1) [OF st2(2)] by simp
    have run: "settle_attempt cr env sl cx tt sp False max_retries attempt q snap1 sel s2 = (Done out, s')"
      using rest Some by simp
    obtain an where "out = Answer an" "sent_step env sl (cx_url cx) (sp_id sp) (sp_needed sp) s2 an s'"
      using settle_sent [OF run nb st2(1) ok] by blast
    then show ?thesis using quiet_then_sent [OF quiet] st(1) by simp
  qed
qed

lemma settle_not_next:
  assumes "env ''WALLETCORE_SEND_BISECT'' = None \<or> prepare"
  shows "settle_attempt cr env sl cx tt sp prepare max_retries attempt q snapshot sel s \<noteq> (Done (Next_Attempt q'), s')"
  using assms
  by (auto simp: settle_attempt_def bnd_Done accepted_broadcast_def Let_def refused_not_done split: sum.splits)

lemma attempt_next_quiet:
  assumes "send_attempt cr env ko sl cx tt sp daemon prepare max_retries attempt q snapshot s = (Done (Next_Attempt q'), s')"
    and "env ''WALLETCORE_SEND_BISECT'' = None \<or> prepare"
  shows "quiet (sp_id sp) s s'"
proof -
  obtain outs snap1 s1 r s2 where
    sp1: "spendable_inputs cr sl (sp_id sp) snapshot daemon (attempt = 0) s = (Done (outs, snap1), s1)"
    and rd: "select_rounds (select_round env ko sl cx tt sp (selection_order (walletcore_input_select_mode env) outs))
            (sp_policy sp) max_selection_rounds ([], 0) s1 = (Done r, s2)"
    and rest: "(case selected_of r of None \<Rightarrow> done1 (Next_Attempt (sat_add q 1))
      | Some selected \<Rightarrow> settle_attempt cr env sl cx tt sp prepare max_retries attempt q snap1 selected) s2
        = (Done (Next_Attempt q'), s')"
    using assms(1) by (auto simp: send_attempt_def bnd_Done)
  have "s' = s2" using rest assms(2) by (auto simp: settle_not_next split: option.splits)
  then show ?thesis
    using qf.R_trans [OF quietD [OF qf.runs_spendable_inputs [OF refl] sp1]
        quietD [OF qf.runs_select_rounds [OF qf.runs_select_round [OF refl]] rd]] by simp
qed

text \<open>A snapshot that agrees with the stored wallet, up to quarantine and unlocked balance.\<close>

definition agrees :: "stored_wallet \<Rightarrow> stored_wallet \<Rightarrow> bool" where
  "agrees snap st \<longleftrightarrow> tracked_outputs snap = tracked_outputs st \<and> w_keys snap = w_keys st \<and>
     w_network snap = w_network st \<and> w_pending_outgoing snap = w_pending_outgoing st"

lemma agrees_flagged: "agrees snap st \<Longrightarrow> flagged st st' \<Longrightarrow> agrees snap st'" "agrees st st"
  "agrees snap st \<Longrightarrow> reflagged snap snap' \<Longrightarrow> agrees snap' st"
  by (auto simp: agrees_def reflagged_simps flagged_simps)

lemma agrees_binding: "agrees snap st \<Longrightarrow> wallet_cache_binding cr snap = wallet_cache_binding cr st"
  by (simp add: agrees_def wallet_cache_binding_def)

text \<open>What one attempt does on an agreeing snapshot, the attempts do, if quiet steps before it do not matter.\<close>

lemma attempts_reach:
  assumes step: "\<And>a q snap s out s' st. run a q snap s = (Done out, s') \<Longrightarrow>
      map_of (wd_store (sn_world s)) i = Some st \<Longrightarrow> agrees snap st \<Longrightarrow>
      (case out of Answer an \<Rightarrow> P s an s' | Next_Attempt _ \<Rightarrow> quiet i s s')"
    and lift: "\<And>s t an u. quiet i s t \<Longrightarrow> map_of (wd_store (sn_world s)) i \<noteq> None \<Longrightarrow> P t an u \<Longrightarrow> P s an u"
  shows "send_attempts run nm i max_retries n a q snap s = (Done an, s') \<Longrightarrow>
      map_of (wd_store (sn_world s)) i = Some st \<Longrightarrow> (a = 0 \<Longrightarrow> agrees snap st) \<Longrightarrow> P s an s'"
proof (induction n arbitrary: a q snap s st)
  case (Suc n)
  obtain snap1 s1 out s2 where
    sn: "(if a = 0 then done1 snap else wallet_snapshot nm i) s = (Done snap1, s1)"
    and run: "run a q snap1 s1 = (Done out, s2)"
    and rest: "(case out of Answer answer \<Rightarrow> done1 answer
      | Next_Attempt q' \<Rightarrow> send_attempts run nm i max_retries n (a + 1) q' snap1) s2 = (Done an, s')"
    using Suc.prems(1) unfolding send_attempts.simps bnd_Done by blast
  have s1: "s1 = s" and snap1: "agrees snap1 st"
    using sn Suc.prems(2,3) by (auto simp: wallet_snapshot_Done agrees_flagged(2) split: if_splits)
  note res = step [OF run [unfolded s1] Suc.prems(2) snap1]
  show ?case
  proof (cases out)
    case (Answer an')
    then have "an' = an" "s2 = s'" using rest by simp_all
    then show ?thesis using res Answer by simp
  next
    case (Next_Attempt q')
    then have quiet: "quiet i s s2" using res by simp
    obtain st2 where st2: "map_of (wd_store (sn_world s2)) i = Some st2" "flagged st st2"
      using quiet_wallet [OF quiet Suc.prems(2)] by blast
    have "P s2 an s'"
      by (rule Suc.IH [of "a + 1" q' snap1 s2 st2]) (use rest Next_Attempt st2(1) in simp_all)
    then show ?thesis by (rule lift [OF quiet, rotated]) (simp add: Suc.prems(2))
  qed
qed simp

lemma send_body_reach:
  assumes run: "wallet_send_body cr env ko sl wallet_id url to_address amt ring prepare s = (Done an, s')"
    and st: "map_of (wd_store (sn_world s)) (arg_id wallet_id) = Some st"
    and step: "\<And>cx tt sp daemon a q snap s out s' st.
      send_attempt cr env ko sl cx tt sp daemon prepare (walletcore_send_retry_max env) a q snap s = (Done out, s') \<Longrightarrow>
      sp_id sp = arg_id wallet_id \<Longrightarrow> sp_needed sp = amt \<Longrightarrow> cx_url cx = daemon_base_url env url \<Longrightarrow>
      map_of (wd_store (sn_world s)) (arg_id wallet_id) = Some st \<Longrightarrow> agrees snap st \<Longrightarrow>
      (case out of Answer an \<Rightarrow> P s an s' | Next_Attempt _ \<Rightarrow> quiet (arg_id wallet_id) s s')"
    and lift: "\<And>s t an u. quiet (arg_id wallet_id) s t \<Longrightarrow> map_of (wd_store (sn_world s)) (arg_id wallet_id) \<noteq> None \<Longrightarrow>
      P t an u \<Longrightarrow> P s an u"
  shows "P s an s'"
proof -
  obtain cx sp daemon snapshot s1 where
    op: "send_opening cr env sl wallet_id url to_address amt ring s = (Done (cx, sp, daemon, snapshot), s1)"
    and att: "send_attempts (send_attempt cr env ko sl cx
        (call_texts sl (sp_name sp) (sp_name sp @ '': failed to reconstruct selected output (not found after scan)'') (cx_url cx))
        sp daemon prepare (walletcore_send_retry_max env)) (sp_name sp) (sp_id sp) (walletcore_send_retry_max env)
        (Suc (walletcore_send_retry_max env)) 0 0 snapshot s1 = (Done an, s')"
    using run unfolding wallet_send_body_def Let_def bnd_Done by (auto simp only: split_paired_Ex prod.case)
  note open1 = send_opening_Done [OF op]
  have quiet: "quiet (arg_id wallet_id) s s1" by (rule quietD [OF qf.runs_send_opening [OF refl] op])
  obtain st1 where st1: "map_of (wd_store (sn_world s1)) (arg_id wallet_id) = Some st1" "flagged st st1"
    using quiet_wallet [OF quiet st] by auto
  have "agrees snapshot st1" using open1(5) st st1(2) agrees_flagged(1) [OF agrees_flagged(2)] by simp
  have "P s1 an s'"
  proof (rule attempts_reach [where P = P, OF _ lift])
    show "case out of Answer an \<Rightarrow> P s an s' | Next_Attempt _ \<Rightarrow> quiet (arg_id wallet_id) s s'"
      if "send_attempt cr env ko sl cx
        (call_texts sl (sp_name sp) (sp_name sp @ '': failed to reconstruct selected output (not found after scan)'') (cx_url cx))
        sp daemon prepare (walletcore_send_retry_max env) a q snap s = (Done out, s')"
        "map_of (wd_store (sn_world s)) (arg_id wallet_id) = Some st" "agrees snap st" for a q snap s out s' st
      by (rule step [OF that(1) open1(1,2,4) that(2,3)])
    show "send_attempts (send_attempt cr env ko sl cx
        (call_texts sl (sp_name sp) (sp_name sp @ '': failed to reconstruct selected output (not found after scan)'') (cx_url cx))
        sp daemon prepare (walletcore_send_retry_max env)) (sp_name sp) (arg_id wallet_id) (walletcore_send_retry_max env)
        (Suc (walletcore_send_retry_max env)) 0 0 snapshot s1 = (Done an, s')"
      using att by (simp only: open1(1))
  qed (use st1(1) \<open>agrees snapshot st1\<close> in simp_all)
  then show ?thesis by (rule lift [OF quiet, rotated]) (simp add: st)
qed

lemma send_body_sent:
  assumes run: "wallet_send_body cr env ko sl wallet_id url to_address amt ring False s = (Done an, s')"
    and nb: "env ''WALLETCORE_SEND_BISECT'' = None"
    and st: "map_of (wd_store (sn_world s)) (arg_id wallet_id) = Some st"
    and d: "distinct (map outpoint_of (tracked_outputs st))"
  shows "sent_step env sl (daemon_base_url env url) (arg_id wallet_id) amt s an s'"
proof -
  let ?i = "arg_id wallet_id" and ?d = "\<lambda>st. distinct (map outpoint_of (tracked_outputs st))"
  let ?P = "\<lambda>s an s'. (\<forall>st. map_of (wd_store (sn_world s)) ?i = Some st \<longrightarrow> ?d st) \<longrightarrow>
    sent_step env sl (daemon_base_url env url) ?i amt s an s'"
  have "?P s an s'"
  proof (rule send_body_reach [OF run st])
    fix cx tt sp daemon a q snap s out s' st
    assume "send_attempt cr env ko sl cx tt sp daemon False (walletcore_send_retry_max env) a q snap s = (Done out, s')"
      "sp_id sp = ?i" "sp_needed sp = amt" "cx_url cx = daemon_base_url env url"
      "map_of (wd_store (sn_world s)) ?i = Some st" "agrees snap st"
    then show "case out of Answer an \<Rightarrow> ?P s an s' | Next_Attempt _ \<Rightarrow> quiet ?i s s'"
      using attempt_sent [where env = env, OF _ nb, of cr ko sl cx tt sp daemon "walletcore_send_retry_max env" a q snap s out s' st]
        attempt_next_quiet [where env = env, OF _ disjI1 [OF nb], of cr ko sl cx tt sp daemon False
          "walletcore_send_retry_max env" a q snap s]
      by (cases out) (auto simp: agrees_def)
  next
    fix s t an u
    assume "quiet ?i s t" "map_of (wd_store (sn_world s)) ?i \<noteq> None" "?P t an u"
    then show "?P s an u"
      using quiet_then_sent quiet_wallet flagged_simps(1) by fastforce
  qed
  then show ?thesis using st d by simp
qed

section \<open>The fuel of the bisections\<close>

lemma bnd_cong: "(\<And>x. f x = g x) \<Longrightarrow> bnd m f = bnd m g"
  by (simp add: bnd_def fun_eq_iff split: prod.split flow.split)

text \<open>More fuel than the length of the interval changes nothing: the loops end before it is used up.\<close>

lemma send_bisect_fuel:
  "hi - lo \<le> n \<Longrightarrow> 0 < n \<Longrightarrow> send_bisect try1 b all1 (n + k) lo hi e = send_bisect try1 b all1 n lo hi e"
proof (induction n arbitrary: lo hi e)
  case (Suc n)
  have step: "send_bisect try1 b all1 (n + k) lo' hi' e' = send_bisect try1 b all1 n lo' hi' e'"
    if "lo + 1 < hi" "hi' - lo' < hi - lo" for lo' hi' e'
    using that Suc.prems(1) by (intro Suc.IH) simp_all
  show ?case
    unfolding add_Suc send_bisect.simps
  proof (rule bnd_cong)
    fix ok
    show "(if ok \<and> lo + 1 < hi then
         (let mid = (lo + hi) div 2 in
          bnd (try1 (take mid all1)) (\<lambda>r. case r of
            Inr _ \<Rightarrow> send_bisect try1 b all1 (n + k) (max mid (lo + 1)) hi e
          | Inl e1 \<Rightarrow>
              if is_invalid_input_tagged e1 \<or> is_double_spend_tagged_broadcast_error e1
              then send_bisect try1 b all1 (n + k) lo (max mid (lo + 1)) (Some e1)
              else send_bisect try1 b all1 (n + k) (max mid (lo + 1)) hi e))
       else done1 (hi, e)) =
      (if ok \<and> lo + 1 < hi then
         (let mid = (lo + hi) div 2 in
          bnd (try1 (take mid all1)) (\<lambda>r. case r of
            Inr _ \<Rightarrow> send_bisect try1 b all1 n (max mid (lo + 1)) hi e
          | Inl e1 \<Rightarrow>
              if is_invalid_input_tagged e1 \<or> is_double_spend_tagged_broadcast_error e1
              then send_bisect try1 b all1 n lo (max mid (lo + 1)) (Some e1)
              else send_bisect try1 b all1 n (max mid (lo + 1)) hi e))
       else done1 (hi, e))"
      unfolding Let_def by (rule if_cong [OF refl _ refl], rule bnd_cong) (auto split: sum.split intro!: step)
  qed
qed simp

lemma filter_bisect_fuel:
  "hi - lo \<le> n \<Longrightarrow> filter_bisect try1 b all1 (n + k) lo hi = filter_bisect try1 b all1 n lo hi"
proof (induction n arbitrary: lo hi)
  case 0
  then show ?case by (cases k) simp_all
next
  case (Suc n)
  let ?mid = "max ((lo + hi) div 2) (lo + 1)"
  have step: "filter_bisect try1 b all1 (n + k) lo' hi' = filter_bisect try1 b all1 n lo' hi'"
    if "hi' - lo' < hi - lo \<or> hi' \<le> lo'" for lo' hi'
    using that Suc.prems by (intro Suc.IH) auto
  have "(if hi' - lo' = 1 then done1 () else filter_bisect try1 b all1 (n + k) lo' hi') =
      (if hi' - lo' = 1 then done1 () else filter_bisect try1 b all1 n lo' hi')"
    if "lo < hi" "(lo', hi') = (?mid, hi) \<or> (lo', hi') = (lo, ?mid)" for lo' hi'
    using that by (auto intro!: step)
  then show ?case
    unfolding add_Suc filter_bisect.simps Let_def
    by (intro if_cong refl bnd_cong) (auto split: sum.split)
qed

end
