(* ===== verification/Send_Prepared.thy ===== *)
theory Send_Prepared
  imports Send_Correct
begin

text \<open>
  From a prepared transaction to its relay, and the amounts of a sweep: the payload of every prepared
  call passes the checks of \<open>Relay\<close> on the wallet it leaves, and a sweep pays exactly what the fee leaves
  of its inputs.
\<close>

section \<open>Prepared payloads\<close>

definition signed_by :: "('i, 'n) send_lib \<Rightarrow> signed_tx \<Rightarrow> bool" where
  "signed_by sl tx \<longleftrightarrow> (\<exists>intent key k. sl_sign sl intent key k = Worker_Done (Inr tx))"

lemma sign_Done: "sign_transaction_on_large_stack sl it key s = (Done (Inr tx), s') \<Longrightarrow> signed_by sl tx"
  by (auto simp: sign_transaction_on_large_stack_def ask_def signed_by_def split: sign_worker.splits)

lemma bnd_sum_Done:
  "bnd m (\<lambda>r. case r of Inl e \<Rightarrow> fail (c e) (g e) | Inr x \<Rightarrow> f x) s = (Done y, s2) \<longleftrightarrow>
     (\<exists>x s1. m s = (Done (Inr x), s1) \<and> f x s1 = (Done y, s2))"
proof
  assume "bnd m (\<lambda>r. case r of Inl e \<Rightarrow> fail (c e) (g e) | Inr x \<Rightarrow> f x) s = (Done y, s2)"
  then obtain r s1 where "m s = (Done r, s1)" "(case r of Inl e \<Rightarrow> fail (c e) (g e) | Inr x \<Rightarrow> f x) s1 = (Done y, s2)"
    unfolding bnd_Done by blast
  then show "\<exists>x s1. m s = (Done (Inr x), s1) \<and> f x s1 = (Done y, s2)" by (cases r) auto
qed (force simp: bnd_Done)

lemma final_signed:
  assumes "final_transaction env sl cx tt sp sel s = (Done (tx, fee), s')" shows "signed_by sl tx"
  using assms unfolding final_transaction_def bnd_Done [where m = "each f xs" for f xs] bnd_sum_Done
  by (auto dest: sign_Done)

text \<open>A payload made from a snapshot of the open, unsealed wallet.\<close>

definition made_from :: "crypto \<Rightarrow> ('i, 'n) send_lib \<Rightarrow> string \<Rightarrow> sender \<Rightarrow> prepared_send_payload \<Rightarrow> bool" where
  "made_from cr sl i s p \<longleftrightarrow>
     (\<exists>st snap tx amt fee. map_of (wd_store (sn_world s)) i = Some st \<and> \<not> is_sealed (w_keys st) \<and> agrees snap st \<and>
        signed_by sl tx \<and> p = prepared_payload cr sl snap tx amt fee)"

lemma made_from_later:
  assumes q: "quiet i s t" and m: "made_from cr sl i s p"
  shows "made_from cr sl i t p"
proof -
  obtain st snap tx amt fee where st: "map_of (wd_store (sn_world s)) i = Some st" "\<not> is_sealed (w_keys st)"
    "agrees snap st" and p: "signed_by sl tx" "p = prepared_payload cr sl snap tx amt fee"
    using m unfolding made_from_def by blast
  obtain st' where st': "map_of (wd_store (sn_world t)) i = Some st'" "flagged st st'"
    using quiet_wallet [OF q st(1)] by blast
  have "\<not> is_sealed (w_keys st')" "agrees snap st'"
    using st(2) flagged_simps(2) [OF st'(2)] agrees_flagged(1) [OF st(3) st'(2)] by simp_all
  then show ?thesis unfolding made_from_def using st'(1) p by blast
qed

lemma made_from_relay:
  assumes "made_from cr sl i s p"
    and "\<And>tx. signed_by sl tx \<Longrightarrow> rl_read_tx rl (sl_serialize sl tx) = Inr (tx, [])"
    and "\<And>tx. signed_by sl tx \<Longrightarrow> sl_serialize sl tx \<noteq> [] \<and> length (sl_serialize sl tx) \<le> 2 * 1024 * 1024"
  shows "\<exists>tx. relay_checked cr rl (sn_world s) i p (sl_serialize sl tx) tx"
proof -
  obtain st snap tx amt fee where st: "map_of (wd_store (sn_world s)) i = Some st" "\<not> is_sealed (w_keys st)"
    "agrees snap st" and p: "signed_by sl tx" "p = prepared_payload cr sl snap tx amt fee"
    using assms(1) unfolding made_from_def by blast
  have "relay_checked cr rl (sn_world s) i p (sl_serialize sl tx) tx"
    using st assms(2) [OF p(1)] assms(3) [OF p(1)] decode_hex_roundtrip [of "sl_serialize sl tx"] agrees_binding [OF st(3)]
    by (simp add: relay_checked_def p(2) prepared_payload_def)
  then show ?thesis by blast
qed

lemma settle_prepared:
  assumes "settle_attempt cr env sl cx tt sp True max_retries attempt q snapshot sel s = (Done out, s')"
  shows "\<exists>tx fee. signed_by sl tx \<and> out = Answer (Prepared_Answer (prepared_payload cr sl snapshot tx (sp_needed sp) fee))"
proof -
  obtain tx fee s1 where fin: "final_transaction env sl cx tt sp sel s = (Done (tx, fee), s1)" and
    "done1 (Answer (Prepared_Answer (prepared_payload cr sl snapshot tx (sp_needed sp) fee))) s1 = (Done out, s')"
    using assms unfolding settle_attempt_def bnd_Done by auto
  then have "out = Answer (Prepared_Answer (prepared_payload cr sl snapshot tx (sp_needed sp) fee))" by simp
  then show ?thesis using final_signed [OF fin] by blast
qed

lemma attempt_prepared:
  assumes "send_attempt cr env ko sl cx tt sp daemon True max_retries attempt q snapshot s = (Done (Answer an), s')"
    and "agrees snapshot st"
  shows "\<exists>snap tx fee. signed_by sl tx \<and> an = Prepared_Answer (prepared_payload cr sl snap tx (sp_needed sp) fee) \<and>
    agrees snap st"
proof -
  obtain outs snap1 s1 r s2 where
    sp1: "spendable_inputs cr sl (sp_id sp) snapshot daemon (attempt = 0) s = (Done (outs, snap1), s1)"
    and rest: "(case selected_of r of None \<Rightarrow> done1 (Next_Attempt (sat_add q 1))
      | Some selected \<Rightarrow> settle_attempt cr env sl cx tt sp True max_retries attempt q snap1 selected) s2
        = (Done (Answer an), s')"
    using assms(1) by (auto simp: send_attempt_def bnd_Done)
  have "agrees snap1 st" using agrees_flagged(3) assms(2) spendable_inputs_Done(2) [OF sp1] .
  moreover obtain sel where "settle_attempt cr env sl cx tt sp True max_retries attempt q snap1 sel s2 = (Done (Answer an), s')"
    using rest by (cases "selected_of r") simp_all
  from settle_prepared [OF this] obtain tx fee where
    "signed_by sl tx" "an = Prepared_Answer (prepared_payload cr sl snap1 tx (sp_needed sp) fee)" by blast
  ultimately show ?thesis by blast
qed

lemma send_body_prepared:
  assumes run: "wallet_send_body cr env ko sl wallet_id url to_address amt ring True s = (Done an, s')"
  shows "\<exists>p. an = Prepared_Answer p \<and> pp_amount p = amt \<and> made_from cr sl (arg_id wallet_id) s' p"
proof -
  let ?i = "arg_id wallet_id"
  obtain x s1 where op: "send_opening cr env sl wallet_id url to_address amt ring s = (Done x, s1)"
    using run by (auto simp: wallet_send_body_def bnd_Done)
  obtain cx sp daemon snapshot where x: "x = (cx, sp, daemon, snapshot)" by (cases x) auto
  note open1 = send_opening_Done [OF op [unfolded x]]
  let ?P = "\<lambda>s an s'. \<forall>st. map_of (wd_store (sn_world s)) ?i = Some st \<longrightarrow>
    (\<exists>snap tx fee. signed_by sl tx \<and> an = Prepared_Answer (prepared_payload cr sl snap tx amt fee) \<and> agrees snap st)"
  have "?P s an s'"
  proof (rule send_body_reach [OF run open1(5)])
    fix cx tt sp daemon a q snap s out s' st
    assume "send_attempt cr env ko sl cx tt sp daemon True (walletcore_send_retry_max env) a q snap s = (Done out, s')"
      "sp_id sp = ?i" "sp_needed sp = amt" "map_of (wd_store (sn_world s)) ?i = Some st" "agrees snap st"
    then show "case out of Answer an \<Rightarrow> ?P s an s' | Next_Attempt _ \<Rightarrow> quiet ?i s s'"
      using attempt_prepared attempt_next_quiet [OF _ disjI2 [OF TrueI]]
      by (cases out) (fastforce, fastforce)
  next
    fix s t an u
    assume q: "quiet ?i s t" and "map_of (wd_store (sn_world s)) ?i \<noteq> None" and P: "?P t an u"
    show "?P s an u"
    proof (intro allI impI)
      fix st assume "map_of (wd_store (sn_world s)) ?i = Some st"
      then obtain st' where st': "map_of (wd_store (sn_world t)) ?i = Some st'" "flagged st st'"
        using quiet_wallet [OF q] by blast
      then show "\<exists>snap tx fee. signed_by sl tx \<and> an = Prepared_Answer (prepared_payload cr sl snap tx amt fee) \<and> agrees snap st"
        using P by (fastforce simp: agrees_def flagged_simps)
    qed
  qed
  then obtain snap tx fee where an: "an = Prepared_Answer (prepared_payload cr sl snap tx amt fee)" "agrees snap snapshot"
    "signed_by sl tx"
    using open1(5) by blast
  have "made_from cr sl ?i s (prepared_payload cr sl snap tx amt fee)"
    unfolding made_from_def using open1(5,6) an(2,3) by blast
  then have "made_from cr sl ?i s' (prepared_payload cr sl snap tx amt fee)"
    by (rule made_from_later [OF quietD [OF qf.runs_prepare_send [OF refl] run]])
  then show ?thesis using an(1) by (simp add: prepared_payload_def)
qed

section \<open>Triples\<close>

text \<open>\<open>triple P m Q\<close>: from a state with \<open>P\<close>, a computation that ends with a value ends with \<open>Q\<close>. A condition
  is stable when quiet computations keep it.\<close>

definition triple :: "(sender \<Rightarrow> bool) \<Rightarrow> 'a sending \<Rightarrow> ('a \<Rightarrow> sender \<Rightarrow> bool) \<Rightarrow> bool" where
  "triple P m Q \<longleftrightarrow> (\<forall>s x s'. P s \<longrightarrow> m s = (Done x, s') \<longrightarrow> Q x s')"

definition stable :: "string \<Rightarrow> (sender \<Rightarrow> bool) \<Rightarrow> bool" where
  "stable i P \<longleftrightarrow> (\<forall>s t. P s \<longrightarrow> quiet i s t \<longrightarrow> P t)"

lemma tripleD: "triple P m Q \<Longrightarrow> m s = (Done x, s') \<Longrightarrow> P s \<Longrightarrow> Q x s'"
  by (simp add: triple_def)

lemma triple_bnd: "triple P m Q \<Longrightarrow> (\<And>x s t. m s = (Done x, t) \<Longrightarrow> triple (Q x) (f x) R) \<Longrightarrow> triple P (bnd m f) R"
  unfolding triple_def bnd_Done by blast

lemma triple_done1: "(\<And>s. P s \<Longrightarrow> Q x s) \<Longrightarrow> triple P (done1 x) Q"
  by (simp add: triple_def)

lemma triple_fail: "triple P (fail c m) Q"
  by (simp add: triple_def)

lemma triple_if: "(b \<Longrightarrow> triple P m1 Q) \<Longrightarrow> (\<not> b \<Longrightarrow> triple P m2 Q) \<Longrightarrow> triple P (if b then m1 else m2) Q"
  by simp

lemma triple_pre: "(C \<Longrightarrow> triple P m Q) \<Longrightarrow> triple (\<lambda>s. P s \<and> C) m Q"
  by (auto simp: triple_def)

text \<open>A quiet step keeps a stable condition; its own result may be used.\<close>

lemma triple_step:
  "runs (quiet i) m \<Longrightarrow> stable i P \<Longrightarrow> (\<And>x s t. m s = (Done x, t) \<Longrightarrow> triple P (f x) R) \<Longrightarrow> triple P (bnd m f) R"
  unfolding triple_def bnd_Done stable_def using quietD by blast

lemma stable_True: "stable i (\<lambda>_. True)"
  by (simp add: stable_def)

text \<open>The stored wallet a snapshot agrees with.\<close>

definition held :: "string \<Rightarrow> stored_wallet \<Rightarrow> sender \<Rightarrow> bool" where
  "held i snap s \<longleftrightarrow> (\<exists>st. map_of (wd_store (sn_world s)) i = Some st \<and> agrees snap st)"

lemma stable_held: "stable i (held i snap)"
  unfolding stable_def
proof (intro allI impI)
  fix s t assume "held i snap s" "quiet i s t"
  then obtain st st' where "agrees snap st" "map_of (wd_store (sn_world t)) i = Some st'" "flagged st st'"
    unfolding held_def using quiet_wallet by blast
  then show "held i snap t" unfolding held_def using agrees_flagged(1) by blast
qed

lemma held_agrees: "held i snap s \<Longrightarrow> reflagged snap snap' \<Longrightarrow> held i snap' s"
  unfolding held_def using agrees_flagged(3) by blast

lemma triple_snapshot:
  assumes "\<And>st. triple (held i st) (f st) R"
  shows "triple (\<lambda>_. True) (bnd (wallet_snapshot nm i) f) R"
  by (rule triple_bnd [OF _ assms]) (auto simp: triple_def wallet_snapshot_Done held_def agrees_flagged(2))

lemma triple_id:
  assumes "triple (\<lambda>_. True) (f (arg_id p)) R"
  shows "triple (\<lambda>_. True) (bnd (utf8_arg m p) f) R"
  using assms unfolding triple_def bnd_Done by (auto dest!: utf8_arg_Done)

lemma triple_spendable:
  assumes "\<And>outs snap'. reflagged snap snap' \<Longrightarrow> selectable (tracked_outputs snap) outs \<Longrightarrow> triple (held i snap') (f (outs, snap')) R"
  shows "triple (held i snap) (bnd (spendable_inputs cr sl i snap daemon allow) f) R"
proof (rule triple_step [OF qf.runs_spendable_inputs [OF refl] stable_held])
  fix x s t assume "spendable_inputs cr sl i snap daemon allow s = (Done x, t)"
  moreover obtain outs snap' where x: "x = (outs, snap')" by force
  ultimately have sp: "reflagged snap snap'" "selectable (tracked_outputs snap) outs"
    using spendable_inputs_Done by blast+
  have "triple (held i snap') (f x) R" using assms [OF sp] x by simp
  then show "triple (held i snap) (f x) R" unfolding triple_def using held_agrees [OF _ sp(1)] by blast
qed

lemma open_payments_held:
  "triple (\<lambda>_. True) (open_payments cr env sl nm what subs policy wallet_id url dests f ring)
     (\<lambda>op s. held (arg_id wallet_id) (op_snapshot op) s \<and> \<not> is_sealed (w_keys (op_snapshot op)))"
  unfolding open_payments_def Let_def
  apply (rule triple_if [OF triple_fail triple_id])
  apply (rule triple_step [OF qf.runs_utf8_arg stable_True])
  apply (rule triple_step [OF qf.runs_parse_pays stable_True])
  apply (rule triple_step [OF qf.runs_parse_filter stable_True])
  apply (rule triple_snapshot)
  apply (rule triple_step [OF qf.runs_connect_daemon stable_held])
  apply (rule triple_step [OF qf.runs_daemon_tip stable_held])
  apply (rule triple_step [OF qf.runs_spend_keys stable_held], clarsimp dest!: spend_keys_Done)
  apply (rule triple_step [OF qf.runs_resolve_pays stable_held], clarsimp)
  apply (rule triple_spendable, clarsimp)
  apply (rule triple_step [OF qf.runs_query_fee_rate stable_held])
  apply (rule triple_done1, simp add: reflagged_simps)
  done

section \<open>Prepared calls\<close>

text \<open>The outputs a sweep takes: unspent, of the requested subaddress, above the dust limit, no change of a
  pending transaction.\<close>

definition swept :: "environment \<Rightarrow> stored_wallet \<Rightarrow> tracked_output list \<Rightarrow> bool" where
  "swept env snap outs \<longleftrightarrow>
     selectable (tracked_outputs snap) outs \<and> outs \<noteq> [] \<and>
     (\<forall>o1 \<in> set outs. walletcore_sweep_min_input_piconero env \<le> amount o1 \<and> not_pending_change snap o1)"

lemma selectable_subset:
  "selectable all1 outs \<Longrightarrow> set sel \<subseteq> set outs \<Longrightarrow>
     (distinct (map outpoint_of outs) \<Longrightarrow> distinct (map outpoint_of sel)) \<Longrightarrow> selectable all1 sel"
  unfolding selectable_def by blast

lemma not_pending_flagged: "reflagged snap snap' \<Longrightarrow> not_pending_change snap' o1 = not_pending_change snap o1"
  by (simp add: not_pending_change_def pending_txids_def reflagged_simps)

lemma triple_sweepable:
  assumes "\<And>outs snap'. reflagged snap snap' \<Longrightarrow> selectable (tracked_outputs snap) outs \<Longrightarrow>
    \<forall>o1 \<in> set outs. not_pending_change snap o1 \<Longrightarrow> triple (held i snap') (f (outs, snap')) R"
  shows "triple (held i snap) (bnd (sweepable cr sl i snap daemon m) f) R"
proof -
  have "triple (held i snap) (bnd (spendable_inputs cr sl i snap daemon True) (\<lambda>(outs, snap'). f
      (keep_minor m (filter (not_pending_change snap) outs), snap'))) R"
  proof (rule triple_spendable, clarsimp)
    fix outs snap' assume fl: "reflagged snap snap'" and sel: "selectable (tracked_outputs snap) outs"
    have "selectable (tracked_outputs snap) (keep_minor m (filter (not_pending_change snap) outs))"
      by (rule selectable_subset [OF sel])
        (auto simp: keep_minor_def distinct_map_filter split: option.split)
    then show "triple (held i snap') (f (keep_minor m (filter (not_pending_change snap) outs), snap')) R"
      by (rule assms [OF fl]) (auto simp: keep_minor_def split: option.splits)
  qed
  then show ?thesis
    unfolding triple_def sweepable_def bnd_Done by (force split: prod.splits)
qed

lemma above_dust_Done:
  "above_dust nm m outs s = (Done sel, s') \<Longrightarrow>
     sel = filter (\<lambda>o1. m \<le> amount o1) outs \<and> sel \<noteq> []"
  by (auto simp: above_dust_def nothing_to_sweep_def Let_def split: if_splits)

lemma sweep_opening_held:
  "triple (\<lambda>_. True) (sweep_opening cr env sl wallet_id url to_address f ring)
     (\<lambda>op s. held (arg_id wallet_id) (op_snapshot op) s \<and>
        (\<not> is_sealed (w_keys (op_snapshot op)) \<and> swept env (op_snapshot op) (op_outputs op) \<and>
         cx_url (op_ctx op) = daemon_base_url env url))"
  unfolding sweep_opening_def Let_def
  apply (rule triple_if [OF triple_fail triple_id])
  apply (rule triple_step [OF qf.runs_utf8_arg stable_True])
  apply (rule triple_snapshot)
  apply (rule triple_step [OF qf.runs_sweep_recipient stable_held])
  apply (rule triple_step [OF qf.runs_connect_daemon stable_held])
  apply (rule triple_step [OF qf.runs_daemon_tip stable_held])
  apply (rule triple_step [OF qf.runs_spend_keys stable_held], clarsimp dest!: spend_keys_Done)
  apply (rule triple_sweepable, clarsimp)
  apply (rule triple_step [OF qf.runs_above_dust stable_held])
  apply (rule triple_step [OF qf.runs_query_fee_rate stable_held])
  apply (rule triple_done1)
  apply (auto simp: reflagged_simps swept_def sweep_context_def not_pending_flagged distinct_map_filter
      dest!: above_dust_Done intro: selectable_subset)
  done

lemma made_from_held:
  "held i snap s \<Longrightarrow> \<not> is_sealed (w_keys snap) \<Longrightarrow> signed_by sl tx \<Longrightarrow> made_from cr sl i s (prepared_payload cr sl snap tx amt fee)"
  unfolding made_from_def held_def agrees_def by metis

lemma filter_prepared:
  "triple (\<lambda>_. True)
     (bnd (send_filter_opening cr env sl wallet_id url dests f ring) (\<lambda>op.
      bnd (filter_rounds env ko sl op) (\<lambda>r. filter_settle cr env sl op True (opt_get_or [] (selected_of r)))))
     (\<lambda>an s. \<exists>p. an = Prepared_Answer p \<and> made_from cr sl (arg_id wallet_id) s p)"
  unfolding send_filter_opening_def
  apply (rule triple_bnd [OF open_payments_held])
  apply (frule open_payments_id(1))
  apply (rule triple_pre)
  apply (rule triple_step [OF qf.runs_filter_rounds stable_held], assumption)
  apply (simp only: filter_settle_def Let_def if_True)
  apply (rule triple_step [OF qf.runs_final_transaction stable_held], clarsimp dest!: final_signed)
  apply (rule triple_done1, simp add: made_from_held)
  done

text \<open>A transaction built by a round of the fee loop.\<close>

lemma sweep_rounds_built:
  "sweep_rounds try1 fee_of nm n g it s = (Done (g', Some it'), s') \<Longrightarrow>
     it = Some it' \<or> (\<exists>g0 t t'. try1 g0 t = (Done (Inr it'), t'))"
proof (induction n arbitrary: g it s)
  case (Suc n)
  obtain c t where c: "try1 g s = (Done c, t)" and rest: "(case c of
      Inl message \<Rightarrow>
         if str_contains message ''not enough funds''
         then sweep_rounds try1 fee_of nm n (sat_add g 50000000) it
         else fail (-16) (nm @ '': transaction construction failed ('' @ message @ '')'')
     | Inr intent \<Rightarrow>
         if fee_of intent = g then done1 (g, Some intent)
         else sweep_rounds try1 fee_of nm n (fee_of intent) (Some intent)) t = (Done (g', Some it'), s')"
    using Suc.prems unfolding sweep_rounds.simps bnd_Done by blast
  show ?case
  proof (cases c)
    case (Inl m)
    then show ?thesis using rest Suc.IH by (auto split: if_splits)
  next
    case (Inr intent)
    then have "Some intent = Some it' \<or> (\<exists>g0 t t'. try1 g0 t = (Done (Inr it'), t'))"
      using rest Suc.IH by (auto split: if_splits)
    then show ?thesis using c Inr by blast
  qed
qed simp

lemma sweep_prepared:
  "triple (\<lambda>_. True)
     (bnd (sweep_opening cr env sl wallet_id url to_address f ring) (sweep_body cr env sl True))
     (\<lambda>an s. \<exists>p. an = Sweep_Prepared p \<and> made_from cr sl (arg_id wallet_id) s p)"
  apply (rule triple_bnd [OF sweep_opening_held])
  apply (rule triple_pre)
  apply (simp only: sweep_body_def Let_def if_True)
  apply (rule triple_step [OF qf.runs_sweep_inputs stable_held])
  apply (rule triple_step [OF qf.runs_sweep_fee_loop stable_held])
  apply (clarsimp split: prod.split simp: triple_fail cannot_pay_fee_def)
  apply (clarsimp split: option.split simp: triple_fail)
  apply (rule triple_step [OF qf.runs_sign stable_held])
  apply (clarsimp split: sum.split simp: triple_fail)
  apply (rule triple_done1, simp add: made_from_held sign_Done)
  done

section \<open>The calls\<close>

lemma run_sending_Done:
  "fst (fst (run_sending m w)) = Value (Some x) \<longleftrightarrow>
     (\<exists>s'. m \<lparr>sn_world = clear_last_error w, sn_calls = 0, sn_sent = []\<rparr> = (Done x, s'))"
  "m \<lparr>sn_world = clear_last_error w, sn_calls = 0, sn_sent = []\<rparr> = (Done x, s') \<Longrightarrow>
     run_sending m w = ((Value (Some x), clear_last_error (sn_world s')), sn_sent s')"
  by (auto simp: run_sending_def null_ptr_def split: prod.splits flow.splits)

text \<open>Whatever a prepared call returns passes the relay's checks on the store it leaves, if the daemon
  library reads back what it serialized.\<close>

definition reads_back :: "('i, 'n) send_lib \<Rightarrow> relay_lib \<Rightarrow> bool" where
  "reads_back sl rl \<longleftrightarrow>
     (\<forall>tx. signed_by sl tx \<longrightarrow>
        rl_read_tx rl (sl_serialize sl tx) = Inr (tx, []) \<and> sl_serialize sl tx \<noteq> [] \<and>
        length (sl_serialize sl tx) \<le> 2 * 1024 * 1024)"

lemma relay_checked_errors [simp]: "relay_checked cr rl (clear_last_error w) i p bs tx = relay_checked cr rl w i p bs tx"
  by (simp add: relay_checked_def clear_last_error_def)

lemma made_from_passes:
  assumes "triple (\<lambda>_. True) m (\<lambda>an s. \<exists>p. an = A p \<and> made_from cr sl i s p)" "inj A" "reads_back sl rl"
    and "run_sending m w = ((Value (Some (A p)), w'), sent)"
  shows "\<exists>tx. relay_checked cr rl w' i p (sl_serialize sl tx) tx"
proof -
  obtain s' where m: "m \<lparr>sn_world = clear_last_error w, sn_calls = 0, sn_sent = []\<rparr> = (Done (A p), s')"
    using assms(4) run_sending_Done(1) by (metis fst_conv)
  then have w': "w' = clear_last_error (sn_world s')" using run_sending_Done(2) [where m = m and w = w, OF m] assms(4) by simp
  have "made_from cr sl i s' p" using tripleD [OF assms(1) m] assms(2) by (auto dest: injD)
  then show ?thesis using made_from_relay [of cr sl i s' p rl] assms(3) w' by (simp add: reads_back_def)
qed

lemma send_prepared:
  "triple (\<lambda>_. True) (wallet_send_body cr env ko sl wallet_id url to_address amt ring True)
     (\<lambda>an s. \<exists>p. an = Prepared_Answer p \<and> made_from cr sl (arg_id wallet_id) s p)"
  unfolding triple_def using send_body_prepared by blast

section \<open>What a payment sends and records\<close>

lemma send_call_sent:
  assumes run: "wallet_send_impl cr env ko sl wallet_id url to_address amt ring False w = ((Value (Some an), w'), sent)"
    and nb: "env ''WALLETCORE_SEND_BISECT'' = None"
    and st: "map_of (wd_store w) (arg_id wallet_id) = Some st" and wf: "wallet_wf st"
    and d: "distinct (map outpoint_of (tracked_outputs st))" and max: "unspent_sum (tracked_outputs st) \<le> u64_max"
  shows "\<exists>tx fee sel q st'. an = Sent_Answer (hex_lowercase (sx_hash tx)) fee \<and>
    sent = [(daemon_base_url env url, sl_serialize sl tx)] \<and>
    (\<exists>k. broadcast_send_raw_transaction env (sl_display sl) (sl_raw_json sl) (sl_bin_daemon sl (daemon_base_url env url) k)
       (\<lambda>_ hex. sl_raw_call sl (daemon_base_url env url) hex k) (sl_serialize sl tx) = Inr ()) \<and>
    distinct (map outpoint_of sel) \<and> (\<forall>t \<in> set sel. t \<in> set (tracked_outputs st) \<and> \<not> spent t) \<and> flagged st q \<and>
    st' = record_pending (hex_lowercase (sx_hash tx)) amt fee (record_sent (sx_hash tx) sel q) \<and>
    map_of (wd_store w') (arg_id wallet_id) = Some st' \<and> wallet_wf st' \<and>
    w_total st' + sum_list (map amount sel) = w_total st \<and>
    (\<forall>j. j \<noteq> arg_id wallet_id \<longrightarrow> map_of (wd_store w') j = map_of (wd_store w) j)"
proof -
  let ?m = "wallet_send_body cr env ko sl wallet_id url to_address amt ring False"
  define s0 where "s0 = \<lparr>sn_world = clear_last_error w, sn_calls = 0, sn_sent = []\<rparr>"
  obtain s' where m: "?m s0 = (Done an, s')"
    using run run_sending_Done(1) unfolding wallet_send_impl_def s0_def by (metis fst_conv)
  have w': "w' = clear_last_error (sn_world s')" "sent = sn_sent s'"
    using run run_sending_Done(2) [where m = ?m and w = w, OF m [unfolded s0_def]]
    unfolding wallet_send_impl_def by simp_all
  have st0: "map_of (wd_store (sn_world s0)) (arg_id wallet_id) = Some st"
    using st by (simp add: s0_def clear_last_error_def)
  obtain q tx sel fee k where step: "an = Sent_Answer (hex_lowercase (sx_hash tx)) fee" "flagged st q"
    "distinct (map outpoint_of sel)" "\<forall>t \<in> set sel. t \<in> set (tracked_outputs st) \<and> \<not> spent t"
    "sn_sent s' = [(daemon_base_url env url, sl_serialize sl tx)]"
    "broadcast_send_raw_transaction env (sl_display sl) (sl_raw_json sl) (sl_bin_daemon sl (daemon_base_url env url) k)
       (\<lambda>_ hex. sl_raw_call sl (daemon_base_url env url) hex k) (sl_serialize sl tx) = Inr ()"
    "map_of (wd_store (sn_world s')) (arg_id wallet_id) =
       Some (record_pending (hex_lowercase (sx_hash tx)) amt fee (record_sent (sx_hash tx) sel q))"
    "\<And>j. j \<noteq> arg_id wallet_id \<Longrightarrow> map_of (wd_store (sn_world s')) j = map_of (wd_store w) j"
    using send_body_sent [where env = env, OF m nb st0 d] st0 d
    unfolding sent_step_def by (auto simp: s0_def clear_last_error_def)
  have q: "tracked_outputs q = tracked_outputs st" "wallet_wf q" "w_total q = w_total st"
    using flagged_simps [OF step(2)] wf flagged_wf [OF step(2)] by simp_all
  note pre = q(2) d [folded q(1)] step(3) step(4) [folded q(1)] max [folded q(1)]
  show ?thesis
    by (rule exI [of _ tx], rule exI [of _ fee], rule exI [of _ sel], rule exI [of _ q],
        rule exI [of _ "record_pending (hex_lowercase (sx_hash tx)) amt fee (record_sent (sx_hash tx) sel q)"])
      (use step w' recorded_send_wf [OF pre] record_sent_total(1) [OF pre, of "sx_hash tx"] q(3) in
        \<open>auto simp: clear_last_error_def record_pending_simps\<close>)
qed

section \<open>What a sweep sends and records\<close>

lemma sweep_refused_not_done: "sweep_refused env sl op e s \<noteq> (Done an, s')"
  by (auto simp: sweep_refused_def Let_def bnd_Done)

lemma sweep_accepted_records:
  assumes "sweep_accepted op tx amt fee s = (Done an, s')"
    and "map_of (wd_store (sn_world s)) (sp_id (op_plan op)) = Some q"
  shows "an = Sweep_Sent (hex_lowercase (sx_hash tx)) amt fee" "sn_sent s' = sn_sent s"
    "map_of (wd_store (sn_world s')) (sp_id (op_plan op)) =
       Some (record_pending (hex_lowercase (sx_hash tx)) amt fee (record_sent (sx_hash tx) (op_outputs op) q))"
    "\<And>j. j \<noteq> sp_id (op_plan op) \<Longrightarrow> map_of (wd_store (sn_world s')) j = map_of (wd_store (sn_world s)) j"
proof -
  obtain u1 s1 u2 where c1: "change_wallet (sp_id (op_plan op)) (record_sent (sx_hash tx) (op_outputs op)) s = (Done u1, s1)"
    and c2: "change_wallet (sp_id (op_plan op)) (record_pending (hex_lowercase (sx_hash tx)) amt fee) s1 = (Done u2, s')"
    and out: "an = Sweep_Sent (hex_lowercase (sx_hash tx)) amt fee"
    using assms(1) by (auto simp: sweep_accepted_def Let_def bnd_Done)
  note one = change_wallet_Done [OF c1 assms(2)]
  note two = change_wallet_Done [OF c2 one(1)]
  show "an = Sweep_Sent (hex_lowercase (sx_hash tx)) amt fee" "sn_sent s' = sn_sent s"
    "map_of (wd_store (sn_world s')) (sp_id (op_plan op)) =
       Some (record_pending (hex_lowercase (sx_hash tx)) amt fee (record_sent (sx_hash tx) (op_outputs op) q))"
    "\<And>j. j \<noteq> sp_id (op_plan op) \<Longrightarrow> map_of (wd_store (sn_world s')) j = map_of (wd_store (sn_world s)) j"
    using out one two by simp_all
qed

text \<open>The transaction of a sweep pays the swept sum less a guessed fee, and its own fee is what is reported.\<close>

definition sweeps :: "('i, 'n) send_lib \<Rightarrow> opened \<Rightarrow> 'n \<Rightarrow> bool" where
  "sweeps sl op intent \<longleftrightarrow>
     (\<exists>inputs g k. length inputs = length (op_outputs op) \<and>
        sl_construct sl inputs (map (\<lambda>(r, _). (r, sat_sub (sum_piconero (op_outputs op)) g)) (sp_pays (op_plan op)))
          (cx_pair (op_ctx op)) (sp_rate (op_plan op)) k = Inr intent)"

lemma sweep_fee_loop_built:
  assumes "sweep_inputs env sl op s = (Done inputs, t)" "sweep_fee_loop sl op inputs t = (Done (g, Some intent), u)"
  shows "sweeps sl op intent"
proof -
  obtain g0 t1 t2 where
    "construct_sweep sl (op_ctx op) (op_plan op) inputs (sum_piconero (op_outputs op)) g0 t1 = (Done (Inr intent), t2)"
    using sweep_rounds_built [OF assms(2) [unfolded sweep_fee_loop_def]] by auto
  then show ?thesis
    using each_length assms(1)
    by (fastforce simp: sweeps_def construct_sweep_def construct_def ask_def sweep_inputs_def Let_def)
qed

lemma sweep_body_sent:
  assumes run: "sweep_body cr env sl False op s = (Done an, s')"
    and st: "map_of (wd_store (sn_world s)) (sp_id (op_plan op)) = Some st"
  shows "\<exists>q tx intent amt k. flagged st q \<and>
     an = Sweep_Sent (hex_lowercase (sx_hash tx)) amt (sl_fee sl intent) \<and> sweeps sl op intent \<and>
     0 < amt \<and> amt + sl_fee sl intent = sum_piconero (op_outputs op) \<and>
     sn_sent s' = sn_sent s @ [(cx_url (op_ctx op), sl_serialize sl tx)] \<and>
     broadcast_send_raw_transaction env (sl_display sl) (sl_raw_json sl) (sl_bin_daemon sl (cx_url (op_ctx op)) k)
       (\<lambda>_ hex. sl_raw_call sl (cx_url (op_ctx op)) hex k) (sl_serialize sl tx) = Inr () \<and>
     map_of (wd_store (sn_world s')) (sp_id (op_plan op)) =
       Some (record_pending (hex_lowercase (sx_hash tx)) amt (sl_fee sl intent) (record_sent (sx_hash tx) (op_outputs op) q)) \<and>
     (\<forall>j. j \<noteq> sp_id (op_plan op) \<longrightarrow> map_of (wd_store (sn_world s')) j = map_of (wd_store (sn_world s)) j)"
proof -
  let ?i = "sp_id (op_plan op)" and ?S = "sum_piconero (op_outputs op)" and ?u = "cx_url (op_ctx op)"
  obtain inputs s1 g fin s2 where ins: "sweep_inputs env sl op s = (Done inputs, s1)"
    and loop: "sweep_fee_loop sl op inputs s1 = (Done (g, fin), s2)"
    and rest: "(let (final_amount, final_fee) = sweep_totals (sl_fee sl) ?S fin in
      if final_amount = 0 \<or> ?S \<le> final_fee then cannot_pay_fee (sp_name (op_plan op)) ?S final_fee
      else (case fin of None \<Rightarrow> fail (-16) (sp_name (op_plan op) @ '': fee estimation did not converge'')
      | Some intent \<Rightarrow>
      bnd (sign_transaction_on_large_stack sl intent (mk_spend_scalar (sp_master (op_plan op)))) (\<lambda>r. case r of
        Inl message \<Rightarrow> fail (-16) (sp_name (op_plan op) @ '': signing failed ('' @ message @ '')'')
      | Inr tx \<Rightarrow> bnd (broadcast env sl ?u (sl_serialize sl tx)) (\<lambda>b. case b of
                 Inl e \<Rightarrow> sweep_refused env sl op e
               | Inr _ \<Rightarrow> sweep_accepted op tx final_amount final_fee)))) s2 = (Done an, s')"
    using run unfolding sweep_body_def Let_def bnd_Done if_False by auto
  obtain intent where fin: "fin = Some intent"
    using rest by (cases fin) (auto simp: Let_def sweep_totals_def cannot_pay_fee_def split: if_splits prod.splits)
  let ?fee = "sl_fee sl intent" and ?amt = "sat_sub ?S (sl_fee sl intent)"
  have pos: "?amt \<noteq> 0" "\<not> ?S \<le> ?fee" and
    rest2: "bnd (sign_transaction_on_large_stack sl intent (mk_spend_scalar (sp_master (op_plan op)))) (\<lambda>r. case r of
        Inl message \<Rightarrow> fail (-16) (sp_name (op_plan op) @ '': signing failed ('' @ message @ '')'')
      | Inr tx \<Rightarrow> bnd (broadcast env sl ?u (sl_serialize sl tx)) (\<lambda>b. case b of
                 Inl e \<Rightarrow> sweep_refused env sl op e
               | Inr _ \<Rightarrow> sweep_accepted op tx ?amt ?fee)) s2 = (Done an, s')"
    using rest by (auto simp: fin sweep_totals_def cannot_pay_fee_def simp del: append.simps split: if_splits)
  obtain r s3 where sign1: "sign_transaction_on_large_stack sl intent (mk_spend_scalar (sp_master (op_plan op))) s2 = (Done r, s3)"
    and rest3: "(case r of Inl message \<Rightarrow> fail (-16) (sp_name (op_plan op) @ '': signing failed ('' @ message @ '')'')
      | Inr tx \<Rightarrow> bnd (broadcast env sl ?u (sl_serialize sl tx)) (\<lambda>b. case b of
                 Inl e \<Rightarrow> sweep_refused env sl op e
               | Inr _ \<Rightarrow> sweep_accepted op tx ?amt ?fee)) s3 = (Done an, s')"
    using rest2 unfolding bnd_Done by blast
  obtain tx where r: "r = Inr tx" using rest3 by (cases r) simp_all
  have sign: "sign_transaction_on_large_stack sl intent (mk_spend_scalar (sp_master (op_plan op))) s2 = (Done (Inr tx), s3)"
    using sign1 r by simp
  obtain b s4 where br1: "broadcast env sl ?u (sl_serialize sl tx) s3 = (Done b, s4)"
    and rest4: "(case b of Inl e \<Rightarrow> sweep_refused env sl op e | Inr _ \<Rightarrow> sweep_accepted op tx ?amt ?fee) s4 = (Done an, s')"
    using rest3 unfolding r sum.case bnd_Done by blast
  have b: "b = Inr ()" using rest4 by (cases b) (simp_all add: sweep_refused_not_done)
  note br = br1 [unfolded b]
  have acc: "sweep_accepted op tx ?amt ?fee s4 = (Done an, s')" using rest4 b by simp
  have quiet: "quiet ?i s s3"
    by (rule qf.R_trans [OF qf.R_trans [OF quietD [OF qf.runs_sweep_inputs ins]
          quietD [OF qf.runs_sweep_fee_loop loop]] quietD [OF qf.runs_sign sign]])
  obtain q where q: "map_of (wd_store (sn_world s3)) ?i = Some q" "flagged st q"
    using quiet_wallet [OF quiet st] by blast
  have s4: "s4 = s3\<lparr>sn_calls := Suc (sn_calls s3), sn_sent := sn_sent s3 @ [(?u, sl_serialize sl tx)]\<rparr>"
    and ok: "broadcast_send_raw_transaction env (sl_display sl) (sl_raw_json sl) (sl_bin_daemon sl ?u (sn_calls s3))
      (\<lambda>_ hex. sl_raw_call sl ?u hex (sn_calls s3)) (sl_serialize sl tx) = Inr ()"
    using br by (auto simp: broadcast_def Let_def)
  have "map_of (wd_store (sn_world s4)) ?i = Some q" using q s4 by simp
  note rec = sweep_accepted_records [OF acc this]
  have frame: "sn_sent s3 = sn_sent s" "\<And>j. j \<noteq> ?i \<Longrightarrow> map_of (wd_store (sn_world s3)) j = map_of (wd_store (sn_world s)) j"
    using quiet by (auto simp: quiet_def store_moves_def)
  have sum: "0 < ?amt" "?amt + ?fee = ?S" using pos by (auto simp: sat_sub_def)
  show ?thesis
    by (rule exI [of _ q], rule exI [of _ tx], rule exI [of _ intent], rule exI [of _ ?amt], rule exI [of _ "sn_calls s3"])
      (use q(2) rec sum ok frame s4 sweep_fee_loop_built [OF ins loop [unfolded fin]] in simp)
qed

lemma sweep_call_sent:
  assumes run: "wallet_sweep_with_filter_impl cr env sl wallet_id url to_address f ring False w = ((Value (Some an), w'), sent)"
    and st: "map_of (wd_store w) (arg_id wallet_id) = Some st"
  shows "\<exists>q sel tx op intent amt k. flagged st q \<and> swept env st sel \<and> op_outputs op = sel \<and> sweeps sl op intent \<and>
     an = Sweep_Sent (hex_lowercase (sx_hash tx)) amt (sl_fee sl intent) \<and>
     0 < amt \<and> amt + sl_fee sl intent = sum_piconero sel \<and>
     sent = [(daemon_base_url env url, sl_serialize sl tx)] \<and>
     broadcast_send_raw_transaction env (sl_display sl) (sl_raw_json sl) (sl_bin_daemon sl (daemon_base_url env url) k)
       (\<lambda>_ hex. sl_raw_call sl (daemon_base_url env url) hex k) (sl_serialize sl tx) = Inr () \<and>
     map_of (wd_store w') (arg_id wallet_id) =
       Some (record_pending (hex_lowercase (sx_hash tx)) amt (sl_fee sl intent) (record_sent (sx_hash tx) sel q)) \<and>
     (\<forall>j. j \<noteq> arg_id wallet_id \<longrightarrow> map_of (wd_store w') j = map_of (wd_store w) j)"
proof -
  let ?i = "arg_id wallet_id" and ?u = "daemon_base_url env url"
  let ?m = "bnd (sweep_opening cr env sl wallet_id url to_address f ring) (sweep_body cr env sl False)"
  define s0 where "s0 = \<lparr>sn_world = clear_last_error w, sn_calls = 0, sn_sent = []\<rparr>"
  obtain s' where m: "?m s0 = (Done an, s')"
    using run run_sending_Done(1) unfolding wallet_sweep_with_filter_impl_def s0_def by (metis fst_conv)
  have w': "w' = clear_last_error (sn_world s')" "sent = sn_sent s'"
    using run run_sending_Done(2) [where m = ?m and w = w, OF m [unfolded s0_def]]
    unfolding wallet_sweep_with_filter_impl_def by simp_all
  obtain op s1 where op: "sweep_opening cr env sl wallet_id url to_address f ring s0 = (Done op, s1)"
    and body: "sweep_body cr env sl False op s1 = (Done an, s')"
    using m unfolding bnd_Done by blast
  have quiet: "quiet ?i s0 s1" by (rule quietD [OF qf.runs_sweep_opening [OF refl] op])
  have st0: "map_of (wd_store (sn_world s0)) ?i = Some st" using st by (simp add: s0_def clear_last_error_def)
  obtain st1 where st1: "map_of (wd_store (sn_world s1)) ?i = Some st1" "flagged st st1"
    using quiet_wallet [OF quiet st0] by blast
  have h: "held ?i (op_snapshot op) s1" "swept env (op_snapshot op) (op_outputs op)" "cx_url (op_ctx op) = ?u"
    using tripleD [OF sweep_opening_held op TrueI] by blast+
  have ag: "agrees (op_snapshot op) st1" using h(1) st1(1) by (simp add: held_def)
  have sw: "swept env st (op_outputs op)"
    using h(2) ag flagged_simps [OF st1(2)]
    by (simp add: swept_def agrees_def not_pending_change_def pending_txids_def)
  have id: "sp_id (op_plan op) = ?i" by (rule sweep_opening_id [OF op])
  obtain q tx intent amt k where b: "flagged st1 q" "sweeps sl op intent"
    "an = Sweep_Sent (hex_lowercase (sx_hash tx)) amt (sl_fee sl intent)"
    "0 < amt" "amt + sl_fee sl intent = sum_piconero (op_outputs op)"
    "sn_sent s' = sn_sent s1 @ [(?u, sl_serialize sl tx)]"
    "broadcast_send_raw_transaction env (sl_display sl) (sl_raw_json sl) (sl_bin_daemon sl ?u k)
       (\<lambda>_ hex. sl_raw_call sl ?u hex k) (sl_serialize sl tx) = Inr ()"
    "map_of (wd_store (sn_world s')) ?i =
       Some (record_pending (hex_lowercase (sx_hash tx)) amt (sl_fee sl intent) (record_sent (sx_hash tx) (op_outputs op) q))"
    "\<And>j. j \<noteq> ?i \<Longrightarrow> map_of (wd_store (sn_world s')) j = map_of (wd_store (sn_world s1)) j"
    using sweep_body_sent [OF body, unfolded id, OF st1(1)] unfolding h(3) by blast
  have frame: "sn_sent s1 = []" "\<And>j. j \<noteq> ?i \<Longrightarrow> map_of (wd_store (sn_world s1)) j = map_of (wd_store w) j"
    using quiet by (auto simp: quiet_def store_moves_def s0_def clear_last_error_def)
  show ?thesis
    by (rule exI [of _ q], rule exI [of _ "op_outputs op"], rule exI [of _ tx], rule exI [of _ op], rule exI [of _ intent],
        rule exI [of _ amt], rule exI [of _ k])
      (use b sw w' frame flagged_trans [OF st1(2) b(1)] in \<open>simp add: clear_last_error_def\<close>)
qed

section \<open>The filtered send writes no pending record\<close>

definition ledger_kept :: "string \<Rightarrow> sender \<Rightarrow> sender \<Rightarrow> bool" where
  "ledger_kept i s s' \<longleftrightarrow>
     store_moves (\<lambda>a b. w_tx_ledger b = w_tx_ledger a \<and> w_pending_outgoing b = w_pending_outgoing a) i
       (sn_world s) (sn_world s')"

interpretation lf: book_frame i "ledger_kept i" for i
proof
  let ?Q = "\<lambda>a b. w_tx_ledger b = w_tx_ledger a \<and> w_pending_outgoing b = w_pending_outgoing a"
  show "ledger_kept i s u" if "ledger_kept i s t" "ledger_kept i t u" for s t u
    using that store_moves_trans [of ?Q] by (auto simp: ledger_kept_def)
  show "ledger_kept i s s'" if "wd_store (sn_world s') = wd_store (sn_world s)"
    "wd_store_poisoned (sn_world s') = wd_store_poisoned (sn_world s)" "sn_sent s' = sn_sent s" for s s'
    using that by (simp add: ledger_kept_def store_moves_refl)
  show "ledger_kept i s s'" if "map_of (wd_store (sn_world s)) i = Some st" "flagged st st'"
    "wd_store (sn_world s') = hm_insert i st' (wd_store (sn_world s))"
    "wd_store_poisoned (sn_world s') = wd_store_poisoned (sn_world s)" "sn_sent s' = sn_sent s" for s s' st st'
    using store_moves_insert [of _ i st ?Q, OF that(1) _ that(3,4)] flagged_simps [OF that(2)]
    by (simp add: ledger_kept_def)
  show "ledger_kept i s (s\<lparr>sn_world := put_wallet i st' (sn_world s)\<rparr>)"
    if "map_of (wd_store (sn_world s)) i = Some st" "booked st st'" for s st st'
    using store_moves_insert [of _ i st ?Q] that(1) booked_simps [OF that(2)] by (simp add: ledger_kept_def put_wallet_def)
  show "ledger_kept i s (s\<lparr>sn_calls := k, sn_sent := l\<rparr>)" for s k l
    by (simp add: ledger_kept_def store_moves_refl)
qed

lemma runs_filter_accepted: "sp_id sp = i \<Longrightarrow> runs (ledger_kept i) (filter_accepted sp selected tx fee)"
proof -
  have "runs (ledger_kept i) (change_wallet i (record_sent h sel))" for h sel
    unfolding runs_def ledger_kept_def change_wallet_def
    by (auto simp: store_moves_def put_wallet_def record_sent_simps option.rel_refl split: option.split)
  then show "sp_id sp = i \<Longrightarrow> ?thesis" unfolding filter_accepted_def by (auto intro!: lf.runs_bnd lf.runs_done1)
qed

lemma filter_send_writes_no_row:
  "store_moves (\<lambda>a b. w_tx_ledger b = w_tx_ledger a \<and> w_pending_outgoing b = w_pending_outgoing a)
     (arg_id wallet_id) w (snd (fst (wallet_send_with_filter_impl cr env ko sl wallet_id url dests f ring prepare w)))"
proof -
  let ?i = "arg_id wallet_id"
  let ?m = "bnd (send_filter_opening cr env sl wallet_id url dests f ring) (\<lambda>op.
        bnd (filter_rounds env ko sl op) (\<lambda>r. filter_settle cr env sl op prepare (opt_get_or [] (selected_of r))))"
  have settle: "runs (ledger_kept ?i) (filter_settle cr env sl op prepare sel)" if "sp_id (op_plan op) = ?i" for op sel
    unfolding filter_settle_def Let_def
    by (intro runs_intro lf.runs_final_transaction lf.runs_broadcast lf.runs_bnd lf.runs_done1 lf.runs_filter_refused
        runs_filter_accepted that)
  have "runs (ledger_kept ?i) ?m"
    unfolding send_filter_opening_def
    by (rule lf.runs_bnd_Done [OF lf.runs_open_payments [OF refl]])
      (auto intro!: lf.runs_bnd lf.runs_filter_rounds settle dest!: open_payments_id(1))
  then show ?thesis
    unfolding wallet_send_with_filter_impl_def runs_def ledger_kept_def run_sending_def
    by (auto simp: Let_def null_ptr_def split: prod.split flow.split
        dest!: spec [of _ "\<lparr>sn_world = clear_last_error w, sn_calls = 0, sn_sent = []\<rparr>"])
qed

end
