(* ===== verification/Refresh_Policy.thy ===== *)
theory Refresh_Policy
  imports Env_Config Ledger
begin

text \<open>
  The pure decisions of a refresh (\<open>ffi/refresh.rs\<close>): which fetch errors are retried and how long,
  what a parent-hash mismatch leads to, how large the batches and the thread pool are, the order of
  the parallel ownership scan, and the checks on the blocks and transactions of a range answer.
\<close>

section \<open>Fetch errors and retries\<close>

definition is_channel_closed_error :: "string \<Rightarrow> bool" where
  "is_channel_closed_error e =
     (let m = to_ascii_lowercase e in str_contains m ''channelclosed'' \<or> str_contains m ''channel closed'')"

definition is_transient_block_fetch_error :: "string \<Rightarrow> bool" where
  "is_transient_block_fetch_error e =
     (let m = to_ascii_lowercase e in
      is_channel_closed_error e \<or> str_contains m ''connection error'' \<or> str_contains m ''internal error'' \<or>
      str_contains m ''timeout'' \<or> str_contains m ''timed out'' \<or> str_contains m ''reset'' \<or>
      str_contains m ''broken pipe'' \<or> str_contains m ''temporarily'' \<or> str_contains m ''try again'')"

definition is_json_batch_or_shape_error :: "string \<Rightarrow> bool" where
  "is_json_batch_or_shape_error e =
     (let m = to_ascii_lowercase e;
          ap = [CHR 39] in
      str_contains m (''response wasn'' @ ap @ ''t the expected json'') \<or>
      str_contains m (''wasn'' @ ap @ ''t the expected json'') \<or>
      str_contains m ''unprocessable'' \<or> str_contains m ''422'')"

definition BLOCK_FETCH_RETRY_LIMIT :: nat where
  "BLOCK_FETCH_RETRY_LIMIT = 5"

definition REORG_PROBE_RETRY_LIMIT :: nat where
  "REORG_PROBE_RETRY_LIMIT = 3"

definition block_fetch_retry_delay :: "u32 \<Rightarrow> u64" where
  "block_fetch_retry_delay attempt = sat_mul 250 (2 ^ min attempt 3)"

text \<open>The new retry counter, or \<open>None\<close> when the error is final.\<close>

definition maybe_retry_block_fetch :: "string \<Rightarrow> u32 \<Rightarrow> u32 option" where
  "maybe_retry_block_fetch e fetch_retries =
     (if is_transient_block_fetch_error e \<and> fetch_retries < BLOCK_FETCH_RETRY_LIMIT
      then Some (fetch_retries + 1) else None)"

definition next_height_after_response :: "u64 \<Rightarrow> nat \<Rightarrow> u64" where
  "next_height_after_response start_height returned_blocks =
     sat_add start_height (if returned_blocks \<le> u64_max then returned_blocks else u64_max)"

text \<open>The fallback of a daemon that rejects JSON batches: the range request unless that is the
  mode already, then one block at a time; the flag tells whether the range request answered.\<close>

definition try_json_batch_error_fallback ::
    "bulk_fetch_mode \<Rightarrow> string \<Rightarrow> string + 'b list \<Rightarrow> string + 'b list \<Rightarrow> ('b list \<times> bool) option" where
  "try_json_batch_error_fallback mode e range_answer one_by_one =
     (let one = (case one_by_one of
                   Inl _ \<Rightarrow> None
                 | Inr blocks \<Rightarrow> if blocks = [] then None else Some (blocks, False)) in
      if \<not> is_json_batch_or_shape_error e then None
      else if mode \<noteq> RangeBlocks
      then (case range_answer of
              Inr blocks \<Rightarrow> if blocks \<noteq> [] then Some (blocks, True) else one
            | Inl _ \<Rightarrow> one)
      else one)"

text \<open>Fetching one by one stops at the first error.\<close>

fun fetch_scannable_blocks_one_by_one :: "(usize \<Rightarrow> string + 'b list) \<Rightarrow> usize list \<Rightarrow> string + 'b list" where
  "fetch_scannable_blocks_one_by_one get [] = Inr []"
| "fetch_scannable_blocks_one_by_one get (h # hs) =
     (case get h of
        Inl e \<Rightarrow> Inl e
      | Inr batch \<Rightarrow>
          (case fetch_scannable_blocks_one_by_one get hs of
             Inl e \<Rightarrow> Inl e
           | Inr rest \<Rightarrow> Inr (batch @ rest)))"

section \<open>Reorganisation decisions\<close>

definition should_probe_reorg_on_resume :: "usize \<Rightarrow> bool" where
  "should_probe_reorg_on_resume recent_hashes_len \<longleftrightarrow> 0 < recent_hashes_len"

datatype resume_reorg_action = RR_KeepCursor | RR_Rewind u64

datatype parent_mismatch_action =
    PM_Continue
  | PM_Rewind u64 bool
  | PM_Retry u32 bool
  | PM_Abort u32 bool

definition decide_resume_reorg_action :: "u64 \<Rightarrow> string + u64 option \<Rightarrow> string + resume_reorg_action" where
  "decide_resume_reorg_action scan_cursor probe =
     (case probe of
        Inr (Some rewind_to) \<Rightarrow> if rewind_to < scan_cursor then Inr (RR_Rewind rewind_to) else Inr RR_KeepCursor
      | Inr None \<Rightarrow> Inr RR_KeepCursor
      | Inl message \<Rightarrow> Inl message)"

definition decide_parent_mismatch_action ::
    "hash32 option \<Rightarrow> hash32 \<Rightarrow> unit + u64 option \<Rightarrow> u32 \<Rightarrow> u32 \<Rightarrow> parent_mismatch_action" where
  "decide_parent_mismatch_action expected_prev actual_prev probe prior_failures limit =
     (case expected_prev of
        None \<Rightarrow> PM_Continue
      | Some expected \<Rightarrow>
          if actual_prev = expected then PM_Continue
          else
            let failed = (let failures = sat_add32 prior_failures 1 in
                          if limit < failures then PM_Abort failures True else PM_Retry failures True) in
            (case probe of
               Inr (Some scan_from) \<Rightarrow> PM_Rewind scan_from True
             | Inr None \<Rightarrow> failed
             | Inl _ \<Rightarrow> failed))"

section \<open>Batch size and parallelism\<close>

definition MAX_UPSTREAM_BLOCK_BATCH :: nat where
  "MAX_UPSTREAM_BLOCK_BATCH = 1000"

definition automatic_scan_parallelism :: "bool \<Rightarrow> usize \<Rightarrow> usize" where
  "automatic_scan_parallelism mobile available =
     (let cap = (if mobile then 4 else 8) in max (min (max available 1) cap) 1)"

definition configured_scan_parallelism :: "bool \<Rightarrow> usize \<Rightarrow> string option \<Rightarrow> usize" where
  "configured_scan_parallelism mobile available configured =
     (let automatic = automatic_scan_parallelism mobile available in
      case opt_filter (\<lambda>v. v \<noteq> []) (map_option trim configured) of
        None \<Rightarrow> automatic
      | Some v \<Rightarrow>
          if eq_ignore_ascii_case v ''auto'' then automatic
          else (case parse_unsigned usize_max v of
                  None \<Rightarrow> automatic
                | Some n \<Rightarrow> if n = 0 \<or> n = 1 then 1 else max (min n (max available 1)) 1))"

definition configured_upstream_block_batch :: "bool \<Rightarrow> string option \<Rightarrow> u64" where
  "configured_upstream_block_batch mobile configured =
     clamp 1 MAX_UPSTREAM_BLOCK_BATCH
       (opt_get_or (default_range_block_batch mobile)
          (Option.bind configured (\<lambda>v. parse_unsigned u64_max (trim v))))"

definition configured_range_decode_parallel :: "string option \<Rightarrow> bool \<Rightarrow> bool" where
  "configured_range_decode_parallel configured d =
     (case opt_filter (\<lambda>v. v \<noteq> []) (map_option trim configured) of
        None \<Rightarrow> d
      | Some v \<Rightarrow> v \<noteq> ''0'' \<and> \<not> eq_ignore_ascii_case v ''false'' \<and> \<not> eq_ignore_ascii_case v ''off'')"

text \<open>\<open>par_chunks\<close>: consecutive chunks of the given size, the last one shorter.\<close>

function chunks :: "nat \<Rightarrow> 'a list \<Rightarrow> 'a list list" where
  "chunks n xs = (if n = 0 \<or> xs = [] then [] else take n xs # chunks n (drop n xs))"
  by auto
termination by (relation "measure (\<lambda>(n, xs). length xs)") auto

declare chunks.simps [simp del]

definition div_ceil :: "nat \<Rightarrow> nat \<Rightarrow> nat" where
  "div_ceil a b = (a + b - 1) div b"

definition scan_blocks_parallel_ordered :: "usize \<Rightarrow> ('b \<Rightarrow> 'r) \<Rightarrow> 'b list \<Rightarrow> 'r list" where
  "scan_blocks_parallel_ordered threads scan scannables =
     (if scannables = [] then []
      else let worker_count = max (min threads (length scannables)) 1;
               chunk_size = div_ceil (length scannables) worker_count in
        concat (map (\<lambda>chunk. map scan chunk) (chunks chunk_size scannables)))"

section \<open>Subaddress registration\<close>

definition register_scan_subaddresses :: "u32 \<Rightarrow> u32 \<Rightarrow> string + (u64 \<times> (u32 \<times> u32) list)" where
  "register_scan_subaddresses gap accounts =
     (let gap = max gap 1; accounts = max accounts 1;
          registrations = accounts * (gap + 1) - 1 in
      if 100000 < registrations then Inl ''scan coverage exceeds 100000 registrations''
      else Inr (registrations,
        filter (\<lambda>(major, minor). \<not> (major = 0 \<and> minor = 0))
          (List.product [0..<accounts] [0..<gap + 1])))"

section \<open>Range answers\<close>

record decoded_range_block =
  db_number :: usize
  db_previous :: hash32
  db_hash :: hash32

definition range_number_error :: "nat \<Rightarrow> nat \<Rightarrow> string" where
  "range_number_error expected number =
     ''range get_blocks.bin requested block #'' @ show_nat expected @ '', received #'' @ show_nat number"

definition range_parent_error :: "nat \<Rightarrow> string" where
  "range_parent_error expected =
     ''range get_blocks.bin block #'' @ show_nat expected @ '' does not build on its predecessor''"

fun validate_range_from :: "usize \<Rightarrow> hash32 option \<Rightarrow> nat \<Rightarrow> decoded_range_block list \<Rightarrow> string + unit" where
  "validate_range_from start parent offset [] = Inr ()"
| "validate_range_from start parent offset (decoded # rest) =
     (case checked_add start offset of
        None \<Rightarrow> Inl ''range block height overflow''
      | Some expected \<Rightarrow>
          if db_number decoded \<noteq> expected then Inl (range_number_error expected (db_number decoded))
          else if (case parent of None \<Rightarrow> False | Some hash \<Rightarrow> hash \<noteq> db_previous decoded)
          then Inl (range_parent_error expected)
          else validate_range_from start (Some (db_hash decoded)) (offset + 1) rest)"

definition validate_range_blocks :: "usize \<Rightarrow> decoded_range_block list \<Rightarrow> string + unit" where
  "validate_range_blocks start blocks =
     validate_range_from start (if start = 0 then Some (replicate 32 0) else None) 0 blocks"

text \<open>The output indices of a block answer: with or without the miner transaction. A transaction is
  what the code reads of it, whether it is version 1 and how many outputs it has.\<close>

definition index_error :: "nat \<Rightarrow> string \<Rightarrow> string" where
  "index_error block_idx rest = ''range get_blocks.bin block['' @ show_nat block_idx @ ''] output_indices '' @ rest"

fun first_output_indexes :: "nat \<Rightarrow> ((bool \<times> nat) \<times> u64 list) list \<Rightarrow> string + u64 list option" where
  "first_output_indexes block_idx [] = Inr None"
| "first_output_indexes block_idx (((v1, outputs), indices) # rest) =
     (if v1 \<or> outputs = 0 then first_output_indexes block_idx rest
      else if length indices \<noteq> outputs
      then Inl (index_error block_idx
             (''count '' @ show_nat (length indices) @ '' did not match tx outputs '' @ show_nat outputs))
      else Inr (Some indices))"

definition get_output_indexes_from_block_response ::
    "nat \<Rightarrow> bool \<times> nat \<Rightarrow> (bool \<times> nat) list \<Rightarrow> u64 list list option \<Rightarrow> string + u64 list option" where
  "get_output_indexes_from_block_response block_idx miner_tx transactions block_output_indices =
     (case block_output_indices of
        None \<Rightarrow> Inr None
      | Some tx_entries \<Rightarrow>
          let txs_with_miner = sat_add 1 (length transactions) in
          if length tx_entries = txs_with_miner
          then first_output_indexes block_idx (zip (miner_tx # transactions) tx_entries)
          else if length tx_entries = length transactions
          then first_output_indexes block_idx (zip transactions tx_entries)
          else Inl (index_error block_idx
                 (''had '' @ show_nat (length tx_entries) @ '' tx entries, expected '' @ show_nat txs_with_miner @
                  '' (with miner) or '' @ show_nat (length transactions) @ '' (without miner)'')))"

text \<open>One transaction of a range answer. The transaction codec is a parameter: the pruned reader
  and the full reader return the transaction with the number of bytes left.\<close>

datatype range_fetch_error = RF_Rpc string | RF_RetryUnpruned string

record 'tx tx_codec =
  tc_read_pruned :: "bytes \<Rightarrow> string + 'tx \<times> nat"
  tc_read_full :: "bytes \<Rightarrow> string + 'tx \<times> nat"
  tc_is_v1 :: "'tx \<Rightarrow> bool"
  tc_has_proofs :: "'tx \<Rightarrow> bool"
  tc_with_hash :: "'tx \<Rightarrow> hash32 option \<Rightarrow> bool"
  tc_verify :: "'tx \<Rightarrow> hash32 option \<Rightarrow> hash32 \<Rightarrow> 'tx option"
  tc_full_hash :: "'tx \<Rightarrow> hash32"
  tc_prunable_hash :: "'tx \<Rightarrow> hash32 option"
  tc_prune :: "'tx \<Rightarrow> 'tx"

definition tx_label :: "nat \<Rightarrow> nat \<Rightarrow> string \<Rightarrow> string" where
  "tx_label block_idx tx_idx rest =
     ''range get_blocks.bin block['' @ show_nat block_idx @ ''] tx['' @ show_nat tx_idx @ ''] '' @ rest"

definition decode_full ::
    "'tx tx_codec \<Rightarrow> bytes \<Rightarrow> hash32 option \<Rightarrow> hash32 \<Rightarrow> nat \<Rightarrow> nat \<Rightarrow> string \<Rightarrow> range_fetch_error + 'tx" where
  "decode_full tc blob prunable_hash expected_hash bi ti detail =
     (case tc_read_full tc blob of
        Inl error \<Rightarrow> Inl (RF_Rpc (tx_label bi ti
                       (''decode failed ('' @ detail @ ''; full decode failed: '' @ error @ '')'')))
      | Inr (tx, left) \<Rightarrow>
          if left \<noteq> 0
          then Inl (RF_Rpc (tx_label bi ti (''full transaction had '' @ show_nat left @ '' trailing bytes'')))
          else if tc_full_hash tc tx \<noteq> expected_hash
          then Inl (RF_Rpc (tx_label bi ti ''full transaction hash mismatch''))
          else if (case (prunable_hash, tc_prunable_hash tc tx) of
                     (Some e, Some a) \<Rightarrow> a \<noteq> e | _ \<Rightarrow> False)
          then Inl (RF_Rpc (tx_label bi ti ''prunable_hash mismatch''))
          else Inr (tc_prune tc tx))"

definition decode_range_transaction ::
    "'tx tx_codec \<Rightarrow> bytes \<Rightarrow> hash32 option \<Rightarrow> hash32 \<Rightarrow> nat \<Rightarrow> nat \<Rightarrow> range_fetch_error + 'tx" where
  "decode_range_transaction tc blob prunable_hash expected_hash bi ti =
     (case tc_read_pruned tc blob of
        Inl error \<Rightarrow> decode_full tc blob prunable_hash expected_hash bi ti (''pruned decode failed: '' @ error)
      | Inr (tx, left) \<Rightarrow>
          if left \<noteq> 0
          then decode_full tc blob prunable_hash expected_hash bi ti
                 (''pruned decode left '' @ show_nat left @ '' trailing bytes'')
          else if \<not> tc_is_v1 tc tx \<and> tc_has_proofs tc tx \<and> prunable_hash = Some (replicate 32 0)
          then Inl (RF_RetryUnpruned (tx_label bi ti ''pruned response had an uninitialized prunable_hash''))
          else
            let usable = (if tc_is_v1 tc tx then None else prunable_hash) in
            if \<not> tc_with_hash tc tx usable
            then Inl (RF_RetryUnpruned (tx_label bi ti ''pruned response was missing a usable prunable_hash''))
            else (case tc_verify tc tx usable expected_hash of
                    None \<Rightarrow> Inl (RF_Rpc (tx_label bi ti ''pruned transaction hash mismatch''))
                  | Some verified \<Rightarrow> Inr verified))"

section \<open>Lemmas\<close>

lemma retry_bounded: "maybe_retry_block_fetch e n = Some n' \<Longrightarrow> n' = n + 1 \<and> n' \<le> BLOCK_FETCH_RETRY_LIMIT"
  by (auto simp: maybe_retry_block_fetch_def BLOCK_FETCH_RETRY_LIMIT_def split: if_splits)

lemma retry_delay_bounds: "250 \<le> block_fetch_retry_delay n \<and> block_fetch_retry_delay n \<le> 2000"
proof -
  have "min n 3 \<in> {0, 1, 2, 3}" by auto
  then show ?thesis by (auto simp: block_fetch_retry_delay_def sat_mul_def u64_max_def)
qed

text \<open>A mismatch rewinds only on proof of a fork; without proof it retries at most \<open>limit\<close> times.\<close>

lemma parent_mismatch_cases:
  "case decide_parent_mismatch_action expected actual probe n limit of
     PM_Continue \<Rightarrow> expected = None \<or> expected = Some actual
   | PM_Rewind h c \<Rightarrow> c \<and> probe = Inr (Some h) \<and> (\<exists>e. expected = Some e \<and> e \<noteq> actual)
   | PM_Retry m c \<Rightarrow> c \<and> m = sat_add32 n 1 \<and> m \<le> limit \<and> (\<forall>h. probe \<noteq> Inr (Some h)) \<and> expected \<noteq> Some actual
   | PM_Abort m c \<Rightarrow> c \<and> m = sat_add32 n 1 \<and> limit < m \<and> (\<forall>h. probe \<noteq> Inr (Some h)) \<and> expected \<noteq> Some actual"
  by (auto simp: decide_parent_mismatch_action_def Let_def split: option.split sum.split)

lemma concat_chunks: "0 < n \<Longrightarrow> concat (chunks n xs) = xs"
  by (induction n xs rule: chunks.induct) (subst chunks.simps, simp)

lemma map_chunks: "0 < n \<Longrightarrow> concat (map (map f) (chunks n xs)) = map f xs"
  by (metis concat_chunks map_concat)

lemma div_ceil_pos: "0 < a \<Longrightarrow> 0 < b \<Longrightarrow> 0 < div_ceil a b"
  by (simp add: div_ceil_def div_greater_zero_iff)

lemma scan_parallel_eq: "scan_blocks_parallel_ordered n f xs = map f xs"
  using div_ceil_pos [of "length xs" "max (min n (length xs)) 1"]
  by (auto simp: scan_blocks_parallel_ordered_def Let_def map_chunks)

lemma validate_range_from_spec:
  "validate_range_from start parent k blocks = Inr () \<longleftrightarrow>
     (\<forall>j < length blocks. start + (k + j) \<le> u64_max \<and> db_number (blocks ! j) = start + (k + j) \<and>
        (case (if j = 0 then parent else Some (db_hash (blocks ! (j - 1)))) of
           None \<Rightarrow> True | Some h \<Rightarrow> db_previous (blocks ! j) = h))"
proof (induction blocks arbitrary: parent k)
  case (Cons b bs)
  show ?case (is "?L = (\<forall>j < length (b # bs). ?P j)")
  proof -
    have split: "(\<forall>j < length (b # bs). ?P j) \<longleftrightarrow> ?P 0 \<and> (\<forall>j < length bs. ?P (Suc j))"
      by (auto simp: less_Suc_eq_0_disj)
    have "?P (Suc j) \<longleftrightarrow> start + (Suc k + j) \<le> u64_max \<and> db_number (bs ! j) = start + (Suc k + j) \<and>
        (case (if j = 0 then Some (db_hash b) else Some (db_hash (bs ! (j - 1)))) of
           None \<Rightarrow> True | Some h \<Rightarrow> db_previous (bs ! j) = h)" for j
      by (cases j) simp_all
    then show ?thesis
      unfolding split using Cons.IH [of "Some (db_hash b)" "Suc k"]
      by (auto simp: checked_add_def split: option.split)
  qed
qed simp

lemma validate_range_blocks_spec:
  "validate_range_blocks start blocks = Inr () \<longleftrightarrow>
     (\<forall>j < length blocks. start + j \<le> u64_max \<and> db_number (blocks ! j) = start + j \<and>
        (j = 0 \<longrightarrow> start = 0 \<longrightarrow> db_previous (blocks ! 0) = replicate 32 0) \<and>
        (0 < j \<longrightarrow> db_previous (blocks ! j) = db_hash (blocks ! (j - 1))))"
  unfolding validate_range_blocks_def validate_range_from_spec
  by (rule all_cong) (auto split: option.split)

lemma upstream_batch_bounds:
  "1 \<le> configured_upstream_block_batch m c \<and> configured_upstream_block_batch m c \<le> 1000"
  by (simp add: configured_upstream_block_batch_def clamp_def MAX_UPSTREAM_BLOCK_BATCH_def)

lemma scan_parallelism_bounds:
  "1 \<le> configured_scan_parallelism m n c \<and> configured_scan_parallelism m n c \<le> max 1 n"
  by (auto simp: configured_scan_parallelism_def automatic_scan_parallelism_def Let_def split: option.split)

lemma register_ok:
  assumes "register_scan_subaddresses gap accounts = Inr (n, idxs)"
  shows "length idxs = n \<and> n \<le> 100000 \<and> distinct idxs \<and>
    (\<forall>major minor. major < accounts \<and> minor \<le> gap \<and> (major, minor) \<noteq> (0, 0) \<longrightarrow> (major, minor) \<in> set idxs)"
proof -
  let ?g = "max gap 1" and ?a = "max accounts 1"
  let ?all = "List.product [0..<?a] [0..<?g + 1]"
  have n: "n = ?a * (?g + 1) - 1" "n \<le> 100000"
    and idxs: "idxs = filter (\<lambda>(major, minor). \<not> (major = 0 \<and> minor = 0)) ?all"
    using assms by (auto simp: register_scan_subaddresses_def Let_def split: if_splits)
  have d: "distinct ?all" by (simp add: distinct_product)
  have "idxs = removeAll (0, 0) ?all"
    unfolding idxs removeAll_filter_not_eq by (rule filter_cong) auto
  then have "idxs = remove1 (0, 0) ?all" using d by (simp only: distinct_remove1_removeAll)
  moreover have "(0, 0) \<in> set ?all" by auto
  ultimately have "length idxs = n"
    by (simp only: length_remove1 if_True n(1)) (simp add: length_product)
  moreover have "(\<forall>major minor. major < accounts \<and> minor \<le> gap \<and> (major, minor) \<noteq> (0, 0) \<longrightarrow> (major, minor) \<in> set idxs)"
    unfolding idxs by auto
  ultimately show ?thesis using n(2) d by (simp add: idxs)
qed

lemma register_refused:
  "100000 < max accounts 1 * (max gap 1 + 1) - 1 \<Longrightarrow>
     register_scan_subaddresses gap accounts = Inl ''scan coverage exceeds 100000 registrations''"
  by (simp add: register_scan_subaddresses_def Let_def)

lemma one_by_one_ok:
  "(\<forall>h \<in> set hs. get h = Inr (f h)) \<Longrightarrow> fetch_scannable_blocks_one_by_one get hs = Inr (concat (map f hs))"
  by (induction hs) auto

text \<open>A transaction accepted from a range answer has the hash the block commits to.\<close>

lemma decode_full_hash:
  "decode_full tc blob ph h bi ti d = Inr tx' \<Longrightarrow>
     \<exists>tx. tc_read_full tc blob = Inr (tx, 0) \<and> tc_full_hash tc tx = h \<and> tx' = tc_prune tc tx"
  by (auto simp: decode_full_def split: sum.splits prod.splits if_splits)

lemma decode_range_verified:
  assumes "decode_range_transaction tc blob ph h bi ti = Inr tx'"
  shows "(\<exists>tx u. tc_read_pruned tc blob = Inr (tx, 0) \<and> tc_verify tc tx u h = Some tx' \<and>
             u = (if tc_is_v1 tc tx then None else ph)) \<or>
         (\<exists>tx. tc_read_full tc blob = Inr (tx, 0) \<and> tc_full_hash tc tx = h \<and> tx' = tc_prune tc tx)"
proof (cases "tc_read_pruned tc blob")
  case (Inl e)
  with assms show ?thesis by (auto simp: decode_range_transaction_def dest!: decode_full_hash)
next
  case (Inr r)
  obtain tx left where r: "r = (tx, left)" by force
  show ?thesis
  proof (cases "left = 0")
    case True
    with assms Inr r show ?thesis
      by (auto simp: decode_range_transaction_def Let_def split: if_splits option.splits)
  next
    case False
    with assms Inr r show ?thesis by (auto simp: decode_range_transaction_def dest!: decode_full_hash)
  qed
qed

end
