(* ===== verification/Refresh.thy ===== *)
theory Refresh
  imports Refresh_Policy Scan Wallet_Api
begin

text \<open>
  The refresh driver (\<open>wallet_refresh_impl\<close> and its entry points in \<open>ffi/refresh.rs\<close>). The
  working state of a refresh is the \<open>scan_state\<close> of \<open>Scan\<close>, whose \<open>ss_height\<close> is the scan
  cursor; it is published to the store only by \<open>commit_refresh_checkpoint\<close>.

  What the daemon answers and what the other threads do meanwhile is an argument: a list with one
  \<open>batch_obs\<close> per turn of the batch loop. The loop returns \<open>None\<close> only when this list ends
  before the refresh does. Prefetched answers are the answers to the same ranges.
\<close>

section \<open>The checkpoint\<close>

definition keep_pending :: "ledger \<Rightarrow> pending_outgoing_tx \<Rightarrow> bool" where
  "keep_pending computed_ledger pending =
     (case map_of computed_ledger (pt_txid pending) of
        Some entry \<Rightarrow> le_direction entry = ''out'' \<and> le_is_pending entry
      | None \<Rightarrow> True)"

definition checkpoint_state :: "u64 \<Rightarrow> scan_state \<Rightarrow> stored_wallet \<Rightarrow> stored_wallet" where
  "checkpoint_state chain_height s state =
     (let computed_ledger = rebuild_transfer_ledger (tracked_outputs s) (w_pending_outgoing state)
                              (ss_known_fees s) (ss_tip_time s) (block_timestamps s);
          pending = filter (keep_pending computed_ledger) (w_pending_outgoing state);
          (tot, unl) = recompute_balance (tracked_outputs s) chain_height (ss_tip_time s);
          normalized_cursor = max (ss_height s) (w_restore_height state) in
      state\<lparr>w_last_scanned := (if 0 < chain_height then min normalized_cursor chain_height
                               else normalized_cursor),
            w_total := tot, w_unlocked := unl, w_chain_height := chain_height, w_chain_time := ss_tip_time s,
            w_last_refresh_timestamp := (if 0 < ss_tip_time s then ss_tip_time s
                                         else w_last_refresh_timestamp state),
            tracked_outputs := tracked_outputs s, seen_outpoints := seen_outpoints s,
            w_tx_ledger := computed_ledger, w_pending_outgoing := pending,
            recent_block_hashes_start_height := recent_block_hashes_start_height s,
            recent_block_hashes := recent_block_hashes s, block_timestamps := block_timestamps s,
            w_spend_rescan_from := ss_marker s\<rparr>)"

definition commit_refresh_checkpoint :: "string \<Rightarrow> u64 \<Rightarrow> scan_state \<Rightarrow> (int + unit) call" where
  "commit_refresh_checkpoint i chain_height s =
     lock_store (\<lambda>w. case map_of (wd_store w) i of
        None \<Rightarrow> (Value (Inl (- 13)), w)
      | Some state \<Rightarrow>
          (Value (Inr ()), w\<lparr>wd_store := hm_insert i (checkpoint_state chain_height s state) (wd_store w)\<rparr>))"

definition update_scan_progress_in ::
    "string \<Rightarrow> u64 \<Rightarrow> u64 \<Rightarrow> u64 \<Rightarrow> u64 \<Rightarrow> world \<Rightarrow> world" where
  "update_scan_progress_in i scanned chain_height chain_time restore w =
     (if wd_store_poisoned w then w
      else (case map_of (wd_store w) i of
              None \<Rightarrow> w
            | Some st \<Rightarrow> w\<lparr>wd_store := hm_insert i
                           (update_scan_progress scanned chain_height chain_time restore st) (wd_store w)\<rparr>))"

section \<open>What a refresh is given\<close>

datatype fetch_answer = FA_Blocks "scannable_block list" | FA_Error string | FA_Timeout string

type_synonym hash_probe = "int + (u64 \<Rightarrow> (int \<times> string) + hash32)"

record batch_obs =
  bo_before :: "world \<Rightarrow> world"
  bo_fetch :: fetch_answer
  bo_range :: "string + scannable_block list"
  bo_one_by_one :: "string + scannable_block list"
  bo_probe :: hash_probe
  bo_during :: "(world \<Rightarrow> world) list"

record refresh_ctx =
  rc_id :: string
  rc_restore :: u64
  rc_daemon_height :: u64
  rc_batch :: u64
  rc_master :: "master_keys option"
  rc_ko :: ki_ops
  rc_scanner :: "scannable_block \<Rightarrow> string + wallet_output list"
  rc_replay :: "u64 hset"

record loop_state =
  ls_scan :: scan_state
  ls_fetch_retries :: u32
  ls_probe_failures :: u32
  ls_mode :: bulk_fetch_mode

datatype step_result = SR_Continue loop_state | SR_Stop loop_state | SR_Return int

section \<open>One turn of the batch loop\<close>

datatype fetch_result = FR_Blocks "scannable_block list" loop_state | FR_Retry loop_state | FR_Fail string

definition retry_or_fail :: "string \<Rightarrow> string \<Rightarrow> loop_state \<Rightarrow> fetch_result" where
  "retry_or_fail e message ls =
     (case maybe_retry_block_fetch e (ls_fetch_retries ls) of
        Some n \<Rightarrow> FR_Retry (ls\<lparr>ls_fetch_retries := n\<rparr>)
      | None \<Rightarrow> FR_Fail message)"

definition timeout_message :: "string \<Rightarrow> u64 \<Rightarrow> u64 \<Rightarrow> string" where
  "timeout_message msg start end_inclusive =
     ''wallet_refresh: contiguous_scannable_blocks timeout/disconnect ('' @ msg @ '') after 30s for heights '' @
     show_nat start @ ''..'' @ show_nat end_inclusive"

definition fetch_batch :: "batch_obs \<Rightarrow> u64 \<Rightarrow> u64 \<Rightarrow> loop_state \<Rightarrow> fetch_result" where
  "fetch_batch ob start end_inclusive ls =
     (case bo_fetch ob of
        FA_Blocks v \<Rightarrow> FR_Blocks v ls
      | FA_Error e \<Rightarrow>
          (case try_json_batch_error_fallback (ls_mode ls) e (bo_range ob) (bo_one_by_one ob) of
             Some (v, used_range) \<Rightarrow> FR_Blocks v (if used_range then ls\<lparr>ls_mode := RangeBlocks\<rparr> else ls)
           | None \<Rightarrow> retry_or_fail e (''wallet_refresh: contiguous_scannable_blocks failed: '' @ e) ls)
      | FA_Timeout msg \<Rightarrow>
          (let m = timeout_message msg start end_inclusive in retry_or_fail m m ls))"

definition probe_reorg :: "u64 \<Rightarrow> scan_state \<Rightarrow> hash_probe \<Rightarrow> unit + u64 option" where
  "probe_reorg restore s probe =
     (case probe of
        Inl _ \<Rightarrow> Inl ()
      | Inr get_hash \<Rightarrow>
          (case find_reorg_rewind_height restore (recent_block_hashes_start_height s) (recent_block_hashes s) get_hash of
             Inl _ \<Rightarrow> Inl ()
           | Inr r \<Rightarrow> Inr r))"

definition parent_action :: "refresh_ctx \<Rightarrow> batch_obs \<Rightarrow> scannable_block \<Rightarrow> loop_state \<Rightarrow> parent_mismatch_action" where
  "parent_action ctx ob first ls =
     (let s = ls_scan ls;
          expected_prev = recent_hash_at (recent_block_hashes_start_height s) (recent_block_hashes s)
                            (sat_sub (ss_height s) 1);
          actual_prev = sb_previous first;
          parent_probe = (if (case expected_prev of None \<Rightarrow> False | Some expected \<Rightarrow> expected \<noteq> actual_prev)
                          then probe_reorg (rc_restore ctx) s (bo_probe ob) else Inr None) in
      decide_parent_mismatch_action expected_prev actual_prev parent_probe (ls_probe_failures ls)
        REORG_PROBE_RETRY_LIMIT)"

text \<open>Rewind the working state; its cursor becomes the rewind height.\<close>

definition rewind_scan_state :: "u64 \<Rightarrow> u64 \<Rightarrow> scan_state \<Rightarrow> scan_state" where
  "rewind_scan_state restore target s =
     (let (h, s1) = rewind_working_state_to_height restore target s in s1\<lparr>ss_height := h\<rparr>)"

text \<open>Scan the blocks of a batch; the cancellation flag is read before each of them.\<close>

fun scan_batch ::
    "refresh_ctx \<Rightarrow> (world \<Rightarrow> world) list \<Rightarrow> scannable_block list \<Rightarrow> scan_state \<Rightarrow> world \<Rightarrow>
     ((int \<times> string) + scan_state) \<times> world" where
  "scan_batch ctx others [] s w = (Inr s, w)"
| "scan_batch ctx others (b # bs) s w =
     (let (others_now, others_later) = (case others of [] \<Rightarrow> (\<lambda>v. v, []) | f # fs \<Rightarrow> (f, fs));
          (cancelled, w1) = refresh_cancelled_for_wallet (rc_id ctx) (others_now w) in
      if cancelled then (Inl (- 30, ''wallet_refresh: cancelled''), w1)
      else (case scan_block (rc_ko ctx) (rc_restore ctx) (rc_master ctx) (rc_replay ctx) (rc_scanner ctx) b s of
              Inl e \<Rightarrow> (Inl (- 16, e), w1)
            | Inr s1 \<Rightarrow> scan_batch ctx others_later bs s1 w1))"

text \<open>Commit and go on; a commit refused with \<open>-13\<close> returns without recording a new error.\<close>

definition commit_then :: "refresh_ctx \<Rightarrow> loop_state \<Rightarrow> step_result call" where
  "commit_then ctx ls w =
     (case commit_refresh_checkpoint (rc_id ctx) (rc_daemon_height ctx) (ls_scan ls) w of
        (Value (Inr _), w1) \<Rightarrow> (Value (SR_Continue ls), w1)
      | (Value (Inl code), w1) \<Rightarrow> (Value (SR_Return code), w1)
      | (Panic, w1) \<Rightarrow> (Panic, w1))"

definition return_error :: "int \<Rightarrow> string \<Rightarrow> step_result call" where
  "return_error code message w = (Value (SR_Return code), set_last_error message w)"

definition process_batch :: "refresh_ctx \<Rightarrow> batch_obs \<Rightarrow> scannable_block list \<Rightarrow> loop_state \<Rightarrow> step_result call" where
  "process_batch ctx ob blocks ls w =
     (let ls0 = ls\<lparr>ls_fetch_retries := 0, ls_probe_failures := 0\<rparr>;
          (others_now, others_later) = (case bo_during ob of [] \<Rightarrow> (\<lambda>v. v, []) | f # fs \<Rightarrow> (f, fs));
          (cancelled, w1) = refresh_cancelled_for_wallet (rc_id ctx) (others_now w) in
      if cancelled then return_error (- 30) ''wallet_refresh: cancelled'' w1
      else
        let s = (ls_scan ls0)\<lparr>ss_owned_keys := hs_of_list (map public_key (tracked_outputs (ls_scan ls0)))\<rparr> in
        (case scan_batch ctx others_later blocks s w1 of
           (Inl (code, message), w2) \<Rightarrow> return_error code message w2
         | (Inr s1, w2) \<Rightarrow> commit_then ctx (ls0\<lparr>ls_scan := s1\<rparr>) w2))"

definition refresh_step :: "refresh_ctx \<Rightarrow> batch_obs \<Rightarrow> loop_state \<Rightarrow> step_result call" where
  "refresh_step ctx ob ls w0 =
     (let (cancelled, w) = refresh_cancelled_for_wallet (rc_id ctx) (bo_before ob w0);
          start = ss_height (ls_scan ls);
          end_exclusive = min (rc_daemon_height ctx) (sat_add start (rc_batch ctx)) in
      if cancelled then return_error (- 30) ''wallet_refresh: cancelled'' w
      else if end_exclusive \<le> start then (Value (SR_Stop ls), w)
      else (case fetch_batch ob start (end_exclusive - 1) ls of
              FR_Retry ls1 \<Rightarrow> (Value (SR_Continue ls1), w)
            | FR_Fail message \<Rightarrow> return_error (- 16) message w
            | FR_Blocks [] ls1 \<Rightarrow>
                return_error (- 16) (''wallet_refresh: contiguous_scannable_blocks returned 0 blocks for heights '' @
                  show_nat start @ ''..'' @ show_nat (end_exclusive - 1)) w
            | FR_Blocks (first # rest) ls1 \<Rightarrow>
                (case parent_action ctx ob first ls1 of
                   PM_Continue \<Rightarrow> process_batch ctx ob (first # rest) ls1 w
                 | PM_Rewind target _ \<Rightarrow>
                     commit_then ctx (ls1\<lparr>ls_scan := rewind_scan_state (rc_restore ctx) target (ls_scan ls1),
                                          ls_fetch_retries := 0, ls_probe_failures := 0\<rparr>) w
                 | PM_Retry failures _ \<Rightarrow> (Value (SR_Continue (ls1\<lparr>ls_probe_failures := failures\<rparr>)), w)
                 | PM_Abort failures _ \<Rightarrow>
                     return_error (- 16) (''wallet_refresh: parent hash mismatch at height '' @ show_nat start @
                       '' and reorg probe failed after '' @ show_nat failures @ '' attempts'') w)))"

fun refresh_loop :: "refresh_ctx \<Rightarrow> batch_obs list \<Rightarrow> loop_state \<Rightarrow> world \<Rightarrow> (step_result outcome \<times> world) option" where
  "refresh_loop ctx [] ls w =
     (if ss_height (ls_scan ls) < rc_daemon_height ctx then None else Some (Value (SR_Stop ls), w))"
| "refresh_loop ctx (ob # obs) ls w =
     (if ss_height (ls_scan ls) < rc_daemon_height ctx
      then (case refresh_step ctx ob ls w of
              (Value (SR_Continue ls1), w1) \<Rightarrow> refresh_loop ctx obs ls1 w1
            | r \<Rightarrow> Some r)
      else Some (Value (SR_Stop ls), w))"

section \<open>The resume probe\<close>

definition resume_probe :: "refresh_ctx \<Rightarrow> hash_probe \<Rightarrow> loop_state \<Rightarrow> step_result call" where
  "resume_probe ctx probe ls w =
     (let s = ls_scan ls;
          start = recent_block_hashes_start_height s; hs = recent_block_hashes s in
      if \<not> should_probe_reorg_on_resume (length hs) then (Value (SR_Continue ls), w)
      else (case probe of
              Inl code \<Rightarrow> return_error code ''wallet_refresh: failed to open transport for resume reorg probe'' w
            | Inr get_hash \<Rightarrow>
                (case find_reorg_rewind_height (rc_restore ctx) start hs get_hash of
                   Inl (code, message) \<Rightarrow>
                     return_error code (''wallet_refresh: resume reorg probe failed ('' @ message @ '')'') w
                 | Inr r \<Rightarrow>
                     (case decide_resume_reorg_action (max (ss_height s) (sat_add start (length hs))) (Inr r) of
                        Inr (RR_Rewind target) \<Rightarrow>
                          (let (h, s1) = rewind_working_state_to_height (rc_restore ctx) target s in
                           commit_then ctx (ls\<lparr>ls_scan := s1\<lparr>ss_height := min (ss_height s) h\<rparr>\<rparr>) w)
                      | _ \<Rightarrow> (Value (SR_Continue ls), w)))))"

section \<open>The whole refresh\<close>

record refresh_input =
  ri_env :: environment
  ri_mobile :: bool
  ri_node_url :: cptr
  ri_connect :: "string \<Rightarrow> string option"
  ri_height :: "string + u64"
  ri_tip_time :: u64
  ri_ko :: ki_ops
  ri_scanner :: "bytes \<times> bytes \<Rightarrow> (u32 \<times> u32) list \<Rightarrow> scannable_block \<Rightarrow> string + wallet_output list"
  ri_resume_probe :: hash_probe
  ri_batches :: "batch_obs list"
  ri_spent_query :: "hash32 list \<Rightarrow> world \<Rightarrow> (string + nat list) \<times> world"

definition refresh_base_url :: "refresh_input \<Rightarrow> string" where
  "refresh_base_url inp =
     (let arg_url = (case ri_node_url inp of CNull \<Rightarrow> None | CStr s \<Rightarrow> map_option trim (cstr_to_str s)) in
      opt_get_or ''http://127.0.0.1:18081''
        (opt_or (opt_filter (\<lambda>s. s \<noteq> []) arg_url) (ri_env inp ''MONERO_URL'')))"

definition account_gap_from_env :: "environment \<Rightarrow> u32" where
  "account_gap_from_env env =
     opt_get_or 1 (map_option (\<lambda>v. max v 1) (env_parse env ''WALLETCORE_ACCOUNT_GAP'' u32_max))"

definition initial_scan_state :: "u64 \<Rightarrow> stored_wallet \<Rightarrow> scan_state" where
  "initial_scan_state tip_time st =
     \<lparr>tracked_outputs = tracked_outputs st, seen_outpoints = seen_outpoints st,
      recent_block_hashes_start_height = recent_block_hashes_start_height st,
      recent_block_hashes = recent_block_hashes st, block_timestamps = block_timestamps st,
      ss_known_fees = known_transaction_fees (w_tx_ledger st), ss_marker = w_spend_rescan_from st,
      ss_owned_keys = [], ss_height = max (w_last_scanned st) (w_restore_height st), ss_tip_time = tip_time\<rparr>"

definition replay_heights :: "tracked_output list \<Rightarrow> u64 hset" where
  "replay_heights outs =
     hs_of_list (concat (map (\<lambda>o1. block_height o1 #
       (case spending_height o1 of None \<Rightarrow> [] | Some h \<Rightarrow> [h])) outs))"

definition quote :: "string \<Rightarrow> string" where
  "quote s = [CHR 39] @ s @ [CHR 39]"

text \<open>The last part, from the final checkpoint on.\<close>

definition finish_refresh ::
    "crypto \<Rightarrow> refresh_ctx \<Rightarrow> refresh_input \<Rightarrow> bool \<Rightarrow> loop_state \<Rightarrow> (int \<times> u64 option) call" where
  "finish_refresh cr ctx inp out_present ls w =
     (case commit_refresh_checkpoint (rc_id ctx) (rc_daemon_height ctx) (ls_scan ls) w of
        (Panic, w1) \<Rightarrow> (Panic, w1)
      | (Value (Inl code), w1) \<Rightarrow> (Value (code, None), w1)
      | (Value (Inr _), w1) \<Rightarrow>
          (let w2 = snd (revalidate_after_refresh cr (rc_id ctx) (ri_spent_query inp) (rc_daemon_height ctx) w1) in
           (Value (0, if out_present then Some (max (ss_height (ls_scan ls)) (rc_restore ctx)) else None),
            clear_last_error w2)))"

text \<open>The scan of a refresh whose context is set up; \<open>None\<close> when the daemon's answers run out.\<close>

definition run_refresh ::
    "crypto \<Rightarrow> refresh_ctx \<Rightarrow> refresh_input \<Rightarrow> bool \<Rightarrow> loop_state \<Rightarrow> world \<Rightarrow>
     ((int \<times> u64 option) outcome \<times> world) option" where
  "run_refresh cr ctx inp out_present ls w =
     (if \<not> ss_height (ls_scan ls) < rc_daemon_height ctx then Some (finish_refresh cr ctx inp out_present ls w)
      else (case resume_probe ctx (ri_resume_probe inp) ls w of
              (Panic, w1) \<Rightarrow> Some (Panic, w1)
            | (Value (SR_Return code), w1) \<Rightarrow> Some (Value (code, None), w1)
            | (Value (SR_Stop ls1), w1) \<Rightarrow> Some (finish_refresh cr ctx inp out_present ls1 w1)
            | (Value (SR_Continue ls1), w1) \<Rightarrow>
                (case refresh_loop ctx (ri_batches inp) ls1 w1 of
                   None \<Rightarrow> None
                 | Some (Panic, w2) \<Rightarrow> Some (Panic, w2)
                 | Some (Value (SR_Return code), w2) \<Rightarrow> Some (Value (code, None), w2)
                 | Some (Value (SR_Stop ls2), w2) \<Rightarrow> Some (finish_refresh cr ctx inp out_present ls2 w2)
                 | Some (Value (SR_Continue ls2), w2) \<Rightarrow> Some (finish_refresh cr ctx inp out_present ls2 w2))))"

definition refresh_opened ::
    "crypto \<Rightarrow> refresh_input \<Rightarrow> bool \<Rightarrow> string \<Rightarrow> stored_wallet \<Rightarrow> world \<Rightarrow>
     ((int \<times> u64 option) outcome \<times> world) option" where
  "refresh_opened cr inp out_present i snapshot w =
     (let url = refresh_base_url inp in
      case ri_connect inp url of
        Some e \<Rightarrow> Some (err None (- 16, ''wallet_refresh: failed to connect daemon '' @ quote url @ '': '' @ e) w)
      | None \<Rightarrow>
      (case ri_height inp of
        Inl e \<Rightarrow> Some (err None (- 16, ''wallet_refresh: failed to query daemon height '' @ quote url @ '': '' @ e) w)
      | Inr n \<Rightarrow>
      (let daemon_height = sat_add n 1 in
       case to_view_pair cr (w_keys snapshot) of
        Inl code \<Rightarrow> Some (err None (code, ''wallet_refresh: failed to construct view pair ('' @ show_int code @ '')'') w)
      | Inr view_pair \<Rightarrow>
      (let gap_limit = max (w_gap_limit snapshot) 1;
           account_gap = account_gap_from_env (ri_env inp) in
       if 100000 < account_gap * gap_limit
       then Some (err None (- 10, ''wallet_refresh: account/subaddress scan coverage exceeds 100000 registrations'') w)
       else (case register_scan_subaddresses gap_limit account_gap of
               Inl message \<Rightarrow> Some (err None (- 10, message) w)
             | Inr (registered, indices) \<Rightarrow>
                 (let s = initial_scan_state (ri_tip_time inp) snapshot;
                      w1 = update_scan_progress_in i (min (ss_height s) daemon_height) daemon_height
                             (ri_tip_time inp) (w_restore_height snapshot) w;
                      ctx = \<lparr>rc_id = i, rc_restore = w_restore_height snapshot,
                             rc_daemon_height = daemon_height,
                             rc_batch = configured_upstream_block_batch (ri_mobile inp)
                                          (ri_env inp ''WALLETCORE_UPSTREAM_BLOCK_BATCH''),
                             rc_master = wk_master (w_keys snapshot), rc_ko = ri_ko inp,
                             rc_scanner = ri_scanner inp view_pair indices,
                             rc_replay = replay_heights (tracked_outputs snapshot)\<rparr>;
                      ls = \<lparr>ls_scan = s, ls_fetch_retries = 0, ls_probe_failures = 0,
                            ls_mode = bulk_fetch_mode_from_env (ri_env inp)\<rparr> in
                  run_refresh cr ctx inp out_present ls w1))))))"

definition wallet_refresh_impl ::
    "crypto \<Rightarrow> refresh_input \<Rightarrow> cptr \<Rightarrow> bool \<Rightarrow> world \<Rightarrow> ((int \<times> u64 option) outcome \<times> world) option" where
  "wallet_refresh_impl cr inp p out_present w0 =
     (let w = clear_last_error w0 in
      case id_arg (- 11, ''wallet_refresh: wallet_id pointer was null'')
                  (- 11, ''wallet_refresh: wallet_id contained invalid UTF-8'') p of
        Inl e \<Rightarrow> Some (err None e w)
      | Inr i \<Rightarrow>
          if i = [] then Some (err None (- 14, ''wallet_refresh: wallet_id was empty'') w)
          else if wd_store_poisoned w then Some (Panic, w)
          else (case map_of (wd_store w) i of
                  None \<Rightarrow> Some (err None (- 13, ''wallet_refresh: wallet '' @ quote i @ '' not registered'') w)
                | Some snapshot \<Rightarrow> refresh_opened cr inp out_present i snapshot w))"

definition wallet_refresh_caught ::
    "crypto \<Rightarrow> refresh_input \<Rightarrow> cptr \<Rightarrow> bool \<Rightarrow> world \<Rightarrow> ((int \<times> u64 option) \<times> world) option" where
  "wallet_refresh_caught cr inp p out_present w =
     map_option (\<lambda>r. guard ''wallet_refresh'' (- 19, None) (\<lambda>_. r) w) (wallet_refresh_impl cr inp p out_present w)"

definition refresh_id :: "cptr \<Rightarrow> string option" where
  "refresh_id p =
     (case p of
        CNull \<Rightarrow> None
      | CStr s \<Rightarrow> opt_filter (\<lambda>i. i \<noteq> []) (map_option trim (cstr_to_str s)))"

definition wallet_refresh_ffi_impl ::
    "crypto \<Rightarrow> refresh_input \<Rightarrow> cptr \<Rightarrow> bool \<Rightarrow> world \<Rightarrow> ((int \<times> u64 option) \<times> world) option" where
  "wallet_refresh_ffi_impl cr inp p out_present w =
     (case refresh_id p of
        None \<Rightarrow> wallet_refresh_caught cr inp p out_present w
      | Some i \<Rightarrow>
          (case try_start_refresh_job i w of
             (False, w1) \<Rightarrow>
               Some ((- 31, None),
                 set_last_error (''wallet_refresh: refresh already running for wallet '' @ quote i) w1)
           | (True, w1) \<Rightarrow>
               (case wallet_refresh_caught cr inp p out_present (set_refresh_cancel_for_wallet i False w1) of
                  None \<Rightarrow> None
                | Some ((rc, out), w2) \<Rightarrow> Some ((rc, out), finish_refresh_job i rc w2))))"

text \<open>The asynchronous entry claims the wallet and returns; its thread then runs
  \<open>refresh_worker\<close>.\<close>

definition wallet_refresh_async_ffi_impl :: "cptr \<Rightarrow> cptr \<Rightarrow> int call" where
  "wallet_refresh_async_ffi_impl p node_url w0 =
     (let w = clear_last_error w0 in
      case id_arg (- 11, ''wallet_refresh_async: wallet_id pointer was null'')
                  (- 10, ''wallet_refresh_async: wallet_id contained invalid UTF-8'') p of
        Inl (code, message) \<Rightarrow> record_error code message w
      | Inr i \<Rightarrow>
          if i = [] then record_error (- 14) ''wallet_refresh_async: wallet_id was empty'' w
          else if (case node_url of CNull \<Rightarrow> False | CStr s \<Rightarrow> cstr_to_str s = None)
          then record_error (- 10) ''wallet_refresh_async: node_url contained invalid UTF-8'' w
          else (case try_start_refresh_job i w of
                  (False, w1) \<Rightarrow> record_error (- 31) (''wallet_refresh_async: refresh already running for wallet '' @ quote i) w1
                | (True, w1) \<Rightarrow> (Value 0, set_refresh_cancel_for_wallet i False w1)))"

definition refresh_worker :: "crypto \<Rightarrow> refresh_input \<Rightarrow> string \<Rightarrow> world \<Rightarrow> world option" where
  "refresh_worker cr inp i w =
     (case wallet_refresh_caught cr inp (CStr i) True w of
        None \<Rightarrow> None
      | Some ((rc, out), w1) \<Rightarrow> Some (finish_refresh_job i rc w1))"

end
