(* ===== verification/Scan_Invariants.thy ===== *)
theory Scan_Invariants
  imports Scan
begin

text \<open>
  What scanning a block keeps and achieves: outpoints and one-time keys stay unique (a second
  output with a known key is never counted), the seen-outpoint and owned-key sets stay exactly those
  of the tracked outputs, spends are found exactly for the key images among the block's inputs, and
  view-only outputs stay covered by the rescan marker.
\<close>

section \<open>The working-state invariant\<close>

definition ids_ok :: "outpoint list \<Rightarrow> hash32 list \<Rightarrow> outpoint hset \<Rightarrow> hash32 hset \<Rightarrow> bool" where
  "ids_ok ops keys seen owned \<longleftrightarrow> distinct ops \<and> distinct keys \<and> distinct seen \<and> distinct owned \<and>
     set seen = set ops \<and> set owned = set keys"

definition scan_wf :: "scan_state \<Rightarrow> bool" where
  "scan_wf s \<longleftrightarrow> ids_ok (map outpoint_of (tracked_outputs s)) (map public_key (tracked_outputs s))
     (seen_outpoints s) (ss_owned_keys s)"

lemma scan_wf_cong:
  "map outpoint_of (tracked_outputs s') = map outpoint_of (tracked_outputs s) \<Longrightarrow>
   map public_key (tracked_outputs s') = map public_key (tracked_outputs s) \<Longrightarrow>
   seen_outpoints s' = seen_outpoints s \<Longrightarrow> ss_owned_keys s' = ss_owned_keys s \<Longrightarrow>
   scan_wf s' = scan_wf s"
  by (simp add: scan_wf_def)

lemma scan_wf_coherent: "scan_wf s \<Longrightarrow> window_coherent s"
  by (simp add: scan_wf_def ids_ok_def window_coherent_def)

lemma map_update_same: "f y = f (xs ! i) \<Longrightarrow> map f (xs[i := y]) = map f xs"
  by (simp add: map_update) (metis list_update_beyond list_update_id map_update not_le)

section \<open>Replayed heights\<close>

definition replay_removed :: "u64 \<Rightarrow> hash32 hset \<Rightarrow> tracked_output \<Rightarrow> bool" where
  "replay_removed h txs o1 \<longleftrightarrow> block_height o1 = h \<and> tx_hash o1 \<notin> set txs"

definition replay_unspend :: "u64 \<Rightarrow> hash32 hset \<Rightarrow> tracked_output \<Rightarrow> tracked_output" where
  "replay_unspend h images o1 =
     (if spending_height o1 = Some h \<and> key_image o1 \<notin> set images
      then o1\<lparr>spent := False, spending_txid := None, spending_height := None\<rparr> else o1)"

lemma replay_unspend_simps [simp]:
  "outpoint_of (replay_unspend h im o1) = outpoint_of o1" "public_key (replay_unspend h im o1) = public_key o1"
  "key_image (replay_unspend h im o1) = key_image o1" "block_height (replay_unspend h im o1) = block_height o1"
  by (simp_all add: replay_unspend_def outpoint_of_def)

lemma reconcile_loop_eq:
  "reconcile_loop h txs im outs seen keys =
     (map (replay_unspend h im) (filter (\<lambda>o1. \<not> replay_removed h txs o1) outs),
      foldl (\<lambda>s o1. hs_remove (outpoint_of o1) s) seen (filter (replay_removed h txs) outs),
      foldl (\<lambda>s o1. hs_remove (public_key o1) s) keys (filter (replay_removed h txs) outs))"
  by (induction outs arbitrary: seen keys) (auto simp: replay_removed_def replay_unspend_def Let_def)

lemma foldl_remove:
  "set (foldl (\<lambda>s x. hs_remove (f x) s) s xs) = set s - f ` set xs"
  "distinct s \<Longrightarrow> distinct (foldl (\<lambda>s x. hs_remove (f x) s) s xs)"
  by (induction xs arbitrary: s) auto

lemma distinct_map_filter_image:
  assumes "distinct (map f xs)"
  shows "f ` set xs - f ` {x \<in> set xs. p x} = f ` {x \<in> set xs. \<not> p x}"
  using assms by (auto simp: distinct_map inj_on_def)

lemma reconcile_wf [preserve]:
  assumes "scan_wf s"
  shows "scan_wf (reconcile_replayed_height h txs im s)"
proof -
  let ?keep = "filter (\<lambda>o1. \<not> replay_removed h txs o1) (tracked_outputs s)"
  have d: "distinct (map outpoint_of (tracked_outputs s))" "distinct (map public_key (tracked_outputs s))"
    "distinct (seen_outpoints s)" "distinct (ss_owned_keys s)"
    "set (seen_outpoints s) = outpoint_of ` set (tracked_outputs s)"
    "set (ss_owned_keys s) = public_key ` set (tracked_outputs s)"
    using assms by (simp_all add: scan_wf_def ids_ok_def)
  have m: "map outpoint_of (map (replay_unspend h im) ?keep) = map outpoint_of ?keep"
    "map public_key (map (replay_unspend h im) ?keep) = map public_key ?keep" by simp_all
  show ?thesis
    unfolding reconcile_replayed_height_def reconcile_loop_eq Let_def prod.case
    using d by (simp add: scan_wf_def ids_ok_def o_def foldl_remove distinct_map_filter
        distinct_map_filter_image)
qed

section \<open>Spend detection\<close>

lemma key_image_index_step:
  "map_of (foldl (\<lambda>m (i, o1). if key_image o1 \<noteq> zero_image then hm_or_insert (key_image o1) i m else m)
       m (enumerate n outs)) k =
     (case map_of m k of
        Some i \<Rightarrow> Some i
      | None \<Rightarrow> if k = zero_image then None
                else map_option ((+) n) (position (\<lambda>o1. key_image o1 = k) outs))"
proof (induction outs arbitrary: m n)
  case Nil
  then show ?case by (simp split: option.split)
next
  case (Cons x outs)
  have "map_option ((+) (Suc n)) r = map_option ((+) n) (map_option Suc r)" for r :: "nat option"
    by (cases r) auto
  then show ?case
    by (auto simp: Cons.IH hm_get_or_insert split: option.split)
qed

lemma key_image_index_get:
  "map_of (key_image_index outs) k =
     (if k = zero_image then None else position (\<lambda>o1. key_image o1 = k) outs)"
  unfolding key_image_index_def
  by (subst key_image_index_step) (simp add: map_option_cong [where g = "\<lambda>x. x"] option.map_ident)

lemma key_image_index_Some:
  "map_of (key_image_index outs) k = Some i \<Longrightarrow> i < length outs \<and> key_image (outs ! i) = k \<and> k \<noteq> zero_image"
  by (auto simp: key_image_index_get position_Some split: if_splits)

text \<open>One output before and after the spends of a block.\<close>

definition same_identity :: "tracked_output \<Rightarrow> tracked_output \<Rightarrow> bool" where
  "same_identity a b \<longleftrightarrow> outpoint_of b = outpoint_of a \<and> public_key b = public_key a \<and>
     key_image b = key_image a \<and> amount b = amount a"

lemma same_identity_refl [simp]: "same_identity a a"
  by (simp add: same_identity_def)

lemma same_identity_trans: "same_identity a b \<Longrightarrow> same_identity b c \<Longrightarrow> same_identity a c"
  by (simp add: same_identity_def)

definition spends_by :: "u64 \<Rightarrow> (nat \<Rightarrow> bool) \<Rightarrow> tracked_output list \<Rightarrow> tracked_output list \<Rightarrow> bool" where
  "spends_by th hit outs outs' \<longleftrightarrow> length outs' = length outs \<and>
     (\<forall>j < length outs. same_identity (outs ! j) (outs' ! j) \<and> block_height (outs' ! j) = block_height (outs ! j) \<and>
        (if hit j then spent (outs' ! j) \<and> spending_height (outs' ! j) = Some th
         else spent (outs' ! j) = spent (outs ! j) \<and> spending_height (outs' ! j) = spending_height (outs ! j) \<and>
              spending_txid (outs' ! j) = spending_txid (outs ! j)))"

lemma spends_by_refl: "spends_by th (\<lambda>_. False) outs outs"
  by (simp add: spends_by_def)

lemma spends_by_trans:
  assumes "spends_by th h1 a b" and "spends_by th h2 b c"
  shows "spends_by th (\<lambda>j. h1 j \<or> h2 j) a c"
  unfolding spends_by_def
proof (intro conjI allI impI)
  have len: "length b = length a" "length c = length b" using assms by (simp_all add: spends_by_def)
  then show "length c = length a" by simp
  fix j assume j: "j < length a"
  note A = assms(1) [unfolded spends_by_def, THEN conjunct2, rule_format, OF j]
  note B = assms(2) [unfolded spends_by_def, THEN conjunct2, rule_format, of j]
  show "same_identity (a ! j) (c ! j)" using A B j len by (auto intro: same_identity_trans)
  show "block_height (c ! j) = block_height (a ! j)" using A B j len by simp
  show "if h1 j \<or> h2 j then spent (c ! j) \<and> spending_height (c ! j) = Some th
        else spent (c ! j) = spent (a ! j) \<and> spending_height (c ! j) = spending_height (a ! j) \<and>
             spending_txid (c ! j) = spending_txid (a ! j)"
    using A B j len by (cases "h1 j"; cases "h2 j") simp_all
qed

lemma spends_by_cong: "spends_by th h a b \<Longrightarrow> (\<And>j. h j = h' j) \<Longrightarrow> spends_by th h' a b"
  by (simp add: spends_by_def)

lemma spends_by_update:
  assumes "same_identity (outs ! i) out" "block_height out = block_height (outs ! i)" "spent out"
    "spending_height out = Some th"
  shows "spends_by th (\<lambda>j. j = i) outs (outs[i := out])"
  using assms by (auto simp: spends_by_def nth_list_update)

lemma mark_miner_spends_by:
  "spends_by th (\<lambda>j. map_of kis ki = Some j) outs (mark_miner_spend txid th kis outs ki)"
proof (cases "map_of kis ki")
  case (Some i)
  have "spends_by th (\<lambda>j. j = i) outs (mark_miner_spend txid th kis outs ki)"
    unfolding mark_miner_spend_def Some option.case
    by (rule spends_by_update) (simp_all add: same_identity_def outpoint_of_def)
  then show ?thesis by (rule spends_by_cong) (auto simp: Some)
qed (simp add: mark_miner_spend_def spends_by_refl)

lemma apply_spend_input_by:
  "spends_by th (\<lambda>j. map_of kis ki = Some j) (tracked_outputs s)
     (tracked_outputs (apply_spend_input t th fees kis s ki))"
proof (cases "map_of kis ki")
  case (Some i)
  let ?out = "(tracked_outputs s ! i)\<lparr>spent := True, spending_height := Some th,
     spending_txid := (if spending_txid (tracked_outputs s ! i) = None then t
                       else spending_txid (tracked_outputs s ! i))\<rparr>"
  have eq: "tracked_outputs (apply_spend_input t th fees kis s ki) = (tracked_outputs s)[i := ?out]"
    by (simp add: apply_spend_input_def Some Let_def split: option.split)
  have "spends_by th (\<lambda>j. j = i) (tracked_outputs s) (tracked_outputs (apply_spend_input t th fees kis s ki))"
    unfolding eq by (rule spends_by_update) (simp_all add: same_identity_def outpoint_of_def)
  then show ?thesis by (rule spends_by_cong) (auto simp: Some)
qed (simp add: apply_spend_input_def spends_by_refl)

lemma fold_spends_by:
  assumes "\<And>s x. spends_by th (hit x) (g s) (g (f s x))"
  shows "spends_by th (\<lambda>j. \<exists>x \<in> set xs. hit x j) (g s) (g (foldl f s xs))"
proof (induction xs arbitrary: s)
  case (Cons x xs)
  have "spends_by th (\<lambda>j. hit x j \<or> (\<exists>x \<in> set xs. hit x j)) (g s) (g (foldl f (f s x) xs))"
    by (rule spends_by_trans [OF assms Cons.IH])
  then show ?case by (auto intro: spends_by_cong)
qed (simp add: spends_by_refl)

definition block_key_images :: "scannable_block \<Rightarrow> hash32 set" where
  "block_key_images b = set (tx_key_images (sb_miner b)) \<union> (\<Union>tx \<in> set (decoded_non_miner b). set (tx_key_images tx))"

lemma spend_txs_snd: "map snd (spend_txs b) = decoded_non_miner b"
proof -
  have "map snd (zip (map Some hs) ds) @ drop (length hs) ds = ds" for hs :: "hash32 list" and ds :: "pruned_tx list"
    by (cases "length hs \<le> length ds") (simp_all add: map_snd_zip_take min_def)
  then show ?thesis by (simp add: spend_txs_def o_def)
qed

lemma detect_spends_by:
  "spends_by th (\<lambda>j. \<exists>ki \<in> block_key_images b. map_of (key_image_index (tracked_outputs s)) ki = Some j)
     (tracked_outputs s) (tracked_outputs (detect_spends th b s))"
proof -
  let ?kis = "key_image_index (tracked_outputs s)"
  let ?o1 = "foldl (mark_miner_spend (sb_miner_hash b) th ?kis) (tracked_outputs s) (tx_key_images (sb_miner b))"
  let ?s1 = "s\<lparr>tracked_outputs := ?o1\<rparr>"
  have one: "spends_by th (\<lambda>j. \<exists>ki \<in> set (tx_key_images (sb_miner b)). map_of ?kis ki = Some j) (tracked_outputs s) ?o1"
    using fold_spends_by [where g = "\<lambda>x. x", OF mark_miner_spends_by] .
  have two: "spends_by th (\<lambda>j. \<exists>ki \<in> set (tx_key_images (snd tt)). map_of ?kis ki = Some j)
      (tracked_outputs s') (tracked_outputs (apply_spend th fees ?kis s' tt))" for s' tt fees
    unfolding apply_spend_def using fold_spends_by [where g = tracked_outputs, OF apply_spend_input_by] .
  have "spends_by th (\<lambda>j. \<exists>tt \<in> set (spend_txs b). \<exists>ki \<in> set (tx_key_images (snd tt)). map_of ?kis ki = Some j)
      (tracked_outputs ?s1) (tracked_outputs (foldl (apply_spend th (block_tx_fees b) ?kis) ?s1 (spend_txs b)))"
    using fold_spends_by [where g = tracked_outputs, OF two] .
  then have "spends_by th (\<lambda>j. (\<exists>ki \<in> set (tx_key_images (sb_miner b)). map_of ?kis ki = Some j) \<or>
      (\<exists>tt \<in> set (spend_txs b). \<exists>ki \<in> set (tx_key_images (snd tt)). map_of ?kis ki = Some j))
      (tracked_outputs s) (tracked_outputs (detect_spends th b s))"
    unfolding detect_spends_def Let_def using spends_by_trans [OF one] by simp
  moreover have "(\<exists>tt \<in> set (spend_txs b). \<exists>ki \<in> set (tx_key_images (snd tt)). map_of ?kis ki = Some j) \<longleftrightarrow>
      (\<exists>tx \<in> set (decoded_non_miner b). \<exists>ki \<in> set (tx_key_images tx). map_of ?kis ki = Some j)" for j
    by (simp flip: spend_txs_snd)
  ultimately show ?thesis
    by (elim spends_by_cong) (auto simp: block_key_images_def)
qed

lemma apply_spend_input_frame [simp]:
  "seen_outpoints (apply_spend_input t th fees kis s ki) = seen_outpoints s"
  "ss_owned_keys (apply_spend_input t th fees kis s ki) = ss_owned_keys s"
  "ss_marker (apply_spend_input t th fees kis s ki) = ss_marker s"
  "ss_height (apply_spend_input t th fees kis s ki) = ss_height s"
  by (auto simp: apply_spend_input_def Let_def split: option.split)

lemma foldl_frame: "(\<And>s x. g (f s x) = g s) \<Longrightarrow> g (foldl f s xs) = g s"
  by (induction xs arbitrary: s) simp_all

lemma apply_spend_frame:
  "seen_outpoints (apply_spend th fees kis s tt) = seen_outpoints s"
  "ss_owned_keys (apply_spend th fees kis s tt) = ss_owned_keys s"
  "ss_marker (apply_spend th fees kis s tt) = ss_marker s"
  "ss_height (apply_spend th fees kis s tt) = ss_height s"
  unfolding apply_spend_def by (rule foldl_frame, simp)+

lemma detect_spends_frame [simp]:
  "seen_outpoints (detect_spends th b s) = seen_outpoints s"
  "ss_owned_keys (detect_spends th b s) = ss_owned_keys s"
  "ss_marker (detect_spends th b s) = ss_marker s"
  "ss_height (detect_spends th b s) = ss_height s"
  unfolding detect_spends_def Let_def
  by (simp_all add: foldl_frame [where g = seen_outpoints, OF apply_spend_frame(1)]
      foldl_frame [where g = ss_owned_keys, OF apply_spend_frame(2)]
      foldl_frame [where g = ss_marker, OF apply_spend_frame(3)]
      foldl_frame [where g = ss_height, OF apply_spend_frame(4)])

lemma spends_by_map:
  assumes "spends_by th hit outs outs'" and "\<And>a b. same_identity a b \<Longrightarrow> f b = f a"
  shows "map f outs' = map f outs"
  using assms by (auto simp: spends_by_def list_eq_iff_nth_eq)

lemma detect_spends_map:
  "(\<And>a b. same_identity a b \<Longrightarrow> f b = f a) \<Longrightarrow>
     map f (tracked_outputs (detect_spends th b s)) = map f (tracked_outputs s)"
  by (rule spends_by_map [OF detect_spends_by])

lemma detect_spends_wf [preserve]: "scan_wf s \<Longrightarrow> scan_wf (detect_spends th b s)"
proof -
  have "map outpoint_of (tracked_outputs (detect_spends th b s)) = map outpoint_of (tracked_outputs s)"
    by (rule detect_spends_map) (simp add: same_identity_def)
  moreover have "map public_key (tracked_outputs (detect_spends th b s)) = map public_key (tracked_outputs s)"
    by (rule detect_spends_map) (simp add: same_identity_def)
  ultimately have "scan_wf (detect_spends th b s) = scan_wf s"
    by (intro scan_wf_cong) simp_all
  then show "scan_wf s \<Longrightarrow> scan_wf (detect_spends th b s)" by simp
qed

section \<open>Accepting outputs\<close>

lemma learn_fee_simps [simp]:
  "tracked_outputs (learn_fee b t s) = tracked_outputs s" "seen_outpoints (learn_fee b t s) = seen_outpoints s"
  "ss_owned_keys (learn_fee b t s) = ss_owned_keys s" "ss_marker (learn_fee b t s) = ss_marker s"
  "ss_height (learn_fee b t s) = ss_height s"
  by (simp_all add: learn_fee_def split: option.split)

lemma relocate_outputs:
  assumes "relocate_replayed_output outs op pk h = Inr outs'"
  shows "outs' = update_first (\<lambda>o1. outpoint_of o1 = op) (block_height_update (\<lambda>_. h)) outs"
  using assms by (auto simp: relocate_replayed_output_def split: option.splits if_splits)

lemma update_first_height_map:
  "(\<And>o1. f (o1\<lparr>block_height := h\<rparr>) = f o1) \<Longrightarrow>
     map f (update_first p (block_height_update (\<lambda>_. h)) outs) = map f outs"
  by (rule update_first_map_eq) simp

lemma new_tracked_simps [simp]:
  "outpoint_of (new_tracked ko m th b out) = (wo_transaction out, wo_index out)"
  "public_key (new_tracked ko m th b out) = wo_key out"
  "block_height (new_tracked ko m th b out) = th" "\<not> spent (new_tracked ko m th b out)"
  "amount (new_tracked ko m th b out) = wo_amount out"
  "spending_height (new_tracked ko m th b out) = None"
  by (simp_all add: new_tracked_def outpoint_of_def case_prod_beta)

text \<open>The three branches of \<open>apply_output\<close>.\<close>

lemma apply_output_cases:
  assumes "apply_output ko m th b s out = Inr s'"
  obtains (relocated) "(wo_transaction out, wo_index out) \<in> set (seen_outpoints s)"
      "s' = learn_fee b (wo_transaction out) (s\<lparr>tracked_outputs :=
         update_first (\<lambda>o1. outpoint_of o1 = (wo_transaction out, wo_index out)) (block_height_update (\<lambda>_. th))
           (tracked_outputs s)\<rparr>)"
  | (duplicate) "wo_key out \<in> set (ss_owned_keys s)" "s' = s"
  | (accepted) "(wo_transaction out, wo_index out) \<notin> set (seen_outpoints s)"
      "wo_key out \<notin> set (ss_owned_keys s)"
      "s' = learn_fee b (wo_transaction out)
         (s\<lparr>seen_outpoints := hs_insert (wo_transaction out, wo_index out) (seen_outpoints s),
            ss_owned_keys := hs_insert (wo_key out) (ss_owned_keys s),
            ss_marker := (if m = None then Some (case ss_marker s of None \<Rightarrow> th | Some h \<Rightarrow> min h th)
                          else ss_marker s),
            tracked_outputs := tracked_outputs s @ [new_tracked ko m th b out]\<rparr>)"
proof (cases "(wo_transaction out, wo_index out) \<in> set (seen_outpoints s)")
  case True
  then show thesis
    using assms by (intro relocated) (auto simp: apply_output_def Let_def dest: relocate_outputs split: sum.splits)
next
  case seen: False
  show thesis
  proof (cases "wo_key out \<in> set (ss_owned_keys s)")
    case True
    have "s' = s" using assms seen True by (simp add: apply_output_def accept_owned_output_def Let_def)
    with True show thesis by (rule duplicate)
  next
    case False
    from assms seen False show thesis
      by (intro accepted) (simp_all add: apply_output_def accept_owned_output_def Let_def)
  qed
qed

lemma apply_output_wf:
  assumes "scan_wf s" and "apply_output ko m th b s out = Inr s'"
  shows "scan_wf s'"
  using assms(2)
proof (cases rule: apply_output_cases)
  case relocated
  then have "scan_wf s' = scan_wf s"
    by (intro scan_wf_cong) (simp_all add: update_first_height_map outpoint_of_def)
  with assms(1) show ?thesis by simp
next
  case accepted
  then show ?thesis using assms(1) by (auto simp: scan_wf_def ids_ok_def)
qed (use assms(1) in simp)

lemma apply_outputs_wf: "scan_wf s \<Longrightarrow> apply_outputs ko m th b outs s = Inr s' \<Longrightarrow> scan_wf s'"
  by (induction outs arbitrary: s) (auto split: sum.splits intro: apply_output_wf)

lemma attach_change_map:
  "(\<And>o1 t. f (o1\<lparr>spending_txid := t\<rparr>) = f o1) \<Longrightarrow> map f (attach_change th outs) = map f outs"
  by (auto simp: attach_change_def split: list.split)

text \<open>The result of a block, with its last two steps named.\<close>

lemma scan_block_inv:
  assumes "scan_block ko restore m rh sc b s = Inr s'"
  obtains st hs s2 outs s4 where
    "push_recent_block_hash_parts restore (recent_block_hashes_start_height s) (recent_block_hashes s)
       (ss_height s) (sb_hash b) = (st, hs)"
    "s2 = (let s1 = s\<lparr>recent_block_hashes_start_height := st, recent_block_hashes := hs,
              ss_tip_time := (if 0 < sb_timestamp b \<and> ss_tip_time s < sb_timestamp b
                              then sb_timestamp b else ss_tip_time s)\<rparr> in
           if ss_height s \<in> set rh
           then reconcile_replayed_height (ss_height s) (hs_of_list (sb_miner_hash b # sb_tx_hashes b))
                  (hs_of_list (concat (map tx_key_images (sb_txs b)))) s1
           else s1)"
    "sc b = Inr outs"
    "apply_outputs ko m (ss_height s) b outs (detect_spends (ss_height s) b s2) = Inr s4"
    "tracked_outputs s' = attach_change (ss_height s) (tracked_outputs s4)"
    "seen_outpoints s' = seen_outpoints s4" "ss_owned_keys s' = ss_owned_keys s4"
    "ss_marker s' = ss_marker s4" "ss_height s' = sat_add (ss_height s) 1"
    "recent_block_hashes_start_height s' = recent_block_hashes_start_height s4"
    "recent_block_hashes s' = recent_block_hashes s4"
  using assms
  by (auto simp: scan_block_def Let_def split: prod.splits sum.splits if_splits)

lemma reconcile_frame [simp]:
  "ss_marker (reconcile_replayed_height h txs im s) = ss_marker s"
  "ss_height (reconcile_replayed_height h txs im s) = ss_height s"
  "tracked_outputs (reconcile_replayed_height h txs im s) =
     map (replay_unspend h im) (filter (\<lambda>o1. \<not> replay_removed h txs o1) (tracked_outputs s))"
  by (simp_all add: reconcile_replayed_height_def reconcile_loop_eq)

lemma scan_wf_view [simp]:
  "scan_wf (s\<lparr>recent_block_hashes_start_height := a, recent_block_hashes := c, ss_tip_time := d\<rparr>) = scan_wf s"
  by (simp add: scan_wf_def)

theorem scan_block_wf:
  assumes "scan_wf s" and "scan_block ko restore m rh sc b s = Inr s'"
  shows "scan_wf s'"
  using assms(2)
proof (rule scan_block_inv)
  fix st hs s2 outs s4
  assume s2: "s2 = (let s1 = s\<lparr>recent_block_hashes_start_height := st, recent_block_hashes := hs,
              ss_tip_time := (if 0 < sb_timestamp b \<and> ss_tip_time s < sb_timestamp b
                              then sb_timestamp b else ss_tip_time s)\<rparr> in
           if ss_height s \<in> set rh
           then reconcile_replayed_height (ss_height s) (hs_of_list (sb_miner_hash b # sb_tx_hashes b))
                  (hs_of_list (concat (map tx_key_images (sb_txs b)))) s1
           else s1)"
    and s4: "apply_outputs ko m (ss_height s) b outs (detect_spends (ss_height s) b s2) = Inr s4"
    and s': "tracked_outputs s' = attach_change (ss_height s) (tracked_outputs s4)"
      "seen_outpoints s' = seen_outpoints s4" "ss_owned_keys s' = ss_owned_keys s4"
  have "scan_wf s2" using assms(1) by (simp add: s2 Let_def reconcile_wf)
  then have "scan_wf s4" by (intro apply_outputs_wf [OF _ s4] detect_spends_wf)
  moreover have "scan_wf s' = scan_wf s4"
    by (rule scan_wf_cong) (simp_all add: s' attach_change_map outpoint_of_def)
  ultimately show ?thesis by simp
qed

section \<open>Outputs survive a block\<close>

definition kept_upto :: "tracked_output list \<Rightarrow> tracked_output list \<Rightarrow> bool" where
  "kept_upto outs outs' \<longleftrightarrow> length outs \<le> length outs' \<and>
     (\<forall>j < length outs. same_identity (outs ! j) (outs' ! j) \<and> spent (outs' ! j) = spent (outs ! j) \<and>
        spending_height (outs' ! j) = spending_height (outs ! j))"

lemma kept_upto_refl [simp]: "kept_upto a a"
  by (simp add: kept_upto_def)

lemma kept_upto_trans: "kept_upto a b \<Longrightarrow> kept_upto b c \<Longrightarrow> kept_upto a c"
  by (auto simp: kept_upto_def intro: same_identity_trans)

lemma kept_upto_append [simp]: "kept_upto a (a @ b)"
  by (simp add: kept_upto_def nth_append)

lemma kept_upto_map:
  "(\<And>o1. same_identity o1 (f o1) \<and> spent (f o1) = spent o1 \<and> spending_height (f o1) = spending_height o1) \<Longrightarrow>
     kept_upto a (map f a)"
  by (simp add: kept_upto_def)

lemma kept_upto_update_first:
  "(\<And>o1. same_identity o1 (f o1) \<and> spent (f o1) = spent o1 \<and> spending_height (f o1) = spending_height o1) \<Longrightarrow>
     kept_upto a (update_first p f a)"
proof (induction a)
  case (Cons x xs)
  from Cons.IH [OF Cons.prems] have "kept_upto xs (update_first p f xs)" .
  then show ?case
    using Cons.prems by (auto simp: kept_upto_def nth_Cons split: nat.split)
qed simp

lemma apply_output_kept:
  assumes "apply_output ko m th b s out = Inr s'"
  shows "kept_upto (tracked_outputs s) (tracked_outputs s')"
  using assms
proof (cases rule: apply_output_cases)
  case relocated
  then show ?thesis
    by (simp add: kept_upto_update_first same_identity_def outpoint_of_def)
qed simp_all

lemma apply_outputs_kept:
  "apply_outputs ko m th b outs s = Inr s' \<Longrightarrow> kept_upto (tracked_outputs s) (tracked_outputs s')"
proof (induction outs arbitrary: s)
  case (Cons out outs)
  then obtain s1 where "apply_output ko m th b s out = Inr s1" "apply_outputs ko m th b outs s1 = Inr s'"
    by (auto split: sum.splits)
  then show ?case using Cons.IH apply_output_kept kept_upto_trans by blast
qed simp

lemma attach_change_kept: "kept_upto outs (attach_change th outs)"
proof -
  have "kept_upto outs (map (\<lambda>o1. if unattributed_at th o1 then o1\<lparr>spending_txid := Some t\<rparr> else o1) outs)" for t
    by (rule kept_upto_map) (simp add: same_identity_def outpoint_of_def)
  then show ?thesis by (simp add: attach_change_def split: list.split)
qed

text \<open>The first tracked output that carries a key image: the one the key-image map points to.\<close>

definition owns_image :: "tracked_output list \<Rightarrow> nat \<Rightarrow> bool" where
  "owns_image outs j \<longleftrightarrow> key_image (outs ! j) \<noteq> zero_image \<and>
     (\<forall>k < j. key_image (outs ! k) \<noteq> key_image (outs ! j))"

lemma index_hit_iff:
  assumes "j < length outs"
  shows "(\<exists>ki \<in> K. map_of (key_image_index outs) ki = Some j) \<longleftrightarrow> owns_image outs j \<and> key_image (outs ! j) \<in> K"
  using assms by (auto simp: key_image_index_get position_Some owns_image_def)

text \<open>A block spends exactly the outputs whose key image is among its inputs.\<close>

lemma scan_block_spends:
  assumes "scan_block ko restore m rh sc b s = Inr s'" and "ss_height s \<notin> set rh"
    and j: "j < length (tracked_outputs s)"
  shows "j < length (tracked_outputs s') \<and> same_identity (tracked_outputs s ! j) (tracked_outputs s' ! j) \<and>
    (if owns_image (tracked_outputs s) j \<and> key_image (tracked_outputs s ! j) \<in> block_key_images b
     then spent (tracked_outputs s' ! j) \<and> spending_height (tracked_outputs s' ! j) = Some (ss_height s)
     else spent (tracked_outputs s' ! j) = spent (tracked_outputs s ! j) \<and>
          spending_height (tracked_outputs s' ! j) = spending_height (tracked_outputs s ! j))"
  using assms(1)
proof (rule scan_block_inv)
  fix st hs s2 outs s4
  assume s2: "s2 = (let s1 = s\<lparr>recent_block_hashes_start_height := st, recent_block_hashes := hs,
              ss_tip_time := (if 0 < sb_timestamp b \<and> ss_tip_time s < sb_timestamp b
                              then sb_timestamp b else ss_tip_time s)\<rparr> in
           if ss_height s \<in> set rh
           then reconcile_replayed_height (ss_height s) (hs_of_list (sb_miner_hash b # sb_tx_hashes b))
                  (hs_of_list (concat (map tx_key_images (sb_txs b)))) s1
           else s1)"
    and s4: "apply_outputs ko m (ss_height s) b outs (detect_spends (ss_height s) b s2) = Inr s4"
    and s': "tracked_outputs s' = attach_change (ss_height s) (tracked_outputs s4)"
  have t2: "tracked_outputs s2 = tracked_outputs s" using assms(2) by (simp add: s2 Let_def)
  let ?d = "tracked_outputs (detect_spends (ss_height s) b s2)"
  have kept: "kept_upto ?d (tracked_outputs s')"
    unfolding s' by (rule kept_upto_trans [OF apply_outputs_kept [OF s4] attach_change_kept])
  have sb: "spends_by (ss_height s)
      (\<lambda>j. \<exists>ki \<in> block_key_images b. map_of (key_image_index (tracked_outputs s)) ki = Some j) (tracked_outputs s) ?d"
    using detect_spends_by [of "ss_height s" b s2] by (simp add: t2)
  then have len: "length ?d = length (tracked_outputs s)" by (simp add: spends_by_def)
  have A: "j < length (tracked_outputs s')" "same_identity (?d ! j) (tracked_outputs s' ! j)"
    "spent (tracked_outputs s' ! j) = spent (?d ! j)"
    "spending_height (tracked_outputs s' ! j) = spending_height (?d ! j)"
    using kept j len by (auto simp: kept_upto_def)
  have B: "same_identity (tracked_outputs s ! j) (?d ! j)"
    "if owns_image (tracked_outputs s) j \<and> key_image (tracked_outputs s ! j) \<in> block_key_images b
     then spent (?d ! j) \<and> spending_height (?d ! j) = Some (ss_height s)
     else spent (?d ! j) = spent (tracked_outputs s ! j) \<and>
          spending_height (?d ! j) = spending_height (tracked_outputs s ! j)"
    using sb j index_hit_iff [OF j, of "block_key_images b"] by (simp_all add: spends_by_def split: if_splits)
  show ?thesis using A B same_identity_trans by (simp split: if_splits)
qed


section \<open>No output is counted twice, none is lost\<close>

lemma apply_output_present:
  assumes "scan_wf s" and "apply_output ko m th b s out = Inr s'"
  shows "wo_key out \<in> set (ss_owned_keys s')"
proof -
  have "pk \<in> public_key ` set (tracked_outputs s)"
    if rel: "relocate_replayed_output (tracked_outputs s) op pk h = Inr outs'" for op pk h outs'
  proof -
    from rel obtain x where x: "find (\<lambda>o1. outpoint_of o1 = op) (tracked_outputs s) = Some x" "public_key x = pk"
      by (auto simp: relocate_replayed_output_def split: option.splits if_splits)
    from x(1) have "x \<in> set (tracked_outputs s)" by (auto simp: find_Some_iff)
    with x(2) show ?thesis by auto
  qed
  moreover have "set (ss_owned_keys s) = public_key ` set (tracked_outputs s)"
    using assms(1) by (simp add: scan_wf_def ids_ok_def)
  ultimately show ?thesis
    using assms(2) by (auto simp: apply_output_def accept_owned_output_def Let_def split: sum.splits if_splits)
qed

lemma apply_output_keys_mono:
  assumes "apply_output ko m th b s out = Inr s'"
  shows "set (ss_owned_keys s) \<subseteq> set (ss_owned_keys s')"
  using assms by (cases rule: apply_output_cases) auto

lemma apply_outputs_keys_mono:
  "apply_outputs ko m th b outs s = Inr s' \<Longrightarrow> set (ss_owned_keys s) \<subseteq> set (ss_owned_keys s')"
proof (induction outs arbitrary: s)
  case (Cons out outs)
  then obtain s1 where "apply_output ko m th b s out = Inr s1" "apply_outputs ko m th b outs s1 = Inr s'"
    by (auto split: sum.splits)
  then show ?case using Cons.IH apply_output_keys_mono by blast
qed simp

lemma apply_outputs_present:
  "scan_wf s \<Longrightarrow> apply_outputs ko m th b outs s = Inr s' \<Longrightarrow> wo_key ` set outs \<subseteq> set (ss_owned_keys s')"
proof (induction outs arbitrary: s)
  case (Cons out outs)
  then obtain s1 where 1: "apply_output ko m th b s out = Inr s1" "apply_outputs ko m th b outs s1 = Inr s'"
    by (auto split: sum.splits)
  have "wo_key out \<in> set (ss_owned_keys s1)" by (rule apply_output_present [OF Cons.prems(1) 1(1)])
  moreover have "scan_wf s1" by (rule apply_output_wf [OF Cons.prems(1) 1(1)])
  ultimately show ?case using Cons.IH [OF _ 1(2)] apply_outputs_keys_mono [OF 1(2)] by auto
qed simp

lemma distinct_map_ex1: "distinct (map f xs) \<Longrightarrow> x \<in> f ` set xs \<Longrightarrow> \<exists>!j. j < length xs \<and> f (xs ! j) = x"
  by (auto simp: in_set_conv_nth) (metis distinct_conv_nth length_map nth_map)

lemma scan_block_counts_once:
  assumes "scan_wf s" and "scan_block ko restore m rh sc b s = Inr s'" and "sc b = Inr outs"
    and "out \<in> set outs"
  shows "\<exists>!j. j < length (tracked_outputs s') \<and> public_key (tracked_outputs s' ! j) = wo_key out"
  using assms(2)
proof (rule scan_block_inv)
  fix st hs s2 outs' s4
  assume s2: "s2 = (let s1 = s\<lparr>recent_block_hashes_start_height := st, recent_block_hashes := hs,
              ss_tip_time := (if 0 < sb_timestamp b \<and> ss_tip_time s < sb_timestamp b
                              then sb_timestamp b else ss_tip_time s)\<rparr> in
           if ss_height s \<in> set rh
           then reconcile_replayed_height (ss_height s) (hs_of_list (sb_miner_hash b # sb_tx_hashes b))
                  (hs_of_list (concat (map tx_key_images (sb_txs b)))) s1
           else s1)"
    and o: "sc b = Inr outs'"
    and s4: "apply_outputs ko m (ss_height s) b outs' (detect_spends (ss_height s) b s2) = Inr s4"
    and s': "ss_owned_keys s' = ss_owned_keys s4"
  have "scan_wf s2" using assms(1) by (simp add: s2 Let_def reconcile_wf)
  then have "wo_key ` set outs' \<subseteq> set (ss_owned_keys s4)"
    by (intro apply_outputs_present [OF _ s4] detect_spends_wf)
  with o assms(3,4) s' have "wo_key out \<in> set (ss_owned_keys s')" by auto
  moreover have "scan_wf s'" by (rule scan_block_wf [OF assms(1,2)])
  ultimately show ?thesis
    by (intro distinct_map_ex1) (simp_all add: scan_wf_def ids_ok_def)
qed

section \<open>The rescan marker while scanning view-only\<close>

definition marker_covers :: "scan_state \<Rightarrow> bool" where
  "marker_covers s \<longleftrightarrow> (\<forall>o1 \<in> set (tracked_outputs s). key_image o1 = zero_image \<longrightarrow>
     (\<exists>h. ss_marker s = Some h \<and> h \<le> block_height o1))"

definition images_sound :: "ki_ops \<Rightarrow> bool" where
  "images_sound ko \<longleftrightarrow> (\<forall>out sc. derive_key_image_bytes ko out sc \<noteq> zero_image)"

lemma new_tracked_image:
  "key_image (new_tracked ko m th b out) =
     (case m of Some k \<Rightarrow> derive_key_image_bytes ko out (mk_spend_scalar k) | None \<Rightarrow> zero_image)"
  by (simp add: new_tracked_def case_prod_beta)

lemma marker_covers_same:
  assumes "marker_covers s" and "ss_marker s' = ss_marker s"
    and "\<And>o1. o1 \<in> set (tracked_outputs s') \<Longrightarrow> \<exists>o2 \<in> set (tracked_outputs s).
           key_image o2 = key_image o1 \<and> (block_height o1 = block_height o2 \<or> (\<forall>h. ss_marker s = Some h \<longrightarrow> h \<le> block_height o1))"
  shows "marker_covers s'"
  unfolding marker_covers_def
proof (intro ballI impI)
  fix o1 assume "o1 \<in> set (tracked_outputs s')" "key_image o1 = zero_image"
  with assms(3) [of o1] obtain o2 where "o2 \<in> set (tracked_outputs s)" "key_image o2 = zero_image"
    "block_height o1 = block_height o2 \<or> (\<forall>h. ss_marker s = Some h \<longrightarrow> h \<le> block_height o1)" by auto
  with assms(1,2) show "\<exists>h. ss_marker s' = Some h \<and> h \<le> block_height o1"
    by (fastforce simp: marker_covers_def)
qed

lemma apply_output_covers:
  assumes "marker_covers s" and "apply_output ko m th b s out = Inr s'" and "images_sound ko"
    and "\<forall>h. ss_marker s = Some h \<longrightarrow> h \<le> th"
  shows "marker_covers s' \<and> (\<forall>h. ss_marker s' = Some h \<longrightarrow> h \<le> th)"
  using assms(2)
proof (cases rule: apply_output_cases)
  case relocated
  have "marker_covers s'"
    by (rule marker_covers_same [OF assms(1)])
       (use relocated assms(4) in \<open>auto dest!: update_first_set\<close>)
  with relocated assms(4) show ?thesis by simp
next
  case accepted
  then show ?thesis
    using assms(1,3,4)
    by (auto simp: marker_covers_def images_sound_def new_tracked_image min_def split: option.splits)
qed (use assms in simp)

lemma apply_outputs_covers:
  "marker_covers s \<Longrightarrow> apply_outputs ko m th b outs s = Inr s' \<Longrightarrow> images_sound ko \<Longrightarrow>
     \<forall>h. ss_marker s = Some h \<longrightarrow> h \<le> th \<Longrightarrow> marker_covers s'"
proof (induction outs arbitrary: s)
  case (Cons out outs)
  then obtain s1 where 1: "apply_output ko m th b s out = Inr s1" "apply_outputs ko m th b outs s1 = Inr s'"
    by (auto split: sum.splits)
  from apply_output_covers [OF Cons.prems(1) 1(1) Cons.prems(3,4)] show ?case
    using Cons.IH [OF _ 1(2) Cons.prems(3)] by blast
qed simp


lemma marker_covers_images:
  assumes "marker_covers s" and "ss_marker s' = ss_marker s"
    and "map (\<lambda>o1. (key_image o1, block_height o1)) (tracked_outputs s') =
         map (\<lambda>o1. (key_image o1, block_height o1)) (tracked_outputs s)"
  shows "marker_covers s'"
proof (rule marker_covers_same [OF assms(1,2)])
  fix o1 assume "o1 \<in> set (tracked_outputs s')"
  then have "(key_image o1, block_height o1) \<in> set (map (\<lambda>o1. (key_image o1, block_height o1)) (tracked_outputs s'))"
    by simp
  then have "(key_image o1, block_height o1) \<in> (\<lambda>o1. (key_image o1, block_height o1)) ` set (tracked_outputs s)"
    unfolding assms(3) by simp
  then show "\<exists>o2 \<in> set (tracked_outputs s). key_image o2 = key_image o1 \<and>
      (block_height o1 = block_height o2 \<or> (\<forall>h. ss_marker s = Some h \<longrightarrow> h \<le> block_height o1))" by auto
qed

lemma detect_spends_covers:
  assumes "marker_covers s"
  shows "marker_covers (detect_spends th b s)"
proof (rule marker_covers_images [OF assms])
  from detect_spends_by [of th b s]
  show "map (\<lambda>o1. (key_image o1, block_height o1)) (tracked_outputs (detect_spends th b s)) =
      map (\<lambda>o1. (key_image o1, block_height o1)) (tracked_outputs s)"
    by (auto simp: spends_by_def same_identity_def list_eq_iff_nth_eq)
qed simp

lemma scan_block_covers:
  assumes "marker_covers s" and "scan_block ko restore m rh sc b s = Inr s'" and "images_sound ko"
    and "\<forall>h. ss_marker s = Some h \<longrightarrow> h \<le> ss_height s"
  shows "marker_covers s'"
  using assms(2)
proof (rule scan_block_inv)
  fix st hs s2 outs s4
  assume s2: "s2 = (let s1 = s\<lparr>recent_block_hashes_start_height := st, recent_block_hashes := hs,
              ss_tip_time := (if 0 < sb_timestamp b \<and> ss_tip_time s < sb_timestamp b
                              then sb_timestamp b else ss_tip_time s)\<rparr> in
           if ss_height s \<in> set rh
           then reconcile_replayed_height (ss_height s) (hs_of_list (sb_miner_hash b # sb_tx_hashes b))
                  (hs_of_list (concat (map tx_key_images (sb_txs b)))) s1
           else s1)"
    and s4: "apply_outputs ko m (ss_height s) b outs (detect_spends (ss_height s) b s2) = Inr s4"
    and s': "tracked_outputs s' = attach_change (ss_height s) (tracked_outputs s4)" "ss_marker s' = ss_marker s4"
  have m2: "ss_marker s2 = ss_marker s" by (simp add: s2 Let_def)
  have "marker_covers s2"
    by (rule marker_covers_same [OF assms(1) m2]) (auto simp: s2 Let_def split: if_splits)
  then have "marker_covers s4"
    by (intro apply_outputs_covers [OF _ s4 assms(3)] detect_spends_covers) (use assms(4) in \<open>simp_all add: m2\<close>)
  then show ?thesis
    by (rule marker_covers_images) (simp_all add: s' attach_change_map)
qed

end
