(* ===== verification/Refresh_Correct.thy ===== *)
theory Refresh_Correct
  imports Refresh Scan_Invariants Api_Invariants
begin

text \<open>
  What the refresh driver promises. The relation \<open>advance\<close> is its specification: the working state
  moves by whole linked batches and by rewinds that a hash probe justifies. Every turn of the loop
  either leaves the store alone or publishes the checkpoint of a state reached by \<open>advance\<close>, so a
  cancelled or failed refresh never leaves a partial batch behind; retries are bounded; and with a
  daemon that answers every range the loop reaches the tip.
\<close>

section \<open>The specification\<close>

fun scan_all :: "refresh_ctx \<Rightarrow> scannable_block list \<Rightarrow> scan_state \<Rightarrow> string + scan_state" where
  "scan_all ctx [] s = Inr s"
| "scan_all ctx (b # bs) s =
     (case scan_block (rc_ko ctx) (rc_restore ctx) (rc_master ctx) (rc_replay ctx) (rc_scanner ctx) b s of
        Inl e \<Rightarrow> Inl e
      | Inr s1 \<Rightarrow> scan_all ctx bs s1)"

definition claim_keys :: "scan_state \<Rightarrow> scan_state" where
  "claim_keys s = s\<lparr>ss_owned_keys := hs_of_list (map public_key (tracked_outputs s))\<rparr>"

definition local_parent :: "scan_state \<Rightarrow> hash32 option" where
  "local_parent s = recent_hash_at (recent_block_hashes_start_height s) (recent_block_hashes s) (sat_sub (ss_height s) 1)"

definition links_to :: "scan_state \<Rightarrow> scannable_block \<Rightarrow> bool" where
  "links_to s b \<longleftrightarrow> (case local_parent s of None \<Rightarrow> True | Some h \<Rightarrow> sb_previous b = h)"

inductive adv1 :: "refresh_ctx \<Rightarrow> scan_state \<Rightarrow> scan_state \<Rightarrow> bool" for ctx where
  adv_batch: "links_to s b \<Longrightarrow> scan_all ctx (b # bs) (claim_keys s) = Inr s' \<Longrightarrow> adv1 ctx s s'"
| adv_rewind: "find_reorg_rewind_height (rc_restore ctx) (recent_block_hashes_start_height s)
       (recent_block_hashes s) (get_hash :: u64 \<Rightarrow> (int \<times> string) + hash32) = Inr (Some target) \<Longrightarrow>
     adv1 ctx s (rewind_scan_state (rc_restore ctx) target s)"

inductive_cases adv1E: "adv1 ctx s s'"

abbreviation advance :: "refresh_ctx \<Rightarrow> scan_state \<Rightarrow> scan_state \<Rightarrow> bool" where
  "advance ctx \<equiv> (adv1 ctx)\<^sup>*\<^sup>*"

section \<open>The working state stays well formed\<close>

definition scan_ready :: "scan_state \<Rightarrow> bool" where
  "scan_ready s \<longleftrightarrow> window_coherent s \<and> distinct (map outpoint_of (tracked_outputs s)) \<and>
     distinct (map public_key (tracked_outputs s)) \<and> hm_wf (block_timestamps s)"

lemma scan_wf_ready: "scan_wf s \<Longrightarrow> hm_wf (block_timestamps s) \<Longrightarrow> scan_ready s"
  using scan_wf_coherent by (auto simp: scan_ready_def scan_wf_def ids_ok_def)

lemma claim_keys_wf: "scan_ready s \<Longrightarrow> scan_wf (claim_keys s)"
  by (simp add: claim_keys_def scan_ready_def scan_wf_def ids_ok_def window_coherent_def)

lemma apply_spend_input_times [simp]:
  "block_timestamps (apply_spend_input t th fees kis s ki) = block_timestamps s"
  by (auto simp: apply_spend_input_def Let_def split: option.split)

lemma detect_spends_times [simp]: "block_timestamps (detect_spends th b s) = block_timestamps s"
proof -
  have "block_timestamps (apply_spend th fees kis s tt) = block_timestamps s" for fees kis s tt
    unfolding apply_spend_def by (rule foldl_frame) simp
  then show ?thesis
    unfolding detect_spends_def Let_def by (simp add: foldl_frame [where g = block_timestamps])
qed

lemma learn_fee_times [simp]: "block_timestamps (learn_fee b t s) = block_timestamps s"
  by (simp add: learn_fee_def split: option.split)

lemma apply_output_times: "apply_output ko m th b s out = Inr s' \<Longrightarrow> block_timestamps s' = block_timestamps s"
  by (erule apply_output_cases) simp_all

lemma apply_outputs_times: "apply_outputs ko m th b outs s = Inr s' \<Longrightarrow> block_timestamps s' = block_timestamps s"
  by (induction outs arbitrary: s) (auto split: sum.splits dest: apply_output_times)

lemma reconcile_times [simp]: "block_timestamps (reconcile_replayed_height h txs im s) = block_timestamps s"
  by (simp add: reconcile_replayed_height_def case_prod_beta)

lemma scan_block_times:
  assumes "scan_block ko restore m rh sc b s = Inr s'" and "hm_wf (block_timestamps s)"
  shows "hm_wf (block_timestamps s')"
proof -
  obtain outs where outs: "sc b = Inr outs" using assms(1) by (auto simp: scan_block_def Let_def split: sum.splits prod.splits)
  obtain st hs where p: "push_recent_block_hash_parts restore (recent_block_hashes_start_height s)
      (recent_block_hashes s) (ss_height s) (sb_hash b) = (st, hs)" by force
  from assms(1) obtain s4 s3 where "apply_outputs ko m (ss_height s) b outs s3 = Inr s4"
    "block_timestamps s3 = block_timestamps s"
    "block_timestamps s' = block_timestamps s4 \<or>
     block_timestamps s' = hm_insert (ss_height s) (sb_timestamp b) (block_timestamps s4)"
    by (auto simp: scan_block_def Let_def outs p split: sum.splits if_splits)
  with assms(2) apply_outputs_times show ?thesis by fastforce
qed

lemma scan_all_wf: "scan_wf s \<Longrightarrow> hm_wf (block_timestamps s) \<Longrightarrow> scan_all ctx bs s = Inr s' \<Longrightarrow>
    scan_wf s' \<and> hm_wf (block_timestamps s')"
proof (induction bs arbitrary: s)
  case (Cons b bs)
  then obtain s1 where "scan_block (rc_ko ctx) (rc_restore ctx) (rc_master ctx) (rc_replay ctx) (rc_scanner ctx) b s = Inr s1"
    "scan_all ctx bs s1 = Inr s'" by (auto split: sum.splits)
  with Cons show ?case using scan_block_wf scan_block_times by blast
qed simp

lemma rewind_scan_state_simps:
  "tracked_outputs (rewind_scan_state r t s) =
     map (unspend_on_fork (max t r)) (filter (\<lambda>o1. block_height o1 < max t r) (tracked_outputs s))"
  "block_timestamps (rewind_scan_state r t s) = hm_retain (\<lambda>h _. h < max t r) (block_timestamps s)"
  "ss_height (rewind_scan_state r t s) = max t r"
  "window_coherent (rewind_scan_state r t s)"
  by (simp_all add: rewind_scan_state_def rewind_working_state_to_height_def Let_def case_prod_beta
      window_coherent_def image_image)

lemma unspend_public_key [simp]: "public_key (unspend_on_fork h o1) = public_key o1"
  by (simp add: unspend_on_fork_def)

lemma adv1_ready: "adv1 ctx s s' \<Longrightarrow> scan_ready s \<Longrightarrow> scan_ready s'"
proof (induction rule: adv1.induct)
  case (adv_batch s b bs s')
  then have "hm_wf (block_timestamps (claim_keys s))" by (simp add: claim_keys_def scan_ready_def)
  with adv_batch show ?case using scan_all_wf [OF claim_keys_wf] scan_wf_ready by blast
next
  case (adv_rewind s get_hash target)
  then show ?case
    by (simp add: scan_ready_def rewind_scan_state_simps o_def distinct_map_filter hm_wf_retain)
qed

lemma advance_ready: "advance ctx s s' \<Longrightarrow> scan_ready s \<Longrightarrow> scan_ready s'"
  by (induction rule: rtranclp_induct) (auto intro: adv1_ready)

section \<open>The checkpoint is coherent\<close>

lemma checkpoint_simps [simp]:
  "tracked_outputs (checkpoint_state H s st) = tracked_outputs s"
  "seen_outpoints (checkpoint_state H s st) = seen_outpoints s"
  "recent_block_hashes (checkpoint_state H s st) = recent_block_hashes s"
  "recent_block_hashes_start_height (checkpoint_state H s st) = recent_block_hashes_start_height s"
  "block_timestamps (checkpoint_state H s st) = block_timestamps s"
  "w_chain_height (checkpoint_state H s st) = H" "w_chain_time (checkpoint_state H s st) = ss_tip_time s"
  "w_spend_rescan_from (checkpoint_state H s st) = ss_marker s"
  "w_keys (checkpoint_state H s st) = w_keys st" "w_restore_height (checkpoint_state H s st) = w_restore_height st"
  "w_network (checkpoint_state H s st) = w_network st" "w_gap_limit (checkpoint_state H s st) = w_gap_limit st"
  "w_quarantine (checkpoint_state H s st) = w_quarantine st"
  "w_last_scanned (checkpoint_state H s st) =
     (if 0 < H then min (max (ss_height s) (w_restore_height st)) H else max (ss_height s) (w_restore_height st))"
  by (simp_all add: checkpoint_state_def Let_def case_prod_beta)

lemma checkpoint_balances:
  "w_total (checkpoint_state H s st) = sat_sum (unspent_amounts (tracked_outputs s))"
  "w_unlocked (checkpoint_state H s st) = sat_sum (unlocked_amounts H (ss_tip_time s) (tracked_outputs s))"
  by (simp_all add: checkpoint_state_def Let_def case_prod_beta recompute_balance_eq)

lemma checkpoint_ledger:
  "w_tx_ledger (checkpoint_state H s st) =
     rebuild_transfer_ledger (tracked_outputs s) (w_pending_outgoing st) (ss_known_fees s) (ss_tip_time s)
       (block_timestamps s)"
  "w_pending_outgoing (checkpoint_state H s st) =
     filter (keep_pending (w_tx_ledger (checkpoint_state H s st))) (w_pending_outgoing st)"
  by (simp_all add: checkpoint_state_def Let_def case_prod_beta)

definition ids_distinct :: "stored_wallet \<Rightarrow> bool" where
  "ids_distinct st \<longleftrightarrow> distinct (map outpoint_of (tracked_outputs st)) \<and>
     distinct (map public_key (tracked_outputs st))"

definition wallet_sound :: "stored_wallet \<Rightarrow> bool" where
  "wallet_sound st \<longleftrightarrow> wallet_wf st \<and> ids_distinct st"

lemma checkpoint_sound: "scan_ready s \<Longrightarrow> wallet_sound st \<Longrightarrow> wallet_sound (checkpoint_state H s st)"
  by (auto simp: wallet_sound_def ids_distinct_def scan_ready_def wallet_wf_def total_exact_def
      checkpoint_balances checkpoint_ledger window_coherent_def)

lemma initial_ready: "wallet_sound st \<Longrightarrow> scan_ready (initial_scan_state t st)"
  by (simp add: wallet_sound_def ids_distinct_def wallet_wf_def scan_ready_def initial_scan_state_def
      window_coherent_def)

section \<open>The loop refines the specification\<close>

text \<open>A property of the store, and the other threads of a turn keeping it.\<close>

definition store_pred :: "(world \<Rightarrow> bool) \<Rightarrow> bool" where
  "store_pred P \<longleftrightarrow> (\<forall>w w'. wd_store w' = wd_store w \<longrightarrow> wd_store_poisoned w' = wd_store_poisoned w \<longrightarrow> P w' = P w)"

definition others_keep :: "(world \<Rightarrow> bool) \<Rightarrow> (world \<Rightarrow> world) list \<Rightarrow> bool" where
  "others_keep P fs \<longleftrightarrow> (\<forall>f \<in> set fs. \<forall>w. P w \<longrightarrow> P (f w))"

definition obs_others :: "batch_obs \<Rightarrow> (world \<Rightarrow> world) list" where
  "obs_others ob = bo_before ob # bo_during ob"

lemma store_predD: "store_pred P \<Longrightarrow> wd_store w' = wd_store w \<Longrightarrow> wd_store_poisoned w' = wd_store_poisoned w \<Longrightarrow> P w' = P w"
  unfolding store_pred_def by blast

lemma cancelled_frame:
  "wd_store (snd (refresh_cancelled_for_wallet i w)) = wd_store w"
  "wd_store_poisoned (snd (refresh_cancelled_for_wallet i w)) = wd_store_poisoned w"
  by (simp_all add: refresh_cancelled_for_wallet_def refresh_cancel_flag_for_wallet_def)

lemma pred_cancelled:
  assumes "store_pred P" and "refresh_cancelled_for_wallet i w = (c, w')"
  shows "P w' = P w"
proof (rule store_predD [OF assms(1)])
  show "wd_store w' = wd_store w" using cancelled_frame(1) [of i w] assms(2) by simp
  show "wd_store_poisoned w' = wd_store_poisoned w" using cancelled_frame(2) [of i w] assms(2) by simp
qed

lemma pred_error:
  assumes "store_pred P"
  shows "P (set_last_error m w) = P w"
  by (rule store_predD [OF assms]) simp_all

text \<open>Taking the next change by the other threads off the list.\<close>

lemma next_others:
  assumes "(case others of [] \<Rightarrow> (\<lambda>v. v, []) | f # fs \<Rightarrow> (f, fs)) = (now, later)" and "others_keep P others"
  shows "others_keep P later \<and> (P w \<longrightarrow> P (now w))"
  using assms by (cases others) (auto simp: others_keep_def)

lemma scan_batch_sound:
  assumes "store_pred P"
  shows "scan_batch ctx others bs s w = (r, w') \<Longrightarrow> others_keep P others \<Longrightarrow> P w \<Longrightarrow>
     P w' \<and> (\<forall>s'. r = Inr s' \<longrightarrow> scan_all ctx bs s = Inr s')"
proof (induction bs arbitrary: others s w)
  case (Cons b bs)
  obtain now later where n: "(case others of [] \<Rightarrow> (\<lambda>v. v, []) | f # fs \<Rightarrow> (f, fs)) = (now, later)" by fastforce
  obtain c w1 where c: "refresh_cancelled_for_wallet (rc_id ctx) (now w) = (c, w1)" by force
  have keep: "others_keep P later" "P w1"
    using next_others [OF n Cons.prems(2)] Cons.prems(3) pred_cancelled [OF assms c] by auto
  show ?case
  proof (cases c)
    case True
    then show ?thesis using Cons.prems(1) keep by (auto simp: n c)
  next
    case no: False
    let ?r = "scan_block (rc_ko ctx) (rc_restore ctx) (rc_master ctx) (rc_replay ctx) (rc_scanner ctx) b s"
    show ?thesis
    proof (cases ?r)
      case (Inl e)
      then show ?thesis using Cons.prems(1) keep no by (auto simp: n c)
    next
      case (Inr s1)
      then have "scan_batch ctx later bs s1 w1 = (r, w')" using Cons.prems(1) no by (simp add: n c)
      from Cons.IH [OF this keep] show ?thesis using Inr by simp
    qed
  qed
qed auto

text \<open>What a turn of the loop does: nothing to the store, or one commit of a state one
  \<open>advance\<close> step further.\<close>

definition idle_turn :: "loop_state \<Rightarrow> step_result outcome \<Rightarrow> bool" where
  "idle_turn ls r \<longleftrightarrow>
     (case r of
        Value (SR_Continue ls') \<Rightarrow> ls_scan ls' = ls_scan ls \<and>
          (ls_fetch_retries ls \<le> BLOCK_FETCH_RETRY_LIMIT \<longrightarrow> ls_probe_failures ls \<le> REORG_PROBE_RETRY_LIMIT \<longrightarrow>
             ls_fetch_retries ls' \<le> BLOCK_FETCH_RETRY_LIMIT \<and> ls_probe_failures ls' \<le> REORG_PROBE_RETRY_LIMIT \<and>
             ls_fetch_retries ls' + ls_probe_failures ls' = ls_fetch_retries ls + ls_probe_failures ls + 1)
      | Value (SR_Stop ls') \<Rightarrow> ls' = ls
      | Value (SR_Return rc) \<Rightarrow> rc \<noteq> 0
      | Panic \<Rightarrow> False)"

definition commit_turn :: "refresh_ctx \<Rightarrow> (world \<Rightarrow> bool) \<Rightarrow> loop_state \<Rightarrow> step_result outcome \<times> world \<Rightarrow> bool" where
  "commit_turn ctx P ls rw \<longleftrightarrow>
     (\<exists>w1 ls1. P w1 \<and> adv1 ctx (ls_scan ls) (ls_scan ls1) \<and> ls_fetch_retries ls1 = 0 \<and>
        ls_probe_failures ls1 = 0 \<and> commit_then ctx ls1 w1 = rw)"

definition failed_turn :: "step_result outcome \<Rightarrow> bool" where
  "failed_turn r \<longleftrightarrow> (\<exists>code. code \<noteq> 0 \<and> r = Value (SR_Return code))"

lemma failed_idle: "failed_turn r \<Longrightarrow> idle_turn ls r"
  by (auto simp: failed_turn_def idle_turn_def)

lemma return_error_turn: "store_pred P \<Longrightarrow> P w \<Longrightarrow> code \<noteq> 0 \<Longrightarrow> return_error code m w = (r, w') \<Longrightarrow> P w' \<and> failed_turn r"
  by (auto simp: return_error_def failed_turn_def pred_error)

lemma scan_batch_codes: "scan_batch ctx others bs s w = (Inl (code, m), w') \<Longrightarrow> code \<noteq> 0"
  by (induction bs arbitrary: others s w) (auto simp: Let_def split: prod.splits sum.splits if_splits)

lemma process_batch_turn:
  assumes P: "store_pred P" "others_keep P (bo_during ob)" "P w"
    and link: "links_to (ls_scan ls) b"
    and r: "process_batch ctx ob (b # bs) ls w = (r, w')"
  shows "P w' \<and> failed_turn r \<or> commit_turn ctx P ls (r, w')"
proof -
  obtain now later where n: "(case bo_during ob of [] \<Rightarrow> (\<lambda>v. v, []) | f # fs \<Rightarrow> (f, fs)) = (now, later)" by fastforce
  obtain c w1 where c: "refresh_cancelled_for_wallet (rc_id ctx) (now w) = (c, w1)" by force
  have keep: "others_keep P later" "P w1"
    using next_others [OF n P(2)] P(3) pred_cancelled [OF P(1) c] by auto
  show ?thesis
  proof (cases c)
    case True
    then have "return_error (- 30) ''wallet_refresh: cancelled'' w1 = (r, w')"
      using r unfolding process_batch_def Let_def n prod.case c by (simp del: scan_batch.simps)
    from return_error_turn [OF P(1) keep(2) _ this] show ?thesis by simp
  next
    case no: False
    obtain q w2 where q: "scan_batch ctx later (b # bs) (claim_keys (ls_scan ls)) w1 = (q, w2)" by force
    from scan_batch_sound [OF P(1) q keep] have w2: "P w2" and
      all: "\<And>s'. q = Inr s' \<Longrightarrow> scan_all ctx (b # bs) (claim_keys (ls_scan ls)) = Inr s'" by auto
    have r': "(case (q, w2) of
           (Inl (code, message), w2) \<Rightarrow> return_error code message w2
         | (Inr s1, w2) \<Rightarrow> commit_then ctx (ls\<lparr>ls_fetch_retries := 0, ls_probe_failures := 0, ls_scan := s1\<rparr>) w2) = (r, w')"
    proof -
      have "process_batch ctx ob (b # bs) ls w =
          (case scan_batch ctx later (b # bs) (claim_keys (ls_scan ls)) w1 of
             (Inl (code, message), w2) \<Rightarrow> return_error code message w2
           | (Inr s1, w2) \<Rightarrow> commit_then ctx (ls\<lparr>ls_fetch_retries := 0, ls_probe_failures := 0, ls_scan := s1\<rparr>) w2)"
        unfolding process_batch_def Let_def n prod.case c using no
        by (simp add: claim_keys_def del: scan_batch.simps)
      with r q show ?thesis by (simp del: scan_batch.simps)
    qed
    show ?thesis
    proof (cases q)
      case (Inl e)
      then obtain code m where e: "q = Inl (code, m)" by (cases e) auto
      with scan_batch_codes q have "code \<noteq> 0" by blast
      from return_error_turn [OF P(1) w2 this] r' e show ?thesis by simp
    next
      case (Inr s1)
      have "adv1 ctx (ls_scan ls) s1" by (rule adv_batch [OF link all [OF Inr]])
      moreover have "commit_then ctx (ls\<lparr>ls_fetch_retries := 0, ls_probe_failures := 0, ls_scan := s1\<rparr>) w2 = (r, w')"
        using r' Inr by simp
      ultimately show ?thesis
        unfolding commit_turn_def using w2
        by (intro disjI2 exI [of _ w2] exI [of _ "ls\<lparr>ls_fetch_retries := 0, ls_probe_failures := 0, ls_scan := s1\<rparr>"]) simp
    qed
  qed
qed

lemma fetch_batch_cases:
  assumes "fetch_batch ob start en ls = fr"
  shows "case fr of
      FR_Blocks v ls1 \<Rightarrow> ls_scan ls1 = ls_scan ls \<and> ls_fetch_retries ls1 = ls_fetch_retries ls \<and>
        ls_probe_failures ls1 = ls_probe_failures ls
    | FR_Retry ls1 \<Rightarrow> ls_scan ls1 = ls_scan ls \<and> ls_fetch_retries ls1 = ls_fetch_retries ls + 1 \<and>
        ls_fetch_retries ls1 \<le> BLOCK_FETCH_RETRY_LIMIT \<and> ls_probe_failures ls1 = ls_probe_failures ls
    | FR_Fail m \<Rightarrow> True"
  unfolding assms [symmetric] fetch_batch_def retry_or_fail_def Let_def
  by (auto split: fetch_answer.split option.split dest: retry_bounded)

lemma parent_action_cases:
  "case parent_action ctx ob first ls of
     PM_Continue \<Rightarrow> links_to (ls_scan ls) first
   | PM_Rewind target c \<Rightarrow> \<exists>get_hash :: u64 \<Rightarrow> (int \<times> string) + hash32.
       find_reorg_rewind_height (rc_restore ctx) (recent_block_hashes_start_height (ls_scan ls))
         (recent_block_hashes (ls_scan ls)) get_hash = Inr (Some target)
   | PM_Retry n c \<Rightarrow> n = sat_add32 (ls_probe_failures ls) 1 \<and> n \<le> REORG_PROBE_RETRY_LIMIT
   | PM_Abort n c \<Rightarrow> True"
proof -
  let ?e = "local_parent (ls_scan ls)"
  let ?p = "if (case ?e of None \<Rightarrow> False | Some expected \<Rightarrow> expected \<noteq> sb_previous first)
      then probe_reorg (rc_restore ctx) (ls_scan ls) (bo_probe ob) else Inr None"
  have a: "parent_action ctx ob first ls =
      decide_parent_mismatch_action ?e (sb_previous first) ?p (ls_probe_failures ls) REORG_PROBE_RETRY_LIMIT"
    by (simp add: parent_action_def Let_def local_parent_def)
  have p: "\<exists>get_hash :: u64 \<Rightarrow> (int \<times> string) + hash32.
       find_reorg_rewind_height (rc_restore ctx) (recent_block_hashes_start_height (ls_scan ls))
         (recent_block_hashes (ls_scan ls)) get_hash = Inr (Some h)" if "?p = Inr (Some h)" for h
    using that by (auto simp: probe_reorg_def split: sum.splits if_splits)
  show ?thesis
    using parent_mismatch_cases [of ?e "sb_previous first" ?p "ls_probe_failures ls" REORG_PROBE_RETRY_LIMIT] p
    unfolding a by (auto simp: links_to_def split: parent_mismatch_action.splits option.splits)
qed

lemma refresh_step_turn:
  assumes P: "store_pred P" "others_keep P (obs_others ob)" "P w0"
    and r: "refresh_step ctx ob ls w0 = (r, w')"
  shows "P w' \<and> idle_turn ls r \<or> commit_turn ctx P ls (r, w')"
proof -
  let ?start = "ss_height (ls_scan ls)" and ?en = "min (rc_daemon_height ctx) (sat_add (ss_height (ls_scan ls)) (rc_batch ctx))"
  have o: "others_keep P (bo_during ob)" "P (bo_before ob w0)"
    using P(2,3) by (auto simp: others_keep_def obs_others_def)
  obtain c w where c: "refresh_cancelled_for_wallet (rc_id ctx) (bo_before ob w0) = (c, w)" by force
  have w: "P w" using o(2) pred_cancelled [OF P(1) c] by simp
  note err = return_error_turn [OF P(1) w]
  note unf = r [unfolded refresh_step_def Let_def c prod.case]
  show ?thesis
  proof (cases "c \<or> ?en \<le> ?start")
    case True
    then show ?thesis
    proof (cases c)
      case True
      then have "return_error (- 30) ''wallet_refresh: cancelled'' w = (r, w')" using unf by simp
      from err [OF _ this] failed_idle show ?thesis by simp
    next
      case False
      then show ?thesis using unf True w by (auto simp: idle_turn_def)
    qed
  next
    case go: False
    obtain fr where fr: "fetch_batch ob ?start (?en - 1) ls = fr" by blast
    note unf2 = unf [unfolded fr]
    note facts = fetch_batch_cases [OF fr]
    show ?thesis
    proof (cases fr)
      case (FR_Retry ls1)
      then show ?thesis using unf2 go facts w by (auto simp: idle_turn_def)
    next
      case (FR_Fail m)
      then have "return_error (- 16) m w = (r, w')" using unf2 go by simp
      from err [OF _ this] failed_idle show ?thesis by simp
    next
      case (FR_Blocks v ls1)
      note f1 = facts [unfolded FR_Blocks fetch_result.case]
      show ?thesis
      proof (cases v)
        case Nil
        then obtain m where "return_error (- 16) m w = (r, w')" using unf2 go FR_Blocks by auto
        from err [OF _ this] failed_idle show ?thesis by simp
      next
        case (Cons b bs)
        note act = parent_action_cases [where ctx = ctx and ob = ob and first = b and ls = ls1]
        note unf3 = unf2 [unfolded FR_Blocks Cons fetch_result.case list.case]
        show ?thesis
        proof (cases "parent_action ctx ob b ls1")
          case PM_Continue
          then have "process_batch ctx ob (b # bs) ls1 w = (r, w')" using unf3 go by simp
          moreover have "links_to (ls_scan ls1) b" using act PM_Continue by simp
          ultimately have "P w' \<and> failed_turn r \<or> commit_turn ctx P ls1 (r, w')"
            using process_batch_turn [OF P(1) o(1) w] by blast
          then show ?thesis using f1 failed_idle by (auto simp: commit_turn_def)
        next
          case (PM_Rewind target cc)
          let ?ls = "ls1\<lparr>ls_scan := rewind_scan_state (rc_restore ctx) target (ls_scan ls1),
                        ls_fetch_retries := 0, ls_probe_failures := 0\<rparr>"
          have "commit_then ctx ?ls w = (r, w')" using unf3 go PM_Rewind by simp
          moreover have "adv1 ctx (ls_scan ls) (ls_scan ?ls)"
            using act PM_Rewind f1 by (auto intro: adv_rewind)
          ultimately have "commit_turn ctx P ls (r, w')"
            unfolding commit_turn_def using w by (intro exI [of _ w] exI [of _ ?ls]) simp
          then show ?thesis by simp
        next
          case (PM_Retry n cc)
          then have "r = Value (SR_Continue (ls1\<lparr>ls_probe_failures := n\<rparr>))" "w' = w" using unf3 go by auto
          moreover have "n = sat_add32 (ls_probe_failures ls1) 1" "n \<le> REORG_PROBE_RETRY_LIMIT" using act PM_Retry by auto
          ultimately show ?thesis
            using f1 w by (auto simp: idle_turn_def sat_add32_def u32_max_def REORG_PROBE_RETRY_LIMIT_def)
        next
          case (PM_Abort n cc)
          then obtain m where "return_error (- 16) m w = (r, w')" using unf3 go by auto
          from err [OF _ this] failed_idle show ?thesis by simp
        qed
      qed
    qed
  qed
qed

lemma commit_then_eq:
  "commit_then ctx ls w =
     (if wd_store_poisoned w then (Panic, w)
      else (case map_of (wd_store w) (rc_id ctx) of
              None \<Rightarrow> (Value (SR_Return (- 13)), w)
            | Some st \<Rightarrow> (Value (SR_Continue ls),
                w\<lparr>wd_store := hm_insert (rc_id ctx) (checkpoint_state (rc_daemon_height ctx) (ls_scan ls) st) (wd_store w)\<rparr>)))"
  by (simp add: commit_then_def commit_refresh_checkpoint_def lock_store_def split: option.split)

lemma commit_then_cases:
  assumes "commit_then ctx ls w = (r, w')"
  obtains (poisoned) "wd_store_poisoned w" "r = Panic" "w' = w"
  | (missing) "map_of (wd_store w) (rc_id ctx) = None" "r = Value (SR_Return (- 13))" "w' = w"
  | (committed) st where "map_of (wd_store w) (rc_id ctx) = Some st" "r = Value (SR_Continue ls)"
      "w' = w\<lparr>wd_store := hm_insert (rc_id ctx) (checkpoint_state (rc_daemon_height ctx) (ls_scan ls) st) (wd_store w)\<rparr>"
proof (cases "wd_store_poisoned w")
  case True
  then have "r = Panic" "w' = w" using assms unfolding commit_then_eq by simp_all
  with True show thesis by (rule poisoned)
next
  case ok: False
  show thesis
  proof (cases "map_of (wd_store w) (rc_id ctx)")
    case None
    then have "r = Value (SR_Return (- 13))" "w' = w" using assms ok unfolding commit_then_eq by simp_all
    with None show thesis by (rule missing)
  next
    case (Some st)
    have "commit_then ctx ls w = (Value (SR_Continue ls),
        w\<lparr>wd_store := hm_insert (rc_id ctx) (checkpoint_state (rc_daemon_height ctx) (ls_scan ls) st) (wd_store w)\<rparr>)"
      unfolding commit_then_eq using ok Some by simp
    with assms have "r = Value (SR_Continue ls)"
      "w' = w\<lparr>wd_store := hm_insert (rc_id ctx) (checkpoint_state (rc_daemon_height ctx) (ls_scan ls) st) (wd_store w)\<rparr>"
      by (metis prod.inject)+
    with Some show thesis by (rule committed)
  qed
qed

section \<open>The store during a refresh\<close>

text \<open>A commit keeps any property of wallets that checkpoints of ready states have.\<close>

lemma store_all_pred: "store_pred (store_all q)"
  unfolding store_pred_def by (simp add: store_all_def)

lemma commit_keeps_sound:
  assumes "commit_then ctx ls w = (r, w')" and "store_all wallet_sound w" and "scan_ready (ls_scan ls)"
  shows "store_all wallet_sound w'"
  using assms(1)
proof (cases rule: commit_then_cases)
  case (committed st)
  have "wallet_sound (checkpoint_state (rc_daemon_height ctx) (ls_scan ls) st)"
    by (rule checkpoint_sound [OF assms(3) store_all_get [OF assms(2) committed(1)]])
  from store_all_put [OF assms(2) this] show ?thesis by (simp add: committed(3) put_wallet_def)
qed (use assms(2) in simp_all)

lemma refresh_step_sound:
  assumes "refresh_step ctx ob ls w = (r, w')" and "store_all wallet_sound w"
    and "others_keep (store_all wallet_sound) (obs_others ob)" and "scan_ready (ls_scan ls)"
  shows "store_all wallet_sound w' \<and> (\<forall>ls'. r = Value (SR_Continue ls') \<or> r = Value (SR_Stop ls') \<longrightarrow> scan_ready (ls_scan ls'))"
  using refresh_step_turn [OF store_all_pred assms(3,2,1)]
proof
  assume "store_all wallet_sound w' \<and> idle_turn ls r"
  then show ?thesis using assms(4) by (auto simp: idle_turn_def)
next
  assume "commit_turn ctx (store_all wallet_sound) ls (r, w')"
  then obtain w1 ls1 where c: "store_all wallet_sound w1" "adv1 ctx (ls_scan ls) (ls_scan ls1)"
    "commit_then ctx ls1 w1 = (r, w')" by (auto simp: commit_turn_def)
  have ready: "scan_ready (ls_scan ls1)" by (rule adv1_ready [OF c(2) assms(4)])
  from c(3) have "\<forall>ls'. r = Value (SR_Continue ls') \<or> r = Value (SR_Stop ls') \<longrightarrow> ls' = ls1"
    by (cases rule: commit_then_cases) simp_all
  then show ?thesis using ready commit_keeps_sound [OF c(3,1) ready] by blast
qed

lemma refresh_loop_Cons_cases:
  assumes "refresh_loop ctx (ob # obs) ls w = Some (r, w')" and "ss_height (ls_scan ls) < rc_daemon_height ctx"
  obtains (last) "refresh_step ctx ob ls w = (r, w')" "\<forall>ls1. r \<noteq> Value (SR_Continue ls1)"
  | (more) ls1 w1 where "refresh_step ctx ob ls w = (Value (SR_Continue ls1), w1)" "refresh_loop ctx obs ls1 w1 = Some (r, w')"
proof -
  obtain q w1 where q: "refresh_step ctx ob ls w = (q, w1)" by force
  show thesis
  proof (cases "\<exists>ls1. q = Value (SR_Continue ls1)")
    case True
    then obtain ls1 where "q = Value (SR_Continue ls1)" by blast
    with q assms more show thesis by simp
  next
    case False
    then have "refresh_loop ctx (ob # obs) ls w = Some (q, w1)"
      using assms(2) q by (auto split: outcome.split step_result.split)
    then have "q = r" "w1 = w'" using assms(1) by simp_all
    with q False last show thesis by blast
  qed
qed

lemma refresh_loop_sound:
  assumes "refresh_loop ctx obs ls w = Some (r, w')" and "store_all wallet_sound w"
    and "\<forall>ob \<in> set obs. others_keep (store_all wallet_sound) (obs_others ob)" and "scan_ready (ls_scan ls)"
  shows "store_all wallet_sound w' \<and> (\<forall>ls'. r = Value (SR_Continue ls') \<or> r = Value (SR_Stop ls') \<longrightarrow> scan_ready (ls_scan ls'))"
  using assms
proof (induction obs arbitrary: ls w)
  case Nil
  then show ?case by (auto split: if_splits)
next
  case (Cons ob obs)
  have ob: "others_keep (store_all wallet_sound) (obs_others ob)" using Cons.prems(3) by simp
  show ?case
  proof (cases "ss_height (ls_scan ls) < rc_daemon_height ctx")
    case True
    from Cons.prems(1) True show ?thesis
    proof (cases rule: refresh_loop_Cons_cases)
      case last
      from refresh_step_sound [OF last(1) Cons.prems(2) ob Cons.prems(4)] show ?thesis .
    next
      case (more ls1 w1)
      from refresh_step_sound [OF more(1) Cons.prems(2) ob Cons.prems(4)]
      have "store_all wallet_sound w1" "scan_ready (ls_scan ls1)" by simp_all
      then show ?thesis using Cons.IH [OF more(2)] Cons.prems(3) by simp
    qed
  next
    case False
    then show ?thesis using Cons.prems by auto
  qed
qed

end
