(* ===== verification/Refresh_Live.thy ===== *)
theory Refresh_Live
  imports Refresh_Correct
begin

text \<open>
  Two views of a whole refresh loop. When the other threads leave the store alone, what it holds
  afterwards is the checkpoint of a state the specification reaches. With a daemon that answers every
  requested range from one chain, the loop reaches the tip, and the recent-hash window is then a
  piece of that chain.
\<close>

section \<open>Published states\<close>

definition others_quiet :: "(world \<Rightarrow> world) list \<Rightarrow> bool" where
  "others_quiet fs \<longleftrightarrow> (\<forall>f \<in> set fs. \<forall>w. wd_store (f w) = wd_store w \<and> wd_store_poisoned (f w) = wd_store_poisoned w)"

definition published :: "refresh_ctx \<Rightarrow> scan_state \<Rightarrow> world \<Rightarrow> bool" where
  "published ctx s w \<longleftrightarrow> (\<exists>st. map_of (wd_store w) (rc_id ctx) = Some (checkpoint_state (rc_daemon_height ctx) s st))"

definition same_store :: "world \<Rightarrow> world \<Rightarrow> bool" where
  "same_store w w' \<longleftrightarrow> wd_store w' = wd_store w \<and> wd_store_poisoned w' = wd_store_poisoned w"

lemma same_store_pred: "store_pred (same_store w)"
  by (auto simp: store_pred_def same_store_def)

lemma quiet_keeps: "others_quiet fs \<Longrightarrow> others_keep (same_store w) fs"
  by (auto simp: others_quiet_def others_keep_def same_store_def)

lemma published_store: "published ctx s w \<Longrightarrow> wd_store w' = wd_store w \<Longrightarrow> published ctx s w'"
  by (simp add: published_def)

definition retry_measure :: "loop_state \<Rightarrow> nat" where
  "retry_measure ls = ls_fetch_retries ls + ls_probe_failures ls"

lemma step_published:
  assumes "refresh_step ctx ob ls w = (r, w')" and "others_quiet (obs_others ob)"
  shows "idle_turn ls r \<and> same_store w w' \<or>
    (\<exists>ls1. adv1 ctx (ls_scan ls) (ls_scan ls1) \<and> r = Value (SR_Continue ls1) \<and> published ctx (ls_scan ls1) w' \<and>
        retry_measure ls1 = 0) \<or>
    (r = Panic \<or> r = Value (SR_Return (- 13))) \<and> same_store w w'"
  using refresh_step_turn [OF same_store_pred quiet_keeps [OF assms(2)] _ assms(1), of w]
proof
  show "same_store w w" by (simp add: same_store_def)
next
  assume "commit_turn ctx (same_store w) ls (r, w')"
  then obtain w1 ls1 where c: "same_store w w1" "adv1 ctx (ls_scan ls) (ls_scan ls1)" "commit_then ctx ls1 w1 = (r, w')"
    "retry_measure ls1 = 0"
    by (auto simp: commit_turn_def retry_measure_def)
  from c(3) show ?thesis
  proof (cases rule: commit_then_cases)
    case (committed st)
    then have "published ctx (ls_scan ls1) w'" by (auto simp: published_def)
    with c(2,4) committed(2) show ?thesis by blast
  qed (use c(1) in simp_all)
qed blast

definition committed_view :: "refresh_ctx \<Rightarrow> scan_state \<Rightarrow> world \<Rightarrow> scan_state \<Rightarrow> world \<Rightarrow> bool" where
  "committed_view ctx s w s' w' \<longleftrightarrow> s' = s \<and> wd_store w' = wd_store w \<or> published ctx s' w'"

lemma refresh_loop_published:
  assumes "refresh_loop ctx obs ls w = Some (r, w')" and "\<forall>ob \<in> set obs. others_quiet (obs_others ob)"
  shows "\<exists>s'. advance ctx (ls_scan ls) s' \<and> committed_view ctx (ls_scan ls) w s' w' \<and>
    (\<forall>ls'. r = Value (SR_Stop ls') \<longrightarrow> ls_scan ls' = s')"
  using assms
proof (induction obs arbitrary: ls w)
  case Nil
  then show ?case by (auto simp: committed_view_def split: if_splits)
next
  case (Cons ob obs)
  have ob: "others_quiet (obs_others ob)" using Cons.prems(2) by simp
  show ?case
  proof (cases "ss_height (ls_scan ls) < rc_daemon_height ctx")
    case True
    from Cons.prems(1) True show ?thesis
    proof (cases rule: refresh_loop_Cons_cases)
      case last
      have "same_store w w' \<and> (\<forall>ls'. r = Value (SR_Stop ls') \<longrightarrow> ls' = ls)"
        using step_published [OF last(1) ob] last(2) by (auto simp: idle_turn_def)
      then show ?thesis by (auto simp: committed_view_def same_store_def)
    next
      case (more ls1 w1)
      from Cons.IH [OF more(2)] Cons.prems(2) obtain s' where s': "advance ctx (ls_scan ls1) s'"
        "committed_view ctx (ls_scan ls1) w1 s' w'" "\<forall>ls'. r = Value (SR_Stop ls') \<longrightarrow> ls_scan ls' = s'" by auto
      from step_published [OF more(1) ob]
      have "ls_scan ls1 = ls_scan ls \<and> wd_store w1 = wd_store w \<or>
          adv1 ctx (ls_scan ls) (ls_scan ls1) \<and> published ctx (ls_scan ls1) w1"
        by (auto simp: idle_turn_def same_store_def)
      then show ?thesis
      proof
        assume "ls_scan ls1 = ls_scan ls \<and> wd_store w1 = wd_store w"
        with s' show ?thesis by (auto simp: committed_view_def)
      next
        assume a: "adv1 ctx (ls_scan ls) (ls_scan ls1) \<and> published ctx (ls_scan ls1) w1"
        have "published ctx s' w'"
          using s'(2) a by (auto simp: committed_view_def published_def)
        moreover have "advance ctx (ls_scan ls) s'" using a s'(1) by (meson converse_rtranclp_into_rtranclp)
        ultimately show ?thesis using s'(3) by (auto simp: committed_view_def)
      qed
    qed
  next
    case False
    then show ?thesis using Cons.prems(1) by (auto simp: committed_view_def)
  qed
qed

section \<open>Retries end\<close>

text \<open>Turns that end with a retry pending are at most eight in a row: the two counters only grow, up
  to their limits, and a turn that commits resets both.\<close>

definition retries_ok :: "loop_state \<Rightarrow> bool" where
  "retries_ok ls \<longleftrightarrow> ls_fetch_retries ls \<le> BLOCK_FETCH_RETRY_LIMIT \<and> ls_probe_failures ls \<le> REORG_PROBE_RETRY_LIMIT"

fun idle_run :: "refresh_ctx \<Rightarrow> batch_obs list \<Rightarrow> loop_state \<Rightarrow> world \<Rightarrow> loop_state \<Rightarrow> world \<Rightarrow> bool" where
  "idle_run ctx [] ls w ls' w' \<longleftrightarrow> ls' = ls \<and> w' = w"
| "idle_run ctx (ob # obs) ls w ls' w' \<longleftrightarrow>
     (case refresh_step ctx ob ls w of
        (Value (SR_Continue ls1), w1) \<Rightarrow> 0 < retry_measure ls1 \<and> idle_run ctx obs ls1 w1 ls' w'
      | _ \<Rightarrow> False)"

lemma idle_run_bound:
  "idle_run ctx obs ls w ls' w' \<Longrightarrow> \<forall>ob \<in> set obs. others_quiet (obs_others ob) \<Longrightarrow> retries_ok ls \<Longrightarrow>
     retries_ok ls' \<and> retry_measure ls' = retry_measure ls + length obs"
proof (induction obs arbitrary: ls w)
  case (Cons ob obs)
  obtain r w1 where r: "refresh_step ctx ob ls w = (r, w1)" by force
  with Cons.prems(1) obtain ls1 where ls1: "r = Value (SR_Continue ls1)" "0 < retry_measure ls1"
    "idle_run ctx obs ls1 w1 ls' w'" by (auto split: outcome.splits step_result.splits)
  have "idle_turn ls r"
    using step_published [OF r] Cons.prems(2) ls1(1,2) by auto
  then have "retries_ok ls1 \<and> retry_measure ls1 = retry_measure ls + 1"
    using Cons.prems(3) ls1(1) by (auto simp: idle_turn_def retries_ok_def retry_measure_def)
  with Cons.IH [OF ls1(3)] Cons.prems(2) show ?case by simp
qed simp

lemma idle_run_short:
  assumes "idle_run ctx obs ls w ls' w'" and "\<forall>ob \<in> set obs. others_quiet (obs_others ob)" and "retries_ok ls"
  shows "length obs \<le> BLOCK_FETCH_RETRY_LIMIT + REORG_PROBE_RETRY_LIMIT"
  using idle_run_bound [OF assms] by (auto simp: retries_ok_def retry_measure_def)

section \<open>The recent-hash window while scanning\<close>

definition hash_window :: "'a chain_view_scheme \<Rightarrow> u64 \<times> hash32 list" where
  "hash_window s = (recent_block_hashes_start_height s, recent_block_hashes s)"

lemma apply_spend_input_window: "hash_window (apply_spend_input t th fees kis s ki) = hash_window s"
  by (auto simp: apply_spend_input_def hash_window_def Let_def split: option.split)

lemma detect_spends_window: "hash_window (detect_spends th b s) = hash_window s"
proof -
  have one: "hash_window (apply_spend th fees kis s tt) = hash_window s" for fees kis s tt
    unfolding apply_spend_def by (rule foldl_frame) (rule apply_spend_input_window)
  have "hash_window (foldl (apply_spend th fees kis) s xs) = hash_window s" for fees kis s xs
    by (rule foldl_frame) (rule one)
  then show ?thesis unfolding detect_spends_def Let_def by (simp add: hash_window_def)
qed

lemma learn_fee_window: "hash_window (learn_fee b t s) = hash_window s"
  by (simp add: learn_fee_def hash_window_def split: option.split)

lemma apply_output_window: "apply_output ko m th b s out = Inr s' \<Longrightarrow> hash_window s' = hash_window s"
  by (erule apply_output_cases) (simp_all add: learn_fee_window, simp_all add: hash_window_def)

lemma apply_outputs_window: "apply_outputs ko m th b outs s = Inr s' \<Longrightarrow> hash_window s' = hash_window s"
  by (induction outs arbitrary: s) (auto split: sum.splits dest: apply_output_window)

lemma reconcile_window: "hash_window (reconcile_replayed_height h txs im s) = hash_window s"
  by (simp add: reconcile_replayed_height_def hash_window_def case_prod_beta)

lemma scan_block_window:
  assumes "scan_block ko restore m rh sc b s = Inr s'"
  shows "hash_window s' = push_recent_block_hash_parts restore (recent_block_hashes_start_height s)
       (recent_block_hashes s) (ss_height s) (sb_hash b) \<and> ss_height s' = sat_add (ss_height s) 1"
  using assms
proof (rule scan_block_inv)
  fix st hs s2 outs s4
  assume p: "push_recent_block_hash_parts restore (recent_block_hashes_start_height s) (recent_block_hashes s)
       (ss_height s) (sb_hash b) = (st, hs)"
    and s2: "s2 = (let s1 = s\<lparr>recent_block_hashes_start_height := st, recent_block_hashes := hs,
              ss_tip_time := (if 0 < sb_timestamp b \<and> ss_tip_time s < sb_timestamp b
                              then sb_timestamp b else ss_tip_time s)\<rparr> in
           if ss_height s \<in> set rh
           then reconcile_replayed_height (ss_height s) (hs_of_list (sb_miner_hash b # sb_tx_hashes b))
                  (hs_of_list (concat (map tx_key_images (sb_txs b)))) s1
           else s1)"
    and s4: "apply_outputs ko m (ss_height s) b outs (detect_spends (ss_height s) b s2) = Inr s4"
    and w: "recent_block_hashes_start_height s' = recent_block_hashes_start_height s4"
      "recent_block_hashes s' = recent_block_hashes s4"
    and h: "ss_height s' = sat_add (ss_height s) 1"
  have "hash_window s2 = (st, hs)" by (simp add: s2 Let_def reconcile_window) (simp add: hash_window_def)
  moreover have "hash_window s4 = hash_window s2"
    using apply_outputs_window [OF s4] by (simp add: detect_spends_window)
  moreover have "hash_window s' = hash_window s4" by (simp add: hash_window_def w)
  ultimately show ?thesis using p h by simp
qed

text \<open>The window is a piece of a chain below the cursor.\<close>

definition on_chain :: "(u64 \<Rightarrow> scannable_block) \<Rightarrow> u64 \<Rightarrow> scan_state \<Rightarrow> bool" where
  "on_chain chain restore s \<longleftrightarrow>
     window_ok (recent_block_hashes_start_height s) (recent_block_hashes s) \<and>
     (recent_block_hashes_start_height s \<noteq> 0 \<or> restore = 0) \<and> restore \<le> ss_height s \<and>
     (\<forall>k x. recent_hash_at (recent_block_hashes_start_height s) (recent_block_hashes s) k = Some x \<longrightarrow>
        k < ss_height s \<and> x = sb_hash (chain k))"

lemma scan_block_on_chain:
  assumes c: "on_chain chain restore s" and h: "ss_height s < u64_max"
    and r: "scan_block ko restore m rh sc (chain (ss_height s)) s = Inr s'"
  shows "on_chain chain restore s'" and "ss_height s' = ss_height s + 1"
proof -
  obtain st xs where p: "push_recent_block_hash_parts restore (recent_block_hashes_start_height s)
       (recent_block_hashes s) (ss_height s) (sb_hash (chain (ss_height s))) = (st, xs)" by force
  have w: "recent_block_hashes_start_height s' = st" "recent_block_hashes s' = xs"
    and hh: "ss_height s' = sat_add (ss_height s) 1"
    using scan_block_window [OF r] p by (simp_all add: hash_window_def)
  then show h': "ss_height s' = ss_height s + 1" using h by (simp add: sat_add_exact)
  have ok: "window_ok (recent_block_hashes_start_height s) (recent_block_hashes s)"
    "recent_block_hashes_start_height s \<noteq> 0 \<or> restore = 0" "restore \<le> ss_height s"
    using c by (auto simp: on_chain_def)
  note pw = push_parts_window [OF ok(1,2) h p]
  have "st \<noteq> 0 \<or> restore = 0"
  proof (rule ccontr)
    assume a: "\<not> (st \<noteq> 0 \<or> restore = 0)"
    then have "recent_hash_at st xs 0 \<noteq> None" using pw(2) by (simp add: recent_hash_at_def)
    then obtain x where "recent_hash_at st xs 0 = Some x" by blast
    from pw(4) [OF this] have "0 = ss_height s \<or> recent_hash_at (recent_block_hashes_start_height s) (recent_block_hashes s) 0 = Some x"
      by blast
    then show False using a ok(2,3) by (auto simp: recent_hash_at_Some)
  qed
  moreover have "k < ss_height s' \<and> x = sb_hash (chain k)" if "recent_hash_at st xs k = Some x" for k x
    using pw(4) [OF that] c h' by (auto simp: on_chain_def)
  ultimately show "on_chain chain restore s'"
    using pw(1) ok(3) h' by (simp add: on_chain_def w)
qed

lemma claim_keys_simps [simp]:
  "ss_height (claim_keys s) = ss_height s" "on_chain chain r (claim_keys s) = on_chain chain r s"
  "tracked_outputs (claim_keys s) = tracked_outputs s" "block_timestamps (claim_keys s) = block_timestamps s"
  by (simp_all add: claim_keys_def on_chain_def)

section \<open>Reaching the tip\<close>

text \<open>The wallet is open, its store usable, its cancellation flag down; the other threads keep that.\<close>

definition live :: "string \<Rightarrow> world \<Rightarrow> bool" where
  "live i w \<longleftrightarrow> map_of (wd_store w) i \<noteq> None \<and> \<not> wd_store_poisoned w \<and> \<not> hm_get_or False (wd_cancel w) i"

definition chain_linked :: "(u64 \<Rightarrow> scannable_block) \<Rightarrow> bool" where
  "chain_linked chain \<longleftrightarrow> (\<forall>h. sb_previous (chain (h + 1)) = sb_hash (chain h))"

definition scans_ok :: "refresh_ctx \<Rightarrow> (u64 \<Rightarrow> scannable_block) \<Rightarrow> bool" where
  "scans_ok ctx chain \<longleftrightarrow> (\<forall>s. scan_wf s \<longrightarrow>
     (\<exists>s'. scan_block (rc_ko ctx) (rc_restore ctx) (rc_master ctx) (rc_replay ctx) (rc_scanner ctx)
        (chain (ss_height s)) s = Inr s'))"

definition batch_end :: "refresh_ctx \<Rightarrow> u64 \<Rightarrow> u64" where
  "batch_end ctx start = min (rc_daemon_height ctx) (sat_add start (rc_batch ctx))"

fun honest_run :: "refresh_ctx \<Rightarrow> (u64 \<Rightarrow> scannable_block) \<Rightarrow> u64 \<Rightarrow> batch_obs list \<Rightarrow> bool" where
  "honest_run ctx chain start [] \<longleftrightarrow> rc_daemon_height ctx \<le> start"
| "honest_run ctx chain start (ob # obs) \<longleftrightarrow>
     start < rc_daemon_height ctx \<and> bo_fetch ob = FA_Blocks (map chain [start..<batch_end ctx start]) \<and>
     others_keep (live (rc_id ctx)) (obs_others ob) \<and> honest_run ctx chain (batch_end ctx start) obs"

lemma live_cancelled:
  "live i w \<Longrightarrow> refresh_cancelled_for_wallet i w = (c, w') \<Longrightarrow> \<not> c \<and> live i w'"
  by (auto simp: live_def refresh_cancelled_for_wallet_def refresh_cancel_flag_for_wallet_def hm_get_or_def
      hm_get_or_insert split: option.splits)

lemma scan_batch_live:
  "scan_all ctx bs s = Inr s' \<Longrightarrow> others_keep (live (rc_id ctx)) others \<Longrightarrow> live (rc_id ctx) w \<Longrightarrow>
     \<exists>w'. scan_batch ctx others bs s w = (Inr s', w') \<and> live (rc_id ctx) w'"
proof (induction bs arbitrary: others s w)
  case (Cons b bs)
  obtain now later where n: "(case others of [] \<Rightarrow> (\<lambda>v. v, []) | f # fs \<Rightarrow> (f, fs)) = (now, later)" by fastforce
  obtain c w1 where c: "refresh_cancelled_for_wallet (rc_id ctx) (now w) = (c, w1)" by force
  have keep: "others_keep (live (rc_id ctx)) later" "\<not> c" "live (rc_id ctx) w1"
    using next_others [OF n Cons.prems(2)] Cons.prems(3) live_cancelled [OF _ c] by auto
  from Cons.prems(1) obtain s1 where s1: "scan_block (rc_ko ctx) (rc_restore ctx) (rc_master ctx) (rc_replay ctx)
      (rc_scanner ctx) b s = Inr s1" "scan_all ctx bs s1 = Inr s'" by (auto split: sum.splits)
  from Cons.IH [OF s1(2) keep(1,3)] show ?case using keep(2) s1(1) by (simp add: n c)
qed simp

lemma scan_all_chain:
  "scans_ok ctx chain \<Longrightarrow> on_chain chain (rc_restore ctx) s \<Longrightarrow> scan_wf s \<Longrightarrow> hm_wf (block_timestamps s) \<Longrightarrow>
     ss_height s + n \<le> u64_max \<Longrightarrow>
     \<exists>s'. scan_all ctx (map chain [ss_height s..<ss_height s + n]) s = Inr s' \<and>
       on_chain chain (rc_restore ctx) s' \<and> ss_height s' = ss_height s + n"
proof (induction n arbitrary: s)
  case (Suc n)
  from Suc.prems(1,3) obtain s1 where s1: "scan_block (rc_ko ctx) (rc_restore ctx) (rc_master ctx) (rc_replay ctx)
      (rc_scanner ctx) (chain (ss_height s)) s = Inr s1" by (auto simp: scans_ok_def)
  have lt: "ss_height s < u64_max" using Suc.prems(5) by simp
  note oc = scan_block_on_chain [OF Suc.prems(2) lt s1]
  have "scan_wf s1" "hm_wf (block_timestamps s1)"
    using scan_block_wf [OF Suc.prems(3) s1] scan_block_times [OF s1 Suc.prems(4)] .
  with Suc.IH [OF Suc.prems(1) oc(1)] Suc.prems(5) oc(2) obtain s' where
    "scan_all ctx (map chain [ss_height s1..<ss_height s1 + n]) s1 = Inr s'" "on_chain chain (rc_restore ctx) s'"
    "ss_height s' = ss_height s1 + n" by auto
  moreover have "[ss_height s..<ss_height s + Suc n] = ss_height s # [ss_height s1..<ss_height s1 + n]"
    using oc(2) by (simp add: upt_conv_Cons del: upt_Suc)
  ultimately show ?case using s1 oc(2) by (simp del: upt_Suc)
qed simp

lemma on_chain_links:
  assumes "chain_linked chain" and "on_chain chain r s"
  shows "links_to s (chain (ss_height s))"
proof (cases "local_parent s")
  case (Some x)
  then have "sat_sub (ss_height s) 1 < ss_height s" "x = sb_hash (chain (sat_sub (ss_height s) 1))"
    using assms(2) by (auto simp: on_chain_def local_parent_def)
  moreover from this have "ss_height s = (ss_height s - 1) + 1" by (simp add: sat_sub_def)
  ultimately show ?thesis
    using assms(1) Some unfolding links_to_def chain_linked_def sat_sub_def by (metis option.case(2))
qed (simp add: links_to_def)

lemma links_continue: "links_to (ls_scan ls) b \<Longrightarrow> parent_action ctx ob b ls = PM_Continue"
  by (auto simp: links_to_def parent_action_def local_parent_def decide_parent_mismatch_action_def Let_def
      split: option.splits)

lemma honest_step:
  assumes chain: "chain_linked chain" "scans_ok ctx chain" and b: "0 < rc_batch ctx" "rc_daemon_height ctx \<le> u64_max"
    and s: "on_chain chain (rc_restore ctx) (ls_scan ls)" "scan_ready (ls_scan ls)"
    and ob: "ss_height (ls_scan ls) < rc_daemon_height ctx"
      "bo_fetch ob = FA_Blocks (map chain [ss_height (ls_scan ls)..<batch_end ctx (ss_height (ls_scan ls))])"
      "others_keep (live (rc_id ctx)) (obs_others ob)"
    and w: "live (rc_id ctx) w"
  shows "\<exists>ls' w'. refresh_step ctx ob ls w = (Value (SR_Continue ls'), w') \<and> live (rc_id ctx) w' \<and>
    on_chain chain (rc_restore ctx) (ls_scan ls') \<and> scan_ready (ls_scan ls') \<and>
    ss_height (ls_scan ls') = batch_end ctx (ss_height (ls_scan ls)) \<and> published ctx (ls_scan ls') w'"
proof -
  let ?c = "ss_height (ls_scan ls)" and ?e = "batch_end ctx (ss_height (ls_scan ls))"
  have e: "?c < ?e" "?e \<le> u64_max" using ob(1) b by (auto simp: batch_end_def sat_add_def min_def)
  obtain n where n: "?e = ?c + Suc n" using e(1) less_iff_Suc_add by auto
  let ?bs = "map chain [Suc ?c..<?e]"
  have blocks: "map chain [?c..<?e] = chain ?c # ?bs" using e(1) by (simp add: upt_conv_Cons)
  have others: "live (rc_id ctx) (bo_before ob w)" "others_keep (live (rc_id ctx)) (bo_during ob)"
    using ob(3) w by (auto simp: others_keep_def obs_others_def)
  obtain c0 w0 where c0: "refresh_cancelled_for_wallet (rc_id ctx) (bo_before ob w) = (c0, w0)" by force
  have w0: "\<not> c0" "live (rc_id ctx) w0" using live_cancelled [OF others(1) c0] by auto
  let ?k = "claim_keys (ls_scan ls)"
  have ready: "hm_wf (block_timestamps ?k)" using s(2) by (simp add: scan_ready_def)
  have "on_chain chain (rc_restore ctx) ?k" "ss_height ?k + Suc n \<le> u64_max" using s(1) e n by simp_all
  from scan_all_chain [OF chain(2) this(1) claim_keys_wf [OF s(2)] ready this(2)] obtain s' where
    "scan_all ctx (map chain [?c..<?c + Suc n]) ?k = Inr s'" "on_chain chain (rc_restore ctx) s'"
    "ss_height s' = ?c + Suc n" by (simp only: claim_keys_simps) blast
  then have s': "scan_all ctx (chain ?c # ?bs) ?k = Inr s'" "on_chain chain (rc_restore ctx) s'" "ss_height s' = ?e"
    unfolding n [symmetric] blocks by simp_all
  obtain now later where nl: "(case bo_during ob of [] \<Rightarrow> (\<lambda>v. v, []) | f # fs \<Rightarrow> (f, fs)) = (now, later)" by fastforce
  obtain c1 w1 where c1: "refresh_cancelled_for_wallet (rc_id ctx) (now w0) = (c1, w1)" by force
  have w1: "others_keep (live (rc_id ctx)) later" "\<not> c1" "live (rc_id ctx) w1"
    using next_others [OF nl others(2)] w0(2) live_cancelled [OF _ c1] by auto
  from scan_batch_live [OF s'(1) w1(1,3)] obtain w2 where
    w2: "scan_batch ctx later (chain ?c # ?bs) ?k w1 = (Inr s', w2)" "live (rc_id ctx) w2" by blast
  let ?ls = "ls\<lparr>ls_fetch_retries := 0, ls_probe_failures := 0, ls_scan := s'\<rparr>"
  have "process_batch ctx ob (chain ?c # ?bs) ls w0 = commit_then ctx ?ls w2"
  proof -
    have "process_batch ctx ob (chain ?c # ?bs) ls w0 =
        (case scan_batch ctx later (chain ?c # ?bs) ?k w1 of
           (Inl (code, message), w2) \<Rightarrow> return_error code message w2
         | (Inr s1, w2) \<Rightarrow> commit_then ctx (ls\<lparr>ls_fetch_retries := 0, ls_probe_failures := 0, ls_scan := s1\<rparr>) w2)"
      unfolding process_batch_def Let_def nl prod.case c1 using w1(2)
      by (simp add: claim_keys_def del: scan_batch.simps)
    then show ?thesis by (simp add: w2(1) del: scan_batch.simps)
  qed
  moreover have "refresh_step ctx ob ls w = process_batch ctx ob (chain ?c # ?bs) ls w0"
  proof -
    have fb: "fetch_batch ob ?c (?e - 1) ls = FR_Blocks (chain ?c # ?bs) ls"
      using ob(2) unfolding blocks by (simp only: fetch_batch_def fetch_answer.case)
    have pa: "parent_action ctx ob (chain ?c) ls = PM_Continue"
      by (rule links_continue [OF on_chain_links [OF chain(1) s(1)]])
    have nle: "\<not> ?e \<le> ?c" using e(1) by simp
    show ?thesis
      unfolding refresh_step_def Let_def c0 prod.case batch_end_def [symmetric] fb
      by (simp only: w0(1) nle if_False fetch_result.case list.case pa parent_mismatch_action.case)
  qed
  moreover obtain st where st: "map_of (wd_store w2) (rc_id ctx) = Some st" "\<not> wd_store_poisoned w2"
    using w2(2) by (auto simp: live_def)
  let ?w = "w2\<lparr>wd_store := hm_insert (rc_id ctx) (checkpoint_state (rc_daemon_height ctx) s' st) (wd_store w2)\<rparr>"
  have "commit_then ctx ?ls w2 = (Value (SR_Continue ?ls), ?w)"
    unfolding commit_then_eq using st by simp
  moreover have "live (rc_id ctx) ?w" "published ctx s' ?w" using w2(2) by (auto simp: live_def published_def)
  moreover have "scan_ready s'"
    using scan_all_wf [OF claim_keys_wf [OF s(2)] ready s'(1)] scan_wf_ready by blast
  ultimately show ?thesis using s'(2,3) by (intro exI [of _ ?ls] exI [of _ ?w]) simp
qed

lemma honest_loop:
  assumes "chain_linked chain" "scans_ok ctx chain" "0 < rc_batch ctx" "rc_daemon_height ctx \<le> u64_max"
  shows "honest_run ctx chain (ss_height (ls_scan ls)) obs \<Longrightarrow> on_chain chain (rc_restore ctx) (ls_scan ls) \<Longrightarrow>
    scan_ready (ls_scan ls) \<Longrightarrow> live (rc_id ctx) w \<Longrightarrow> ss_height (ls_scan ls) \<le> rc_daemon_height ctx \<Longrightarrow>
    \<exists>ls' w'. refresh_loop ctx obs ls w = Some (Value (SR_Stop ls'), w') \<and> live (rc_id ctx) w' \<and>
      on_chain chain (rc_restore ctx) (ls_scan ls') \<and> ss_height (ls_scan ls') = rc_daemon_height ctx \<and>
      (obs = [] \<or> published ctx (ls_scan ls') w')"
proof (induction obs arbitrary: ls w)
  case Nil
  then show ?case by simp
next
  case (Cons ob obs)
  from Cons.prems(1) have ob: "ss_height (ls_scan ls) < rc_daemon_height ctx"
      "bo_fetch ob = FA_Blocks (map chain [ss_height (ls_scan ls)..<batch_end ctx (ss_height (ls_scan ls))])"
      "others_keep (live (rc_id ctx)) (obs_others ob)"
    and rest: "honest_run ctx chain (batch_end ctx (ss_height (ls_scan ls))) obs" by simp_all
  from honest_step [OF assms Cons.prems(2,3) ob Cons.prems(4)] obtain ls1 w1 where
    1: "refresh_step ctx ob ls w = (Value (SR_Continue ls1), w1)" "live (rc_id ctx) w1"
      "on_chain chain (rc_restore ctx) (ls_scan ls1)" "scan_ready (ls_scan ls1)"
      "ss_height (ls_scan ls1) = batch_end ctx (ss_height (ls_scan ls))" "published ctx (ls_scan ls1) w1" by blast
  from Cons.IH [of ls1 w1] rest 1 obtain ls' w' where
    2: "refresh_loop ctx obs ls1 w1 = Some (Value (SR_Stop ls'), w')" "live (rc_id ctx) w'"
      "on_chain chain (rc_restore ctx) (ls_scan ls')" "ss_height (ls_scan ls') = rc_daemon_height ctx"
      "obs = [] \<or> published ctx (ls_scan ls') w'" by (auto simp: batch_end_def)
  have "published ctx (ls_scan ls') w'"
    using 2(1,5) 1(6) by (cases obs) (auto split: if_splits)
  then show ?case using 1(1) 2 ob(1) by auto
qed

end
