(* ===== verification/Refresh_Api.thy ===== *)
theory Refresh_Api
  imports Refresh_Live
begin

text \<open>
  The refresh entry points and the store: a refresh, whatever the daemon and the other threads do,
  leaves every wallet sound; only one refresh runs per wallet; and the stores reachable through any
  sequence of calls, refreshes included, are sound (locale \<open>wallet_inv\<close> interpreted on \<open>wallet_sound\<close>).
\<close>

section \<open>The sound wallets are an invariant of the other calls\<close>

lemma ids_distinct_rewind: "ids_distinct st \<Longrightarrow> ids_distinct (rewind_wallet t st)"
  by (simp add: ids_distinct_def rewind_wallet_def case_prod_beta rewind_outputs o_def distinct_map_filter)

lemma ids_distinct_restore: "ids_distinct st \<Longrightarrow> ids_distinct (snd (restore_spend_authority cr st k))"
proof -
  assume a: "ids_distinct st"
  have "ids_distinct (snd (apply_pending_spend_rescan (st\<lparr>w_keys := Unsealed k\<rparr>)))"
    using a unfolding apply_pending_spend_rescan_def
    by (auto split: option.split intro!: ids_distinct_rewind) (simp_all add: ids_distinct_def)
  then show ?thesis using a
    by (auto simp: restore_spend_authority_def ids_distinct_def Let_def case_prod_beta split: prod.split)
qed

interpretation inv_sound: wallet_inv cr wallet_sound for cr
proof
  show "wallet_sound (new_wallet k h n)" for k h n
    using new_wallet_wf by (simp add: wallet_sound_def ids_distinct_def new_wallet_def)
  show "wallet_sound (seal_wallet cr st)" if "wallet_sound st" for st
    using that inv_wf.q_seal by (simp add: wallet_sound_def ids_distinct_def seal_wallet_def)
  show "wallet_sound (snd (restore_spend_authority cr st k))" if "wallet_sound st" for st k
    using that inv_wf.q_restore ids_distinct_restore by (simp add: wallet_sound_def)
  show "wallet_sound (expand_scan_coverage c st)" if "wallet_sound st" "1 \<le> c" for st c
    using that inv_wf.q_expand by (simp add: wallet_sound_def ids_distinct_def expand_scan_coverage_def)
  show "wallet_sound (rewind_scan_cursor t st)" if "wallet_sound st" for st t
  proof -
    have "ids_distinct (rewind_wallet t st)" using that ids_distinct_rewind by (simp add: wallet_sound_def)
    then have "ids_distinct (rewind_scan_cursor t st)" by (simp add: ids_distinct_def rewind_scan_cursor_def)
    with that inv_wf.q_rewind show ?thesis by (simp add: wallet_sound_def)
  qed
  show "wallet_sound (force_rescan h st)" if "wallet_sound st" for st h
    using that inv_wf.q_rescan by (simp add: wallet_sound_def ids_distinct_def force_rescan_def)
  show "wallet_sound (reset_tracked_outputs st)" if "wallet_sound st" for st
    using that inv_wf.q_reset by (simp add: wallet_sound_def ids_distinct_def reset_tracked_outputs_def)
  show "wallet_sound (st\<lparr>w_restore_height := h\<rparr>)" if "wallet_sound st" "h \<le> w_restore_height st" for st h
    using that inv_wf.q_lower by (simp add: wallet_sound_def ids_distinct_def)
  show "wallet_sound (st\<lparr>w_last_scanned := c1\<rparr>)" if "wallet_sound st" for st c1
    using that inv_wf.q_frame(1) by (simp add: wallet_sound_def ids_distinct_def)
  show "wallet_sound (st\<lparr>w_gap_limit := g\<rparr>)" if "wallet_sound st" "1 \<le> g" for st g
    using that inv_wf.q_frame(2) by (simp add: wallet_sound_def ids_distinct_def)
  show "wallet_sound (st\<lparr>w_history_index := ix\<rparr>)" if "wallet_sound st" for st ix
    using that inv_wf.q_frame(3) by (simp add: wallet_sound_def ids_distinct_def)
qed

section \<open>The parts of a refresh keep sound stores\<close>

abbreviation sound_store :: "world \<Rightarrow> bool" where
  "sound_store \<equiv> store_all wallet_sound"

lemma progress_sound: "wallet_sound st \<Longrightarrow> wallet_sound (update_scan_progress a b c d st)"
  by (simp add: update_scan_progress_def Let_def wallet_sound_def ids_distinct_def wallet_wf_def
      window_coherent_def total_exact_def)

lemma progress_in_sound: "sound_store w \<Longrightarrow> sound_store (update_scan_progress_in i a b c d w)"
  using progress_sound store_all_put store_all_get
  by (fastforce simp: update_scan_progress_in_def put_wallet_def split: option.split)

lemma apply_statuses_outputs: "tracked_outputs (snd (apply_statuses st outs ss h a)) = tracked_outputs st"
  by (simp add: apply_statuses_def Let_def)

lemma apply_statuses_sound:
  assumes "wallet_sound st"
  shows "wallet_sound (snd (apply_statuses st outs ss h a))"
proof -
  obtain r st' where r: "apply_statuses st outs ss h a = (r, st')" by force
  from apply_statuses_wf [OF _ r] apply_statuses_outputs [of st outs ss h a] assms show ?thesis
    by (simp add: r wallet_sound_def ids_distinct_def)
qed

lemma reconcile_with_sound:
  assumes "\<And>kis w. sound_store w \<Longrightarrow> sound_store (snd (query kis w))" and "sound_store w"
  shows "sound_store (snd (reconcile_with cr i snap outs h a query w))"
proof (cases "outs = []")
  case False
  obtain r w1 where q: "query (map key_image outs) w = (r, w1)" by force
  have w1: "sound_store w1" using assms(1) [OF assms(2), of "map key_image outs"] q by simp
  show ?thesis
  proof (cases r)
    case (Inr statuses)
    show ?thesis
    proof (cases "map_of (wd_store w1) i")
      case (Some st)
      have "wallet_sound (snd (apply_statuses st outs statuses h a))"
        by (rule apply_statuses_sound [OF store_all_get [OF w1 Some]])
      from store_all_put [OF w1 this, of i] show ?thesis
        using w1 False q Inr Some by (auto simp: reconcile_with_def put_wallet_def split: prod.split sum.split)
    qed (use w1 False q Inr in \<open>simp add: reconcile_with_def\<close>)
  qed (use w1 False q in \<open>simp add: reconcile_with_def\<close>)
qed (use assms(2) in \<open>simp add: reconcile_with_def\<close>)

lemma revalidate_sound:
  assumes "\<And>kis w. sound_store w \<Longrightarrow> sound_store (snd (query kis w))" and "sound_store w"
  shows "sound_store (snd (revalidate_after_refresh cr i query h w))"
proof (cases "map_of (wd_store w) i")
  case (Some st)
  let ?outs = "filter (\<lambda>o1. \<not> spent o1 \<and> key_image o1 \<noteq> zero_image \<and>
                            outpoint_of o1 \<in> set (w_quarantine st)) (tracked_outputs st)"
  have "sound_store (snd (reconcile_with cr i st ?outs h True query w))"
    by (rule reconcile_with_sound [OF assms])
  then show ?thesis using assms(2) Some
    by (auto simp: revalidate_after_refresh_def split: prod.split sum.split)
qed (use assms(2) in \<open>simp add: revalidate_after_refresh_def\<close>)

lemma commit_checkpoint_sound:
  assumes "sound_store w" and "scan_ready s"
  shows "sound_store (snd (commit_refresh_checkpoint i h s w))"
proof (cases "map_of (wd_store w) i")
  case (Some st)
  from store_all_put [OF assms(1) checkpoint_sound [OF assms(2) store_all_get [OF assms(1) Some]], of i h]
  show ?thesis using assms(1) Some
    by (simp add: commit_refresh_checkpoint_def lock_store_def put_wallet_def)
qed (use assms(1) in \<open>simp add: commit_refresh_checkpoint_def lock_store_def\<close>)

text \<open>What a refresh is given keeps sound stores sound.\<close>

definition input_keeps :: "refresh_input \<Rightarrow> bool" where
  "input_keeps inp \<longleftrightarrow> (\<forall>ob \<in> set (ri_batches inp). others_keep sound_store (obs_others ob)) \<and>
     (\<forall>kis w. sound_store w \<longrightarrow> sound_store (snd (ri_spent_query inp kis w)))"

lemma finish_sound:
  assumes "input_keeps inp" and "sound_store w" and "scan_ready (ls_scan ls)"
  shows "sound_store (snd (finish_refresh cr ctx inp o1 ls w))"
proof -
  obtain r w1 where c: "commit_refresh_checkpoint (rc_id ctx) (rc_daemon_height ctx) (ls_scan ls) w = (r, w1)" by force
  have w1: "sound_store w1" using commit_checkpoint_sound [OF assms(2,3)] c by (metis snd_conv)
  have "sound_store (snd (revalidate_after_refresh cr (rc_id ctx) (ri_spent_query inp) (rc_daemon_height ctx) w1))"
    by (rule revalidate_sound [OF _ w1]) (use assms(1) in \<open>simp add: input_keeps_def\<close>)
  then show ?thesis using w1 by (simp add: finish_refresh_def c Let_def split: outcome.split sum.split)
qed

lemma return_error_sound: "sound_store w \<Longrightarrow> sound_store (snd (return_error code m w))"
  by (simp add: return_error_def)

lemma rewind_ready:
  assumes "scan_ready s" and "rewind_working_state_to_height r t s = (h, s1)"
  shows "scan_ready (s1\<lparr>ss_height := x\<rparr>)"
proof -
  have "s1 = snd (rewind_working_state_to_height r t s)" using assms(2) by simp
  then show ?thesis using assms(1) rewind_coherent [of r t s]
    by (simp add: scan_ready_def rewind_outputs rewind_timestamps o_def distinct_map_filter hm_wf_retain
        window_coherent_def image_image)
qed

lemma resume_sound:
  assumes "resume_probe ctx p ls w = (r, w')" and "sound_store w" and "scan_ready (ls_scan ls)"
  shows "sound_store w' \<and> (\<forall>ls'. r = Value (SR_Continue ls') \<or> r = Value (SR_Stop ls') \<longrightarrow> scan_ready (ls_scan ls'))"
proof -
  let ?s = "ls_scan ls"
  let ?start = "recent_block_hashes_start_height ?s" and ?hs = "recent_block_hashes ?s"
  have trivial: ?thesis if "resume_probe ctx p ls w = (Value (SR_Continue ls), w)"
    using that assms by auto
  have failed: ?thesis if "resume_probe ctx p ls w = return_error code m w" for code m
    using that assms by (auto simp: return_error_def)
  show ?thesis
  proof (cases "should_probe_reorg_on_resume (length ?hs)")
    case False
    then show ?thesis by (intro trivial) (simp add: resume_probe_def Let_def)
  next
    case yes: True
    show ?thesis
    proof (cases p)
      case (Inl code)
      then show ?thesis
        by (intro failed [of code "''wallet_refresh: failed to open transport for resume reorg probe''"])
           (simp add: resume_probe_def Let_def yes)
    next
      case (Inr g)
      show ?thesis
      proof (cases "find_reorg_rewind_height (rc_restore ctx) ?start ?hs g")
        case (Inl e)
        obtain code m where "e = (code, m)" by force
        with Inl Inr yes show ?thesis
          by (intro failed [of code "''wallet_refresh: resume reorg probe failed ('' @ m @ '')''"])
             (simp add: resume_probe_def Let_def)
      next
        case fr: (Inr q)
        let ?d = "decide_resume_reorg_action (max (ss_height ?s) (sat_add ?start (length ?hs))) (Inr q)"
        have eq: "resume_probe ctx p ls w =
            (case ?d of Inr (RR_Rewind target) \<Rightarrow>
               (let (h, s1) = rewind_working_state_to_height (rc_restore ctx) target ?s in
                commit_then ctx (ls\<lparr>ls_scan := s1\<lparr>ss_height := min (ss_height ?s) h\<rparr>\<rparr>) w)
             | _ \<Rightarrow> (Value (SR_Continue ls), w))"
          using yes Inr fr by (simp add: resume_probe_def Let_def)
        show ?thesis
        proof (cases "\<exists>target. ?d = Inr (RR_Rewind target)")
          case True
          then obtain target where d: "?d = Inr (RR_Rewind target)" by blast
          obtain h s1 where rw: "rewind_working_state_to_height (rc_restore ctx) target ?s = (h, s1)" by force
          let ?ls = "ls\<lparr>ls_scan := s1\<lparr>ss_height := min (ss_height ?s) h\<rparr>\<rparr>"
          have c: "commit_then ctx ?ls w = (r, w')" using assms(1) unfolding eq by (simp add: d rw)
          have ready: "scan_ready (ls_scan ?ls)" using rewind_ready [OF assms(3) rw] by simp
          from c have "\<forall>ls'. r = Value (SR_Continue ls') \<or> r = Value (SR_Stop ls') \<longrightarrow> ls' = ?ls"
            by (cases rule: commit_then_cases) simp_all
          with commit_keeps_sound [OF c assms(2) ready] ready show ?thesis by blast
        next
          case False
          then show ?thesis
            by (intro trivial) (auto simp: eq split: sum.split resume_reorg_action.split)
        qed
      qed
    qed
  qed
qed

lemma run_sound:
  assumes "run_refresh cr ctx inp o1 ls w = Some (r, w')" and "sound_store w" and "scan_ready (ls_scan ls)"
    and "input_keeps inp"
  shows "sound_store w'"
proof (cases "ss_height (ls_scan ls) < rc_daemon_height ctx")
  case False
  then show ?thesis using assms(1) finish_sound [OF assms(4,2,3)]
    by (auto simp: run_refresh_def) (metis snd_conv)
next
  case True
  obtain q w1 where q: "resume_probe ctx (ri_resume_probe inp) ls w = (q, w1)" by force
  note rs = resume_sound [OF q assms(2,3)]
  note run = assms(1) [unfolded run_refresh_def if_P [OF True] q]
  show ?thesis
  proof (cases "\<exists>ls1. q = Value (SR_Continue ls1)")
    case False
    then show ?thesis using run rs True finish_sound [OF assms(4)]
      by (auto split: outcome.splits step_result.splits) (metis snd_conv)
  next
    case True
    then obtain ls1 where ls1: "q = Value (SR_Continue ls1)" by blast
    with rs have w1: "sound_store w1" "scan_ready (ls_scan ls1)" by simp_all
    show ?thesis
    proof (cases "refresh_loop ctx (ri_batches inp) ls1 w1")
      case None
      then show ?thesis using run ls1 \<open>ss_height (ls_scan ls) < rc_daemon_height ctx\<close> by simp
    next
      case (Some p)
      obtain r2 w2 where p: "p = (r2, w2)" by force
      have ls2: "sound_store w2 \<and> (\<forall>ls'. r2 = Value (SR_Continue ls') \<or> r2 = Value (SR_Stop ls') \<longrightarrow> scan_ready (ls_scan ls'))"
        by (rule refresh_loop_sound [OF Some [unfolded p] w1(1) _ w1(2)]) (use assms(4) in \<open>simp add: input_keeps_def\<close>)
      then show ?thesis
        using run ls1 Some p \<open>ss_height (ls_scan ls) < rc_daemon_height ctx\<close> finish_sound [OF assms(4)]
        by (auto split: outcome.splits step_result.splits) (metis snd_conv)+
    qed
  qed
qed


lemma refresh_opened_sound:
  assumes "refresh_opened cr inp o1 i st w = Some (r, w')" and "sound_store w" and "wallet_sound st"
    and "input_keeps inp"
  shows "sound_store w'"
proof -
  have e: "sound_store (snd (err None e w))" for e using assms(2) by (simp add: err_def)
  have run: "sound_store w'" if "run_refresh cr ctx inp o1 ls (update_scan_progress_in i a b c d w) = Some (r, w')"
    "ls_scan ls = initial_scan_state t st" for ctx ls a b c d t
    by (rule run_sound [OF that(1) progress_in_sound [OF assms(2)] _ assms(4)])
       (simp add: that(2) initial_ready [OF assms(3)])
  show ?thesis
    using assms(1) unfolding refresh_opened_def Let_def
    by (auto split: option.splits sum.splits if_splits prod.splits dest!: run)
       (use e in \<open>metis snd_conv\<close>)+
qed

lemma refresh_impl_sound:
  assumes "wallet_refresh_impl cr inp p o1 w = Some (r, w')" and "sound_store w" and "input_keeps inp"
  shows "sound_store w'"
proof -
  have e: "sound_store (snd (err None e (clear_last_error w)))" for e using assms(2) by (simp add: err_def)
  have opened: "sound_store w'" if "refresh_opened cr inp o1 i st (clear_last_error w) = Some (r, w')"
    "map_of (wd_store w) i = Some st" for i st
    using refresh_opened_sound [OF that(1) _ store_all_get [OF assms(2) that(2)] assms(3)] assms(2) by simp
  show ?thesis
    using assms(1,2) unfolding wallet_refresh_impl_def Let_def
    by (auto split: option.splits sum.splits if_splits dest: opened) (use e in \<open>metis snd_conv\<close>)+
qed

lemma refresh_caught_sound:
  assumes "wallet_refresh_caught cr inp p o1 w = Some (r, w')" and "sound_store w" and "input_keeps inp"
  shows "sound_store w'"
proof -
  from assms(1) obtain q w1 where q: "wallet_refresh_impl cr inp p o1 w = Some (q, w1)"
    "guard ''wallet_refresh'' (- 19, None) (\<lambda>_. (q, w1)) w = (r, w')"
    by (auto simp: wallet_refresh_caught_def)
  have "sound_store w1" by (rule refresh_impl_sound [OF q(1) assms(2,3)])
  with q(2) show ?thesis by (auto simp: guard_def split: outcome.splits)
qed

lemma job_simps [simp]:
  "wd_store (set_refresh_job i j w) = wd_store w" "wd_store (finish_refresh_job i rc w) = wd_store w"
  "wd_store_poisoned (finish_refresh_job i rc w) = wd_store_poisoned w"
  by (simp_all add: set_refresh_job_def finish_refresh_job_def)

lemma refresh_ffi_sound:
  assumes "wallet_refresh_ffi_impl cr inp p o1 w = Some (r, w')" and "sound_store w" and "input_keeps inp"
  shows "sound_store w'"
proof (cases "refresh_id p")
  case None
  then show ?thesis using assms refresh_caught_sound by (auto simp: wallet_refresh_ffi_impl_def)
next
  case (Some i)
  obtain ok w1 where s: "try_start_refresh_job i w = (ok, w1)" by force
  have w1: "sound_store w1" using try_start_spec [OF s] assms(2) store_all_cong [of w1 w] by simp
  show ?thesis
  proof (cases ok)
    case False
    then show ?thesis using assms(1) Some s w1 by (auto simp: wallet_refresh_ffi_impl_def)
  next
    case True
    then obtain rc out w2 where c: "wallet_refresh_caught cr inp p o1 (set_refresh_cancel_for_wallet i False w1) = Some ((rc, out), w2)"
      "w' = finish_refresh_job i rc w2"
      using assms(1) Some s by (auto simp: wallet_refresh_ffi_impl_def split: option.splits)
    have "sound_store w2" by (rule refresh_caught_sound [OF c(1) _ assms(3)]) (simp add: w1)
    then show ?thesis using store_all_cong [of w' w2] c(2) by simp
  qed
qed

section \<open>Exclusion\<close>

text \<open>A second refresh of the same wallet is refused and changes only the last-error slots.\<close>

lemma refresh_refused:
  assumes "refresh_id p = Some i" and "job_running i w"
  shows "wallet_refresh_ffi_impl cr inp p o1 w =
     Some ((- 31, None), set_last_error (''wallet_refresh: refresh already running for wallet '' @ quote i) w)"
  using assms by (simp add: wallet_refresh_ffi_impl_def try_start_refresh_job_def)

lemma refresh_released:
  assumes "wallet_refresh_ffi_impl cr inp p o1 w = Some ((rc, out), w')" and "refresh_id p = Some i"
    and "\<not> job_running i w" and "\<not> wd_jobs_poisoned w'" and "\<not> wd_jobs_poisoned w"
  shows "\<not> job_running i w'"
proof -
  obtain w1 where s: "try_start_refresh_job i w = (True, w1)"
    using assms(3,5) by (simp add: try_start_refresh_job_def)
  then obtain w2 where "w' = finish_refresh_job i rc w2"
    using assms(1,2) by (auto simp: wallet_refresh_ffi_impl_def split: option.splits)
  moreover have "wd_jobs_poisoned (finish_refresh_job i rc w2) = wd_jobs_poisoned w2" for w2
    by (simp add: finish_refresh_job_def set_refresh_job_def)
  ultimately show ?thesis using assms(4) finish_not_running by auto
qed

lemma async_claims:
  assumes "wallet_refresh_async_ffi_impl p u w = (Value 0, w')"
  shows "\<exists>i. refresh_id p = Some i \<and> \<not> job_running i w \<and> job_running i w' \<and>
    \<not> fst (refresh_cancelled_for_wallet i w')"
  using assms
  by (auto simp: wallet_refresh_async_ffi_impl_def Let_def id_arg_def refresh_id_def opt_filter_def record_error_def
      job_running_def try_start_refresh_job_def refresh_cancelled_for_wallet_def refresh_cancel_flag_for_wallet_def
      set_refresh_cancel_for_wallet_def hm_get_or_def clear_last_error_def
      split: sum.splits cptr.splits option.splits if_splits prod.splits)

section \<open>Reachable stores, refreshes included\<close>

inductive service_step :: "crypto \<Rightarrow> world \<Rightarrow> world \<Rightarrow> bool" for cr where
  svc_call: "api_step cr wallet_sound w w' \<Longrightarrow> service_step cr w w'"
| svc_refresh: "input_keeps inp \<Longrightarrow> wallet_refresh_ffi_impl cr inp p o1 w = Some (r, w') \<Longrightarrow> service_step cr w w'"
| svc_async: "service_step cr w (snd (wallet_refresh_async_ffi_impl p u w))"
| svc_worker: "input_keeps inp \<Longrightarrow> refresh_worker cr inp i w = Some w' \<Longrightarrow> service_step cr w w'"
| svc_cancel: "service_step cr w (snd (wallet_refresh_cancel_ffi_impl p w))"

inductive_cases service_stepE: "service_step cr w w'"

lemma async_store: "wd_store (snd (wallet_refresh_async_ffi_impl p u w)) = wd_store w"
  by (auto simp: wallet_refresh_async_ffi_impl_def Let_def record_error_def try_start_refresh_job_def
      split: sum.split prod.split cptr.split)

lemma cancel_store: "wd_store (snd (wallet_refresh_cancel_ffi_impl p w)) = wd_store w"
  by (auto simp: wallet_refresh_cancel_ffi_impl_def Let_def err_def split: sum.split)

lemma service_step_sound: "service_step cr w w' \<Longrightarrow> sound_store w \<Longrightarrow> sound_store w'"
proof (induction rule: service_step.induct)
  case (svc_call w w')
  then show ?case by (rule inv_sound.step_keeps)
next
  case (svc_refresh inp p o1 w r w')
  then show ?case using refresh_ffi_sound by blast
next
  case (svc_async w p u)
  then show ?case using store_all_cong [OF async_store] by blast
next
  case (svc_worker inp i w w')
  then obtain rc out w1 where c: "wallet_refresh_caught cr inp (CStr i) True w = Some ((rc, out), w1)"
    "w' = finish_refresh_job i rc w1" by (auto simp: refresh_worker_def split: option.splits)
  from refresh_caught_sound [OF c(1)] svc_worker c(2) store_all_cong [of w' w1] show ?case by simp
next
  case (svc_cancel w p)
  then show ?case using store_all_cong [OF cancel_store] by blast
qed

lemma service_reachable_sound: "(service_step cr)\<^sup>*\<^sup>* w w' \<Longrightarrow> sound_store w \<Longrightarrow> sound_store w'"
  by (induction rule: rtranclp_induct) (auto intro: service_step_sound)

end
