(* ===== verification/Cache_Api.thy ===== *)
theory Cache_Api
  imports Api_Invariants
begin

text \<open>
  Cache import and export (\<open>ffi/cache.rs\<close>). The wire format is bincode's: encoder, decoder and
  size are the fields of the parameter \<open>codec\<close>; what the code relies on is stated by
  \<open>codec_ok\<close> (documented behaviour of bincode with fixed-width integers).
\<close>

record codec =
  bc_size :: "persisted_wallet \<Rightarrow> nat option"
  bc_encode :: "persisted_wallet \<Rightarrow> string + bytes"
  bc_decode :: "bytes \<Rightarrow> string + persisted_wallet"

definition MAX_CACHE_BYTES :: nat where
  "MAX_CACHE_BYTES = 134217728"

definition u32_from_le :: "bytes \<Rightarrow> u32" where
  "u32_from_le bs = foldr (\<lambda>b n. unat b + 256 * n) bs 0"

definition cache_version_of :: "bytes \<Rightarrow> u32 option" where
  "cache_version_of data = (if length data < 4 then None else Some (u32_from_le (take 4 data)))"

definition codec_ok :: "codec \<Rightarrow> bool" where
  "codec_ok c \<longleftrightarrow> (\<forall>p. pw_cache_version p \<le> u32_max \<longrightarrow>
     (\<exists>bs. bc_encode c p = Inr bs \<and> bc_size c p = Some (length bs) \<and>
        cache_version_of bs = Some (pw_cache_version p) \<and>
        (length bs \<le> MAX_CACHE_BYTES \<longrightarrow> bc_decode c bs = Inr p)))"

section \<open>Import\<close>

definition has_duplicate_keys :: "hash32 list \<Rightarrow> bool" where
  "has_duplicate_keys ks =
     snd (foldl (\<lambda>(seen, dup) k. if dup then (seen, dup)
                                  else if k \<in> set seen then (seen, True) else (hs_insert k seen, False))
            ([], False) ks)"

text \<open>The state change under the lock: guards, snapshot, coverage, pending rescan, ledger and
  balances.\<close>

definition import_wallet ::
    "crypto \<Rightarrow> persisted_wallet \<Rightarrow> stored_wallet \<Rightarrow> (int \<times> string) + stored_wallet" where
  "import_wallet cr persisted st =
     (if 100000 < pw_gap_limit persisted \<or>
         list_ex (\<lambda>o1. 100000 < po_subaddress_minor o1) (pw_tracked_outputs persisted)
      then Inl (-16, ''wallet_import_cache: invalid scan coverage'')
      else (case cache_identity_matches cr persisted st of
        Inl message \<Rightarrow> Inl (-16, message)
      | Inr _ \<Rightarrow>
          let previous_coverage = w_gap_limit st;
              st1 = opt_get_or st (apply_to_state persisted st);
              coverage = max (foldl max 0 (map subaddress_minor (tracked_outputs st1))) previous_coverage;
              st2 = expand_scan_coverage coverage st1;
              st3 = (if wk_master (w_keys st2) \<noteq> None then snd (apply_pending_spend_rescan st2) else st2) in
          Inr (refresh_balances (rebuild_wallet_ledger (known_transaction_fees (w_tx_ledger st3)) st3))))"

definition debug_opt_u32 :: "u32 option \<Rightarrow> string" where
  "debug_opt_u32 v = (case v of None \<Rightarrow> ''None'' | Some n \<Rightarrow> ''Some('' @ show_nat n @ '')'')"

text \<open>\<open>cache\<close> is the buffer, \<open>None\<close> for a null pointer; its length is \<open>cache_len\<close>.\<close>

definition wallet_import_cache_ffi_impl ::
    "crypto \<Rightarrow> codec \<Rightarrow> cptr \<Rightarrow> bytes option \<Rightarrow> (int \<times> unit) call" where
  "wallet_import_cache_ffi_impl cr c wallet_id cache w0 =
     (let w = clear_last_error w0; nm = ''wallet_import_cache'' in
      case cache of
        None \<Rightarrow> err () (-11, ''wallet_import_cache: invalid arguments'') w
      | Some data \<Rightarrow>
          if wallet_id = CNull \<or> length data = 0
          then err () (-11, ''wallet_import_cache: invalid arguments'') w
          else if MAX_CACHE_BYTES < length data
          then err () (-16, ''wallet_import_cache: cache exceeds 128 MiB limit'') w
          else (case id_arg (-11, []) (-10, ''wallet_import_cache: invalid wallet_id utf8'') wallet_id of
            Inl e \<Rightarrow> err () e w
          | Inr i \<Rightarrow>
              if cache_version_of data \<noteq> Some WALLETCORE_CACHE_VERSION
              then err () (-16, ''wallet_import_cache: incompatible cache version (have '' @
                     debug_opt_u32 (cache_version_of data) @ '', want '' @
                     show_nat WALLETCORE_CACHE_VERSION @ ''); rescan required'') w
              else (case bc_decode c data of
                Inl e \<Rightarrow> err () (-16, ''wallet_import_cache: deserialize failed ('' @ e @ '')'') w
              | Inr persisted \<Rightarrow>
                  if pw_cache_version persisted \<noteq> WALLETCORE_CACHE_VERSION
                  then err () (-16, ''wallet_import_cache: incompatible cache version (have '' @
                         show_nat (pw_cache_version persisted) @ '', want '' @
                         show_nat WALLETCORE_CACHE_VERSION @ '')'') w
                  else if has_duplicate_keys (map po_public_key (pw_tracked_outputs persisted))
                  then err () (-16, ''wallet_import_cache: duplicate owned output key; rescan required'') w
                  else
                    or_else (busy nm ''already'' i)
                      (with_refresh_stopped i
                        (on_wallet i (err () (not_opened nm i))
                          (\<lambda>st w. case import_wallet cr persisted st of
                             Inl e \<Rightarrow> err () e w
                           | Inr st' \<Rightarrow> (Value (0, ()), clear_last_error (put_wallet i st' w)))))
                      w)))"

section \<open>Export\<close>

text \<open>The result: the code, the bytes copied to the buffer if any, and the count written through
  \<open>out_written\<close> if the call writes it. \<open>out_buf_len\<close> is \<open>None\<close> for a null buffer of length
  zero; \<open>null_with_length\<close> is the refused combination of a null buffer and a length.\<close>

definition wallet_export_cache_ffi_impl ::
    "crypto \<Rightarrow> codec \<Rightarrow> cptr \<Rightarrow> bool \<Rightarrow> usize option \<Rightarrow> (int \<times> bytes option \<times> usize option) call" where
  "wallet_export_cache_ffi_impl cr c wallet_id null_with_length out_buf_len w0 =
     (let w = clear_last_error w0; nm = ''wallet_export_cache'' in
      if wallet_id = CNull then err (None, Some 0) (-11, ''wallet_export_cache: invalid wallet_id'') w
      else if null_with_length
      then err (None, Some 0) (-11, ''wallet_export_cache: null output buffer with non-zero length'') w
      else (case id_arg (-11, []) (-10, ''wallet_export_cache: invalid wallet_id utf8'') wallet_id of
        Inl e \<Rightarrow> err (None, None) e w
      | Inr i \<Rightarrow>
          on_wallet i (err (None, None) (not_opened nm i))
            (\<lambda>st w.
               let persisted = persist_wallet cr st in
               case opt_filter (\<lambda>n. n \<le> MAX_CACHE_BYTES) (bc_size c persisted) of
                 None \<Rightarrow> err (None, None) (-16, ''wallet_export_cache: cache exceeds 128 MiB limit'') w
               | Some required \<Rightarrow>
                   if (case out_buf_len of None \<Rightarrow> True | Some n \<Rightarrow> n < required)
                   then (Value (-12, None, Some required), w)
                   else (case bc_encode c persisted of
                     Inl e \<Rightarrow> err (None, None) (-16, ''wallet_export_cache: serialize failed ('' @ e @ '')'') w
                   | Inr bytes \<Rightarrow> (Value (0, Some bytes, Some (length bytes)), clear_last_error w))) w))"

section \<open>Lemmas\<close>

lemma has_duplicate_keys_iff: "has_duplicate_keys ks \<longleftrightarrow> \<not> distinct ks"
proof -
  have "snd (foldl (\<lambda>(seen, dup) k. if dup then (seen, dup)
          else if k \<in> set seen then (seen, True) else (hs_insert k seen, False)) (s, d) ks) \<longleftrightarrow>
        d \<or> \<not> distinct ks \<or> set s \<inter> set ks \<noteq> {}" for s d
    by (induction ks arbitrary: s d) auto
  from this [of "[]" False] show ?thesis by (simp add: has_duplicate_keys_def)
qed

lemma foldl_max_ge: "a \<le> foldl max a xs \<and> (\<forall>x \<in> set xs. x \<le> foldl max a xs)" for a :: nat
proof (induction xs arbitrary: a)
  case (Cons x xs)
  from Cons.IH [of "max a x"] show ?case by auto
qed simp

lemma expand_gap: "w_gap_limit (expand_scan_coverage n st) = max n (w_gap_limit st)"
  by (simp add: expand_scan_coverage_def)

lemma expand_simps [simp]:
  "tracked_outputs (expand_scan_coverage n st) = tracked_outputs st"
  "w_keys (expand_scan_coverage n st) = w_keys st"
  "w_network (expand_scan_coverage n st) = w_network st"
  "w_restore_height (expand_scan_coverage n st) = w_restore_height st"
  "w_spend_rescan_from (expand_scan_coverage n st) = w_spend_rescan_from st"
  "seen_outpoints (expand_scan_coverage n st) = seen_outpoints st"
  by (simp_all add: expand_scan_coverage_def)

lemma apply_to_state_simps:
  assumes "apply_to_state p st = Some st1"
  shows "tracked_outputs st1 = map unpersist_output (pw_tracked_outputs p)"
    and "w_gap_limit st1 = pw_gap_limit p" and "w_keys st1 = w_keys st"
    and "w_network st1 = unpersist_network (pw_network p)"
    and "w_restore_height st1 = pw_restore_height p"
    and "w_spend_rescan_from st1 = pw_spend_rescan_from p"
    and "seen_outpoints st1 = hs_of_list (pw_seen_outpoints p)"
    and "block_timestamps st1 = pw_block_timestamps p"
    and "w_quarantine st1 = hs_of_list (pw_quarantine p)"
    and "w_last_scanned st1 = max (pw_last_scanned p) (w_restore_height st)"
  using assms by (auto simp: apply_to_state_def split: if_splits)

text \<open>An import that succeeds: the identity was checked, the coverage never shrinks and covers every
  imported output, and the balance is the one of the imported outputs.\<close>

lemma import_wallet_ok:
  assumes "import_wallet cr p st = Inr st'" and "pw_cache_version p = WALLETCORE_CACHE_VERSION"
  shows "wallet_cache_binding cr st = pw_bound_primary_address p"
    and "w_gap_limit st \<le> w_gap_limit st'" and "pw_gap_limit p \<le> w_gap_limit st'"
    and "\<forall>o1 \<in> set (pw_tracked_outputs p). po_subaddress_minor o1 \<le> w_gap_limit st'"
    and "total_exact st'" and "rows_keyed (w_tx_ledger st')"
    and "w_restore_height st' = pw_restore_height p" and "pw_restore_height p \<le> w_restore_height st"
    and "w_keys st' = w_keys st"
    and "\<not> is_sealed (w_keys st) \<Longrightarrow> w_spend_rescan_from st' = None"
proof -
  obtain st1 where st1: "apply_to_state p st = Some st1"
    using assms(2) by (simp add: apply_to_state_def)
  let ?cov = "max (foldl max 0 (map subaddress_minor (tracked_outputs st1))) (w_gap_limit st)"
  define st2 where "st2 = expand_scan_coverage ?cov st1"
  define st3 where "st3 = (if wk_master (w_keys st2) \<noteq> None then snd (apply_pending_spend_rescan st2) else st2)"
  have ok: "cache_identity_matches cr p st = Inr ()"
    and st': "st' = refresh_balances (rebuild_wallet_ledger (known_transaction_fees (w_tx_ledger st3)) st3)"
    using assms(1) st1 by (auto simp: import_wallet_def st2_def st3_def Let_def split: if_splits sum.splits)
  from ok show "wallet_cache_binding cr st = pw_bound_primary_address p"
    "pw_restore_height p \<le> w_restore_height st"
    by (simp_all add: identity_matches_iff)
  have three: "w_gap_limit st3 = w_gap_limit st2" "w_keys st3 = w_keys st2"
    "w_restore_height st3 = w_restore_height st2"
    by (auto simp: st3_def apply_pending_spend_rescan_def split: option.splits)
  have gap: "w_gap_limit st' = max ?cov (pw_gap_limit p)"
    by (simp add: st' three st2_def expand_gap apply_to_state_simps(2) [OF st1])
  show "w_gap_limit st \<le> w_gap_limit st'" "pw_gap_limit p \<le> w_gap_limit st'" by (simp_all add: gap)
  have "foldl max 0 (map subaddress_minor (tracked_outputs st1)) \<le> w_gap_limit st'" by (simp add: gap)
  then show "\<forall>o1 \<in> set (pw_tracked_outputs p). po_subaddress_minor o1 \<le> w_gap_limit st'"
    using foldl_max_ge [of 0 "map subaddress_minor (tracked_outputs st1)"]
    by (auto simp: apply_to_state_simps(1) [OF st1] unpersist_output_def intro: order_trans)
  show "total_exact st'" by (simp add: st')
  show "rows_keyed (w_tx_ledger st')" by (simp add: st')
  show "w_restore_height st' = pw_restore_height p"
    by (simp add: st' three st2_def apply_to_state_simps(5) [OF st1])
  show "w_keys st' = w_keys st" by (simp add: st' three st2_def apply_to_state_simps(3) [OF st1])
  show "w_spend_rescan_from st' = None" if "\<not> is_sealed (w_keys st)"
  proof -
    have "wk_master (w_keys st2) \<noteq> None"
      using that by (cases "w_keys st") (simp_all add: st2_def apply_to_state_simps(3) [OF st1])
    then show ?thesis
      by (simp add: st' st3_def apply_pending_spend_rescan_def split: option.split)
  qed
qed

text \<open>Export followed by import on a wallet that just reopened with the same keys.\<close>

lemma export_import:
  assumes codec: "codec_ok c" and st: "map_of (wd_store w) i = Some st" and live: "\<not> wd_store_poisoned w"
    and ex: "wallet_export_cache_ffi_impl cr c (CStr i) False (Some n) w = (Value (0, Some data, wr), w')"
    and plain: "cstr_to_str i = Some i" "trim i = i"
  shows "bc_decode c data = Inr (persist_wallet cr st)" and "length data \<le> n" and "wr = Some (length data)"
    and "cache_version_of data = Some WALLETCORE_CACHE_VERSION" and "wd_store w' = wd_store w"
    and "length data \<le> MAX_CACHE_BYTES"
proof -
  let ?p = "persist_wallet cr st"
  have "pw_cache_version ?p \<le> u32_max"
    by (simp add: persist_wallet_def WALLETCORE_CACHE_VERSION_def u32_max_def)
  then obtain bs where bs: "bc_encode c ?p = Inr bs" "bc_size c ?p = Some (length bs)"
    "cache_version_of bs = Some (pw_cache_version ?p)"
    "length bs \<le> MAX_CACHE_BYTES \<longrightarrow> bc_decode c bs = Inr ?p"
    using codec by (auto simp: codec_ok_def)
  have r: "length bs \<le> MAX_CACHE_BYTES \<and> length bs \<le> n \<and> data = bs \<and> wr = Some (length bs) \<and>
      wd_store w' = wd_store w"
    using ex st live plain bs(1,2)
    by (auto simp: wallet_export_cache_ffi_impl_def Let_def id_arg_def on_wallet_def lock_store_def err_def
        split: if_splits)
  then show "length data \<le> n" "wr = Some (length data)" "wd_store w' = wd_store w"
    "length data \<le> MAX_CACHE_BYTES" by simp_all
  from r bs show "bc_decode c data = Inr ?p" by simp
  from r bs show "cache_version_of data = Some WALLETCORE_CACHE_VERSION"
    by (simp add: persist_wallet_def)
qed

end
