(* ===== verification/Examples.thy ===== *)
theory Examples
  imports Refresh_Api Cache_Api History
begin

text \<open>
  Concrete values for the instances that show the properties of the root theory can be applied: a
  key interface, a wallet with one output, a block that spends it and pays the wallet, a refresh
  with its daemon answers.
\<close>

section \<open>Bytes and keys\<close>

definition hx :: "nat \<Rightarrow> hash32" where
  "hx n = replicate 32 (word_of_nat n)"

definition ex_crypto :: crypto where
  "ex_crypto = \<lparr>cr_canonical = Some, cr_hash_scalar = (\<lambda>b. b), cr_to_dalek = (\<lambda>b. b),
     cr_scalar_bytes = (\<lambda>b. b), cr_mul_base = (\<lambda>b. 1 # b), cr_mul = (\<lambda>a b. a @ b),
     cr_add = (\<lambda>a b. a @ b), cr_view_pair_ok = (\<lambda>a b. True), cr_seed = (\<lambda>s. Some (hx 1)),
     cr_address = (\<lambda>net sub a b. ''A'' @ hex_lowercase (take 4 a))\<rparr>"

definition ex_keys :: "nat \<Rightarrow> master_keys" where
  "ex_keys n = \<lparr>mk_entropy = hx n, mk_spend_scalar = hx n, mk_view_scalar_dalek = hx n, mk_view_scalar_ed = hx n\<rparr>"

definition ex_ki :: ki_ops where
  "ex_ki = \<lparr>ko_canonical = Some, ko_zero = [], ko_add = (\<lambda>a b. a @ b), ko_biased_hash = (\<lambda>b. b),
     ko_decompress = Some, ko_identity = [], ko_mul = (\<lambda>hp x. hp), ko_compress = (\<lambda>p. 1 # p)\<rparr>"

lemma ex_ki_sound: "images_sound ex_ki"
  by (simp add: images_sound_def derive_key_image_bytes_def ex_ki_def zero_image_def Let_def numeral_eq_Suc)

section \<open>A wallet\<close>

definition ex_out :: "nat \<Rightarrow> u64 \<Rightarrow> u64 \<Rightarrow> tracked_output" where
  "ex_out n amt h = \<lparr>tx_hash = hx n, index_in_tx = 0, public_key = hx n, key_image = 1 # hx n, amount = amt,
     block_height = h, additional_timelock = TL_None, is_coinbase = False, subaddress_major = 0,
     subaddress_minor = 0, spent = False, spending_txid = None, spending_height = None\<rparr>"

definition ex_wallet :: stored_wallet where
  "ex_wallet = (new_wallet (ex_keys 1) 0 Mainnet)\<lparr>tracked_outputs := [ex_out 5 100 10],
     seen_outpoints := [(hx 5, 0)], w_last_scanned := 20, w_chain_height := 30, w_total := 100, w_unlocked := 100\<rparr>"

lemma ex_wallet_sound: "wallet_sound ex_wallet"
  by (simp add: wallet_sound_def ids_distinct_def wallet_unfold ex_wallet_def new_wallet_def unspent_amounts_def
      outpoint_of_def ex_out_def sat_sum_eq u64_max_def)

definition ex_world :: world where
  "ex_world = \<lparr>wd_store = [(''w'', ex_wallet)], wd_store_poisoned = False, wd_jobs = [], wd_jobs_poisoned = False,
     wd_cancel = [], wd_last_error = None, wd_thread_error = None, wd_next_revision = 1\<rparr>"

definition empty_world :: world where
  "empty_world = ex_world\<lparr>wd_store := []\<rparr>"

section \<open>A block\<close>

definition ex_block :: scannable_block where
  "ex_block = \<lparr>sb_hash = hx 90, sb_previous = hx 89, sb_timestamp = 1000, sb_miner = TxV2 [TxGen 20] None,
     sb_miner_hash = hx 70, sb_tx_hashes = [hx 6], sb_txs = [TxV2 [TxToKey None (1 # hx 5)] (Some 3)]\<rparr>"

definition ex_new_out :: wallet_output where
  "ex_new_out = \<lparr>wo_transaction = hx 6, wo_index = 1, wo_key = hx 8, wo_key_offset = hx 0, wo_amount = 40,
     wo_timelock = TL_None, wo_subaddress = None\<rparr>"

lemma ex_new_out_simps [simp]: "wo_transaction ex_new_out = hx 6" "wo_index ex_new_out = 1" "wo_key ex_new_out = hx 8"
  by (simp_all add: ex_new_out_def)

definition ex_scanner :: "scannable_block \<Rightarrow> string + wallet_output list" where
  "ex_scanner b = Inr [ex_new_out]"

definition ex_scan :: scan_state where
  "ex_scan = claim_keys (initial_scan_state 0 ex_wallet)"

definition ex_step :: "master_keys option \<Rightarrow> string + scan_state" where
  "ex_step m = scan_block ex_ki 0 m [] ex_scanner ex_block ex_scan"

definition is_ok :: "'e + 'a \<Rightarrow> bool" where
  "is_ok r = (case r of Inl e \<Rightarrow> False | Inr x \<Rightarrow> True)"

lemma is_ok_ex: "is_ok r \<Longrightarrow> \<exists>x. r = Inr x"
  by (auto simp: is_ok_def split: sum.splits)

lemma hx_eq [simp]: "n < 256 \<Longrightarrow> m < 256 \<Longrightarrow> hx n = hx m \<longleftrightarrow> n = m"
  by (simp add: hx_def word_of_nat_eq_iff take_bit_nat_eq_self)

lemma hx_nonzero [simp]: "hx n \<noteq> zero_image \<longleftrightarrow> n mod 256 \<noteq> 0"
  by (simp add: hx_def zero_image_def word_of_nat_eq_0_iff dvd_eq_mod_eq_0)

text \<open>A block whose only scanned output is new is accepted.\<close>

lemma scan_new_output_ok:
  assumes "sc b = Inr [out]" and "(wo_transaction out, wo_index out) \<notin> set (seen_outpoints s)"
    and "ss_height s \<notin> set rh"
  shows "is_ok (scan_block ko restore m rh sc b s)"
  using assms
  by (auto simp: is_ok_def scan_block_def Let_def apply_output_def accept_owned_output_def case_prod_beta
      split: sum.split)

lemma ex_step_ok: "is_ok (ex_step m)"
  unfolding ex_step_def
  by (rule scan_new_output_ok [where out = ex_new_out])
     (simp_all add: ex_scanner_def ex_scan_def claim_keys_def initial_scan_state_def ex_wallet_def)

lemma ex_scan_wf: "scan_wf ex_scan"
  unfolding ex_scan_def by (rule claim_keys_wf [OF initial_ready [OF ex_wallet_sound]])

lemma ex_scan_simps: "tracked_outputs ex_scan = [ex_out 5 100 10]" "ss_height ex_scan = 20" "ss_marker ex_scan = None"
  by (simp_all add: ex_scan_def initial_scan_state_def ex_wallet_def new_wallet_def claim_keys_def)

section \<open>A refresh\<close>

definition ex_chain :: "u64 \<Rightarrow> scannable_block" where
  "ex_chain h = ex_block\<lparr>sb_hash := hx (h + 1), sb_previous := hx h, sb_tx_hashes := [], sb_txs := []\<rparr>"

definition ex_ctx :: refresh_ctx where
  "ex_ctx = \<lparr>rc_id = ''w'', rc_restore = 0, rc_daemon_height = 22, rc_batch = 1, rc_master = None, rc_ko = ex_ki,
     rc_scanner = (\<lambda>b. Inr []), rc_replay = []\<rparr>"

definition ex_obs :: "fetch_answer \<Rightarrow> batch_obs" where
  "ex_obs a = \<lparr>bo_before = (\<lambda>w. w), bo_fetch = a, bo_range = Inl [], bo_one_by_one = Inl [], bo_probe = Inl 0,
     bo_during = []\<rparr>"

definition ex_loop :: loop_state where
  "ex_loop = \<lparr>ls_scan = initial_scan_state 0 ex_wallet, ls_fetch_retries = 0, ls_probe_failures = 0,
     ls_mode = RangeBlocks\<rparr>"

lemma ex_obs_quiet: "others_quiet (obs_others (ex_obs a))"
  by (simp add: others_quiet_def obs_others_def ex_obs_def)

lemma ex_obs_keep: "others_keep P (obs_others (ex_obs a))"
  by (simp add: others_keep_def obs_others_def ex_obs_def)


definition ex_batches :: "batch_obs list" where
  "ex_batches = [ex_obs (FA_Blocks [ex_chain 20]), ex_obs (FA_Blocks [ex_chain 21])]"

lemma ex_chain_linked: "chain_linked ex_chain"
  by (simp add: chain_linked_def ex_chain_def)

lemma ex_scans_ok: "scans_ok ex_ctx chain"
  by (auto simp: scans_ok_def ex_ctx_def scan_block_def Let_def split: prod.split)

lemma ex_ctx_simps [simp]:
  "rc_id ex_ctx = ''w''" "rc_restore ex_ctx = 0" "rc_daemon_height ex_ctx = 22" "rc_batch ex_ctx = 1"
  by (simp_all add: ex_ctx_def)

lemma ex_loop_simps: "ss_height (ls_scan ex_loop) = 20" "scan_ready (ls_scan ex_loop)"
  by (simp_all add: ex_loop_def initial_ready [OF ex_wallet_sound])
     (simp add: initial_scan_state_def ex_wallet_def new_wallet_def)

lemma ex_on_chain: "on_chain chain 0 (ls_scan ex_loop)"
  by (simp add: on_chain_def ex_loop_def initial_scan_state_def ex_wallet_def new_wallet_def window_ok_def
      recent_hash_at_def RECENT_BLOCK_HASHES_MAX_def u64_max_def)

lemma ex_live: "live ''w'' ex_world"
  by (simp add: live_def ex_world_def hm_get_or_def)

lemma ex_honest: "honest_run ex_ctx ex_chain 20 ex_batches"
  by (simp add: ex_batches_def ex_obs_keep batch_end_def sat_add_def u64_max_def)
     (simp add: ex_obs_def)

lemma ex_batches_quiet: "\<forall>ob \<in> set ex_batches. others_quiet (obs_others ob)"
  by (simp add: ex_batches_def ex_obs_quiet)

lemma ex_run:
  "\<exists>ls' w'. refresh_loop ex_ctx ex_batches ex_loop ex_world = Some (Value (SR_Stop ls'), w') \<and>
     ss_height (ls_scan ls') = 22"
  using honest_loop [of ex_chain ex_ctx ex_loop ex_batches ex_world] ex_chain_linked ex_scans_ok ex_honest
    ex_on_chain ex_live by (auto simp: ex_loop_simps u64_max_def)


text \<open>A turn that meets a time-out keeps the state and counts one retry.\<close>

lemma ex_timeout_retry: "maybe_retry_block_fetch ''timeout'' 0 = Some 1"
  by (simp add: maybe_retry_block_fetch_def is_transient_block_fetch_error_def to_ascii_lowercase_def lower_char_def
      code_of_def BLOCK_FETCH_RETRY_LIMIT_def Let_def)

lemma ex_timeout_fallback: "try_json_batch_error_fallback m ''timeout'' r q = None"
  by (simp add: try_json_batch_error_fallback_def is_json_batch_or_shape_error_def to_ascii_lowercase_def
      lower_char_def code_of_def Let_def)

lemma ex_timeout_turn:
  "refresh_step ex_ctx (ex_obs (FA_Error ''timeout'')) ex_loop ex_world =
     (Value (SR_Continue (ex_loop\<lparr>ls_fetch_retries := 1\<rparr>)), ex_world\<lparr>wd_cancel := [(''w'', False)]\<rparr>)"
proof -
  have c: "refresh_cancelled_for_wallet ''w'' ex_world = (False, ex_world\<lparr>wd_cancel := [(''w'', False)]\<rparr>)"
    by (simp add: refresh_cancelled_for_wallet_def refresh_cancel_flag_for_wallet_def ex_world_def hm_get_or_def
        hm_or_insert_def hm_insert_def)
  have f: "fetch_batch (ex_obs (FA_Error ''timeout'')) a b ex_loop = FR_Retry (ex_loop\<lparr>ls_fetch_retries := 1\<rparr>)" for a b
    using ex_timeout_retry
    by (simp add: fetch_batch_def ex_obs_def ex_timeout_fallback retry_or_fail_def ex_loop_def)
  have b: "bo_before (ex_obs a) w = w" for a w by (simp add: ex_obs_def)
  show ?thesis
    unfolding refresh_step_def Let_def b ex_ctx_simps c prod.case f
    by (simp add: ex_loop_simps sat_add_def u64_max_def)
qed


section \<open>A spend with change, and a forked window\<close>

definition ex_spent :: tracked_output where
  "ex_spent = (ex_out 5 100 10)\<lparr>spent := True, spending_txid := Some (hx 6), spending_height := Some 20\<rparr>"

definition ex_change :: tracked_output where
  "ex_change = ex_out 6 40 20"

definition ex_view :: scan_state where
  "ex_view = ex_scan\<lparr>recent_block_hashes_start_height := 10, recent_block_hashes := [hx 1, hx 2, hx 3]\<rparr>"

definition ex_remote :: "u64 \<Rightarrow> 'e + hash32" where
  "ex_remote h = Inr (if h = 10 then hx 1 else hx 99)"

lemma ex_view_window:
  "recent_block_hashes_start_height ex_view = 10" "recent_block_hashes ex_view = [hx 1, hx 2, hx 3]"
  by (simp_all add: ex_view_def)

lemma ex_view_rewound: "get_recent_block_hash (snd (rewind_working_state_to_height 0 11 ex_view)) 10 = Some (hx 1)"
  by (simp add: rewind_lookup) (simp add: get_recent_block_hash_def recent_hash_at_def ex_view_window)

lemma ex_view_probe:
  "find_reorg_rewind_height 0 (recent_block_hashes_start_height ex_view) (recent_block_hashes ex_view)
     (ex_remote :: nat \<Rightarrow> string + hash32) = Inr (Some 11)"
proof -
  have ne: "hx 99 \<noteq> hx 2" "hx 99 \<noteq> hx 3" by simp_all
  have small: "sat_add 10 n = 10 + n" "sat_add (10 + n) 1 = 11 + n" if "n < 5" for n
    using that by (simp_all add: sat_add_exact u64_max_def)
  let ?w = "reorg_walk 0 10 [hx 1, hx 2, hx 3] (ex_remote :: nat \<Rightarrow> string + hash32)"
  have "?w (Suc 0) = Inr (Some 11)"
    using small [of 0] by (simp add: ex_remote_def)
  then have "?w (Suc (Suc 0)) = Inr (Some 11)"
    using small [of 1] ne by (simp add: ex_remote_def)
  then show ?thesis
    using small [of 2] ne by (simp add: find_reorg_rewind_height_def ex_view_window ex_remote_def numeral_2_eq_2)
qed

end
