(* ===== verification/Lifecycle.thy ===== *)
theory Lifecycle
  imports Cache_Api Refresh_Api
begin

text \<open>
  What the entry points guarantee when they report success, and what they leave alone when they do
  not: sealing, unsealing, closing, coverage, rescans and the cache, each as a statement about the
  whole call (arguments, waiting, locking and the state change).
\<close>

section \<open>Successful calls\<close>

lemma on_wallet_Value:
  assumes "on_wallet i missing f w = (Value r, w')"
  obtains (missing) "\<not> wd_store_poisoned w" "map_of (wd_store w) i = None" "missing w = (Value r, w')"
    | (found) st where "\<not> wd_store_poisoned w" "map_of (wd_store w) i = Some st" "f st w = (Value r, w')"
  using assms by (auto simp: on_wallet_def lock_store_def split: if_splits option.splits)

lemma or_else_ok:
  assumes "or_else e f w = (Value (0, u), w')" and "fst e \<noteq> 0"
  shows "f w = (Value (Inr (0, u)), w')"
  using assms by (auto simp: or_else_def err_def split: prod.splits outcome.splits sum.splits)

lemma error_codes [simp]:
  "fst (timed_out nm i) \<noteq> 0" "fst (busy nm wh i) \<noteq> 0" "fst (not_opened nm i) \<noteq> 0"
  by (simp_all add: timed_out_def busy_def not_opened_def)

lemma err_not_ok [simp]: "fst e \<noteq> 0 \<Longrightarrow> err out e w \<noteq> (Value (0, u), w')"
  by (simp add: err_def)

lemma id_arg_code: "id_arg a b p = Inl e \<Longrightarrow> e = a \<or> e = b"
  by (auto simp: id_arg_def split: cptr.splits option.splits)

lemma lifecycle_id_code: "lifecycle_wallet_id p nm = Inl e \<Longrightarrow> fst e \<noteq> 0"
  by (auto simp: lifecycle_wallet_id_def dest!: id_arg_code split: sum.splits if_splits)

lemma put_wallet_lookup [simp]: "map_of (wd_store (put_wallet i st w)) j = (if j = i then Some st else map_of (wd_store w) j)"
  by (simp add: put_wallet_def)

lemma put_wallet_jobs [simp]: "job_running j (put_wallet i st w) = job_running j w"
  by (simp add: put_wallet_def job_running_def)

lemma remove_wallet_lookup [simp]: "map_of (wd_store (remove_wallet i w)) i = None"
  by (simp add: remove_wallet_def)

lemma remove_wallet_jobs [simp]: "job_running j (remove_wallet i w) = job_running j w"
  by (simp add: remove_wallet_def job_running_def)

text \<open>The body of a lifecycle call that succeeded ran on an open wallet with no refresh on it.\<close>

lemma lifecycle_ok:
  assumes "or_else e (with_wallet_lifecycle_exclusion i obs (on_wallet i (err () m) f)) w = (Value (0, ()), w')"
    and "fst e \<noteq> 0" and "fst m \<noteq> 0"
  obtains w1 st where "\<not> job_running i w1" "\<not> wd_store_poisoned w1" "map_of (wd_store w1) i = Some st"
    "f st w1 = (Value (0, ()), w')"
proof -
  from lifecycle_excluded [OF or_else_ok [OF assms(1,2)]] obtain w1 where w1: "\<not> job_running i w1"
    "on_wallet i (err () m) f w1 = (Value (0, ()), w')" by blast
  from w1(2) assms(3) show thesis by (cases rule: on_wallet_Value) (auto intro: that [OF w1(1)])
qed

lemma seal_ok:
  assumes "wallet_seal_ffi_impl cr obs p t w = (Value (0, ()), w')"
  obtains i w1 st where "lifecycle_wallet_id p ''wallet_seal'' = Inr i" "\<not> job_running i w1"
    "map_of (wd_store w1) i = Some st" "w' = clear_last_error (put_wallet i (seal_wallet cr st) w1)"
proof (cases "lifecycle_wallet_id p ''wallet_seal''")
  case (Inl e)
  with assms lifecycle_id_code [OF Inl] show thesis by (simp add: wallet_seal_ffi_impl_def Let_def)
next
  case (Inr i)
  note body = assms [unfolded wallet_seal_ffi_impl_def Let_def Inr sum.case]
  from body show thesis
    by (rule lifecycle_ok) (simp_all add: that [OF Inr])
qed

lemma close_ok:
  assumes "wallet_close_ffi_impl obs p t w = (Value (0, ()), w')"
  obtains i w1 st where "lifecycle_wallet_id p ''wallet_close'' = Inr i" "\<not> job_running i w1"
    "map_of (wd_store w1) i = Some st" "w' = clear_last_error (remove_wallet i w1)"
proof (cases "lifecycle_wallet_id p ''wallet_close''")
  case (Inl e)
  with assms lifecycle_id_code [OF Inl] show thesis by (simp add: wallet_close_ffi_impl_def Let_def)
next
  case (Inr i)
  note body = assms [unfolded wallet_close_ffi_impl_def Let_def Inr sum.case]
  from body show thesis
    by (rule lifecycle_ok) (simp_all add: that [OF Inr])
qed

lemma unseal_ok:
  assumes "wallet_unseal_from_mnemonic_ffi_impl cr obs p m t w = (Value (0, ()), w')"
  obtains i keys w1 st st' where "lifecycle_wallet_id p ''wallet_unseal_from_mnemonic'' = Inr i"
    "master_keys_from_mnemonic_ptr cr m = Inr keys" "\<not> job_running i w1" "map_of (wd_store w1) i = Some st"
    "restore_spend_authority cr st keys = (Inr (), st')"
    "w' = set_refresh_cancel_for_wallet i False (clear_last_error (put_wallet i st' w1))"
proof (cases "lifecycle_wallet_id p ''wallet_unseal_from_mnemonic''")
  case (Inl e)
  with assms lifecycle_id_code [OF Inl] show thesis
    by (simp add: wallet_unseal_from_mnemonic_ffi_impl_def Let_def)
next
  case (Inr i)
  show thesis
  proof (cases "master_keys_from_mnemonic_ptr cr m")
    case (Inl code)
    have "code \<noteq> 0" using Inl
      by (auto simp: master_keys_from_mnemonic_ptr_def master_keys_from_mnemonic_str_def new_master_keys_def Let_def
          split: cptr.splits option.splits if_splits)
    with assms Inl \<open>lifecycle_wallet_id p _ = Inr i\<close> show thesis
      by (simp add: wallet_unseal_from_mnemonic_ffi_impl_def Let_def)
  next
    case keys: (Inr keys)
    let ?body = "or_else (timed_out ''wallet_unseal_from_mnemonic'' i)
                  (with_wallet_lifecycle_exclusion i (obs (lifecycle_wait_timeout t))
                    (on_wallet i (err () (not_opened ''wallet_unseal_from_mnemonic'' i))
                      (\<lambda>st w. case restore_spend_authority cr st keys of
                         (Inr _, st') \<Rightarrow> (Value (0, ()), clear_last_error (put_wallet i st' w))
                       | (Inl message, st') \<Rightarrow> err () (-16, message) (put_wallet i st' w))))
                  (set_refresh_cancel_for_wallet i True (clear_last_error w))"
    obtain w2 where w2: "?body = (Value (0, ()), w2)" "w' = set_refresh_cancel_for_wallet i False w2"
      using assms unfolding wallet_unseal_from_mnemonic_ffi_impl_def Let_def Inr keys sum.case
      by (auto split: prod.splits outcome.splits if_splits)
    from w2(1) show thesis
    proof (rule lifecycle_ok)
      fix w1 st
      assume w1: "\<not> job_running i w1" "map_of (wd_store w1) i = Some st"
        "(case restore_spend_authority cr st keys of
            (Inr _, st') \<Rightarrow> (Value (0, ()), clear_last_error (put_wallet i st' w1))
          | (Inl message, st') \<Rightarrow> err () (-16, message) (put_wallet i st' w1)) = (Value (0, ()), w2)"
      obtain r st' where r: "restore_spend_authority cr st keys = (r, st')" by force
      with w1(3) have "r = Inr ()" "w2 = clear_last_error (put_wallet i st' w1)"
        by (auto split: sum.splits)
      with r w2(2) show thesis by (intro that [OF Inr keys w1(1,2)]) simp_all
    qed simp_all
  qed
qed

text \<open>A coverage change that reports success: nothing to do, or the wallet is expanded.\<close>

lemma gap_ok:
  assumes "wallet_set_gap_limit_ffi_impl (CStr s) g w = (Value (0, ()), w')" and "cstr_to_str s = Some t"
  obtains st where "map_of (wd_store w) (trim t) = Some st" "g \<le> 100000"
    "map_of (wd_store w') (trim t) = Some (expand_scan_coverage (max g 1) st)"
    "w_gap_limit st < max g 1 \<Longrightarrow> \<not> job_running (trim t) w"
proof -
  let ?i = "trim t"
  let ?w = "clear_last_error w"
  have g: "g \<le> 100000" "\<not> wd_store_poisoned w"
    using assms by (auto simp: wallet_set_gap_limit_ffi_impl_def id_arg_def Let_def err_def split: if_splits)
  show thesis
  proof (cases "\<exists>st. map_of (wd_store w) ?i = Some st \<and> max g 1 \<le> w_gap_limit st")
    case True
    then obtain st where st: "map_of (wd_store w) ?i = Some st" "max g 1 \<le> w_gap_limit st" by blast
    with assms g have "w' = ?w" by (simp add: wallet_set_gap_limit_ffi_impl_def id_arg_def Let_def)
    moreover have "expand_scan_coverage (max g 1) st = st" using st(2) by (simp add: expand_scan_coverage_def)
    ultimately have "map_of (wd_store w') (trim t) = Some (expand_scan_coverage (max g 1) st)" using st(1) by simp
    moreover have "\<not> w_gap_limit st < max g 1" using st(2) by linarith
    ultimately show thesis by (intro that [OF st(1) g(1)]) blast+
  next
    case False
    then have no: "(case map_of (wd_store w) ?i of None \<Rightarrow> False | Some st \<Rightarrow> max g 1 \<le> w_gap_limit st) = False"
      by (auto split: option.split)
    have "or_else (busy ''wallet_set_gap_limit'' ''already'' ?i)
        (with_refresh_stopped ?i
          (on_wallet ?i (err () (not_opened ''wallet_set_gap_limit'' ?i))
            (\<lambda>st w. (Value (0, ()), clear_last_error (put_wallet ?i (expand_scan_coverage (max g 1) st) w)))))
        ?w = (Value (0, ()), w')"
      using assms g no by (simp add: wallet_set_gap_limit_ffi_impl_def id_arg_def Let_def del: One_nat_def)
    from or_else_ok [OF this] with_refresh_stopped_cases
    have stop: "\<not> job_running ?i w" and "on_wallet ?i (err () (not_opened ''wallet_set_gap_limit'' ?i))
        (\<lambda>st w. (Value (0, ()), clear_last_error (put_wallet ?i (expand_scan_coverage (max g 1) st) w))) ?w =
        (Value (0, ()), w')" by fastforce+
    from this(2) show thesis
      by (cases rule: on_wallet_Value) (use stop g in \<open>auto intro: that\<close>)
  qed
qed

section \<open>Calls while a refresh runs\<close>

lemma mutations_busy:
  assumes "cstr_to_str s = Some t" and "job_running (trim t) w"
  shows "\<exists>m. wallet_rewind_scan_cursor_to_height_ffi_impl (CStr s) h w = (Value (- 31, ()), set_last_error m (clear_last_error w))"
    and "\<exists>m. wallet_force_rescan_from_height_ffi_impl (CStr s) h w = (Value (- 31, ()), set_last_error m (clear_last_error w))"
    and "\<exists>m. wallet_reset_tracked_outputs_ffi_impl (CStr s) w = (Value (- 31, ()), set_last_error m (clear_last_error w))"
    and "\<exists>code w'. wallet_import_cache_ffi_impl cr c (CStr s) data w = (Value (code, ()), w') \<and> code \<noteq> 0 \<and>
           wd_store w' = wd_store w"
proof -
  have busy: "or_else (busy nm wh (trim t)) (with_refresh_stopped (trim t) f) (clear_last_error w) =
      (Value (- 31, ()), set_last_error (snd (busy nm wh (trim t))) (clear_last_error w))" for nm wh f
    using busy_refused [of "trim t" "clear_last_error w" "busy nm wh (trim t)" f] assms(2) by (simp add: busy_def)
  show "\<exists>m. wallet_rewind_scan_cursor_to_height_ffi_impl (CStr s) h w = (Value (- 31, ()), set_last_error m (clear_last_error w))"
    using assms(1) by (auto simp: wallet_rewind_scan_cursor_to_height_ffi_impl_def id_arg_def Let_def busy)
  show "\<exists>m. wallet_force_rescan_from_height_ffi_impl (CStr s) h w = (Value (- 31, ()), set_last_error m (clear_last_error w))"
    using assms(1) by (auto simp: wallet_force_rescan_from_height_ffi_impl_def id_arg_def Let_def busy)
  show "\<exists>m. wallet_reset_tracked_outputs_ffi_impl (CStr s) w = (Value (- 31, ()), set_last_error m (clear_last_error w))"
    using assms(1) by (auto simp: wallet_reset_tracked_outputs_ffi_impl_def id_arg_def Let_def busy)
  show "\<exists>code w'. wallet_import_cache_ffi_impl cr c (CStr s) data w = (Value (code, ()), w') \<and> code \<noteq> 0 \<and>
      wd_store w' = wd_store w"
    using assms(1) by (simp add: wallet_import_cache_ffi_impl_def id_arg_def Let_def busy err_def split: option.split sum.split)
qed

section \<open>Sealing and unsealing are inverse\<close>

lemma seal_unseal:
  assumes "w_keys st = Unsealed k" and "w_spend_rescan_from st = None"
  shows "restore_spend_authority cr (seal_wallet cr st) k = (Inr (), st)"
proof -
  have keys: "w_keys (seal_wallet cr st) = seal_keys cr (w_keys st)" "w_network (seal_wallet cr st) = w_network st"
    "w_spend_rescan_from (seal_wallet cr st) = None"
    using assms(2) by (simp_all add: seal_wallet_def)
  have "derive_address_string cr (w_keys (seal_wallet cr st)) 0 0 (w_network (seal_wallet cr st)) =
      derive_address_string cr (Unsealed k) 0 0 (w_network (seal_wallet cr st))"
    by (simp add: keys assms(1) derive_address_string_def view_keys_of_def)
  then show ?thesis
    using restore_authority_cases [of cr "seal_wallet cr st" k] assms
    by (cases "restore_spend_authority cr (seal_wallet cr st) k") (auto simp: keys seal_wallet_def)
qed

section \<open>The cache\<close>

text \<open>What export wrote, import accepts on the reopened wallet; the wallet that results carries the
  exported outputs, keys of the receiver, and at least the exported coverage.\<close>

lemma persisted_ok:
  "pw_cache_version (persist_wallet cr st) = WALLETCORE_CACHE_VERSION"
  "map po_public_key (pw_tracked_outputs (persist_wallet cr st)) = map public_key (tracked_outputs st)"
  "pw_restore_height (persist_wallet cr st) = w_restore_height st"
  by (simp_all add: persist_wallet_def persist_output_def)

lemma import_wallet_total:
  assumes "w_gap_limit st \<le> 100000" and "\<forall>o1 \<in> set (tracked_outputs st). subaddress_minor o1 \<le> 100000"
    and "wallet_cache_binding cr v = wallet_cache_binding cr st" and "wallet_cache_binding cr st \<noteq> []"
    and "w_network v = w_network st" and "w_restore_height st \<le> w_restore_height v"
  shows "\<exists>v'. import_wallet cr (persist_wallet cr st) v = Inr v'"
proof -
  have "cache_identity_matches cr (persist_wallet cr st) v = Inr ()"
    unfolding identity_matches_iff using assms(3-6) by (simp add: persist_wallet_def)
  moreover have "\<not> list_ex (\<lambda>o1. 100000 < po_subaddress_minor o1) (pw_tracked_outputs (persist_wallet cr st))"
    using assms(2) by (auto simp: list_ex_iff persist_wallet_def persist_output_def not_less)
  moreover have "pw_gap_limit (persist_wallet cr st) = w_gap_limit st" by (simp add: persist_wallet_def)
  ultimately show ?thesis using assms(1) by (simp add: import_wallet_def Let_def not_less)
qed

lemma import_call:
  assumes "bc_decode c data = Inr p" and "cache_version_of data = Some WALLETCORE_CACHE_VERSION"
    and "length data \<le> MAX_CACHE_BYTES" and "pw_cache_version p = WALLETCORE_CACHE_VERSION"
    and "distinct (map po_public_key (pw_tracked_outputs p))" and "cstr_to_str s = Some t"
    and "\<not> wd_store_poisoned w" and "\<not> wd_jobs_poisoned w" and "\<not> job_running (trim t) w"
    and "map_of (wd_store w) (trim t) = Some v" and "import_wallet cr p v = Inr v'"
  shows "\<exists>w'. wallet_import_cache_ffi_impl cr c (CStr s) (Some data) w = (Value (0, ()), w') \<and>
    map_of (wd_store w') (trim t) = Some v'"
proof -
  have "length data \<noteq> 0" using assms(2) by (auto simp: cache_version_of_def)
  then show ?thesis using assms
    by (simp add: wallet_import_cache_ffi_impl_def Let_def id_arg_def has_duplicate_keys_iff or_else_def
        with_refresh_stopped_def on_wallet_def lock_store_def)
qed

section \<open>Balances\<close>

lemma filtered_step_le:
  "snd acc \<le> min (fst acc) u64_max \<Longrightarrow>
     snd (filtered_balance_step st f acc o1) \<le> min (fst (filtered_balance_step st f acc o1)) u64_max"
  by (auto simp: filtered_balance_step_def sat_add_def split: prod.splits)

lemma filtered_fold_le:
  "snd acc \<le> min (fst acc) u64_max \<Longrightarrow>
     snd (foldl (filtered_balance_step st f) acc outs) \<le> min (fst (foldl (filtered_balance_step st f) acc outs)) u64_max"
proof (induction outs arbitrary: acc)
  case (Cons o1 outs)
  from Cons.IH [OF filtered_step_le [OF Cons.prems]] show ?case by simp
qed simp

lemma filtered_fold_fst:
  "fst (foldl (filtered_balance_step st f) acc outs) =
     foldl (\<lambda>s o1. sat_add s (amount o1)) (fst acc) (filter (\<lambda>o1. filter_keeps f o1 \<and> \<not> spent o1) outs)"
  by (induction outs arbitrary: acc) (auto simp: filtered_balance_step_def split: prod.splits)

lemma filtered_fold_snd:
  "snd (foldl (filtered_balance_step st f) acc outs) =
     foldl (\<lambda>s o1. sat_add s (amount o1)) (snd acc)
       (filter (\<lambda>o1. filter_keeps f o1 \<and> eligible st None o1) outs)"
  by (induction outs arbitrary: acc)
     (auto simp: filtered_balance_step_def eligible_def outpoint_of_def split: prod.splits)

lemma filtered_balance_spec:
  "filtered_balance st f =
     (sat_sum (map amount (filter (\<lambda>o1. filter_keeps f o1 \<and> \<not> spent o1) (tracked_outputs st))),
      sat_sum (map amount (filter (\<lambda>o1. filter_keeps f o1 \<and> eligible st None o1) (tracked_outputs st))))"
  by (rule prod_eqI)
    (simp_all add: filtered_balance_def filtered_fold_fst filtered_fold_snd foldl_sat_amount sat_sum_def)

lemma filtered_balance_le: "snd (filtered_balance st f) \<le> fst (filtered_balance st f)"
  using filtered_fold_le [of "(0, 0)" st f "tracked_outputs st"] by (simp add: filtered_balance_def)

end
