(* ===== verification/Examples_Api.thy ===== *)
theory Examples_Api
  imports Examples Lifecycle
begin

text \<open>
  Concrete calls of the exported functions: a process with the wallet of \<open>Examples\<close>, a mnemonic, a
  sealed wallet that found an output, a cache codec, a history and a transaction codec.
\<close>

section \<open>Arguments\<close>

lemma ex_id: "cstr_to_str ''w'' = Some ''w''" "trim ''w'' = ''w''"
  by (simp_all add: cstr_to_str_def code_of_def trim_plain plain_char_def)

definition ex_wait :: wait_obs where
  "ex_wait = \<lparr>ob_contended = [], ob_wakes = []\<rparr>"

lemma ex_lifecycle_id: "lifecycle_wallet_id (CStr ''w'') nm = Inr ''w''"
  by (simp add: lifecycle_wallet_id_def id_arg_def ex_id)

definition ex_mnemonic :: string where
  "ex_mnemonic = ''a b c d e f g h i j k l m''"

lemma ex_new_keys: "new_master_keys ex_crypto (hx 1) = Inr (ex_keys 1)"
  by (simp add: new_master_keys_def ex_crypto_def ex_keys_def Let_def)

lemma ex_mnemonic_keys: "master_keys_from_mnemonic_ptr ex_crypto (CStr ex_mnemonic) = Inr (ex_keys 1)"
proof -
  have "cstr_to_str ex_mnemonic = Some ex_mnemonic"
    by (simp add: cstr_to_str_def ex_mnemonic_def code_of_def)
  moreover have "trim ex_mnemonic = ex_mnemonic"
    by (simp add: ex_mnemonic_def trim_def trim_start.simps trim_end_def trim_start_rev.simps ws_width.simps
        ws_width_rev_def code_of_def)
  moreover have "count_words False ex_mnemonic = 13"
    by (simp add: ex_mnemonic_def count_words.simps ws_width.simps code_of_def)
  moreover have "cr_seed ex_crypto s = Some (hx 1)" for s by (simp add: ex_crypto_def)
  ultimately show ?thesis
    by (simp add: master_keys_from_mnemonic_ptr_def master_keys_from_mnemonic_str_def Let_def ex_new_keys [simplified])
       (simp add: ex_mnemonic_def)
qed

section \<open>Lifecycle calls\<close>

lemma ex_seal: "\<exists>w'. wallet_seal_ffi_impl ex_crypto (\<lambda>_. ex_wait) (CStr ''w'') 0 ex_world = (Value (0, ()), w')"
  by (simp add: wallet_seal_ffi_impl_def Let_def ex_lifecycle_id or_else_def with_wallet_lifecycle_exclusion_def
      ex_wait_def on_wallet_def lock_store_def set_refresh_cancel_for_wallet_def clear_last_error_def ex_world_def
      job_running_def)

definition ex_sealed_world :: world where
  "ex_sealed_world = ex_world\<lparr>wd_store := [(''w'', (seal_wallet ex_crypto ex_wallet)\<lparr>
     tracked_outputs := [ex_out 5 100 10, (ex_out 7 9 15)\<lparr>key_image := zero_image\<rparr>],
     w_spend_rescan_from := Some 15\<rparr>)]\<rparr>"

lemma ex_sealed_marker: "store_all marker_ok ex_sealed_world"
  by (simp add: store_all_def ex_sealed_world_def marker_ok_def ex_wallet_def new_wallet_def seal_wallet_def ex_out_def
      zero_image_def numeral_eq_Suc)

lemma ex_unseal:
  "\<exists>w'. wallet_unseal_from_mnemonic_ffi_impl ex_crypto (\<lambda>_. ex_wait) (CStr ''w'') (CStr ex_mnemonic) 0 ex_sealed_world =
     (Value (0, ()), w')"
proof -
  obtain st where st: "map_of (wd_store ex_sealed_world) ''w'' = Some st" "w_keys st = seal_keys ex_crypto (Unsealed (ex_keys 1))"
    by (simp add: ex_sealed_world_def seal_wallet_def ex_wallet_def new_wallet_def)
  have "derive_address_string ex_crypto (w_keys st) 0 0 (w_network st) =
      derive_address_string ex_crypto (Unsealed (ex_keys 1)) 0 0 (w_network st)"
    by (simp add: st(2) derive_address_string_def view_keys_of_def)
  then obtain st' where r: "restore_spend_authority ex_crypto st (ex_keys 1) = (Inr (), st')"
    by (cases "restore_spend_authority ex_crypto st (ex_keys 1)")
       (use restore_authority_cases [of ex_crypto st "ex_keys 1"] in auto)
  have "\<not> wd_jobs_poisoned ex_sealed_world" "\<not> wd_store_poisoned ex_sealed_world" "\<not> job_running ''w'' ex_sealed_world"
    by (simp_all add: ex_sealed_world_def ex_world_def job_running_def)
  then show ?thesis
    using st(1) r by (simp add: wallet_unseal_from_mnemonic_ffi_impl_def Let_def ex_lifecycle_id ex_mnemonic_keys
      or_else_def with_wallet_lifecycle_exclusion_def ex_wait_def on_wallet_def lock_store_def)
qed

lemma ex_gap: "\<exists>w'. wallet_set_gap_limit_ffi_impl (CStr ''w'') 60 ex_world = (Value (0, ()), w')"
proof -
  have "\<not> wd_jobs_poisoned ex_world" "\<not> wd_store_poisoned ex_world" "\<not> job_running ''w'' ex_world"
    "map_of (wd_store ex_world) ''w'' = Some ex_wallet" "w_gap_limit ex_wallet = 50"
    by (simp_all add: ex_world_def job_running_def ex_wallet_def new_wallet_def)
  then show ?thesis
    by (simp add: wallet_set_gap_limit_ffi_impl_def Let_def id_arg_def ex_id or_else_def with_refresh_stopped_def
        on_wallet_def lock_store_def)
qed

lemma ex_open_step: "\<exists>w'. service_step ex_crypto empty_world w' \<and> wd_store w' \<noteq> []"
proof -
  have flags: "\<not> wd_jobs_poisoned empty_world" "\<not> wd_store_poisoned empty_world" "\<not> job_running ''w'' empty_world"
    "wd_store empty_world = []"
    by (simp_all add: empty_world_def ex_world_def job_running_def)
  have keys: "\<exists>s. cstr_to_str ex_mnemonic = Some s \<and> trim s \<noteq> [] \<and> master_keys_from_mnemonic_str ex_crypto (trim s) = Inr (ex_keys 1)"
  proof -
    have c: "cstr_to_str ex_mnemonic = Some ex_mnemonic" "trim ex_mnemonic = ex_mnemonic"
      by (simp_all add: cstr_to_str_def ex_mnemonic_def code_of_def trim_def trim_start.simps trim_end_def trim_start_rev.simps
          ws_width.simps ws_width_rev_def)
    with ex_mnemonic_keys show ?thesis
      by (auto simp: master_keys_from_mnemonic_ptr_def) (simp add: ex_mnemonic_def)
  qed
  then have "wd_store (snd (guard ''wallet_open'' (-19, ()) (wallet_open_from_mnemonic_ffi_impl ex_crypto (CStr ''w'')
      (CStr ex_mnemonic) 0 1) empty_world)) \<noteq> []"
    using flags by (auto simp: wallet_open_from_mnemonic_ffi_impl_def ex_id Let_def or_else_def with_refresh_stopped_def
        on_wallet_def lock_store_def guard_def put_wallet_def hm_insert_def)
  then show ?thesis by (blast intro: svc_call api_open)
qed

section \<open>A cache\<close>

definition ex_reopened :: stored_wallet where
  "ex_reopened = new_wallet (ex_keys 1) 0 Mainnet"

definition ex_reopened_world :: world where
  "ex_reopened_world = ex_world\<lparr>wd_store := [(''w'', ex_reopened)]\<rparr>"

lemma ex_cache_side:
  "wallet_cache_binding ex_crypto ex_reopened = wallet_cache_binding ex_crypto ex_wallet"
  "wallet_cache_binding ex_crypto ex_wallet \<noteq> []" "w_network ex_reopened = w_network ex_wallet"
  "w_restore_height ex_wallet \<le> w_restore_height ex_reopened" "ids_distinct ex_wallet"
  "w_gap_limit ex_wallet \<le> 100000" "\<forall>o1 \<in> set (tracked_outputs ex_wallet). subaddress_minor o1 \<le> 100000"
  "job_running i (ex_world\<lparr>wd_store := s\<rparr>) = False"
  using ex_wallet_sound
  by (simp_all add: ex_reopened_def ex_wallet_def new_wallet_def wallet_cache_binding_def derive_address_string_def
      ex_crypto_def wallet_sound_def ex_out_def job_running_def ex_world_def Let_def)

lemma ex_import: "\<exists>st'. import_wallet ex_crypto (persist_wallet ex_crypto ex_wallet) ex_reopened = Inr st'"
  using ex_cache_side by (intro import_wallet_total) simp_all

definition le4 :: "nat \<Rightarrow> bytes" where
  "le4 n = [word_of_nat n, word_of_nat (n div 256), word_of_nat (n div 65536), word_of_nat (n div 16777216)]"

lemma le4_version: "n \<le> u32_max \<Longrightarrow> cache_version_of (le4 n @ bs) = Some n"
proof -
  assume "n \<le> u32_max"
  then have n: "n div 16777216 mod 256 = n div 16777216" by (simp add: u32_max_def div_le_mono)
  have d: "n div 65536 = n div 256 div 256" "n div 16777216 = n div 256 div 256 div 256"
    by (simp_all add: div_mult2_eq [symmetric])
  have "n mod 256 + 256 * (n div 256 mod 256 + 256 * (n div 65536 mod 256 + 256 * (n div 16777216 mod 256))) = n"
    unfolding n unfolding d by (simp only: mod_mult_div_eq)
  moreover have "cache_version_of (le4 n @ bs) =
      Some (n mod 256 + 256 * (n div 256 mod 256 + 256 * (n div 65536 mod 256 + 256 * (n div 16777216 mod 256))))"
    by (simp add: cache_version_of_def le4_def u32_from_le_def unat_of_nat take_bit_eq_mod)
  ultimately show ?thesis by (simp only:)
qed

definition ex_persisted :: persisted_wallet where
  "ex_persisted = persist_wallet ex_crypto ex_wallet"

text \<open>A codec that writes the example wallet in a few bytes and everything else beyond the limit.\<close>

definition ex_encode :: "persisted_wallet \<Rightarrow> bytes" where
  "ex_encode p = le4 (pw_cache_version p) @ (if p = ex_persisted then [] else replicate MAX_CACHE_BYTES 0)"

definition ex_codec :: codec where
  "ex_codec = \<lparr>bc_size = (\<lambda>p. Some (length (ex_encode p))), bc_encode = (\<lambda>p. Inr (ex_encode p)),
     bc_decode = (\<lambda>bs. if bs = ex_encode ex_persisted then Inr ex_persisted else Inl ''bad'')\<rparr>"

lemma ex_codec_ok: "codec_ok ex_codec"
proof -
  have "p = ex_persisted" if "length (ex_encode p) \<le> MAX_CACHE_BYTES" for p
    using that by (auto simp: ex_encode_def le4_def split: if_splits)
  moreover have "cache_version_of (ex_encode p) = Some (pw_cache_version p)" if "pw_cache_version p \<le> u32_max" for p
    unfolding ex_encode_def using that by (rule le4_version)
  ultimately show ?thesis by (auto simp: codec_ok_def ex_codec_def) metis
qed

lemma ex_export:
  "\<exists>data wr w1. wallet_export_cache_ffi_impl ex_crypto ex_codec (CStr ''w'') False (Some 1000) ex_world =
     (Value (0, Some data, wr), w1)"
proof -
  have "length (ex_encode ex_persisted) = 4" by (simp add: ex_encode_def le4_def)
  then have c: "bc_size ex_codec ex_persisted = Some 4" "bc_encode ex_codec ex_persisted = Inr (ex_encode ex_persisted)"
    by (simp_all add: ex_codec_def)
  have "\<not> wd_store_poisoned ex_world" "map_of (wd_store ex_world) ''w'' = Some ex_wallet"
    by (simp_all add: ex_world_def)
  then show ?thesis using c
    by (simp add: wallet_export_cache_ffi_impl_def Let_def id_arg_def ex_id on_wallet_def lock_store_def
        ex_persisted_def [symmetric] opt_filter_def MAX_CACHE_BYTES_def)
qed

section \<open>A history\<close>

definition ex_row :: "string \<Rightarrow> u64 \<Rightarrow> ledger_entry" where
  "ex_row t h = \<lparr>le_txid = t, le_direction = ''in'', le_amount = 5, le_fee = None, le_height = Some h,
     le_timestamp = None, le_is_pending = False, le_is_coinbase = False\<rparr>"

definition ex_index :: history_index where
  "ex_index = \<lparr>hi_identity = ''x'', hi_revision = ''1'', hi_ledger = [(''a'', ex_row ''a'' 4), (''b'', ex_row ''b'' 3)],
     hi_ordered = [''a'', ''b''], hi_pending = 0\<rparr>"

lemma ex_index_rows: "length (history_rows ex_index (default_query\<lparr>hq_limit := 1\<rparr>)) = 2"
proof -
  have "history_matches (default_query\<lparr>hq_limit := 1\<rparr>) (ex_row t h)" for t h
    by (cases t) (simp_all add: history_matches_def default_query_def ex_row_def to_ascii_lowercase_def trim_def
      trim_start.simps trim_end_def trim_start_rev.simps)
  then show ?thesis by (simp add: history_rows_def ex_index_def)
qed

section \<open>Range answers\<close>

definition ex_db :: "nat \<Rightarrow> nat \<Rightarrow> nat \<Rightarrow> decoded_range_block" where
  "ex_db n parent hash = \<lparr>db_number = n, db_previous = hx parent, db_hash = hx hash\<rparr>"

definition ex_tx_codec :: "bytes tx_codec" where
  "ex_tx_codec = \<lparr>tc_read_pruned = (\<lambda>b. Inr (b, 0)), tc_read_full = (\<lambda>b. Inr (b, 0)), tc_is_v1 = (\<lambda>_. True),
     tc_has_proofs = (\<lambda>_. True), tc_with_hash = (\<lambda>_ _. True), tc_verify = (\<lambda>t _ _. Some t),
     tc_full_hash = (\<lambda>_. hx 7), tc_prunable_hash = (\<lambda>_. None), tc_prune = (\<lambda>t. t)\<rparr>"

lemma ex_decode: "\<exists>tx'. decode_range_transaction ex_tx_codec [7] None (hx 7) 0 0 = Inr tx'"
  by (simp add: decode_range_transaction_def decode_full_def ex_tx_codec_def Let_def)

end
