(* ===== verification/Examples_Daemon.thy ===== *)
theory Examples_Daemon
  imports Examples_Api Daemon_Rpc Relay
begin

text \<open>
  Concrete daemons: an I2P address with a configured proxy, a response with a block, a prepared
  transaction that the wallet of \<open>Examples\<close> relays.
\<close>

section \<open>An I2P daemon\<close>

definition ex_url :: parsed_url where
  "ex_url = \<lparr>u_scheme = ''http'', u_host = Some ''d.i2p'', u_port = None, u_known_port = Some 80, u_username = [],
     u_password = None, u_path = ''/'', u_query = None, u_fragment = None\<rparr>"

definition ex_url_lib :: url_lib where
  "ex_url_lib = \<lparr>ul_parse = (\<lambda>s. if s = ''http://d.i2p'' then Some ex_url else None), ul_text = (\<lambda>_. ''http://d.i2p''),
     ul_clear_username = (\<lambda>u. if u = ex_url then Some u else None),
     ul_clear_password = (\<lambda>u. if u = ex_url then Some u else None)\<rparr>"

lemma ex_url_ok: "url_ok ex_url_lib"
  by (auto simp: url_ok_def ex_url_lib_def ex_url_def)

definition ex_route :: route_state where
  "ex_route = \<lparr>rt_proxy = Inr (Some ''http://p:4444/''), rt_poisoned = False\<rparr>"

definition ex_reader :: "bytes \<Rightarrow> body_reader" where
  "ex_reader bs i = (if i < length bs then RByte (bs ! i) else REnd)"

definition ex_response :: http_response where
  "ex_response = \<lparr>rs_status = 200, rs_header = (\<lambda>_. None), rs_reader = ex_reader [1, 2, 3]\<rparr>"

definition ex_net :: net_lib where
  "ex_net = \<lparr>nl_netloc = (\<lambda>_. ''d.i2p:80''), nl_resolve = (\<lambda>_. Inr []), nl_answer = (\<lambda>_ _ _. Some ex_response),
     nl_challenge = (\<lambda>_. True), nl_respond = (\<lambda>_ _ _ _ _. None)\<rparr>"

lemma ex_i2p: "i2p_host ''d.i2p''"
  by (simp add: i2p_host_def strip_host_def trim_end_char_def to_ascii_lowercase_def lower_char_def
      ends_with_def code_of_def)

lemma ex_for_url: "\<exists>t. for_url ex_url_lib (\<lambda>_. True) ex_route ''http://d.i2p'' = Inr t"
  by (simp add: for_url_def ex_url_lib_def ex_url_def agent_for_url_def proxy_for_url_def ex_i2p ex_route_def)

lemma ex_body: "is_body (ex_reader bs) bs"
  by (simp add: is_body_def ex_reader_def)

section \<open>A block answer\<close>

definition ex_epee_lib :: epee_lib where
  "ex_epee_lib = \<lparr>rd_varint = portable_varint, rd_utf8 = Some \<circ> map (\<lambda>b. char_of (unat b)), rd_u8 = (\<lambda>_. None),
     rd_u64 = (\<lambda>_. None), rd_bool = (\<lambda>_. None), rd_hash = (\<lambda>_. None), rd_string = (\<lambda>_ _ _. None),
     rd_blob = (\<lambda>_ _ _. None), rd_blobs = (\<lambda>_ _ _. None), rd_u64s = (\<lambda>_ _ _. None),
     rd_tx_entries = (\<lambda>_ _ _. None), rd_block_entries = (\<lambda>_ _ _. None), rd_tx_indices = (\<lambda>_ _ _. None),
     rd_block_indices = (\<lambda>_ _ _. None)\<rparr>"

lemma ex_lib_ok: "lib_ok ex_epee_lib"
  by (simp add: lib_ok_def ex_epee_lib_def portable_varint_ok fast_ok_def reads_suffix_def reads_limited_def
      entries_built_def)

lemma ex_blocks:
  "read_blocks ex_epee_lib range_blocks_errors [0x8c, 4, 4, 9, 7] = Inr ([raw_entry [9]], [7])"
  by (simp add: read_blocks_def ex_epee_lib_def blocks_container_def skip_epee_varint_u64_def portable_varint_def
      varint_len_def le_value_def checked_epee_sequence_len_def object_entry_def object_field_def
      read_epee_field_name_def blob_entry_def is_supported_blob_marker_def read_epee_len_prefixed_bytes_def
      try_decode_block_complete_entry_from_blob_payload_def commit_to_def usize_max_def
      u64_max_def MAX_EPEE_BLOCKS_PER_RESPONSE_def MAX_EPEE_BLOB_BYTES_def)

section \<open>A prepared transaction\<close>

definition ex_prepared :: prepared_send_payload where
  "ex_prepared = \<lparr>pp_txid = hex_lowercase (hx 33), pp_amount = 60, pp_fee = 5, pp_signed_tx_hex = hex_lowercase [7],
     pp_wallet_binding = Some (wallet_cache_binding ex_crypto ex_wallet)\<rparr>"

definition ex_signed :: signed_tx where
  "ex_signed = \<lparr>sx_hash = hx 33, sx_inputs = [Some (1 # hx 5)]\<rparr>"

definition ex_accepted :: send_raw_tx_response where
  "ex_accepted = \<lparr>sr_status = Some ''OK'', sr_reason = None, sr_fee_too_low = None, sr_too_big = None,
     sr_invalid_input = None, sr_invalid_output = None, sr_overspend = None, sr_not_relayed = None,
     sr_sanity_check_failed = None, sr_double_spend = None\<rparr>"

definition ex_relay_lib :: relay_lib where
  "ex_relay_lib = \<lparr>rl_payload = (\<lambda>_. Inr ex_prepared), rl_read_tx = (\<lambda>_. Inr (ex_signed, [])),
     rl_txs = (\<lambda>_ _ _. Inr []), rl_daemon = (\<lambda>_. Inr ()), rl_raw_call = (\<lambda>_ _. Inr ''{}''),
     rl_raw_json = (\<lambda>_. Some ex_accepted), rl_display = (\<lambda>_. [])\<rparr>"

lemma ex_relay:
  "\<exists>w' ev. wallet_relay_prepared_impl ex_crypto (\<lambda>_. None) ex_relay_lib (CStr ''w'') CNull (CStr ''w'') ex_world =
     ((Value (Some (hex_lowercase (hx 33), ''accepted'')), w'), ev)"
proof -
  have hex: "decode_hex (hex_lowercase [7]) = Inr [7]" by (rule decode_hex_roundtrip) simp_all
  have keys: "\<not> is_sealed (w_keys ex_wallet)" by (simp add: ex_wallet_def new_wallet_def)
  have b: "relay_binding ex_crypto ex_prepared ''w'' w = (Value (Inr ()), w)"
    if "map_of (wd_store w) ''w'' = Some ex_wallet" "\<not> wd_store_poisoned w" for w
    using that keys
    by (simp add: relay_binding_def on_wallet_def lock_store_def validate_prepared_binding_def ex_prepared_def)
  have t: "relay_tx ex_relay_lib ex_prepared = Inr ([7], ex_signed)"
    by (simp add: relay_tx_def ex_prepared_def ex_relay_lib_def hex ex_signed_def eq_ignore_ascii_case_def)
  have p: "rl_payload ex_relay_lib s = Inr ex_prepared" "rl_txs ex_relay_lib u x k = Inr []"
    "relay_broadcast env ex_relay_lib u bs = Inr ()" for s u x k bs env
    by (simp_all add: ex_relay_lib_def relay_broadcast_def broadcast_send_raw_transaction_def ex_accepted_def)
  have st: "map_of (wd_store (clear_last_error ex_world)) ''w'' = Some ex_wallet"
    "\<not> wd_store_poisoned (clear_last_error ex_world)" by (simp_all add: ex_world_def)
  have run: "fst (fst (wallet_relay_prepared_impl ex_crypto (\<lambda>_. None) ex_relay_lib (CStr ''w'') CNull (CStr ''w'') ex_world)) =
      Value (Some (hex_lowercase (hx 33), ''accepted''))"
    using st by (simp add: wallet_relay_prepared_impl_def Let_def ex_id p b t relay_send_def daemon_knows_tx_def
        known_or_false_def ex_signed_def apply_relayed_tx_local_state_def on_wallet_def lock_store_def)
  then show ?thesis by (metis prod.collapse)
qed

end
