(* ===== verification/Examples_Send.thy ===== *)
theory Examples_Send
  imports Send_Prepared Examples_Daemon
begin

text \<open>
  A daemon that accepts what the wallet of \<open>Examples\<close> sends, and the runs of a prepared payment, a payment
  and a sweep of its one output. The request for the tip's timestamp is left open (\<open>dl\<close>): the output has
  no time lock.
\<close>

section \<open>The daemon and the third-party parts\<close>

definition ex_spent_out :: wallet_output where
  "ex_spent_out = \<lparr>wo_transaction = hx 5, wo_index = 0, wo_key = hx 5, wo_key_offset = hx 0, wo_amount = 100,
     wo_timelock = TL_None, wo_subaddress = None\<rparr>"

definition ex_send_lib :: "daemon_lib \<Rightarrow> (unit, u64) send_lib" where
  "ex_send_lib dl = \<lparr>sl_address = (\<lambda>_ a. Some a), sl_url = ex_url_lib, sl_proxy_valid = (\<lambda>_. True), sl_routes = ex_route,
     sl_status = dl, sl_daemon = (\<lambda>_ _. Inr ()), sl_latest_block = (\<lambda>_ _. Inr 200), sl_fee_rate = (\<lambda>_ _ _ _. Inr (1, 1)),
     sl_block = (\<lambda>_ _ _. Inr ex_block), sl_scan = (\<lambda>_ _ _. Some [ex_spent_out]), sl_decoys = (\<lambda>_ _ _ _ _. Inr ()),
     sl_bin_daemon = (\<lambda>_ _. Inr ()), sl_bin_decoys = (\<lambda>_ _ _ _ _. Inr ()),
     sl_construct = (\<lambda>_ pays _ _ _. if sum_list (map snd pays) + 5 \<le> 100 then Inr 5 else Inl ''not enough funds''),
     sl_fee = (\<lambda>fee. fee), sl_sign = (\<lambda>_ _ _. Worker_Done (Inr ex_signed)), sl_serialize = (\<lambda>_. [7]),
     sl_raw_call = (\<lambda>_ _ _. Inr ''{}''), sl_raw_json = (\<lambda>_. Some ex_accepted), sl_route = (\<lambda>_ _ _. Inl []),
     sl_spent_json = (\<lambda>_. Inl []), sl_pays_json = (\<lambda>_. Inl []), sl_filter_json = (\<lambda>_. Inr None), sl_display = (\<lambda>_. []),
     sl_tx_debug = (\<lambda>_. []), sl_in_budget = (\<lambda>_. True)\<rparr>"

definition ex_env :: environment where
  "ex_env = [''MONERO_URL'' \<mapsto> ''http://d.i2p'', ''WALLETCORE_SWEEP_MIN_INPUT_PICONERO'' \<mapsto> ''1'']"

definition ex_status :: daemon_lib where
  "ex_status = \<lparr>dl_net = ex_net, dl_mobile = False, dl_status_text = (\<lambda>_. []), dl_body_text = (\<lambda>_. None),
     dl_transport_text = (\<lambda>_. []), dl_json_text = (\<lambda>_. []), dl_json_parse = (\<lambda>_. Inl []), dl_encode = (\<lambda>_. Inl []),
     dl_enc = \<lparr>wr_u8 = (\<lambda>_. []), wr_u64 = (\<lambda>_. []), wr_bool = (\<lambda>_. []), wr_hash = (\<lambda>_. []), wr_string = (\<lambda>_. []),
       wr_blob = (\<lambda>b. b), wr_u64s = (\<lambda>_. []), wr_tx_entries = (\<lambda>_. []), wr_block_entries = (\<lambda>_. []),
       wr_tx_indices = (\<lambda>_. []), wr_block_indices = (\<lambda>_. [])\<rparr>,
     dl_by_height = (\<lambda>_. Inl []), dl_range = (\<lambda>_. Inl []), dl_fast = (\<lambda>_. Inl [])\<rparr>"

lemma ex_reads_back: "reads_back (ex_send_lib dl) ex_relay_lib"
  by (simp add: reads_back_def signed_by_def ex_send_lib_def ex_relay_lib_def)

lemma ex_utf8: "utf8_arg m (CStr ''w'') s = (Done ''w'', s)"
  by (simp add: utf8_arg_def ex_id done1_def)

lemma ex_arg_id [simp]: "arg_id (CStr ''w'') = ''w''"
  by (simp add: arg_id_def ex_id)

lemma ex_env_simps:
  "daemon_base_url ex_env CNull = ''http://d.i2p''" "ex_env ''WALLETCORE_SEND_BISECT'' = None"
  "walletcore_decoy_mode_bin16 ex_env = False" "walletcore_input_select_mode ex_env = SmallestFirst"
  "walletcore_sweep_min_input_piconero ex_env = 1"
  by (simp_all add: ex_env_def parse_unsigned_def is_ascii_digit_def trim_plain plain_char_def code_of_def digits_value_def u64_max_def daemon_base_url_def opt_filter_def opt_or_def walletcore_decoy_mode_bin16_def
      walletcore_decoy_mode_def walletcore_input_select_mode_def walletcore_sweep_min_input_piconero_def Let_def)

section \<open>The steps of a call\<close>

abbreviation tick_calls :: "sender \<Rightarrow> sender" where
  "tick_calls s \<equiv> s\<lparr>sn_calls := Suc (sn_calls s)\<rparr>"

lemma ex_connect: "connect_daemon (ex_send_lib dl) nm ''http://d.i2p'' s = (Done (), tick_calls s)"
  using ex_for_url by (auto simp: connect_daemon_def ex_send_lib_def bnd_def ask_def done1_def)

lemma ex_tip: "\<exists>time w'. daemon_tip (ex_send_lib dl) nm url s =
    (Done \<lparr>ds_height = 201, ds_top_block_timestamp = time\<rparr>, (tick_calls s)\<lparr>sn_world := w'\<rparr>) \<and>
    wd_store w' = wd_store (sn_world s) \<and> wd_store_poisoned w' = wd_store_poisoned (sn_world s)"
proof -
  obtain time out w' where r: "resolve_daemon_tip_timestamp ex_url_lib (\<lambda>_. True) ex_route dl url (sn_world s) = (time, out, w')"
    by (cases "resolve_daemon_tip_timestamp ex_url_lib (\<lambda>_. True) ex_route dl url (sn_world s)") auto
  have "wd_store w' = wd_store (sn_world s) \<and> wd_store_poisoned w' = wd_store_poisoned (sn_world s)"
    using r by (auto simp: resolve_daemon_tip_timestamp_def blocking_new_def set_last_error_def Let_def
        split: prod.splits sum.splits if_splits)
  then show ?thesis using r
    by (intro exI [of _ time] exI [of _ w']) (simp add: daemon_tip_def ex_send_lib_def bnd_def ask_def sat_add_def u64_max_def)
qed

lemma ex_fee: "query_fee_rate env (ex_send_lib dl) nm url s = (Done (1, 1), tick_calls s)"
  by (simp add: query_fee_rate_def ex_send_lib_def bnd_def ask_def done1_def)

lemma ex_wallet_simps: "w_keys ex_wallet = Unsealed (ex_keys 1)" "w_network ex_wallet = Mainnet" "w_quarantine ex_wallet = []"
  "tracked_outputs ex_wallet = [ex_out 5 100 10]" "w_pending_outgoing ex_wallet = []" "w_chain_time ex_wallet = 0"
  by (simp_all add: ex_wallet_def new_wallet_def)

lemma ex_spend_keys: "\<exists>pair. \<forall>nm what s. spend_keys ex_crypto nm what (w_keys ex_wallet) s = (Done (ex_keys 1, pair), s)"
  by (simp add: spend_keys_def ex_wallet_simps to_view_pair_def ex_crypto_def ex_keys_def done1_def split: sum.split)

lemma ex_unlocked: "is_unlocked (ex_out 5 100 10) 201 time"
  by (simp add: is_unlocked_def ex_out_def DEFAULT_LOCK_WINDOW_def sat_add_def u64_max_def Let_def)

lemma ex_out_simps: "spent (ex_out n a h) = False" "amount (ex_out n a h) = a" "block_height (ex_out n a h) = h"
  "tx_hash (ex_out n a h) = hx n" "index_in_tx (ex_out n a h) = 0" "key_image (ex_out n a h) = 1 # hx n"
  by (simp_all add: ex_out_def)

lemma ex_spendable:
  "spendable_inputs ex_crypto (ex_send_lib dl) ''w'' ex_wallet \<lparr>ds_height = 201, ds_top_block_timestamp = time\<rparr> allow s =
     (Done ([ex_out 5 100 10], ex_wallet), tick_calls s)"
  by (simp add: spendable_inputs_def spendable_def reconcile_with_def ex_wallet_simps ex_unlocked rpc_is_key_image_spent_def
      ex_send_lib_def ex_out_simps)

lemma ex_reconstruct: "reconstruct (ex_send_lib dl) cx tt (ex_out 5 100 10) s = (Done ex_spent_out, tick_calls s)"
  by (simp add: reconstruct_def ex_send_lib_def bnd_def ask_def done1_def is_output_of_def ex_spent_out_def ex_out_simps)

lemma ex_image: "signer_image ex_ki m ex_spent_out = 1 # hx 5"
  by (simp add: signer_image_def derive_key_image_bytes_def ex_ki_def ex_spent_out_def Let_def)

lemma ex_decoys: "with_decoys ex_env (ex_send_lib dl) cx tt wo s = (Done (), tick_calls s)"
  by (simp add: with_decoys_def ex_env_simps choose_decoys_def ex_send_lib_def bnd_def ask_def done1_def)

text \<open>One input: the block and the decoys are two requests.\<close>

lemma ex_checked: "checked_inputs ex_env ex_ki (ex_send_lib dl) cx tt m i [ex_out 5 100 10] s =
    (Done (Some [()]), tick_calls (tick_calls s))"
  by (simp add: bnd_def ex_reconstruct ex_image ex_decoys done1_def ex_out_simps)

lemma ex_each: "each (build_input ex_env (ex_send_lib dl) cx tt) [ex_out 5 100 10] s = (Done [()], tick_calls (tick_calls s))"
  by (simp add: bnd_def build_input_def ex_reconstruct ex_decoys done1_def)

lemma ex_construct: "sum_list (map snd (sp_pays sp)) = 60 \<Longrightarrow>
    construct (ex_send_lib dl) cx sp inputs s = (Done (Inr 5), tick_calls s)"
  by (simp add: construct_def ask_def ex_send_lib_def)

lemma ex_lib_fee [simp]: "sl_fee (ex_send_lib dl) n = n"
  by (simp add: ex_send_lib_def)

definition ex_plan :: spend_plan where
  "ex_plan = \<lparr>sp_name = ''wallet_send'', sp_id = ''w'', sp_master = ex_keys 1, sp_pays = [(''w'', 60)], sp_needed = 60,
     sp_rate = (1, 1), sp_policy = Restart_Attempt\<rparr>"

lemma ex_plan_simps [simp]: "sp_pays ex_plan = [(''w'', 60)]" "sp_needed ex_plan = 60" "sp_policy ex_plan = Restart_Attempt"
  "sp_id ex_plan = ''w''" "sp_name ex_plan = ''wallet_send''"
  by (simp_all add: ex_plan_def)

lemma ex_first: "first_selection ex_plan [ex_out 5 100 10] ([], 0) s = (Done ([ex_out 5 100 10], 100), s)"
  by (simp add: first_selection_def pick_def ex_out_simps done1_def Let_def sat_add_def u64_max_def)

lemma ex_round: "select_round ex_env ex_ki (ex_send_lib dl) cx tt ex_plan [ex_out 5 100 10] ([], 0) s =
    (Done (Enough ([ex_out 5 100 10], 100) 5), tick_calls (tick_calls (tick_calls s)))"
  by (simp add: select_round_def ex_first bnd_def done1_def round_inputs_def ex_checked ex_construct sat_add_def
      u64_max_def Let_def del: checked_inputs.simps)

lemma bnd_run: "m s = (Done x, t) \<Longrightarrow> bnd m f s = f x t"
  by (simp add: bnd_def)

lemma bnd_start: "bnd (done1 x) f = f x"
  by (rule ext) (simp add: bnd_def done1_def)

lemma ex_final: "final_transaction ex_env (ex_send_lib dl) cx tt ex_plan [ex_out 5 100 10] s =
    (Done (ex_signed, 5), tick_calls (tick_calls (tick_calls (tick_calls s))))"
  unfolding final_transaction_def
  by (simp add: bnd_run [OF ex_each] bnd_run [OF ex_construct] del: each.simps)
     (simp add: sign_transaction_on_large_stack_def ask_def bnd_def done1_def ex_send_lib_def)

lemma ex_broadcast: "broadcast ex_env (ex_send_lib dl) url bs s =
    (Done (Inr ()), s\<lparr>sn_calls := Suc (sn_calls s), sn_sent := sn_sent s @ [(url, bs)]\<rparr>)"
  by (simp add: broadcast_def ex_send_lib_def broadcast_send_raw_transaction_def ex_accepted_def ex_env_def)

section \<open>The runs\<close>

definition ex_settled :: "bool \<Rightarrow> send_answer" where
  "ex_settled prepare = (if prepare
     then Prepared_Answer \<lparr>pp_txid = hex_lowercase (hx 33), pp_amount = 60, pp_fee = 5, pp_signed_tx_hex = hex_lowercase [7],
       pp_wallet_binding = Some (wallet_cache_binding ex_crypto ex_wallet)\<rparr>
     else Sent_Answer (hex_lowercase (hx 33)) 5)"

lemma ex_settle:
  assumes "wd_store (sn_world s) = [(''w'', ex_wallet)]" "\<not> wd_store_poisoned (sn_world s)"
  shows "\<exists>s'. settle_attempt ex_crypto ex_env (ex_send_lib dl) cx tt ex_plan prepare n a q ex_wallet [ex_out 5 100 10] s =
    (Done (Answer (ex_settled prepare)), s')"
  using assms
  by (simp add: settle_attempt_def bnd_run [OF ex_final] bnd_run [OF ex_broadcast] accepted_broadcast_def Let_def
      change_wallet_def put_wallet_def hm_insert_def bnd_def done1_def ex_settled_def prepared_payload_def ex_signed_def)
     (simp add: ex_send_lib_def)

lemma ex_rounds: "select_rounds (select_round ex_env ex_ki (ex_send_lib dl) cx tt ex_plan [ex_out 5 100 10]) Restart_Attempt
    max_selection_rounds ([], 0) s = (Done (Found ([ex_out 5 100 10], 100) 5), tick_calls (tick_calls (tick_calls s)))"
proof -
  have m: "max_selection_rounds = Suc 23" by (simp add: max_selection_rounds_def)
  show ?thesis unfolding m select_rounds.simps bnd_run [OF ex_round] round_out.simps done1_def ..
qed

lemma ex_attempt:
  assumes "wd_store (sn_world s) = [(''w'', ex_wallet)]" "\<not> wd_store_poisoned (sn_world s)"
  shows "\<exists>s'. send_attempt ex_crypto ex_env ex_ki (ex_send_lib dl) cx tt ex_plan
      \<lparr>ds_height = 201, ds_top_block_timestamp = time\<rparr> prepare n 0 0 ex_wallet s = (Done (Answer (ex_settled prepare)), s')"
proof -
  have order: "selection_order SmallestFirst [ex_out 5 100 10] = [ex_out 5 100 10]" by (simp add: selection_order_def)
  show ?thesis using ex_settle assms
    by (simp add: send_attempt_def bnd_run [OF ex_spendable] ex_env_simps order bnd_run [OF ex_rounds] selected_of_def)
qed

lemma ex_opening:
  assumes "wd_store (sn_world s) = [(''w'', ex_wallet)]" "\<not> wd_store_poisoned (sn_world s)"
  shows "\<exists>cx time s'. send_opening ex_crypto ex_env (ex_send_lib dl) (CStr ''w'') CNull (CStr ''w'') 60 16 s =
      (Done (cx, ex_plan, \<lparr>ds_height = 201, ds_top_block_timestamp = time\<rparr>, ex_wallet), s') \<and>
    wd_store (sn_world s') = wd_store (sn_world s) \<and> wd_store_poisoned (sn_world s') = wd_store_poisoned (sn_world s)"
proof -
  have snap: "wallet_snapshot nm ''w'' s = (Done ex_wallet, s)" for nm
    using assms by (simp add: wallet_snapshot_def read_wallet_def bnd_def done1_def)
  let ?t = "tick_calls s"
  obtain time w' where tip: "daemon_tip (ex_send_lib dl) ''wallet_send'' ''http://d.i2p'' ?t =
      (Done \<lparr>ds_height = 201, ds_top_block_timestamp = time\<rparr>, (tick_calls ?t)\<lparr>sn_world := w'\<rparr>)"
    and w': "wd_store w' = wd_store (sn_world s)" "wd_store_poisoned w' = wd_store_poisoned (sn_world s)"
    using ex_tip [of dl "''wallet_send''" "''http://d.i2p''" ?t] by auto
  obtain pair where keys: "spend_keys ex_crypto ''wallet_send'' ''sending'' (w_keys ex_wallet) t = (Done (ex_keys 1, pair), t)" for t
    using ex_spend_keys by blast
  have addr: "sl_address (ex_send_lib dl) = (\<lambda>_ a. Some a)" by (simp add: ex_send_lib_def)
  show ?thesis
    unfolding send_opening_def Let_def
    by (simp add: bnd_run [OF ex_utf8] bnd_run [where m = "wallet_snapshot nm ''w''" for nm, OF snap] ex_env_simps addr bnd_run [OF ex_connect] bnd_run [where m = "daemon_tip (ex_send_lib dl) ''wallet_send'' ''http://d.i2p''", OF tip]
        bnd_run [OF keys] bnd_run [OF ex_fee] w' done1_def ex_plan_def del: One_nat_def)
qed

lemma ex_send:
  "\<exists>w' sent. wallet_send_impl ex_crypto ex_env ex_ki (ex_send_lib dl) (CStr ''w'') CNull (CStr ''w'') 60 16 prepare ex_world =
     ((Value (Some (ex_settled prepare)), w'), sent)"
proof -
  let ?s = "\<lparr>sn_world = clear_last_error ex_world, sn_calls = 0, sn_sent = []\<rparr>"
  let ?op = "send_opening ex_crypto ex_env (ex_send_lib dl) (CStr ''w'') CNull (CStr ''w'') 60 16"
  have st: "wd_store (sn_world ?s) = [(''w'', ex_wallet)]" "\<not> wd_store_poisoned (sn_world ?s)"
    by (simp_all add: clear_last_error_def ex_world_def)
  obtain cx time s1 where op: "send_opening ex_crypto ex_env (ex_send_lib dl) (CStr ''w'') CNull (CStr ''w'') 60 16 ?s =
      (Done (cx, ex_plan, \<lparr>ds_height = 201, ds_top_block_timestamp = time\<rparr>, ex_wallet), s1)"
    and s1: "wd_store (sn_world s1) = [(''w'', ex_wallet)]" "\<not> wd_store_poisoned (sn_world s1)"
    using ex_opening [of ?s dl, OF st] st by auto
  let ?m = "send_attempt ex_crypto ex_env ex_ki (ex_send_lib dl) cx
      (call_texts (ex_send_lib dl) ''wallet_send'' (''wallet_send'' @ '': failed to reconstruct selected output (not found after scan)'') (cx_url cx))
      ex_plan \<lparr>ds_height = 201, ds_top_block_timestamp = time\<rparr> prepare (walletcore_send_retry_max ex_env) 0 0 ex_wallet"
  obtain s2 where "?m s1 = (Done (Answer (ex_settled prepare)), s2)"
    using ex_attempt [OF s1] by blast
  note at = bnd_run [where m = ?m, OF this]
  have "wallet_send_body ex_crypto ex_env ex_ki (ex_send_lib dl) (CStr ''w'') CNull (CStr ''w'') 60 16 prepare ?s =
      (Done (ex_settled prepare), s2)"
    by (simp add: wallet_send_body_def bnd_run [where m = ?op, OF op] Let_def at bnd_start done1_def del: append.simps)
  then show ?thesis by (auto simp: wallet_send_impl_def run_sending_Done(2))
qed

section \<open>The sweep\<close>

text \<open>The first guess leaves nothing for the fee; the third is the fee.\<close>

definition ex_opened :: "view_pair \<Rightarrow> daemon_status \<Rightarrow> opened" where
  "ex_opened pair daemon =
     \<lparr>op_snapshot = ex_wallet, op_ctx = sweep_context ''http://d.i2p'' pair ex_wallet 16 daemon,
      op_plan = sweep_plan ''wallet_sweep_with_filter'' ''w'' (ex_keys 1) ''w'' (1, 1), op_outputs = [ex_out 5 100 10]\<rparr>"

lemma ex_opened_simps: "op_plan (ex_opened pair d) = sweep_plan ''wallet_sweep_with_filter'' ''w'' (ex_keys 1) ''w'' (1, 1)"
  "op_outputs (ex_opened pair d) = [ex_out 5 100 10]" "cx_url (op_ctx (ex_opened pair d)) = ''http://d.i2p''"
  "sum_piconero [ex_out 5 100 10] = 100" "op_snapshot (ex_opened pair d) = ex_wallet"
  by (simp_all add: ex_opened_def sweep_context_def sum_piconero_def ex_out_simps)

lemma ex_sweep_inputs: "sweep_inputs ex_env (ex_send_lib dl) (ex_opened pair d) s = (Done [()], tick_calls (tick_calls s))"
  by (simp only: sweep_inputs_def Let_def ex_opened_simps ex_each)

lemma ex_construct_sweep: "construct_sweep (ex_send_lib dl) cx (sweep_plan nm i m r rt) inputs 100 g s =
    (Done (if g < 5 then Inl ''not enough funds'' else Inr 5), tick_calls s)"
  by (auto simp: construct_sweep_def construct_def ask_def ex_send_lib_def sweep_plan_def sat_sub_def)

lemma ex_fee_loop: "sweep_fee_loop (ex_send_lib dl) (ex_opened pair d) inputs s =
    (Done (5, Some 5), tick_calls (tick_calls (tick_calls s)))"
proof -
  have m: "max_sweep_rounds = Suc (Suc (Suc 5))" by (simp add: max_sweep_rounds_def)
  have c: "str_contains ''not enough funds'' ''not enough funds''" by simp
  have "sweep_rounds (construct_sweep (ex_send_lib dl) cx (sweep_plan nm i mk r rt) inputs 100) (\<lambda>n. n) nm'
      (Suc (Suc (Suc n))) 0 None s = (Done (5, Some 5), tick_calls (tick_calls (tick_calls s)))" for cx nm i mk r rt nm' n
    using c by (simp add: bnd_run [OF ex_construct_sweep] sat_add_def u64_max_def done1_def del: One_nat_def)
  moreover have "sl_fee (ex_send_lib dl) = (\<lambda>n. n)" by (rule ext) simp
  ultimately show ?thesis
    unfolding sweep_fee_loop_def m by (simp only: ex_opened_simps)
qed

lemma ex_sweep_opening:
  assumes "wd_store (sn_world s) = [(''w'', ex_wallet)]" "\<not> wd_store_poisoned (sn_world s)"
  shows "\<exists>pair daemon s'. sweep_opening ex_crypto ex_env (ex_send_lib dl) (CStr ''w'') CNull (CStr ''w'') CNull 16 s =
      (Done (ex_opened pair daemon), s') \<and>
    wd_store (sn_world s') = wd_store (sn_world s) \<and> wd_store_poisoned (sn_world s') = wd_store_poisoned (sn_world s)"
proof -
  let ?nm = "''wallet_sweep_with_filter''" and ?t = "tick_calls s" and ?u = "''http://d.i2p''"
  have snap: "wallet_snapshot ?nm ''w'' s = (Done ex_wallet, s)"
    using assms by (simp add: wallet_snapshot_def read_wallet_def bnd_def done1_def)
  obtain time w' where tip: "daemon_tip (ex_send_lib dl) ?nm ?u ?t =
      (Done \<lparr>ds_height = 201, ds_top_block_timestamp = time\<rparr>, (tick_calls ?t)\<lparr>sn_world := w'\<rparr>)"
    and w': "wd_store w' = wd_store (sn_world s)" "wd_store_poisoned w' = wd_store_poisoned (sn_world s)"
    using ex_tip [of dl ?nm ?u ?t] by auto
  obtain pair where keys: "spend_keys ex_crypto ?nm ''spending'' (w_keys ex_wallet) t = (Done (ex_keys 1, pair), t)" for t
    using ex_spend_keys by blast
  have pay: "sweep_recipient (ex_send_lib dl) ?nm net ''w'' = done1 ''w''" for net
    by (simp add: sweep_recipient_def ex_send_lib_def)
  have outs: "sweepable ex_crypto (ex_send_lib dl) ''w'' ex_wallet \<lparr>ds_height = 201, ds_top_block_timestamp = time\<rparr>
      (sweep_filter (ex_send_lib dl) CNull) t = (Done ([ex_out 5 100 10], ex_wallet), tick_calls t)" for t
    by (simp add: sweepable_def bnd_run [OF ex_spendable] not_pending_change_def pending_txids_def ex_wallet_simps
        sweep_filter_def filter_text_def keep_minor_def done1_def)
  have dust: "above_dust ?nm 1 [ex_out 5 100 10] = done1 [ex_out 5 100 10]"
    by (simp add: above_dust_def ex_out_simps)
  show ?thesis
    unfolding sweep_opening_def Let_def
    by (rule exI [of _ pair], rule exI [of _ "\<lparr>ds_height = 201, ds_top_block_timestamp = time\<rparr>"])
       (simp add: bnd_run [OF ex_utf8] bnd_run [where m = "wallet_snapshot ?nm ''w''", OF snap] ex_env_simps pay bnd_start
        bnd_run [OF ex_connect] bnd_run [where m = "daemon_tip (ex_send_lib dl) ?nm ?u", OF tip]
        bnd_run [OF keys] bnd_run [OF outs] dust bnd_run [OF ex_fee] w' done1_def ex_opened_def del: One_nat_def append.simps)
qed

lemma ex_sweep:
  "\<exists>w' sent. wallet_sweep_with_filter_impl ex_crypto ex_env (ex_send_lib dl) (CStr ''w'') CNull (CStr ''w'') CNull 16 False ex_world =
     ((Value (Some (Sweep_Sent (hex_lowercase (hx 33)) 95 5)), w'), sent)"
proof -
  let ?s = "\<lparr>sn_world = clear_last_error ex_world, sn_calls = 0, sn_sent = []\<rparr>"
  let ?op = "sweep_opening ex_crypto ex_env (ex_send_lib dl) (CStr ''w'') CNull (CStr ''w'') CNull 16"
  have st: "wd_store (sn_world ?s) = [(''w'', ex_wallet)]" "\<not> wd_store_poisoned (sn_world ?s)"
    by (simp_all add: clear_last_error_def ex_world_def)
  obtain pair daemon s1 where op: "?op ?s = (Done (ex_opened pair daemon), s1)"
    and s1: "wd_store (sn_world s1) = [(''w'', ex_wallet)]" "\<not> wd_store_poisoned (sn_world s1)"
    using ex_sweep_opening [of ?s dl, OF st] st by auto
  have tot: "sweep_totals (sl_fee (ex_send_lib dl)) 100 (Some 5) = (95, 5)"
    by (simp add: sweep_totals_def sat_sub_def)
  have sign: "sign_transaction_on_large_stack (ex_send_lib dl) 5 k t = (Done (Inr ex_signed), tick_calls t)" for k t
    by (simp add: sign_transaction_on_large_stack_def ask_def ex_send_lib_def)
  have "\<exists>s2. sweep_body ex_crypto ex_env (ex_send_lib dl) False (ex_opened pair daemon) s1 =
      (Done (Sweep_Sent (hex_lowercase (hx 33)) 95 5), s2)"
    using s1
    by (simp add: sweep_body_def Let_def ex_opened_simps bnd_run [OF ex_sweep_inputs] bnd_run [OF ex_fee_loop] tot
        bnd_run [OF sign] bnd_run [OF ex_broadcast] sweep_accepted_def change_wallet_def put_wallet_def bnd_def done1_def
        hm_insert_def ex_signed_def sweep_plan_def del: append.simps)
  then obtain s2 where run: "bnd ?op (sweep_body ex_crypto ex_env (ex_send_lib dl) False) ?s =
      (Done (Sweep_Sent (hex_lowercase (hx 33)) 95 5), s2)"
    using bnd_run [where m = ?op, OF op] by metis
  show ?thesis
    using run_sending_Done(2) [where m = "bnd ?op (sweep_body ex_crypto ex_env (ex_send_lib dl) False)" and w = ex_world, OF run]
    by (simp add: wallet_sweep_with_filter_impl_def)
qed

text \<open>A fee between the last two guesses: the transaction of the last round pays what its guess leaves,
  and the call reports what the fee leaves. A transaction is represented by the guess it was built with.\<close>

lemma sweep_last_round_pays_less:
  "sweep_rounds (\<lambda>g. done1 (if g < 320000000 then Inl ''not enough funds'' else Inr g)) (\<lambda>_. 320000000) nm
       max_sweep_rounds 0 None s = (Done (320000000, Some 350000000), s) \<and>
   sweep_totals (\<lambda>_. 320000000) 1000000000 (Some 350000000) = (680000000, 320000000)"
proof -
  have m: "max_sweep_rounds = Suc (Suc (Suc (Suc (Suc (Suc (Suc (Suc 0)))))))" by (simp add: max_sweep_rounds_def)
  have c: "str_contains ''not enough funds'' ''not enough funds''" by simp
  show ?thesis
    unfolding m using c by (simp add: bnd_start sat_add_def u64_max_def sweep_totals_def sat_sub_def done1_def)
qed

end
