(* ===== verification/Range_Fetch.thy ===== *)
theory Range_Fetch
  imports Refresh_Policy Daemon_Rpc
begin

text \<open>
  Fetching a range of blocks in one binary request (\<open>fetch_scannable_blocks_range_bin\<close> of
  \<open>ffi/refresh.rs\<close>): the request, the limits on the answer, the decoding of every entry, the linkage of
  the blocks, the index of the first RingCT output of each block, and the one retry without pruning. The
  block and transaction codecs, the daemon client and the JSON reader are parameters.
\<close>

section \<open>Data\<close>

text \<open>What the code reads of a parsed block, of a transaction and of the answers it asks for.\<close>

record ('b, 'tx) range_lib = "'tx tx_codec" +
  rg_outputs :: "'tx \<Rightarrow> nat"
  rg_read_block :: "bytes \<Rightarrow> string + 'b \<times> nat"
  rg_number :: "'b \<Rightarrow> usize"
  rg_previous :: "'b \<Rightarrow> hash32"
  rg_block_hash :: "'b \<Rightarrow> hash32"
  rg_tx_hashes :: "'b \<Rightarrow> hash32 list"
  rg_miner :: "'b \<Rightarrow> 'tx"
  rg_miner_hash :: "'b \<Rightarrow> hash32"
  rg_display :: "interface_error \<Rightarrow> string"
  rg_url :: url_lib
  rg_proxy_valid :: "string \<Rightarrow> bool"
  rg_routes :: route_state
  rg_daemon :: daemon_lib
  rg_client_indexes :: "hash32 \<Rightarrow> nat \<Rightarrow> interface_error + u64 list"
  rg_txs_json :: "bytes \<Rightarrow> string + (string \<times> u64 list) list"

datatype range_error = Range_Rpc interface_error | Retry_Unpruned interface_error

record ('b, 'tx) decoded_block =
  dk_block :: 'b
  dk_txs :: "'tx list"

record ('b, 'tx) range_block = "('b, 'tx) decoded_block" +
  rb_first_index :: "u64 option"

text \<open>A fetch may leave an error message in the process state and makes numbered requests.\<close>

record fetcher =
  ft_world :: world
  ft_calls :: nat
  ft_sent :: sent

type_synonym ('e, 'a) fetching = "fetcher \<Rightarrow> ('e + 'a) \<times> fetcher"

definition ft_ok :: "'a \<Rightarrow> ('e, 'a) fetching" where
  "ft_ok x s = (Inr x, s)"

definition ft_fail :: "'e \<Rightarrow> ('e, 'a) fetching" where
  "ft_fail e s = (Inl e, s)"

definition ft_bind :: "('e, 'a) fetching \<Rightarrow> ('a \<Rightarrow> ('e, 'b) fetching) \<Rightarrow> ('e, 'b) fetching" where
  "ft_bind m f s = (case m s of (Inl e, s') \<Rightarrow> (Inl e, s') | (Inr x, s') \<Rightarrow> f x s')"

definition ft_map_err :: "('e \<Rightarrow> 'f) \<Rightarrow> ('e, 'a) fetching \<Rightarrow> ('f, 'a) fetching" where
  "ft_map_err g m s = (case m s of (Inl e, s') \<Rightarrow> (Inl (g e), s') | (Inr x, s') \<Rightarrow> (Inr x, s'))"

definition ft_sum :: "'e + 'a \<Rightarrow> ('e, 'a) fetching" where
  "ft_sum r s = (r, s)"

definition ft_rpc :: "('e + 'a) rpc \<Rightarrow> ('e, 'a) fetching" where
  "ft_rpc m s =
     (let (r, out) = m (ft_calls s) in
      (r, s\<lparr>ft_calls := ft_calls s + length out, ft_sent := ft_sent s @ out\<rparr>))"

definition ft_client :: "(nat \<Rightarrow> 'e + 'a) \<Rightarrow> ('e, 'a) fetching" where
  "ft_client f s = (f (ft_calls s), s\<lparr>ft_calls := Suc (ft_calls s)\<rparr>)"

definition open_transport :: "('b, 'tx) range_lib \<Rightarrow> string \<Rightarrow> (int, blocking_transport) fetching" where
  "open_transport rl base_url s =
     (let (r, w) = blocking_new (rg_url rl) (rg_proxy_valid rl) (rg_routes rl) base_url (ft_world s) in
      (r, s\<lparr>ft_world := w\<rparr>))"

definition invalid :: "string \<Rightarrow> range_error" where
  "invalid message = Range_Rpc (InvalidInterface message)"

definition to_range :: "string + 'a \<Rightarrow> range_error + 'a" where
  "to_range r = (case r of Inl message \<Rightarrow> Inl (invalid message) | Inr x \<Rightarrow> Inr x)"

section \<open>The request and its limits\<close>

definition requested_blocks :: "usize \<Rightarrow> usize \<Rightarrow> usize option" where
  "requested_blocks start_bn end_bn = Option.bind (checked_sub end_bn start_bn) (\<lambda>n. checked_add n 1)"

definition range_transport_error :: "string \<Rightarrow> int \<Rightarrow> range_error" where
  "range_transport_error base_url code =
     Range_Rpc (InternalError (''range fetch transport init failed for '' @ [CHR 39] @ base_url @ [CHR 39]
       @ '' (code='' @ show_int code @ '')''))"

definition count_text :: "usize \<Rightarrow> usize \<Rightarrow> string" where
  "count_text start_bn end_bn = '' for heights '' @ show_nat start_bn @ ''..='' @ show_nat end_bn"

definition check_range_answer :: "usize \<Rightarrow> usize \<Rightarrow> nat \<Rightarrow> get_blocks_response \<Rightarrow> string + unit" where
  "check_range_answer start_bn end_bn requested resp =
     (let n = length (rr_blocks resp) in
      if (case rr_status resp of None \<Rightarrow> False | Some status \<Rightarrow> \<not> eq_ignore_ascii_case status ''OK'')
      then Inl (''range get_blocks.bin returned status='' @ opt_get_or [] (rr_status resp))
      else if n = 0
      then Inl (''range get_blocks.bin returned 0 blocks, expected up to '' @ show_nat requested @ count_text start_bn end_bn)
      else if requested < n
      then Inl (''range get_blocks.bin returned '' @ show_nat n @ '' blocks, requested '' @ show_nat requested
             @ count_text start_bn end_bn)
      else Inr ())"

section \<open>Decoding\<close>

definition entry_label :: "nat \<Rightarrow> string \<Rightarrow> string" where
  "entry_label block_idx rest = ''range get_blocks.bin block['' @ show_nat block_idx @ '']'' @ rest"

definition from_decode :: "range_fetch_error + 'a \<Rightarrow> range_error + 'a" where
  "from_decode r =
     (case r of Inl (RF_Rpc m) \<Rightarrow> Inl (invalid m) | Inl (RF_RetryUnpruned m) \<Rightarrow> Inl (Retry_Unpruned (InvalidInterface m))
      | Inr x \<Rightarrow> Inr x)"

text \<open>The transactions in the order of the hashes; the first failure ends the decoding.\<close>

fun decode_entry_txs ::
  "('b, 'tx) range_lib \<Rightarrow> nat \<Rightarrow> nat \<Rightarrow> (hash32 \<times> tx_blob_entry) list \<Rightarrow> range_error + 'tx list" where
  "decode_entry_txs rl block_idx tx_idx [] = Inr []"
| "decode_entry_txs rl block_idx tx_idx ((expected_hash, tx_entry) # rest) =
     and_then (from_decode (decode_range_transaction (tx_codec.truncate rl) (te_blob tx_entry) (te_prunable_hash tx_entry)
                 expected_hash block_idx tx_idx))
       (\<lambda>tx. and_then (decode_entry_txs rl block_idx (Suc tx_idx) rest) (\<lambda>txs. Inr (tx # txs)))"

definition decode_range_block_entry ::
  "('b, 'tx) range_lib \<Rightarrow> nat \<Rightarrow> block_complete_entry \<Rightarrow> range_error + ('b, 'tx) decoded_block" where
  "decode_range_block_entry rl block_idx entry =
     (case rg_read_block rl (be_block entry) of
        Inl error \<Rightarrow> Inl (invalid (entry_label block_idx ('' decode failed: '' @ error)))
      | Inr (block, left) \<Rightarrow>
          if left \<noteq> 0
          then Inl (invalid (entry_label block_idx ('' had '' @ show_nat left @ '' trailing bytes'')))
          else if length (rg_tx_hashes rl block) \<noteq> length (be_txs entry)
          then Inl (invalid (entry_label block_idx ('' had '' @ show_nat (length (rg_tx_hashes rl block))
                 @ '' tx hashes but '' @ show_nat (length (be_txs entry)) @ '' tx blobs'')))
          else and_then (decode_entry_txs rl block_idx 0 (zip (rg_tx_hashes rl block) (be_txs entry)))
                 (\<lambda>txs. Inr \<lparr>dk_block = block, dk_txs = txs\<rparr>))"

text \<open>All entries are decoded, in any order; the first error in the order of the blocks is the answer's.\<close>

fun first_error :: "('e + 'a) list \<Rightarrow> 'e + 'a list" where
  "first_error [] = Inr []"
| "first_error (r # rs) = and_then r (\<lambda>x. and_then (first_error rs) (\<lambda>xs. Inr (x # xs)))"

definition decode_entries ::
  "('b, 'tx) range_lib \<Rightarrow> block_complete_entry list \<Rightarrow> range_error + ('b, 'tx) decoded_block list" where
  "decode_entries rl entries = first_error (map (\<lambda>(i, entry). decode_range_block_entry rl i entry) (enumerate 0 entries))"

definition link_view :: "('b, 'tx) range_lib \<Rightarrow> ('b, 'tx) decoded_block \<Rightarrow> decoded_range_block" where
  "link_view rl d =
     \<lparr>db_number = rg_number rl (dk_block d), db_previous = rg_previous rl (dk_block d),
      db_hash = rg_block_hash rl (dk_block d)\<rparr>"

section \<open>The index of the first RingCT output\<close>

definition tx_shape :: "('b, 'tx) range_lib \<Rightarrow> 'tx \<Rightarrow> bool \<times> nat" where
  "tx_shape rl tx = (tc_is_v1 rl tx, rg_outputs rl tx)"

definition has_ringct_outputs :: "('b, 'tx) range_lib \<Rightarrow> 'tx \<Rightarrow> bool" where
  "has_ringct_outputs rl tx \<longleftrightarrow> \<not> tc_is_v1 rl tx \<and> rg_outputs rl tx \<noteq> 0"

definition get_transactions_body :: "('b, 'tx) range_lib \<Rightarrow> string \<Rightarrow> bytes" where
  "get_transactions_body rl tx_hash_hex =
     dl_json_text (rg_daemon rl)
       (JObj [(''txs_hashes'', JArr [JStr tx_hash_hex]), (''decode_as_json'', JBool False), (''prune'', JBool False),
              (''split'', JBool False)])"

definition fetch_output_indexes_via_get_transactions ::
  "('b, 'tx) range_lib \<Rightarrow> string \<Rightarrow> hash32 \<Rightarrow> (interface_error, u64 list) fetching" where
  "fetch_output_indexes_via_get_transactions rl base_url txid =
     (let tx_hash_hex = hex_lowercase txid in
      ft_bind (ft_map_err (\<lambda>_. InvalidInterface ''invalid fallback node URL'') (open_transport rl base_url)) (\<lambda>t.
      ft_bind (ft_rpc (post_bytes (rg_daemon rl) t ''get_transactions'' (get_transactions_body rl tx_hash_hex))) (\<lambda>bs.
      case rg_txs_json rl bs of
        Inl e \<Rightarrow> ft_fail (InvalidInterface (''get_transactions fallback json decode failed: '' @ e))
      | Inr txs \<Rightarrow>
          (case find (\<lambda>(h, _). eq_ignore_ascii_case h tx_hash_hex) txs of
             None \<Rightarrow> ft_fail (InvalidInterface ''get_transactions fallback did not return requested tx output indices'')
           | Some (_, indices) \<Rightarrow> ft_ok indices))))"

definition client_or_fallback :: "('b, 'tx) range_lib \<Rightarrow> string \<Rightarrow> nat \<Rightarrow> hash32 \<Rightarrow> (range_error, u64 list) fetching" where
  "client_or_fallback rl base_url block_idx txid s =
     (case ft_client (rg_client_indexes rl txid) s of
        (Inr v, s') \<Rightarrow> (Inr v, s')
      | (Inl primary_err, s') \<Rightarrow>
          ft_map_err (\<lambda>fallback_err. invalid (entry_label block_idx ('' output_indexes failed: primary=''
              @ rg_display rl primary_err @ ''; fallback='' @ rg_display rl fallback_err)))
            (fetch_output_indexes_via_get_transactions rl base_url txid) s')"

text \<open>Only the first transaction with RingCT outputs is asked about.\<close>

fun ask_first_index ::
  "('b, 'tx) range_lib \<Rightarrow> string \<Rightarrow> nat \<Rightarrow> (hash32 \<times> 'tx) list \<Rightarrow> (range_error, u64 option) fetching" where
  "ask_first_index rl base_url block_idx [] = ft_ok None"
| "ask_first_index rl base_url block_idx ((txid, tx) # rest) =
     (if \<not> has_ringct_outputs rl tx then ask_first_index rl base_url block_idx rest
      else ft_bind (client_or_fallback rl base_url block_idx txid) (\<lambda>indexes.
        if length indexes \<noteq> rg_outputs rl tx
        then ft_fail (invalid (''range get_blocks.bin returned '' @ show_nat (length indexes) @ '' output indexes for ''
               @ show_nat (rg_outputs rl tx) @ '' outputs''))
        else ft_ok (case indexes of [] \<Rightarrow> None | i # _ \<Rightarrow> Some i)))"

definition inline_first_index ::
  "('b, 'tx) range_lib \<Rightarrow> nat \<Rightarrow> ('b, 'tx) decoded_block \<Rightarrow> block_output_indices option \<Rightarrow> range_error + u64 option" where
  "inline_first_index rl block_idx d entries =
     and_then (to_range (get_output_indexes_from_block_response block_idx (tx_shape rl (rg_miner rl (dk_block d)))
                 (map (tx_shape rl) (dk_txs d)) entries))
       (\<lambda>r. Inr (case r of None \<Rightarrow> None | Some [] \<Rightarrow> None | Some (i # _) \<Rightarrow> Some i))"

definition block_txs :: "('b, 'tx) range_lib \<Rightarrow> ('b, 'tx) decoded_block \<Rightarrow> (hash32 \<times> 'tx) list" where
  "block_txs rl d =
     (rg_miner_hash rl (dk_block d), rg_miner rl (dk_block d)) # zip (rg_tx_hashes rl (dk_block d)) (dk_txs d)"

definition first_index ::
  "('b, 'tx) range_lib \<Rightarrow> string \<Rightarrow> nat \<Rightarrow> ('b, 'tx) decoded_block \<Rightarrow> block_output_indices option
   \<Rightarrow> (range_error, u64 option) fetching" where
  "first_index rl base_url block_idx d entries =
     ft_bind (ft_sum (inline_first_index rl block_idx d entries)) (\<lambda>r. case r of
       Some i \<Rightarrow> ft_ok (Some i)
     | None \<Rightarrow> ask_first_index rl base_url block_idx (block_txs rl d))"

fun finish_blocks ::
  "('b, 'tx) range_lib \<Rightarrow> string \<Rightarrow> block_output_indices list \<Rightarrow> nat \<Rightarrow> ('b, 'tx) decoded_block list
   \<Rightarrow> (range_error, ('b, 'tx) range_block list) fetching" where
  "finish_blocks rl base_url indices block_idx [] = ft_ok []"
| "finish_blocks rl base_url indices block_idx (d # ds) =
     ft_bind (first_index rl base_url block_idx d
                (if block_idx < length indices then Some (indices ! block_idx) else None)) (\<lambda>i.
     ft_bind (finish_blocks rl base_url indices (Suc block_idx) ds) (\<lambda>bs.
       ft_ok (\<lparr>dk_block = dk_block d, dk_txs = dk_txs d, rb_first_index = i\<rparr> # bs)))"

section \<open>The whole fetch\<close>

definition fetch_scannable_blocks_range_bin_with_prune ::
  "('b, 'tx) range_lib \<Rightarrow> string \<Rightarrow> usize \<Rightarrow> usize \<Rightarrow> bool \<Rightarrow> (range_error, ('b, 'tx) range_block list) fetching" where
  "fetch_scannable_blocks_range_bin_with_prune rl base_url start_bn end_bn prune =
     (case requested_blocks start_bn end_bn of
        None \<Rightarrow> ft_fail (Range_Rpc (InternalError ''range fetch block count overflow''))
      | Some requested \<Rightarrow>
      ft_bind (ft_map_err (range_transport_error base_url) (open_transport rl base_url)) (\<lambda>t.
      ft_bind (ft_map_err Range_Rpc (ft_rpc (get_blocks_bin (rg_daemon rl) t start_bn requested prune))) (\<lambda>resp.
      ft_bind (ft_sum (to_range (check_range_answer start_bn end_bn requested resp))) (\<lambda>_.
      ft_bind (ft_sum (decode_entries rl (rr_blocks resp))) (\<lambda>decoded_blocks.
      ft_bind (ft_sum (to_range (validate_range_blocks start_bn (map (link_view rl) decoded_blocks)))) (\<lambda>_.
        finish_blocks rl base_url (opt_get_or [] (rr_output_indices resp)) 0 decoded_blocks))))))"

definition range_error_of :: "range_error \<Rightarrow> interface_error" where
  "range_error_of e = (case e of Range_Rpc e \<Rightarrow> e | Retry_Unpruned e \<Rightarrow> e)"

text \<open>An answer whose pruned transactions cannot be checked is asked for once more, without pruning.\<close>

definition fetch_scannable_blocks_range_bin ::
  "('b, 'tx) range_lib \<Rightarrow> string \<Rightarrow> usize \<Rightarrow> usize \<Rightarrow> (interface_error, ('b, 'tx) range_block list) fetching" where
  "fetch_scannable_blocks_range_bin rl base_url start_bn end_bn s =
     (case fetch_scannable_blocks_range_bin_with_prune rl base_url start_bn end_bn True s of
        (Inr blocks, s') \<Rightarrow> (Inr blocks, s')
      | (Inl (Retry_Unpruned _), s') \<Rightarrow>
          ft_map_err range_error_of (fetch_scannable_blocks_range_bin_with_prune rl base_url start_bn end_bn False) s'
      | (Inl (Range_Rpc e), s') \<Rightarrow> (Inl e, s'))"

section \<open>Inversion of a successful fetch\<close>

lemma ft_simps [simp]:
  "ft_ok x s = (r, s') \<longleftrightarrow> r = Inr x \<and> s' = s" "ft_fail e s = (r, s') \<longleftrightarrow> r = Inl e \<and> s' = s"
  "ft_sum q s = (r, s') \<longleftrightarrow> r = q \<and> s' = s"
  by (auto simp: ft_ok_def ft_fail_def ft_sum_def)

lemma ft_bind_Inr: "ft_bind m f s = (Inr y, s2) \<longleftrightarrow> (\<exists>x s1. m s = (Inr x, s1) \<and> f x s1 = (Inr y, s2))"
  by (auto simp: ft_bind_def split: prod.split sum.split)

lemma ft_bind_sum: "ft_bind (ft_sum q) f s = (Inr y, s2) \<longleftrightarrow> (\<exists>x. q = Inr x \<and> f x s = (Inr y, s2))"
  by (auto simp: ft_bind_def ft_sum_def split: sum.split)

lemma ft_map_err_Inr [simp]: "ft_map_err g m s = (Inr y, s2) \<longleftrightarrow> m s = (Inr y, s2)"
  by (auto simp: ft_map_err_def split: prod.split sum.split)

lemma and_then_Inr: "and_then r f = Inr y \<longleftrightarrow> (\<exists>x. r = Inr x \<and> f x = Inr y)"
  by (auto simp: and_then_def split: sum.split)

lemma to_range_Inr [simp]: "to_range r = Inr x \<longleftrightarrow> r = Inr x"
  by (auto simp: to_range_def split: sum.split)

lemma from_decode_Inr [simp]: "from_decode r = Inr x \<longleftrightarrow> r = Inr x"
  by (auto simp: from_decode_def split: sum.split range_fetch_error.split)

section \<open>What an accepted range guarantees\<close>

text \<open>A transaction whose hash was checked against the one the block commits to.\<close>

definition verified_tx :: "('b, 'tx) range_lib \<Rightarrow> 'tx \<Rightarrow> hash32 \<Rightarrow> bool" where
  "verified_tx rl tx' h \<longleftrightarrow>
     (\<exists>tx u. tc_verify rl tx u h = Some tx') \<or> (\<exists>tx. tc_full_hash rl tx = h \<and> tx' = tc_prune rl tx)"

lemma truncate_codec [simp]: "tc_verify (tx_codec.truncate rl) = tc_verify rl"
  "tc_full_hash (tx_codec.truncate rl) = tc_full_hash rl" "tc_prune (tx_codec.truncate rl) = tc_prune rl"
  by (simp_all add: tx_codec.truncate_def)

lemma verified_txI: "decode_range_transaction (tx_codec.truncate rl) blob ph h bi ti = Inr tx \<Longrightarrow> verified_tx rl tx h"
  using decode_range_verified [of "tx_codec.truncate rl" blob ph h bi ti tx] unfolding verified_tx_def truncate_codec by blast

lemma decode_entry_txs_verified:
  "decode_entry_txs rl bi ti xs = Inr txs \<Longrightarrow> list_all2 (verified_tx rl) txs (map fst xs)"
proof (induction rl bi ti xs arbitrary: txs rule: decode_entry_txs.induct)
  case (2 rl bi ti h e rest)
  then show ?case
    by (auto simp: and_then_Inr dest: verified_txI)
qed simp

lemma decode_entry_ok:
  assumes "decode_range_block_entry rl bi entry = Inr d"
  shows "list_all2 (verified_tx rl) (dk_txs d) (rg_tx_hashes rl (dk_block d))"
    and "rg_read_block rl (be_block entry) = Inr (dk_block d, 0)"
  using assms by (auto simp: decode_range_block_entry_def and_then_Inr dest!: decode_entry_txs_verified
      split: sum.splits prod.splits if_splits)

lemma first_error_Inr: "first_error rs = Inr xs \<longleftrightarrow> rs = map Inr xs"
  by (induction rs arbitrary: xs) (auto simp: and_then_Inr Cons_eq_map_conv)

lemma decode_entries_ok:
  assumes "decode_entries rl entries = Inr ds"
  shows "length ds = length entries"
    and "\<And>j. j < length ds \<Longrightarrow> decode_range_block_entry rl j (entries ! j) = Inr (ds ! j)"
proof -
  have m: "map (\<lambda>(i, entry). decode_range_block_entry rl i entry) (enumerate 0 entries) = map Inr ds"
    using assms by (simp add: decode_entries_def first_error_Inr)
  show len: "length ds = length entries" using arg_cong [OF m, of length] by simp
  show "decode_range_block_entry rl j (entries ! j) = Inr (ds ! j)" if "j < length ds" for j
    using arg_cong [OF m, of "\<lambda>xs. xs ! j"] that len by (simp add: nth_enumerate_eq)
qed

text \<open>The index of the first RingCT output is missing exactly when the block has none.\<close>

definition no_ringct :: "('b, 'tx) range_lib \<Rightarrow> ('b, 'tx) decoded_block \<Rightarrow> bool" where
  "no_ringct rl d \<longleftrightarrow> (\<forall>tx \<in> set (rg_miner rl (dk_block d) # dk_txs d). \<not> has_ringct_outputs rl tx)"

lemma first_output_indexes_Some:
  "first_output_indexes bi ys = Inr (Some is) \<Longrightarrow> is \<noteq> [] \<and> (\<exists>v outs. ((v, outs), is) \<in> set ys \<and> \<not> v \<and> outs \<noteq> 0)"
  by (induction bi ys rule: first_output_indexes.induct) (auto split: if_splits)

lemma inline_first_index_Some:
  assumes "inline_first_index rl bi d entries = Inr (Some i)" shows "\<not> no_ringct rl d"
proof -
  let ?get = "get_output_indexes_from_block_response bi (tx_shape rl (rg_miner rl (dk_block d))) (map (tx_shape rl) (dk_txs d)) entries"
  obtain q where "?get = Inr q" "(case q of None \<Rightarrow> None | Some [] \<Rightarrow> None | Some (i # _) \<Rightarrow> Some i) = Some i"
    using assms unfolding inline_first_index_def and_then_Inr to_range_Inr by auto
  then obtain "is" where r: "?get = Inr (Some is)" by (cases q) auto
  obtain es where "entries = Some es" using r by (auto simp: get_output_indexes_from_block_response_def split: option.splits)
  then have "first_output_indexes bi (zip (tx_shape rl (rg_miner rl (dk_block d)) # map (tx_shape rl) (dk_txs d)) es) = Inr (Some is) \<or>
      first_output_indexes bi (zip (map (tx_shape rl) (dk_txs d)) es) = Inr (Some is)"
    using r by (simp add: get_output_indexes_from_block_response_def Let_def split: if_splits)
  then have "\<exists>ys. set (map fst ys) \<subseteq> set (map (tx_shape rl) (rg_miner rl (dk_block d) # dk_txs d)) \<and>
      first_output_indexes bi ys = Inr (Some is)"
    by (elim disjE; intro exI conjI; assumption?) (auto dest: set_zip_leftD)
  then obtain ys where ys: "set (map fst ys) \<subseteq> set (map (tx_shape rl) (rg_miner rl (dk_block d) # dk_txs d))"
    "first_output_indexes bi ys = Inr (Some is)" by blast
  obtain v outs where "((v, outs), is) \<in> set ys" "\<not> v" "outs \<noteq> 0" using first_output_indexes_Some [OF ys(2)] by blast
  moreover from this(1) have "(v, outs) \<in> set (map fst ys)" by force
  then have "(v, outs) \<in> set (map (tx_shape rl) (rg_miner rl (dk_block d) # dk_txs d))" using ys(1) by blast
  then obtain tx where "tx \<in> set (rg_miner rl (dk_block d) # dk_txs d)" "(v, outs) = tx_shape rl tx"
    unfolding set_map by blast
  then show ?thesis using \<open>\<not> v\<close> \<open>outs \<noteq> 0\<close> unfolding no_ringct_def has_ringct_outputs_def tx_shape_def by blast
qed

lemma ask_first_index_None:
  "ask_first_index rl url bi xs s = (Inr r, s') \<Longrightarrow> r = None \<longleftrightarrow> (\<forall>(h, tx) \<in> set xs. \<not> has_ringct_outputs rl tx)"
proof (induction rl url bi xs arbitrary: s rule: ask_first_index.induct)
  case (2 rl url bi h tx rest)
  then show ?case
    by (cases "has_ringct_outputs rl tx")
       (auto simp: ft_bind_Inr has_ringct_outputs_def split: if_splits list.splits)
qed auto

lemma first_index_None:
  assumes "first_index rl url bi d entries s = (Inr r, s')" "length (dk_txs d) = length (rg_tx_hashes rl (dk_block d))"
  shows "r = None \<longleftrightarrow> no_ringct rl d"
proof -
  obtain q where inline: "inline_first_index rl bi d entries = Inr q"
    and rest: "(case q of Some i \<Rightarrow> ft_ok (Some i) | None \<Rightarrow> ask_first_index rl url bi (block_txs rl d)) s = (Inr r, s')"
    using assms(1) unfolding first_index_def ft_bind_sum by blast
  have txs: "(\<forall>(h, tx) \<in> set (block_txs rl d). \<not> has_ringct_outputs rl tx) \<longleftrightarrow> no_ringct rl d"
  proof -
    have "snd ` set (zip (rg_tx_hashes rl (dk_block d)) (dk_txs d)) = set (dk_txs d)"
      using assms(2) by (metis list.set_map map_snd_zip)
    then show ?thesis by (force simp: block_txs_def no_ringct_def)
  qed
  show ?thesis
  proof (cases q)
    case None
    then show ?thesis using ask_first_index_None [of rl url bi "block_txs rl d" s r s'] rest txs by simp
  next
    case (Some i)
    then show ?thesis using inline_first_index_Some [of rl bi d entries i] inline rest by simp
  qed
qed

lemma finish_blocks_ok:
  assumes "finish_blocks rl url indices k ds s = (Inr bs, s')"
    and "\<forall>d \<in> set ds. length (dk_txs d) = length (rg_tx_hashes rl (dk_block d))"
  shows "list_all2 (\<lambda>b d. dk_block b = dk_block d \<and> dk_txs b = dk_txs d \<and> (rb_first_index b = None \<longleftrightarrow> no_ringct rl d)) bs ds"
  using assms
proof (induction rl url indices k ds arbitrary: s bs rule: finish_blocks.induct)
  case (2 rl url indices k d ds)
  then show ?case by (auto simp: ft_bind_Inr dest: first_index_None)
qed simp

text \<open>One accepted answer, pruned or not.\<close>

definition accepted_range :: "('b, 'tx) range_lib \<Rightarrow> usize \<Rightarrow> usize \<Rightarrow> ('b, 'tx) range_block list \<Rightarrow> bool" where
  "accepted_range rl start_bn end_bn blocks \<longleftrightarrow>
     blocks \<noteq> [] \<and> start_bn + length blocks \<le> end_bn + 1 \<and>
     (\<forall>j < length blocks.
        (let b = blocks ! j; block = dk_block b in
         rg_number rl block = start_bn + j \<and>
         (j = 0 \<longrightarrow> start_bn = 0 \<longrightarrow> rg_previous rl block = replicate 32 0) \<and>
         (0 < j \<longrightarrow> rg_previous rl block = rg_block_hash rl (dk_block (blocks ! (j - 1)))) \<and>
         list_all2 (verified_tx rl) (dk_txs b) (rg_tx_hashes rl block) \<and>
         (rb_first_index b = None \<longleftrightarrow>
            (\<forall>tx \<in> set (rg_miner rl block # dk_txs b). \<not> has_ringct_outputs rl tx))))"

lemma fetch_with_prune_ok:
  assumes "fetch_scannable_blocks_range_bin_with_prune rl url start_bn end_bn prune s = (Inr blocks, s')"
  shows "accepted_range rl start_bn end_bn blocks"
proof -
  obtain req resp ds t where req: "requested_blocks start_bn end_bn = Some req"
    and chk: "check_range_answer start_bn end_bn req resp = Inr ()"
    and dec: "decode_entries rl (rr_blocks resp) = Inr ds"
    and val: "validate_range_blocks start_bn (map (link_view rl) ds) = Inr ()"
    and fin: "finish_blocks rl url (opt_get_or [] (rr_output_indices resp)) 0 ds t = (Inr blocks, s')"
  proof -
    obtain req where r: "requested_blocks start_bn end_bn = Some req"
      using assms by (cases "requested_blocks start_bn end_bn") (simp_all add: fetch_scannable_blocks_range_bin_with_prune_def)
    show ?thesis
      using assms that [OF r]
      unfolding fetch_scannable_blocks_range_bin_with_prune_def r option.case ft_bind_sum to_range_Inr
        ft_bind_Inr [where m = "ft_map_err g m" for g m] by fastforce
  qed
  have n: "req + start_bn = end_bn + 1"
    using req by (auto simp: requested_blocks_def checked_sub_def bind_eq_Some_conv split: if_splits)
  have len: "length ds = length (rr_blocks resp)" by (rule decode_entries_ok(1) [OF dec])
  have bound: "ds \<noteq> []" "length ds \<le> req"
    using chk len by (auto simp: check_range_answer_def Let_def split: if_splits)
  have ver: "list_all2 (verified_tx rl) (dk_txs (ds ! j)) (rg_tx_hashes rl (dk_block (ds ! j)))" if "j < length ds" for j
    by (rule decode_entry_ok(1) [OF decode_entries_ok(2) [OF dec that]])
  then have "\<forall>d \<in> set ds. length (dk_txs d) = length (rg_tx_hashes rl (dk_block d))"
    by (metis in_set_conv_nth list_all2_lengthD)
  from finish_blocks_ok [OF fin this]
  have rel: "list_all2 (\<lambda>b d. dk_block b = dk_block d \<and> dk_txs b = dk_txs d \<and> (rb_first_index b = None \<longleftrightarrow> no_ringct rl d)) blocks ds" .
  have lb: "length blocks = length ds" by (rule list_all2_lengthD [OF rel])
  note at = list_all2_nthD [OF rel]
  have prev: "dk_block (blocks ! (j - 1)) = dk_block (ds ! (j - 1))" if "j < length blocks" for j
    using at [of "j - 1"] that by simp
  show ?thesis
    unfolding accepted_range_def Let_def
  proof (intro conjI allI impI)
    show "blocks \<noteq> []" "start_bn + length blocks \<le> end_bn + 1" using bound lb n by auto
  next
    fix j assume j: "j < length blocks"
    have jd: "j < length ds" using j lb by simp
    note val1 = val [unfolded validate_range_blocks_spec, rule_format, of j]
    show "rg_number rl (dk_block (blocks ! j)) = start_bn + j"
      using val1 jd at [OF j] by (simp add: link_view_def)
    show "rg_previous rl (dk_block (blocks ! j)) = replicate 32 0" if "j = 0" "start_bn = 0"
      using val1 jd at [OF j] that by (simp add: link_view_def)
    show "rg_previous rl (dk_block (blocks ! j)) = rg_block_hash rl (dk_block (blocks ! (j - 1)))" if "0 < j"
      using val1 jd at [OF j] prev [OF j] that by (simp add: link_view_def less_imp_diff_less)
    show "list_all2 (verified_tx rl) (dk_txs (blocks ! j)) (rg_tx_hashes rl (dk_block (blocks ! j)))"
      using ver [OF jd] at [OF j] by simp
    show "rb_first_index (blocks ! j) = None \<longleftrightarrow>
        (\<forall>tx \<in> set (rg_miner rl (dk_block (blocks ! j)) # dk_txs (blocks ! j)). \<not> has_ringct_outputs rl tx)"
      using at [OF j] by (simp add: no_ringct_def)
  qed
qed

lemma range_fetch_ok:
  "fetch_scannable_blocks_range_bin rl url start_bn end_bn s = (Inr blocks, s') \<Longrightarrow> accepted_range rl start_bn end_bn blocks"
  by (auto simp: fetch_scannable_blocks_range_bin_def intro: fetch_with_prune_ok split: prod.splits sum.splits range_error.splits)

text \<open>A range whose end is below its start, or that is all of the integers, makes no request.\<close>

lemma range_count_refused:
  "requested_blocks start_bn end_bn = None \<Longrightarrow>
     fetch_scannable_blocks_range_bin rl url start_bn end_bn s = (Inl (InternalError ''range fetch block count overflow''), s)"
  by (simp add: fetch_scannable_blocks_range_bin_def fetch_scannable_blocks_range_bin_with_prune_def ft_fail_def)

text \<open>When an answer lists the outputs of the other transactions only, the index of the first of them is
  taken, although the miner transaction has RingCT outputs as well.\<close>

lemma inline_index_skips_the_miner:
  "get_output_indexes_from_block_response 0 (False, 1) [(False, 2)] (Some [[7, 8]]) = Inr (Some [7, 8])"
  by (simp add: get_output_indexes_from_block_response_def sat_add_def u64_max_def)

end
