(* ===== verification/Prefetch.thy ===== *)
theory Prefetch
  imports Refresh_Policy
begin

text \<open>
  The prefetch pipeline of the refresh loop (\<open>wallet_refresh_impl\<close> in \<open>ffi/refresh.rs\<close>): tasks that
  fetch the ranges after the one being scanned, the queue of their answers, and what empties both. The
  Android build has one request in flight on a worker thread instead. The answers of the tasks are
  arguments; the pipeline decides which answer a batch gets.
\<close>

section \<open>The pipeline\<close>

text \<open>Answers that are ready, with the first and last height they were asked for, and the ranges of the
  tasks in flight.\<close>

record 'b pipeline =
  pl_ready :: "(u64 \<times> u64 \<times> 'b list) list"
  pl_flight :: "(u64 \<times> u64) list"

definition prefetch_depth_from_env :: "environment \<Rightarrow> usize" where
  "prefetch_depth_from_env env =
     clamp (opt_get_or 1 (Option.bind (env ''WALLETCORE_PREFETCH_DEPTH'') (parse_unsigned usize_max))) 1 2"

definition clear_stale_prefetches :: "'b pipeline \<Rightarrow> (nat \<times> nat) \<times> 'b pipeline" where
  "clear_stale_prefetches p =
     ((length (pl_ready p), length (pl_flight p)), p\<lparr>pl_ready := [], pl_flight := []\<rparr>)"

text \<open>What the batch at a cursor starts with: a matching answer, none because another range was ready, or
  none because nothing was ready.\<close>

datatype 'b taken = Prefetch_Hit "'b list" | Prefetch_Miss | Prefetch_Sync

definition take_prefetched :: "u64 \<Rightarrow> u64 \<Rightarrow> 'b pipeline \<Rightarrow> 'b taken \<times> 'b pipeline" where
  "take_prefetched start end_inclusive p =
     (case pl_ready p of
        [] \<Rightarrow> (Prefetch_Sync, p)
      | (pf_start, pf_end, v) # rest \<Rightarrow>
          if pf_start = start \<and> pf_end = end_inclusive then (Prefetch_Hit v, p\<lparr>pl_ready := rest\<rparr>)
          else (Prefetch_Miss, snd (clear_stale_prefetches (p\<lparr>pl_ready := rest\<rparr>))))"

text \<open>A short answer leaves a gap before the ranges in flight.\<close>

definition rebase_prefetch :: "u64 \<Rightarrow> u64 \<Rightarrow> 'b pipeline \<Rightarrow> 'b pipeline" where
  "rebase_prefetch end_exclusive actual_next p =
     (if actual_next \<noteq> end_exclusive then snd (clear_stale_prefetches p) else p)"

definition range_end :: "u64 \<Rightarrow> u64 \<Rightarrow> u64 \<Rightarrow> u64" where
  "range_end height batch start = min height (sat_add start batch)"

text \<open>New tasks for the ranges after those that are queued, up to the depth.\<close>

primrec spawn_prefetches :: "u64 \<Rightarrow> u64 \<Rightarrow> nat \<Rightarrow> u64 \<Rightarrow> (u64 \<times> u64) list" where
  "spawn_prefetches height batch 0 cursor = []"
| "spawn_prefetches height batch (Suc n) cursor =
     (let next_end = range_end height batch cursor in
      if next_end \<le> cursor then []
      else (cursor, sat_sub next_end 1) # spawn_prefetches height batch n next_end)"

definition fill_prefetch :: "u64 \<Rightarrow> u64 \<Rightarrow> nat \<Rightarrow> u64 \<Rightarrow> 'b pipeline \<Rightarrow> 'b pipeline" where
  "fill_prefetch height batch depth actual_next p =
     (let queued = length (pl_ready p) + length (pl_flight p);
          cursor = ((\<lambda>c. sat_add c batch) ^^ queued) actual_next in
      p\<lparr>pl_flight := pl_flight p @ spawn_prefetches height batch (depth - queued) cursor\<rparr>)"

text \<open>A task's end: its blocks, its error, or that it was aborted or panicked.\<close>

datatype 'b joined = Joined_Blocks "'b list" | Joined_Error string | Join_Failed

text \<open>While nothing is ready the oldest task is awaited; an error drops the others and may change the mode.\<close>

definition drain_prefetch ::
  "(u64 \<Rightarrow> u64 \<Rightarrow> 'b joined) \<Rightarrow> 'b pipeline \<times> bulk_fetch_mode \<Rightarrow> 'b pipeline \<times> bulk_fetch_mode" where
  "drain_prefetch answers = (\<lambda>(p, mode).
     if pl_ready p \<noteq> [] then (p, mode)
     else (case pl_flight p of
             [] \<Rightarrow> (p, mode)
           | (s, e) # rest \<Rightarrow>
               (case answers s e of
                  Joined_Blocks v \<Rightarrow> (p\<lparr>pl_ready := [(s, e, v)], pl_flight := rest\<rparr>, mode)
                | Joined_Error err \<Rightarrow>
                    (p\<lparr>pl_flight := []\<rparr>, if is_json_batch_or_shape_error err then RangeBlocks else mode)
                | Join_Failed \<Rightarrow> (p\<lparr>pl_flight := []\<rparr>, mode))))"

text \<open>What a scanned batch does to the pipeline, after \<open>returned\<close> blocks at the cursor.\<close>

definition advance_pipeline ::
  "u64 \<Rightarrow> u64 \<Rightarrow> nat \<Rightarrow> (u64 \<Rightarrow> u64 \<Rightarrow> 'b joined) \<Rightarrow> u64 \<Rightarrow> nat \<Rightarrow> 'b pipeline \<times> bulk_fetch_mode
   \<Rightarrow> u64 \<times> 'b pipeline \<times> bulk_fetch_mode" where
  "advance_pipeline height batch depth answers start returned = (\<lambda>(p, mode).
     (let actual_next = next_height_after_response start returned;
          p1 = rebase_prefetch (range_end height batch start) actual_next p in
      (actual_next, drain_prefetch answers (fill_prefetch height batch depth actual_next p1, mode))))"

section \<open>Rebuilt clients\<close>

text \<open>The \<open>k\<close>-th connection attempt of a call is a parameter.\<close>

definition connect_rpc_client :: "('e \<Rightarrow> string) \<Rightarrow> (nat \<Rightarrow> string \<Rightarrow> 'e + 'c) \<Rightarrow> nat \<Rightarrow> string \<Rightarrow> string + 'c" where
  "connect_rpc_client display1 connect k base_url =
     (case connect k base_url of Inl e \<Rightarrow> Inl (display1 e) | Inr c \<Rightarrow> Inr c)"

definition rebuild_rpc_client_if_channel_closed ::
  "('e \<Rightarrow> string) \<Rightarrow> (nat \<Rightarrow> string \<Rightarrow> 'e + 'c) \<Rightarrow> nat \<Rightarrow> string \<Rightarrow> string \<Rightarrow> 'c option" where
  "rebuild_rpc_client_if_channel_closed display1 connect k base_url err =
     (if \<not> is_channel_closed_error err then None
      else (case connect_rpc_client display1 connect k base_url of Inl _ \<Rightarrow> None | Inr c \<Rightarrow> Some c))"

text \<open>The clients of the loop and of the tasks after a task's error.\<close>

definition rebuilt_clients ::
  "('e \<Rightarrow> string) \<Rightarrow> (nat \<Rightarrow> string \<Rightarrow> 'e + 'c) \<Rightarrow> string \<Rightarrow> string \<Rightarrow> 'c \<times> 'c \<Rightarrow> 'c \<times> 'c" where
  "rebuilt_clients display1 connect base_url err = (\<lambda>(rpc_client, prefetch_client).
     (case rebuild_rpc_client_if_channel_closed display1 connect 0 base_url err of
        None \<Rightarrow> (rpc_client, prefetch_client)
      | Some c \<Rightarrow> (c, case connect_rpc_client display1 connect 1 base_url of Inl _ \<Rightarrow> prefetch_client | Inr c2 \<Rightarrow> c2)))"

section \<open>The Android worker\<close>

text \<open>One request at a time; a request whose connection was closed is tried once more if the client can
  be rebuilt. A worker whose client could not be built answers every request with that error.\<close>

definition android_handle ::
  "('e \<Rightarrow> string) \<Rightarrow> (nat \<Rightarrow> 'r \<Rightarrow> 'e + 'b) \<Rightarrow> (nat \<Rightarrow> bool) \<Rightarrow> nat \<Rightarrow> 'r \<Rightarrow> ('e + 'b) \<times> nat" where
  "android_handle display1 fetch rebuilt client req =
     (let res = fetch client req in
      if (case res of Inl e \<Rightarrow> str_contains (display1 e) ''ChannelClosed'' | Inr _ \<Rightarrow> False) \<and> rebuilt client
      then (fetch (Suc client) req, Suc client)
      else (res, client))"

primrec android_serve ::
  "('e \<Rightarrow> string) \<Rightarrow> (nat \<Rightarrow> 'r \<Rightarrow> 'e + 'b) \<Rightarrow> (nat \<Rightarrow> bool) \<Rightarrow> nat \<Rightarrow> 'r list \<Rightarrow> ('e + 'b) list" where
  "android_serve display1 fetch rebuilt client [] = []"
| "android_serve display1 fetch rebuilt client (req # reqs) =
     (let (res, client') = android_handle display1 fetch rebuilt client req in
      res # android_serve display1 fetch rebuilt client' reqs)"

definition android_worker ::
  "('e \<Rightarrow> string) \<Rightarrow> (nat \<Rightarrow> 'r \<Rightarrow> 'e + 'b) \<Rightarrow> (nat \<Rightarrow> bool) \<Rightarrow> 'e option \<Rightarrow> 'r list \<Rightarrow> ('e + 'b) list" where
  "android_worker display1 fetch rebuilt built reqs =
     (case built of Some e \<Rightarrow> map (\<lambda>_. Inl e) reqs | None \<Rightarrow> android_serve display1 fetch rebuilt 0 reqs)"

datatype 'a waited = Waited 'a | Wait_Timeout | Wait_Disconnected

text \<open>The one request that is ahead, and whether its answer is used.\<close>

definition android_take ::
  "u64 \<Rightarrow> u64 \<Rightarrow> (u64 \<times> u64 \<times> 'a waited) option \<Rightarrow> (u64 \<Rightarrow> u64 \<Rightarrow> 'a waited) \<Rightarrow> 'a waited" where
  "android_take start end_inclusive ahead fetch =
     (case ahead of
        None \<Rightarrow> fetch start end_inclusive
      | Some (pf_start, pf_end, pending) \<Rightarrow>
          if pf_start = start \<and> pf_end = end_inclusive then pending else fetch start end_inclusive)"

definition android_ahead ::
  "u64 \<Rightarrow> u64 \<Rightarrow> (u64 \<Rightarrow> u64 \<Rightarrow> 'a waited option) \<Rightarrow> u64 \<Rightarrow> (u64 \<times> u64 \<times> 'a waited) option" where
  "android_ahead height batch begin_fetch actual_end =
     (let next_start = sat_add actual_end 1; next_end = range_end height batch next_start in
      if next_end \<le> next_start then None
      else (case begin_fetch next_start (sat_sub next_end 1) of
              None \<Rightarrow> None | Some pending \<Rightarrow> Some (next_start, sat_sub next_end 1, pending)))"

section \<open>The pipeline never holds a stale range\<close>

text \<open>The queued ranges are those that the loop will ask for, one after the other, from a cursor on.\<close>

fun aligned :: "u64 \<Rightarrow> u64 \<Rightarrow> u64 \<Rightarrow> (u64 \<times> u64) list \<Rightarrow> bool" where
  "aligned height batch c [] = True"
| "aligned height batch c ((s, e) # q) \<longleftrightarrow>
     s = c \<and> c < range_end height batch c \<and> e = range_end height batch c - 1 \<and>
     aligned height batch (range_end height batch c) q"

definition ranges :: "'b pipeline \<Rightarrow> (u64 \<times> u64) list" where
  "ranges p = map (\<lambda>(s, e, _). (s, e)) (pl_ready p) @ pl_flight p"

definition pipeline_ok :: "u64 \<Rightarrow> u64 \<Rightarrow> nat \<Rightarrow> (u64 \<Rightarrow> u64 \<Rightarrow> 'b list \<Rightarrow> bool) \<Rightarrow> u64 \<Rightarrow> 'b pipeline \<Rightarrow> bool" where
  "pipeline_ok height batch depth A c p \<longleftrightarrow>
     aligned height batch c (ranges p) \<and> (pl_ready p = [] \<longrightarrow> pl_flight p = []) \<and> length (ranges p) \<le> depth \<and>
     (\<forall>(s, e, v) \<in> set (pl_ready p). A s e v)"

lemma aligned_append:
  "aligned height batch c (q @ r) \<longleftrightarrow> aligned height batch c q \<and> aligned height batch ((range_end height batch ^^ length q) c) r"
  by (induction height batch c q rule: aligned.induct) (auto simp: funpow_swap1)

lemma aligned_spawn: "aligned height batch c (spawn_prefetches height batch n c)"
  by (induction n arbitrary: c) (auto simp: Let_def sat_sub_def)

lemma length_spawn: "length (spawn_prefetches height batch n c) \<le> n"
  by (induction n arbitrary: c) (auto simp: Let_def)

lemma spawn_at_end: "height \<le> c \<Longrightarrow> spawn_prefetches height batch n c = []"
  by (cases n) (auto simp: Let_def range_end_def)

text \<open>The cursor the code computes for the next task, which is not capped with the chain height.\<close>

lemma range_end_funpow:
  assumes "height \<le> u64_max" "c \<le> height"
  shows "(range_end height batch ^^ n) c = min height (((\<lambda>c. sat_add c batch) ^^ n) c)"
proof (induction n)
  case (Suc n)
  then show ?case using assms(1) by (auto simp: range_end_def sat_add_def min_def)
qed (use assms(2) in simp)

lemma fill_prefetch_ok:
  assumes "height \<le> u64_max" "c \<le> height" "aligned height batch c (ranges p)" "length (ranges p) \<le> depth"
  shows "aligned height batch c (ranges (fill_prefetch height batch depth c p))"
    and "length (ranges (fill_prefetch height batch depth c p)) \<le> depth"
    and "pl_ready (fill_prefetch height batch depth c p) = pl_ready p"
proof -
  let ?n = "length (pl_ready p) + length (pl_flight p)"
  let ?c = "((\<lambda>c. sat_add c batch) ^^ ?n) c"
  have n: "length (ranges p) = ?n" by (simp add: ranges_def)
  have r: "ranges (fill_prefetch height batch depth c p) = ranges p @ spawn_prefetches height batch (depth - ?n) ?c"
    by (simp add: fill_prefetch_def ranges_def Let_def)
  have "aligned height batch (min height ?c) (spawn_prefetches height batch (depth - ?n) ?c)"
    using aligned_spawn spawn_at_end by (cases "?c < height") (auto simp: min_def)
  then show "aligned height batch c (ranges (fill_prefetch height batch depth c p))"
    using assms by (simp add: r aligned_append n range_end_funpow)
  show "length (ranges (fill_prefetch height batch depth c p)) \<le> depth"
    using assms(4) length_spawn [of height batch "depth - ?n" ?c] n by (simp add: r)
  show "pl_ready (fill_prefetch height batch depth c p) = pl_ready p" by (simp add: fill_prefetch_def Let_def)
qed

lemma drain_prefetch_ok:
  assumes "drain_prefetch answers (p, mode) = (p', mode')" "aligned height batch c (ranges p)" "length (ranges p) \<le> depth"
    "\<forall>(s, e, v) \<in> set (pl_ready p). A s e v" "\<And>s e v. answers s e = Joined_Blocks v \<Longrightarrow> A s e v"
  shows "pipeline_ok height batch depth A c p'"
  using assms
  by (auto simp: drain_prefetch_def pipeline_ok_def ranges_def split: if_splits list.splits joined.splits)

lemma clear_prefetches_simps [simp]:
  "ranges (snd (clear_stale_prefetches p)) = []" "pl_ready (snd (clear_stale_prefetches p)) = []"
  "pl_flight (snd (clear_stale_prefetches p)) = []"
  by (simp_all add: clear_stale_prefetches_def ranges_def)

lemma cleared_ok [simp]: "pipeline_ok height batch depth A c (snd (clear_stale_prefetches p))"
  by (simp add: pipeline_ok_def)

text \<open>A batch at an aligned cursor finds its own range, or nothing at all is queued.\<close>

lemma take_prefetched_ok:
  assumes "pipeline_ok height batch depth A c p" "take_prefetched c (range_end height batch c - 1) p = (r, p1)"
  shows "(r = Prefetch_Sync \<and> ranges p1 = [] \<and> p1 = p) \<or>
    (\<exists>v. r = Prefetch_Hit v \<and> A c (range_end height batch c - 1) v \<and>
       aligned height batch (range_end height batch c) (ranges p1) \<and> length (ranges p1) \<le> depth \<and>
       (\<forall>(s, e, v) \<in> set (pl_ready p1). A s e v))"
proof (cases "pl_ready p")
  case Nil
  then show ?thesis using assms by (auto simp: take_prefetched_def pipeline_ok_def ranges_def)
next
  case (Cons a rest)
  obtain s e v where a: "a = (s, e, v)" using prod_cases3 by blast
  have own: "s = c" "e = range_end height batch c - 1"
    and rest: "aligned height batch (range_end height batch c) (ranges (p\<lparr>pl_ready := rest\<rparr>))"
    using assms(1) by (auto simp: pipeline_ok_def ranges_def Cons a)
  have "r = Prefetch_Hit v" "p1 = p\<lparr>pl_ready := rest\<rparr>"
    using assms(2) by (simp_all add: take_prefetched_def Cons a own)
  moreover have "A c (range_end height batch c - 1) v" "length (ranges (p\<lparr>pl_ready := rest\<rparr>)) \<le> depth"
    "\<forall>(s, e, v) \<in> set rest. A s e v"
    using assms(1) own by (auto simp: pipeline_ok_def ranges_def Cons a)
  ultimately show ?thesis using rest by auto
qed

text \<open>The queue as the refresh loop uses it: batches that were scanned, synchronous fetches that failed and
  are tried again, rewinds and retries after a parent mismatch.\<close>

inductive pipeline_reach ::
  "u64 \<Rightarrow> u64 \<Rightarrow> nat \<Rightarrow> (u64 \<Rightarrow> u64 \<Rightarrow> 'b list \<Rightarrow> bool) \<Rightarrow> u64 \<Rightarrow> 'b pipeline \<Rightarrow> bool"
  for height batch depth A where
  pipeline_start: "pipeline_reach height batch depth A c \<lparr>pl_ready = [], pl_flight = []\<rparr>"
| pipeline_scanned:
    "\<lbrakk>pipeline_reach height batch depth A c p; c < height;
      take_prefetched c (range_end height batch c - 1) p = (r, p1);
      \<And>s e v. answers s e = Joined_Blocks v \<Longrightarrow> A s e v;
      advance_pipeline height batch depth answers c n (p1, mode) = (c', p', mode')\<rbrakk>
     \<Longrightarrow> pipeline_reach height batch depth A c' p'"
| pipeline_refetched:
    "\<lbrakk>pipeline_reach height batch depth A c p; c < height;
      take_prefetched c (range_end height batch c - 1) p = (r, p1); \<forall>v. r \<noteq> Prefetch_Hit v\<rbrakk>
     \<Longrightarrow> pipeline_reach height batch depth A c p1"
| pipeline_dropped:
    "\<lbrakk>pipeline_reach height batch depth A c p; c < height;
      take_prefetched c (range_end height batch c - 1) p = (r, p1)\<rbrakk>
     \<Longrightarrow> pipeline_reach height batch depth A c' (snd (clear_stale_prefetches p1))"

lemma advance_pipeline_ok:
  assumes "height \<le> u64_max" "c < height" "pipeline_ok height batch depth A c p"
    and "take_prefetched c (range_end height batch c - 1) p = (r, p1)"
    and "\<And>s e v. answers s e = Joined_Blocks v \<Longrightarrow> A s e v"
    and "advance_pipeline height batch depth answers c n (p1, mode) = (c', p', mode')"
  shows "pipeline_ok height batch depth A c' p'"
proof -
  let ?stop = "range_end height batch c"
  define p2 where "p2 = rebase_prefetch ?stop c' p1"
  have c': "c' = next_height_after_response c n"
    and dr: "drain_prefetch answers (fill_prefetch height batch depth c' p2, mode) = (p', mode')"
    using assms(6) by (auto simp: advance_pipeline_def Let_def p2_def)
  have stop_le: "?stop \<le> height" by (simp add: range_end_def)
  have p2: "aligned height batch c' (ranges p2) \<and> length (ranges p2) \<le> depth \<and>
      (\<forall>(s, e, v) \<in> set (pl_ready p2). A s e v)"
    using take_prefetched_ok [OF assms(3,4)] by (auto simp: p2_def rebase_prefetch_def ranges_def)
  show ?thesis
  proof (cases "c' \<le> height")
    case True
    note fill = fill_prefetch_ok [OF assms(1) True, of batch p2 depth]
    show ?thesis using drain_prefetch_ok [OF dr fill(1,2), of A] fill(3) p2 assms(5) by simp
  next
    case False
    then have "c' \<noteq> ?stop" using stop_le by simp
    then have e: "ranges p2 = []" "pl_ready p2 = []" "pl_flight p2 = []"
      by (simp_all add: p2_def rebase_prefetch_def)
    then have "ranges (fill_prefetch height batch depth c' p2) = []"
      using False spawn_at_end by (simp add: fill_prefetch_def ranges_def)
    then show ?thesis using drain_prefetch_ok [OF dr, of height batch c' depth A] assms(5) e
      by (simp add: fill_prefetch_def ranges_def)
  qed
qed

lemma pipeline_reach_ok:
  assumes "pipeline_reach height batch depth A c p" "height \<le> u64_max"
  shows "pipeline_ok height batch depth A c p"
  using assms
proof (induction rule: pipeline_reach.induct)
  case (pipeline_scanned c p r p1 answers n mode c' p' mode')
  then show ?case by (intro advance_pipeline_ok [of height c batch depth A p r p1 answers n mode c' p' mode']) auto
next
  case (pipeline_refetched c p r p1)
  then show ?case using take_prefetched_ok by metis
qed (simp_all add: pipeline_ok_def ranges_def)

lemma reached_take:
  assumes "pipeline_reach height batch depth A c p" "height \<le> u64_max"
    and "take_prefetched c (range_end height batch c - 1) p = (r, p1)"
  shows "r = Prefetch_Sync \<and> ranges p = [] \<or> (\<exists>v. r = Prefetch_Hit v \<and> A c (range_end height batch c - 1) v)"
    and "length (ranges p) \<le> depth"
  using take_prefetched_ok [OF pipeline_reach_ok [OF assms(1,2)] assms(3)] pipeline_reach_ok [OF assms(1,2)]
  by (auto simp: pipeline_ok_def)

section \<open>The Android worker answers every request once\<close>

lemma android_serve_length: "length (android_serve display1 fetch rebuilt client reqs) = length reqs"
  by (induction reqs arbitrary: client) (simp_all add: Let_def split: prod.split)

lemma android_handle_answers:
  "android_handle display1 fetch rebuilt client req = (res, client') \<Longrightarrow>
     res = fetch client' req \<and> (client' = client \<or> client' = Suc client \<and> rebuilt client)"
  by (auto simp: android_handle_def Let_def split: if_splits)

lemma android_worker_answers:
  "j < length reqs \<Longrightarrow> built = None \<Longrightarrow> \<exists>client. android_worker display1 fetch rebuilt built reqs ! j = fetch client (reqs ! j)"
proof -
  have "j < length reqs \<Longrightarrow> \<exists>client. android_serve display1 fetch rebuilt k reqs ! j = fetch client (reqs ! j)" for k
  proof (induction reqs arbitrary: j k)
    case (Cons req reqs)
    obtain res k' where h: "android_handle display1 fetch rebuilt k req = (res, k')" by force
    show ?case using Cons android_handle_answers [OF h] h by (cases j) auto
  qed simp
  then show "j < length reqs \<Longrightarrow> built = None \<Longrightarrow> ?thesis" by (simp add: android_worker_def)
qed

end
