(* ===== verification/Examples_Fetch.thy ===== *)
theory Examples_Fetch
  imports Examples_Send Range_Fetch Prefetch
begin

text \<open>
  A concrete range answer of two linked blocks, the second with a transaction, and a concrete run of the
  prefetch pipeline.
\<close>

section \<open>A range answer\<close>

text \<open>A block is its height; block 8 has the one transaction 33. Every transaction has RingCT outputs: the
  miner's one, the other two.\<close>

definition ex_range_answer :: get_blocks_response where
  "ex_range_answer = \<lparr>rr_blocks =
     [\<lparr>be_block = [7], be_txs = [], be_pruned = True\<rparr>,
      \<lparr>be_block = [8], be_txs = [\<lparr>te_blob = [33], te_prunable_hash = Some (hx 3)\<rparr>], be_pruned = True\<rparr>],
     rr_output_indices = Some [[[3]], [[4], [5, 6]]], rr_status = Some ''OK'', rr_untrusted = None\<rparr>"

definition ex_range_daemon :: daemon_lib where
  "ex_range_daemon = ex_status\<lparr>dl_range := (\<lambda>_. Inr ex_range_answer)\<rparr>"

definition ex_range_lib :: "(nat, nat) range_lib" where
  "ex_range_lib = \<lparr>tc_read_pruned = (\<lambda>bs. Inr (unat (hd bs), 0)), tc_read_full = (\<lambda>_. Inl []),
     tc_is_v1 = (\<lambda>_. False), tc_has_proofs = (\<lambda>_. True), tc_with_hash = (\<lambda>_ h. h \<noteq> None),
     tc_verify = (\<lambda>tx _ h. if h = hx tx then Some tx else None), tc_full_hash = hx, tc_prunable_hash = (\<lambda>_. None),
     tc_prune = id, rg_outputs = (\<lambda>tx. if tx = 0 then 1 else 2),
     rg_read_block = (\<lambda>bs. case bs of [b] \<Rightarrow> Inr (unat b, 0) | _ \<Rightarrow> Inl ''not a block''), rg_number = id,
     rg_previous = (\<lambda>n. hx (n - 1)), rg_block_hash = hx, rg_tx_hashes = (\<lambda>n. if n = 8 then [hx 33] else []),
     rg_miner = (\<lambda>_. 0), rg_miner_hash = (\<lambda>n. hx (100 + n)), rg_display = (\<lambda>_. []), rg_url = ex_url_lib,
     rg_proxy_valid = (\<lambda>_. True), rg_routes = ex_route, rg_daemon = ex_range_daemon,
     rg_client_indexes = (\<lambda>_ _. Inl (InternalError [])), rg_txs_json = (\<lambda>_. Inr [])\<rparr>"

definition ex_fetcher :: fetcher where
  "ex_fetcher = \<lparr>ft_world = ex_world, ft_calls = 0, ft_sent = []\<rparr>"

definition ex_decoded :: "(nat, nat) decoded_block list" where
  "ex_decoded = [\<lparr>dk_block = 7, dk_txs = []\<rparr>, \<lparr>dk_block = 8, dk_txs = [33]\<rparr>]"

definition ex_range :: "(nat, nat) range_block list" where
  "ex_range = [\<lparr>dk_block = 7, dk_txs = [], rb_first_index = Some 3\<rparr>, \<lparr>dk_block = 8, dk_txs = [33], rb_first_index = Some 4\<rparr>]"

lemma ex_lib_fields [simp]:
  "tc_is_v1 ex_range_lib = (\<lambda>_. False)" "rg_outputs ex_range_lib = (\<lambda>tx. if tx = 0 then 1 else 2)"
  "rg_number ex_range_lib = id" "rg_previous ex_range_lib = (\<lambda>n. hx (n - 1))" "rg_block_hash ex_range_lib = hx"
  "rg_tx_hashes ex_range_lib = (\<lambda>n. if n = 8 then [hx 33] else [])" "rg_miner ex_range_lib = (\<lambda>_. 0)"
  "rg_url ex_range_lib = ex_url_lib" "rg_proxy_valid ex_range_lib = (\<lambda>_. True)" "rg_routes ex_range_lib = ex_route"
  "rg_daemon ex_range_lib = ex_range_daemon"
  "rg_read_block ex_range_lib = (\<lambda>bs. case bs of [b] \<Rightarrow> Inr (unat b, 0) | _ \<Rightarrow> Inl ''not a block'')"
  by (simp_all add: ex_range_lib_def)

lemma ex_open: "\<exists>t. open_transport ex_range_lib ''http://d.i2p'' s = (Inr t, s) \<and> ag_proxy (bt_agent t) \<noteq> None"
  by (simp add: open_transport_def blocking_new_def trim_end_char_def agent_for_url_def proxy_for_url_def
      ex_url_lib_def ex_url_def ex_i2p ex_route_def)

lemma ex_get_blocks:
  assumes "ag_proxy (bt_agent t) \<noteq> None"
  shows "\<exists>out. get_blocks_bin ex_range_daemon t start n prune k = (Inr ex_range_answer, out)"
proof -
  have dl: "dl_range ex_range_daemon = (\<lambda>_. Inr ex_range_answer)" "dl_net ex_range_daemon = ex_net"
    "dl_mobile ex_range_daemon = False" by (simp_all add: ex_range_daemon_def ex_status_def)
  have body: "\<exists>bs. read_response ex_response (MAX_BINARY_RESPONSE_BYTES False) = Inr bs"
    using read_limited_iff [of "MAX_BINARY_RESPONSE_BYTES False" "ex_reader [1, 2, 3]" "[1, 2, 3]"] ex_body [of "[1, 2, 3]"]
    by (simp add: read_response_def advertised_too_large_def ex_response_def read_limited_def
        MAX_BINARY_RESPONSE_BYTES_def u64_max_def)
  have rs: "rs_status ex_response = 200" by (simp add: ex_response_def)
  have post: "\<exists>out bs. post_bin ex_range_daemon t r b k = (Inr bs, out)" for r b
    using body assms
    by (auto simp: post_bin_def post_with_def send_bytes_def agent_send_def ex_net_def dl rs)
  obtain out bs where "post_bin ex_range_daemon t ''get_blocks.bin'' (range_request_body start n prune) k = (Inr bs, out)"
    using post by blast
  then show ?thesis by (simp add: get_blocks_bin_def decoded_def dl)
qed

lemma ex_range_decodes: "decode_entries ex_range_lib (rr_blocks ex_range_answer) =
    Inr ex_decoded"
  by (simp add: decode_entries_def ex_range_answer_def ex_decoded_def enumerate_eq_zip decode_range_block_entry_def and_then_def
      decode_range_transaction_def from_decode_def ex_range_lib_def hx_def Let_def tx_codec.defs)

lemma ex_finish: "finish_blocks ex_range_lib url (opt_get_or [] (rr_output_indices ex_range_answer)) 0
    ex_decoded s = (Inr ex_range, s)"
  by (simp add: ex_range_answer_def ex_range_def ex_decoded_def first_index_def inline_first_index_def
      get_output_indexes_from_block_response_def tx_shape_def ft_bind_def ft_sum_def ft_ok_def and_then_def to_range_def
      sat_add_def u64_max_def)

lemma ex_range_fetch: "\<exists>s. fetch_scannable_blocks_range_bin ex_range_lib ''http://d.i2p'' 7 8 ex_fetcher = (Inr ex_range, s)"
proof -
  obtain t where t: "open_transport ex_range_lib ''http://d.i2p'' ex_fetcher = (Inr t, ex_fetcher)"
    "ag_proxy (bt_agent t) \<noteq> None" using ex_open by blast
  obtain out where g: "get_blocks_bin ex_range_daemon t 7 2 True 0 = (Inr ex_range_answer, out)"
    using ex_get_blocks [OF t(2)] by blast
  have calls: "ft_calls ex_fetcher = 0" by (simp add: ex_fetcher_def)
  have req: "requested_blocks 7 8 = Some 2"
    by (simp add: requested_blocks_def checked_sub_def checked_add_def u64_max_def)
  have chk: "check_range_answer 7 8 2 ex_range_answer = Inr ()"
    by (simp add: check_range_answer_def ex_range_answer_def eq_ignore_ascii_case_def)
  have val: "validate_range_blocks 7 (map (link_view ex_range_lib)
      ex_decoded) = Inr ()"
    by (auto simp: ex_decoded_def validate_range_blocks_spec link_view_def less_Suc_eq u64_max_def)
  show ?thesis
    by (simp add: fetch_scannable_blocks_range_bin_def fetch_scannable_blocks_range_bin_with_prune_def req ft_bind_def
        ft_map_err_def t(1) ft_rpc_def calls g ft_sum_def to_range_def chk ex_range_decodes val ex_finish)
qed

section \<open>A run of the pipeline\<close>

text \<open>A chain of 9 blocks, batches of 3. After the batch at 0 the range 3..5 is fetched ahead; its answer is
  what the batch at 3 takes.\<close>

definition ex_ahead :: "nat pipeline" where
  "ex_ahead = \<lparr>pl_ready = [(3, 5, [3, 4, 5])], pl_flight = []\<rparr>"

lemma ex_advance:
  "advance_pipeline 9 3 1 (\<lambda>s e. Joined_Blocks [s..<Suc e]) 0 3 (\<lparr>pl_ready = [], pl_flight = []\<rparr>, mode) = (3, ex_ahead, mode)"
  by (simp add: advance_pipeline_def next_height_after_response_def sat_add_def u64_max_def rebase_prefetch_def
      range_end_def fill_prefetch_def Let_def sat_sub_def drain_prefetch_def ex_ahead_def upt_rec)

lemma ex_pipeline: "pipeline_reach 9 3 1 (\<lambda>s e v. v = [s..<Suc e]) 3 ex_ahead"
proof (rule pipeline_scanned [OF pipeline_start])
  show "advance_pipeline 9 3 1 (\<lambda>s e. Joined_Blocks [s..<Suc e]) 0 3 (\<lparr>pl_ready = [], pl_flight = []\<rparr>, RangeBlocks) =
      (3, ex_ahead, RangeBlocks)" by (rule ex_advance)
  show "take_prefetched 0 (range_end 9 3 0 - 1) \<lparr>pl_ready = [], pl_flight = []\<rparr> =
      (Prefetch_Sync, \<lparr>pl_ready = [], pl_flight = []\<rparr>)" by (simp add: take_prefetched_def)
qed auto

lemma ex_take: "take_prefetched 3 (range_end 9 3 3 - 1) ex_ahead = (Prefetch_Hit [3, 4, 5], \<lparr>pl_ready = [], pl_flight = []\<rparr>)"
  by (simp add: take_prefetched_def range_end_def sat_add_def u64_max_def ex_ahead_def)

end
