(* ===== verification/Api.thy ===== *)
theory Api
  imports Sweep Send_Filter Cache_Api Refresh Relay Routing
begin

text \<open>
  The safe Rust interface over the exported functions (\<open>api.rs\<close>) and the generation of a mnemonic
  (\<open>ffi/mnemonic.rs\<close>): argument strings, error values taken from the last-error slot, text buffers that
  grow once, the decoding of the transfer history, and a wrapper for every exported call. JSON text is
  written and read by a third-party serializer, the parameter \<open>json_codec\<close>.
\<close>

section \<open>Errors and arguments\<close>

record api_error =
  ae_code :: int
  ae_message :: string

type_synonym 'a api = "world \<Rightarrow> (api_error + 'a) \<times> world"

definition take_last_error :: "world \<Rightarrow> string option" where
  "take_last_error w = fst (guard ''walletcore_last_error_message'' None walletcore_last_error_message_ffi_impl w)"

definition api_fail :: "int \<Rightarrow> world \<Rightarrow> api_error" where
  "api_fail code w = \<lparr>ae_code = code, ae_message = opt_get_or (''walletcore error '' @ show_int code) (take_last_error w)\<rparr>"

definition interior_nul :: api_error where
  "interior_nul = \<lparr>ae_code = -10, ae_message = ''argument contained an interior NUL''\<rparr>"

definition cstr :: "string \<Rightarrow> api_error + cptr" where
  "cstr v = (if CHR 0x00 \<in> set v then Inl interior_nul else Inr (CStr v))"

text \<open>A secret is copied into a zeroized buffer that ends with its terminator; a call reads it up to the
  first zero.\<close>

definition secret_cstr :: "string \<Rightarrow> api_error + string" where
  "secret_cstr v = (if CHR 0x00 \<in> set v then Inl interior_nul else Inr (v @ [CHR 0x00]))"

definition pointer_to :: "string \<Rightarrow> cptr" where
  "pointer_to buffer = CStr (takeWhile (\<lambda>c. c \<noteq> CHR 0x00) buffer)"

definition api_bind :: "'a api \<Rightarrow> ('a \<Rightarrow> 'b api) \<Rightarrow> 'b api" where
  "api_bind m f w = (case m w of (Inl e, w1) \<Rightarrow> (Inl e, w1) | (Inr x, w1) \<Rightarrow> f x w1)"

definition api_pure :: "api_error + 'a \<Rightarrow> 'a api" where
  "api_pure r w = (r, w)"

definition with_arg :: "string \<Rightarrow> (cptr \<Rightarrow> 'a api) \<Rightarrow> 'a api" where
  "with_arg v = api_bind (api_pure (cstr v))"

definition with_secret :: "string \<Rightarrow> (cptr \<Rightarrow> 'a api) \<Rightarrow> 'a api" where
  "with_secret v f = api_bind (api_pure (secret_cstr v)) (\<lambda>buffer. f (pointer_to buffer))"

section \<open>Calls\<close>

text \<open>\<open>check(wallet_...(...))\<close>: the exported call runs behind the panic boundary.\<close>

definition checked_call :: "string \<Rightarrow> 'o \<Rightarrow> (int \<times> 'o) call \<Rightarrow> 'o api" where
  "checked_call name out f w =
     (case guard name (-19, out) f w of
        ((code, x), w1) \<Rightarrow> if code = 0 then (Inr x, w1) else (Inl (api_fail code w1), w1))"

text \<open>\<open>take_required(wallet_...(...))\<close>.\<close>

definition take_required :: "string \<Rightarrow> 'a option call \<Rightarrow> 'a api" where
  "take_required name f w =
     (case guard name None f w of
        (Some x, w1) \<Rightarrow> (Inr x, w1) | (None, w1) \<Rightarrow> (Inl (api_fail (-16) w1), w1))"

definition required_out :: "'a option \<Rightarrow> 'a \<Rightarrow> 'a" where
  "required_out out start1 = opt_get_or start1 out"

section \<open>Text buffers\<close>

text \<open>The C string that a call leaves in a buffer, with what was behind it.\<close>

definition store_text :: "string option \<Rightarrow> string \<Rightarrow> string" where
  "store_text text1 buf = (case text1 of None \<Rightarrow> buf | Some s \<Rightarrow> s @ [CHR 0x00] @ drop (Suc (length s)) buf)"

definition buffer_text :: "string \<Rightarrow> usize \<Rightarrow> api_error + string" where
  "buffer_text buf wrote =
     (let seen = take (Suc (min wrote (sat_sub (length buf) 1))) buf in
      if CHR 0x00 \<in> set seen then Inr (takeWhile (\<lambda>c. c \<noteq> CHR 0x00) seen)
      else Inl \<lparr>ae_code = -16, ae_message = ''walletcore output was not NUL-terminated''\<rparr>)"

text \<open>A call gets the number of the attempt and the length of the buffer; it answers with its code, the
  text it stores and the count it writes.\<close>

type_synonym text_call = "nat \<Rightarrow> usize \<Rightarrow> world \<Rightarrow> (int \<times> string option \<times> usize) \<times> world"

definition write_into_buf :: "text_call \<Rightarrow> string api" where
  "write_into_buf call w =
     (let ((rc, text1, wrote), w1) = call 0 1024 w;
          buf = store_text text1 (replicate 1024 (CHR 0x00)) in
      if rc = -12 then
        let n = max (sat_add wrote 2) 2048;
            grown = buf @ replicate (n - length buf) (CHR 0x00);
            ((rc2, text2, wrote2), w2) = call 1 n w1 in
        if rc2 \<noteq> 0 then (Inl (api_fail rc2 w2), w2) else (buffer_text (store_text text2 grown) wrote2, w2)
      else if rc \<noteq> 0 then (Inl (api_fail rc w1), w1)
      else (buffer_text buf wrote, w1))"

definition text_call_of :: "string \<Rightarrow> (nat \<Rightarrow> usize \<Rightarrow> int \<times> string option \<times> usize) \<Rightarrow> text_call" where
  "text_call_of name f k n w = guard name (-19, None, 0) (\<lambda>w. (Value (f k n), w)) w"

section \<open>Mnemonics and addresses\<close>

text \<open>The phrase of a new seed is the generator's; the calls leave out-pointers of a null buffer alone.\<close>

definition wallet_generate_mnemonic_english_ffi_impl :: "string \<Rightarrow> bool \<Rightarrow> usize \<Rightarrow> int \<times> string option \<times> usize option" where
  "wallet_generate_mnemonic_english_ffi_impl mnemonic has_buf out_buf_len =
     (if \<not> has_buf \<or> out_buf_len = 0 then (-11, None, None)
      else if out_buf_len \<le> length mnemonic then (-12, Some [], Some 0)
      else (0, Some mnemonic, Some (length mnemonic)))"

definition wallet_primary_address_from_mnemonic_ffi_impl ::
  "crypto \<Rightarrow> cptr \<Rightarrow> nat \<Rightarrow> bool \<Rightarrow> usize \<Rightarrow> int \<times> string option \<times> usize" where
  "wallet_primary_address_from_mnemonic_ffi_impl cr mnemonic is_mainnet has_buf out_buf_len =
     (case master_keys_from_mnemonic_ptr cr mnemonic of
        Inl code \<Rightarrow> (code, if has_buf \<and> 0 < out_buf_len then Some [] else None, 0)
      | Inr k \<Rightarrow>
          write_address_to_buf (derive_address_string cr (Unsealed k) 0 0 (network_from_flag is_mainnet))
            has_buf out_buf_len)"

text \<open>The exported address calls from a seed; the primary one goes through the other.\<close>

definition wallet_primary_address_from_seed_ffi_impl ::
  "crypto \<Rightarrow> bytes option \<Rightarrow> nat \<Rightarrow> bool \<Rightarrow> usize \<Rightarrow> int \<times> string option \<times> usize" where
  "wallet_primary_address_from_seed_ffi_impl cr seed is_mainnet has_buf out_buf_len =
     wallet_derive_address_from_seed_ffi_impl cr seed is_mainnet 0 0 has_buf out_buf_len"

definition walletcore_version_ffi_impl :: "string \<Rightarrow> string" where
  "walletcore_version_ffi_impl pkg_version = ''walletcore '' @ pkg_version"

definition api_version :: "string \<Rightarrow> string" where
  "api_version pkg_version = walletcore_version_ffi_impl pkg_version"

definition flag :: "bool \<Rightarrow> nat" where
  "flag b = (if b then 1 else 0)"

definition api_generate_mnemonic_english :: "(nat \<Rightarrow> string) \<Rightarrow> string api" where
  "api_generate_mnemonic_english fresh =
     write_into_buf (text_call_of ''wallet_generate_mnemonic_english'' (\<lambda>k n.
       case wallet_generate_mnemonic_english_ffi_impl (fresh k) True n of (rc, t, wrote) \<Rightarrow> (rc, t, opt_get_or 0 wrote)))"

definition api_primary_address_from_mnemonic :: "crypto \<Rightarrow> string \<Rightarrow> bool \<Rightarrow> string api" where
  "api_primary_address_from_mnemonic cr mnemonic mainnet =
     with_secret (trim mnemonic) (\<lambda>seed.
       write_into_buf (text_call_of ''wallet_primary_address_from_mnemonic'' (\<lambda>_ n.
         wallet_primary_address_from_mnemonic_ffi_impl cr seed (flag mainnet) True n)))"

definition api_derive_subaddress_from_mnemonic :: "crypto \<Rightarrow> string \<Rightarrow> u32 \<Rightarrow> u32 \<Rightarrow> bool \<Rightarrow> string api" where
  "api_derive_subaddress_from_mnemonic cr mnemonic account_index subaddress_index mainnet =
     with_secret (trim mnemonic) (\<lambda>seed.
       write_into_buf (text_call_of ''wallet_derive_subaddress_from_mnemonic'' (\<lambda>_ n.
         wallet_derive_subaddress_from_mnemonic_ffi_impl cr seed account_index subaddress_index (flag mainnet) True n)))"

section \<open>Lifecycle and scanning\<close>

definition api_open_from_mnemonic :: "crypto \<Rightarrow> string \<Rightarrow> string \<Rightarrow> u64 \<Rightarrow> bool \<Rightarrow> unit api" where
  "api_open_from_mnemonic cr wallet_id mnemonic restore_height mainnet =
     with_arg (trim wallet_id) (\<lambda>i. with_secret (trim mnemonic) (\<lambda>seed.
       checked_call ''wallet_open_from_mnemonic'' ()
         (wallet_open_from_mnemonic_ffi_impl cr i seed restore_height (flag mainnet))))"

definition api_seal :: "crypto \<Rightarrow> (u64 \<Rightarrow> wait_obs) \<Rightarrow> string \<Rightarrow> u64 \<Rightarrow> unit api" where
  "api_seal cr obs wallet_id timeout_ms =
     with_arg (trim wallet_id) (\<lambda>i. checked_call ''wallet_seal'' () (wallet_seal_ffi_impl cr obs i timeout_ms))"

definition api_unseal_from_mnemonic :: "crypto \<Rightarrow> (u64 \<Rightarrow> wait_obs) \<Rightarrow> string \<Rightarrow> string \<Rightarrow> u64 \<Rightarrow> unit api" where
  "api_unseal_from_mnemonic cr obs wallet_id mnemonic timeout_ms =
     with_arg (trim wallet_id) (\<lambda>i. with_secret (trim mnemonic) (\<lambda>seed.
       checked_call ''wallet_unseal_from_mnemonic'' () (wallet_unseal_from_mnemonic_ffi_impl cr obs i seed timeout_ms)))"

definition api_close :: "(u64 \<Rightarrow> wait_obs) \<Rightarrow> string \<Rightarrow> u64 \<Rightarrow> unit api" where
  "api_close obs wallet_id timeout_ms =
     with_arg (trim wallet_id) (\<lambda>i. checked_call ''wallet_close'' () (wallet_close_ffi_impl obs i timeout_ms))"

definition api_is_sealed :: "string \<Rightarrow> bool api" where
  "api_is_sealed wallet_id =
     with_arg (trim wallet_id) (\<lambda>i.
     api_bind (checked_call ''wallet_is_sealed'' None (wallet_is_sealed_ffi_impl i True)) (\<lambda>sealed.
       api_pure (Inr (required_out sealed False))))"

definition api_set_gap_limit :: "string \<Rightarrow> u32 \<Rightarrow> unit api" where
  "api_set_gap_limit wallet_id gap_limit =
     with_arg (trim wallet_id) (\<lambda>i. checked_call ''wallet_set_gap_limit'' () (wallet_set_gap_limit_ffi_impl i gap_limit))"

text \<open>The thread that a successful call starts is \<open>refresh_worker\<close>.\<close>

definition api_refresh_async :: "string \<Rightarrow> string \<Rightarrow> unit api" where
  "api_refresh_async wallet_id node_url =
     with_arg (trim wallet_id) (\<lambda>i. with_arg (trim node_url) (\<lambda>node.
       checked_call ''wallet_refresh_async'' ()
         (\<lambda>w. case wallet_refresh_async_ffi_impl i node w of
                (Value code, w1) \<Rightarrow> (Value (code, ()), w1) | (Panic, w1) \<Rightarrow> (Panic, w1))))"

definition api_refresh_job :: "string \<Rightarrow> world \<Rightarrow> job_status" where
  "api_refresh_job wallet_id = refresh_job (trim wallet_id)"

definition api_refresh_cancel :: "string \<Rightarrow> unit api" where
  "api_refresh_cancel wallet_id =
     with_arg (trim wallet_id) (\<lambda>i. checked_call ''wallet_refresh_cancel'' () (wallet_refresh_cancel_ffi_impl i))"

definition api_reset_tracked_outputs :: "string \<Rightarrow> unit api" where
  "api_reset_tracked_outputs wallet_id =
     with_arg (trim wallet_id) (\<lambda>i. checked_call ''wallet_reset_tracked_outputs'' () (wallet_reset_tracked_outputs_ffi_impl i))"

definition api_force_rescan_from_height :: "string \<Rightarrow> u64 \<Rightarrow> unit api" where
  "api_force_rescan_from_height wallet_id new_restore_height =
     with_arg (trim wallet_id) (\<lambda>i.
       checked_call ''wallet_force_rescan_from_height'' () (wallet_force_rescan_from_height_ffi_impl i new_restore_height))"

definition api_rewind_scan_cursor_to_height :: "string \<Rightarrow> u64 \<Rightarrow> unit api" where
  "api_rewind_scan_cursor_to_height wallet_id target_height =
     with_arg (trim wallet_id) (\<lambda>i.
       checked_call ''wallet_rewind_scan_cursor_to_height'' ()
         (wallet_rewind_scan_cursor_to_height_ffi_impl i target_height))"

text \<open>The I2P proxy is set without a detour over the exported call.\<close>

definition api_set_i2p_http_proxy :: "url_lib \<Rightarrow> string option \<Rightarrow> route_state \<Rightarrow> (api_error + unit) \<times> route_state" where
  "api_set_i2p_http_proxy ul proxy st =
     (case configure_i2p_proxy ul proxy st of
        (Inr _, st') \<Rightarrow> (Inr (), st') | (Inl message, st') \<Rightarrow> (Inl \<lparr>ae_code = -14, ae_message = message\<rparr>, st'))"

section \<open>Balances, status and history\<close>

record balance =
  bl_total_piconero :: u64
  bl_unlocked_piconero :: u64

definition balance_of :: "(u64 \<times> u64) option \<Rightarrow> balance" where
  "balance_of out = (case required_out out (0, 0) of (total1, unlocked1) \<Rightarrow>
     \<lparr>bl_total_piconero = total1, bl_unlocked_piconero = unlocked1\<rparr>)"

definition filter_json :: "u32 \<Rightarrow> string" where
  "filter_json minor = ''{'' @ [CHR 34] @ ''subaddress_minor'' @ [CHR 34] @ '':'' @ show_nat minor @ ''}''"

definition api_sync_status :: "string \<Rightarrow> sync_status api" where
  "api_sync_status wallet_id =
     with_arg (trim wallet_id) (\<lambda>i.
     api_bind (checked_call ''wallet_sync_status'' None (wallet_sync_status_ffi_impl i)) (\<lambda>out.
       api_pure (Inr (required_out out \<lparr>ss_chain_height = 0, ss_chain_time = 0, ss_last_refresh_timestamp = 0,
         ss_last_scanned = 0, ss_restore_height = 0\<rparr>))))"

definition api_get_balance :: "string \<Rightarrow> balance api" where
  "api_get_balance wallet_id =
     with_arg (trim wallet_id) (\<lambda>i.
     api_bind (checked_call ''wallet_get_balance'' None (wallet_get_balance_ffi_impl i True True)) (\<lambda>out.
       api_pure (Inr (balance_of out))))"

definition api_get_balance_for_subaddress :: "(string \<Rightarrow> string + u32 option) \<Rightarrow> string \<Rightarrow> u32 \<Rightarrow> balance api" where
  "api_get_balance_for_subaddress read_filter wallet_id subaddress_minor1 =
     with_arg (trim wallet_id) (\<lambda>i. with_arg (filter_json subaddress_minor1) (\<lambda>flt.
     api_bind (checked_call ''wallet_get_balance_with_filter'' None
                 (wallet_get_balance_with_filter_ffi_impl read_filter i flt True True)) (\<lambda>out.
       api_pure (Inr (balance_of out)))))"

record transfer_history =
  th_schema_version :: u32
  th_wallet_id :: "string option"
  th_last_scanned_height :: "u64 option"
  th_chain_height :: "u64 option"
  th_chain_time :: "u64 option"
  th_transfers :: "transfer list"

record versioned_transfer_history =
  vh_schema_version :: u32
  vh_wallet_id :: string
  vh_last_scanned_height :: u64
  vh_chain_height :: u64
  vh_chain_time :: u64
  vh_transfers :: "transfer list"

datatype transfer_history_wire = Legacy "transfer list" | Versioned versioned_transfer_history

record send_result =
  sd_txid :: string
  sd_fee :: u64

record sweep_preview =
  sv_amount :: u64
  sv_fee :: u64

record sweep_result =
  sw_txid :: string
  sw_amount :: u64
  sw_fee :: u64

record relay_result =
  ry_txid :: string
  ry_status :: string

record prepared_tx =
  px_txid :: string
  px_amount :: u64
  px_fee :: u64

record json_codec =
  jc_quote :: "string \<Rightarrow> string + string"
  jc_history_text :: "transfers_envelope \<Rightarrow> string"
  jc_history_read :: "string \<Rightarrow> string + transfer_history_wire"
  jc_send_text :: "send_answer \<Rightarrow> string"
  jc_sweep_text :: "sweep_answer \<Rightarrow> string"
  jc_relay_text :: "relay_answer \<Rightarrow> string"
  jc_fee_read :: "string \<Rightarrow> string + u64"
  jc_send_read :: "string \<Rightarrow> string + send_result"
  jc_preview_read :: "string \<Rightarrow> string + sweep_preview"
  jc_sweep_read :: "string \<Rightarrow> string + sweep_result"
  jc_prepared_read :: "string \<Rightarrow> string + prepared_tx"
  jc_relay_read :: "string \<Rightarrow> string + relay_result"

definition json_error :: "string \<Rightarrow> string \<Rightarrow> api_error" where
  "json_error what message = \<lparr>ae_code = -16, ae_message = what @ '' JSON: '' @ message\<rparr>"

definition from_json :: "string \<Rightarrow> (string \<Rightarrow> string + 'a) \<Rightarrow> string \<Rightarrow> api_error + 'a" where
  "from_json what read text1 = (case read text1 of Inl e \<Rightarrow> Inl (json_error what e) | Inr x \<Rightarrow> Inr x)"

fun check_transfers :: "transfer list \<Rightarrow> api_error + unit" where
  "check_transfers [] = Inr ()"
| "check_transfers (t # ts) =
     (if trim (tr_txid t) = [] then Inl (json_error ''transfer'' ''transaction id was empty'')
      else if tr_direction t \<notin> {''in'', ''out'', ''self''}
      then Inl (json_error ''transfer'' (''unsupported direction '' @ [CHR 39] @ tr_direction t @ [CHR 39] @ '' for '' @ tr_txid t))
      else check_transfers ts)"

definition history_of_wire :: "string \<Rightarrow> transfer_history_wire \<Rightarrow> api_error + transfer_history" where
  "history_of_wire expected_wallet_id wire =
     (case wire of
        Legacy transfers \<Rightarrow> Inr \<lparr>th_schema_version = 0, th_wallet_id = None, th_last_scanned_height = None,
          th_chain_height = None, th_chain_time = None, th_transfers = transfers\<rparr>
      | Versioned envelope \<Rightarrow>
          if vh_schema_version envelope \<noteq> 1
          then Inl (json_error ''transfer'' (''unsupported schema_version '' @ show_nat (vh_schema_version envelope)
                 @ '' (supported: 1)''))
          else if vh_wallet_id envelope \<noteq> expected_wallet_id
          then Inl (json_error ''transfer'' (''wallet_id '' @ [CHR 39] @ vh_wallet_id envelope @ [CHR 39]
                 @ '' did not match requested wallet '' @ [CHR 39] @ expected_wallet_id @ [CHR 39]))
          else Inr \<lparr>th_schema_version = vh_schema_version envelope, th_wallet_id = Some (vh_wallet_id envelope),
                 th_last_scanned_height = Some (vh_last_scanned_height envelope),
                 th_chain_height = Some (vh_chain_height envelope), th_chain_time = Some (vh_chain_time envelope),
                 th_transfers = vh_transfers envelope\<rparr>)"

definition decode_transfer_history :: "json_codec \<Rightarrow> string \<Rightarrow> string \<Rightarrow> api_error + transfer_history" where
  "decode_transfer_history jc json1 expected_wallet_id =
     (case from_json ''transfer'' (jc_history_read jc) json1 of Inl e \<Rightarrow> Inl e
      | Inr wire \<Rightarrow>
          (case history_of_wire expected_wallet_id wire of Inl e \<Rightarrow> Inl e
           | Inr history \<Rightarrow>
               (case check_transfers (th_transfers history) of Inl e \<Rightarrow> Inl e | Inr _ \<Rightarrow> Inr history)))"

definition api_list_transfer_history :: "json_codec \<Rightarrow> string \<Rightarrow> transfer_history api" where
  "api_list_transfer_history jc wallet_id =
     with_arg (trim wallet_id) (\<lambda>i w.
       case guard ''wallet_list_transfers_json'' None (wallet_list_transfers_json_ffi_impl i) w of
         (None, w1) \<Rightarrow> (Inl (api_fail (-13) w1), w1)
       | (Some envelope, w1) \<Rightarrow> (decode_transfer_history jc (jc_history_text jc envelope) (trim wallet_id), w1))"

definition api_list_transfers :: "json_codec \<Rightarrow> string \<Rightarrow> transfer list api" where
  "api_list_transfers jc wallet_id =
     api_bind (api_list_transfer_history jc wallet_id) (\<lambda>h. api_pure (Inr (th_transfers h)))"

text \<open>The bounded page is read without the exported call, and its wallet id is not trimmed.\<close>

definition api_query_transfers :: "crypto \<Rightarrow> string \<Rightarrow> history_query \<Rightarrow> history_page api" where
  "api_query_transfers cr wallet_id q w =
     (case query_history cr wallet_id q w of
        (Inl message, w1) \<Rightarrow> (Inl \<lparr>ae_code = -16, ae_message = message\<rparr>, w1) | (Inr page, w1) \<Rightarrow> (Inr page, w1))"

definition api_transfer_by_id :: "crypto \<Rightarrow> string \<Rightarrow> string \<Rightarrow> transfer option api" where
  "api_transfer_by_id cr wallet_id txid =
     api_bind (api_query_transfers cr wallet_id (default_query\<lparr>hq_txid := Some txid, hq_limit := 1\<rparr>)) (\<lambda>page.
       api_pure (Inr (case hp_transfers page of [] \<Rightarrow> None | t # _ \<Rightarrow> Some t)))"

section \<open>The cache\<close>

definition api_import_cache :: "crypto \<Rightarrow> codec \<Rightarrow> string \<Rightarrow> bytes \<Rightarrow> unit api" where
  "api_import_cache cr c wallet_id cache =
     (if cache = [] then api_pure (Inl \<lparr>ae_code = -11, ae_message = ''cache was empty''\<rparr>)
      else with_arg (trim wallet_id) (\<lambda>i.
             checked_call ''wallet_import_cache'' () (wallet_import_cache_ffi_impl cr c i (Some cache))))"

text \<open>The size is asked for first; other threads may run before the second call, which is not repeated.\<close>

definition api_export_cache :: "crypto \<Rightarrow> codec \<Rightarrow> (world \<Rightarrow> world) \<Rightarrow> string \<Rightarrow> bytes api" where
  "api_export_cache cr c others wallet_id =
     with_arg (trim wallet_id) (\<lambda>i w.
       let ((probe, _, out), w1) =
             guard ''wallet_export_cache'' (-19, None, None) (wallet_export_cache_ffi_impl cr c i False None) w;
           needed = opt_get_or 0 out in
       if probe \<noteq> -12 \<and> probe \<noteq> 0 then (Inl (api_fail probe w1), w1)
       else if needed = 0 then (Inr [], w1)
       else
         api_bind (checked_call ''wallet_export_cache'' (None, None)
                     (wallet_export_cache_ffi_impl cr c i False (Some needed))) (\<lambda>(data, wrote).
           api_pure (Inr (take (opt_get_or 0 wrote)
             (opt_get_or [] data @ drop (length (opt_get_or [] data)) (replicate needed 0))))) (others w1))"

section \<open>Sending\<close>

definition DEFAULT_RING_LEN :: nat where
  "DEFAULT_RING_LEN = 16"

definition has_unlocked_for_exact_send :: "u64 \<Rightarrow> u64 \<Rightarrow> u64 \<Rightarrow> bool" where
  "has_unlocked_for_exact_send amt fee unlocked \<longleftrightarrow> amt \<le> unlocked \<and> fee \<le> sat_sub unlocked amt"

definition dests_json :: "json_codec \<Rightarrow> string \<Rightarrow> u64 \<Rightarrow> api_error + cptr" where
  "dests_json jc to_address amount_piconero =
     (case jc_quote jc (trim to_address) of
        Inl e \<Rightarrow> Inl \<lparr>ae_code = -10, ae_message = ''destination JSON: '' @ e\<rparr>
      | Inr quoted1 \<Rightarrow> cstr (''[{'' @ [CHR 34] @ ''address'' @ [CHR 34] @ '':'' @ quoted1 @ '','' @ [CHR 34] @ ''amount'' @ [CHR 34]
          @ '':'' @ show_nat amount_piconero @ ''}]''))"

text \<open>What a call needs of the process besides the wallet store.\<close>

record ('i, 'n) api_env =
  av_crypto :: crypto
  av_environment :: environment
  av_key_images :: ki_ops
  av_send :: "('i, 'n) send_lib"
  av_relay :: relay_lib
  av_json :: json_codec

definition with_wallet_and_node :: "string \<Rightarrow> string \<Rightarrow> (cptr \<Rightarrow> cptr \<Rightarrow> 'a api) \<Rightarrow> 'a api" where
  "with_wallet_and_node wallet_id node_url f =
     with_arg (trim wallet_id) (\<lambda>i. with_arg (trim node_url) (\<lambda>node. f i node))"

definition read_json :: "string \<Rightarrow> (string \<Rightarrow> string + 'a) \<Rightarrow> string api \<Rightarrow> 'a api" where
  "read_json what read m = api_bind m (\<lambda>json1. api_pure (from_json what read json1))"

definition send_json :: "('i, 'n) api_env \<Rightarrow> string \<Rightarrow> send_answer option call \<Rightarrow> string api" where
  "send_json av name f = api_bind (take_required name f) (\<lambda>a. api_pure (Inr (jc_send_text (av_json av) a)))"

definition sweep_json :: "('i, 'n) api_env \<Rightarrow> string \<Rightarrow> sweep_answer option call \<Rightarrow> string api" where
  "sweep_json av name f = api_bind (take_required name f) (\<lambda>a. api_pure (Inr (jc_sweep_text (av_json av) a)))"

definition api_preview_fee_filtered ::
  "('i, 'n) api_env \<Rightarrow> string \<Rightarrow> string \<Rightarrow> string \<Rightarrow> u64 \<Rightarrow> u32 option \<Rightarrow> u64 api" where
  "api_preview_fee_filtered av wallet_id node_url to_address amount_piconero from_subaddress =
     with_wallet_and_node wallet_id node_url (\<lambda>i node.
     api_bind (api_pure (dests_json (av_json av) to_address amount_piconero)) (\<lambda>dests.
       read_json ''fee'' (jc_fee_read (av_json av))
         (case from_subaddress of
            Some minor \<Rightarrow> with_arg (filter_json minor) (\<lambda>flt.
              send_json av ''wallet_preview_fee_with_filter''
                (wallet_preview_fee_with_filter_ffi_impl (av_crypto av) (av_environment av) (av_key_images av) (av_send av)
                   i node dests flt DEFAULT_RING_LEN))
          | None \<Rightarrow>
              send_json av ''wallet_preview_fee''
                (wallet_preview_fee_ffi_impl (av_crypto av) (av_environment av) (av_key_images av) (av_send av)
                   i node dests DEFAULT_RING_LEN))))"

definition api_preview_fee :: "('i, 'n) api_env \<Rightarrow> string \<Rightarrow> string \<Rightarrow> string \<Rightarrow> u64 \<Rightarrow> u64 api" where
  "api_preview_fee av wallet_id node_url to_address amount_piconero =
     api_preview_fee_filtered av wallet_id node_url to_address amount_piconero None"

definition api_preview_sweep_filtered ::
  "('i, 'n) api_env \<Rightarrow> string \<Rightarrow> string \<Rightarrow> string \<Rightarrow> u32 option \<Rightarrow> sweep_preview api" where
  "api_preview_sweep_filtered av wallet_id node_url to_address from_subaddress =
     with_wallet_and_node wallet_id node_url (\<lambda>i node. with_arg (trim to_address) (\<lambda>dest.
       read_json ''sweep preview'' (jc_preview_read (av_json av))
         (case from_subaddress of
            Some minor \<Rightarrow> with_arg (filter_json minor) (\<lambda>flt.
              sweep_json av ''wallet_preview_sweep_with_filter''
                (wallet_preview_sweep_with_filter_ffi_impl (av_crypto av) (av_environment av) (av_send av)
                   i node dest flt DEFAULT_RING_LEN))
          | None \<Rightarrow>
              sweep_json av ''wallet_preview_sweep''
                (\<lambda>w. case wallet_preview_sweep_ffi_impl (av_crypto av) (av_environment av) (av_send av)
                         i node dest DEFAULT_RING_LEN w of (a, w1) \<Rightarrow> (Value a, w1)))))"

definition api_preview_sweep :: "('i, 'n) api_env \<Rightarrow> string \<Rightarrow> string \<Rightarrow> string \<Rightarrow> sweep_preview api" where
  "api_preview_sweep av wallet_id node_url to_address = api_preview_sweep_filtered av wallet_id node_url to_address None"

definition api_send :: "('i, 'n) api_env \<Rightarrow> string \<Rightarrow> string \<Rightarrow> string \<Rightarrow> u64 \<Rightarrow> send_result api" where
  "api_send av wallet_id node_url to_address amount_piconero =
     with_wallet_and_node wallet_id node_url (\<lambda>i node. with_arg (trim to_address) (\<lambda>dest.
       read_json ''send'' (jc_send_read (av_json av))
         (send_json av ''wallet_send''
           (wallet_send_ffi_impl (av_crypto av) (av_environment av) (av_key_images av) (av_send av)
              i node dest amount_piconero DEFAULT_RING_LEN))))"

definition api_sweep :: "('i, 'n) api_env \<Rightarrow> string \<Rightarrow> string \<Rightarrow> string \<Rightarrow> sweep_result api" where
  "api_sweep av wallet_id node_url to_address =
     with_wallet_and_node wallet_id node_url (\<lambda>i node. with_arg (trim to_address) (\<lambda>dest.
       read_json ''sweep'' (jc_sweep_read (av_json av))
         (sweep_json av ''wallet_sweep''
           (wallet_sweep_ffi_impl (av_crypto av) (av_environment av) (av_send av) i node dest DEFAULT_RING_LEN))))"

definition api_prepare_send_filtered ::
  "('i, 'n) api_env \<Rightarrow> string \<Rightarrow> string \<Rightarrow> string \<Rightarrow> u64 \<Rightarrow> u32 option \<Rightarrow> string api" where
  "api_prepare_send_filtered av wallet_id node_url to_address amount_piconero from_subaddress =
     with_wallet_and_node wallet_id node_url (\<lambda>i node.
       case from_subaddress of
         Some minor \<Rightarrow>
           api_bind (api_pure (dests_json (av_json av) to_address amount_piconero)) (\<lambda>dests.
           with_arg (filter_json minor) (\<lambda>flt.
             send_json av ''wallet_prepare_send_with_filter''
               (wallet_prepare_send_with_filter_ffi_impl (av_crypto av) (av_environment av) (av_key_images av) (av_send av)
                  i node dests flt DEFAULT_RING_LEN)))
       | None \<Rightarrow>
           with_arg (trim to_address) (\<lambda>dest.
             send_json av ''wallet_prepare_send''
               (wallet_prepare_send_ffi_impl (av_crypto av) (av_environment av) (av_key_images av) (av_send av)
                  i node dest amount_piconero DEFAULT_RING_LEN)))"

definition api_prepare_send :: "('i, 'n) api_env \<Rightarrow> string \<Rightarrow> string \<Rightarrow> string \<Rightarrow> u64 \<Rightarrow> string api" where
  "api_prepare_send av wallet_id node_url to_address amount_piconero =
     api_prepare_send_filtered av wallet_id node_url to_address amount_piconero None"

definition api_prepare_sweep_filtered ::
  "('i, 'n) api_env \<Rightarrow> string \<Rightarrow> string \<Rightarrow> string \<Rightarrow> u32 option \<Rightarrow> string api" where
  "api_prepare_sweep_filtered av wallet_id node_url to_address from_subaddress =
     with_wallet_and_node wallet_id node_url (\<lambda>i node. with_arg (trim to_address) (\<lambda>dest.
       case from_subaddress of
         Some minor \<Rightarrow> with_arg (filter_json minor) (\<lambda>flt.
           sweep_json av ''wallet_prepare_sweep_with_filter''
             (wallet_prepare_sweep_with_filter_ffi_impl (av_crypto av) (av_environment av) (av_send av)
                i node dest flt DEFAULT_RING_LEN))
       | None \<Rightarrow>
           sweep_json av ''wallet_prepare_sweep''
             (wallet_prepare_sweep_ffi_impl (av_crypto av) (av_environment av) (av_send av)
                i node dest DEFAULT_RING_LEN)))"

definition api_prepare_sweep :: "('i, 'n) api_env \<Rightarrow> string \<Rightarrow> string \<Rightarrow> string \<Rightarrow> string api" where
  "api_prepare_sweep av wallet_id node_url to_address = api_prepare_sweep_filtered av wallet_id node_url to_address None"

definition api_parse_prepared :: "json_codec \<Rightarrow> string \<Rightarrow> api_error + prepared_tx" where
  "api_parse_prepared jc json1 = from_json ''prepared'' (jc_prepared_read jc) json1"

definition api_relay_prepared :: "('i, 'n) api_env \<Rightarrow> string \<Rightarrow> string \<Rightarrow> string \<Rightarrow> relay_result api" where
  "api_relay_prepared av wallet_id node_url prepared_json =
     with_wallet_and_node wallet_id node_url (\<lambda>i node. with_arg prepared_json (\<lambda>payload.
       read_json ''relay'' (jc_relay_read (av_json av))
         (api_bind (take_required ''wallet_relay_prepared''
                      (wallet_relay_prepared_ffi_impl (av_crypto av) (av_environment av) (av_relay av) i node payload))
            (\<lambda>a. api_pure (Inr (jc_relay_text (av_json av) a))))))"

end
