(* ===== verification/Api_Correct.thy ===== *)
theory Api_Correct
  imports Api Lifecycle
begin

text \<open>
  What the safe interface guarantees over the exported calls: arguments with a zero byte reach nothing, a
  text call returns the whole text, a decoded history is well-typed and is the wallet's, a cache comes back
  as it was exported. Two lemmas show messages that belong to an earlier failure.
\<close>

section \<open>Arguments\<close>

lemma cstr_simps [simp]: "cstr v = Inr p \<longleftrightarrow> CHR 0x00 \<notin> set v \<and> p = CStr v"
  "cstr v = Inl e \<longleftrightarrow> CHR 0x00 \<in> set v \<and> e = interior_nul"
  by (auto simp: cstr_def)

lemma with_arg_nul: "CHR 0x00 \<in> set v \<Longrightarrow> with_arg v f w = (Inl interior_nul, w)"
  by (simp add: with_arg_def api_bind_def api_pure_def cstr_def)

lemma with_arg_plain: "CHR 0x00 \<notin> set v \<Longrightarrow> with_arg v f w = f (CStr v) w"
  by (simp add: with_arg_def api_bind_def api_pure_def cstr_def)

lemma with_secret_nul: "CHR 0x00 \<in> set v \<Longrightarrow> with_secret v f w = (Inl interior_nul, w)"
  by (simp add: with_secret_def api_bind_def api_pure_def secret_cstr_def)

lemma secret_pointer: "secret_cstr v = Inr buffer \<Longrightarrow> pointer_to buffer = CStr v"
  by (auto simp: secret_cstr_def pointer_to_def takeWhile_append split: if_splits)

lemma with_secret_plain: "CHR 0x00 \<notin> set v \<Longrightarrow> with_secret v f w = f (CStr v) w"
  using secret_pointer [of v "v @ [CHR 0x00]"]
  by (simp add: with_secret_def api_bind_def api_pure_def secret_cstr_def)

lemma send_refuses_nul:
  assumes "CHR 0x00 \<in> set (trim wallet_id) \<union> set (trim node_url) \<union> set (trim to_address)"
  shows "api_send av wallet_id node_url to_address n w = (Inl interior_nul, w)"
    and "api_sweep av wallet_id node_url to_address w = (Inl interior_nul, w)"
  using assms
  by (cases "CHR 0x00 \<in> set (trim wallet_id)"; cases "CHR 0x00 \<in> set (trim node_url)";
      simp add: api_send_def api_sweep_def with_wallet_and_node_def with_arg_nul with_arg_plain)+

text \<open>The exact-send check is the sum in unbounded arithmetic.\<close>

lemma exact_send_iff: "has_unlocked_for_exact_send amt fee unl \<longleftrightarrow> amt + fee \<le> unl"
  by (auto simp: has_unlocked_for_exact_send_def sat_sub_def)

section \<open>Text buffers\<close>

lemma buffer_text_stored:
  assumes "CHR 0x00 \<notin> set t" "length t < length buf"
  shows "buffer_text (store_text (Some t) buf) (length t) = Inr t"
proof -
  have "min (length t) (sat_sub (length (store_text (Some t) buf)) 1) = length t"
    using assms(2) by (simp add: store_text_def sat_sub_def)
  then have "take (Suc (min (length t) (sat_sub (length (store_text (Some t) buf)) 1))) (store_text (Some t) buf) = t @ [CHR 0x00]"
    by (simp add: store_text_def)
  then show ?thesis using assms(1) by (simp add: buffer_text_def Let_def takeWhile_append del: take_Suc)
qed

text \<open>A call that refuses a buffer that is too short and otherwise stores the whole text.\<close>

definition whole_text :: "text_call \<Rightarrow> usize \<Rightarrow> (nat \<Rightarrow> string) \<Rightarrow> bool" where
  "whole_text call r t \<longleftrightarrow>
     (\<forall>k n w. 0 < n \<longrightarrow> call k n w = (if n \<le> length (t k) then ((-12, Some [], r), w) else ((0, Some (t k), length (t k)), w)))"

lemma write_into_buf_short:
  assumes "whole_text call r t" "CHR 0x00 \<notin> set (t 0)" "length (t 0) < 1024"
  shows "write_into_buf call w = (Inr (t 0), w)"
  using assms buffer_text_stored [of "t 0" "replicate 1024 (CHR 0x00)"]
  by (simp add: whole_text_def write_into_buf_def)

lemma write_into_buf_long:
  assumes "whole_text call r t" "1024 \<le> length (t 0)" "CHR 0x00 \<notin> set (t 1)" "length (t 1) < max (sat_add r 2) 2048"
  shows "write_into_buf call w = (Inr (t 1), w)"
proof -
  let ?n = "max (sat_add r 2) 2048"
  have fits: "\<not> ?n \<le> length (t 1)" using assms(4) by linarith
  have c: "call 0 1024 w = ((-12, Some [], r), w)" "call 1 ?n w = ((0, Some (t 1), length (t 1)), w)"
    using assms(2) assms(1) [unfolded whole_text_def, rule_format, of 1024 0 w]
      assms(1) [unfolded whole_text_def, rule_format, of ?n 1 w] fits
    by (simp_all del: max.bounded_iff)
  have "length (t 1) < length (store_text (Some []) (replicate 1024 (CHR 0x00)) @
      replicate (?n - length (store_text (Some []) (replicate 1024 (CHR 0x00)))) (CHR 0x00))"
    using assms(4) by (simp add: store_text_def)
  from buffer_text_stored [OF assms(3) this] show ?thesis
    unfolding write_into_buf_def c prod.case Let_def by simp
qed

lemma address_text:
  "whole_text (text_call_of nm (\<lambda>_ n. write_address_to_buf a True n)) 0 (\<lambda>_. a)"
  by (auto simp: whole_text_def text_call_of_def guard_def write_address_to_buf_def)

lemma address_returned:
  assumes "CHR 0x00 \<notin> set a" "length a < 2048"
  shows "write_into_buf (text_call_of nm (\<lambda>_ n. write_address_to_buf a True n)) w = (Inr a, w)"
  using write_into_buf_short [OF address_text assms(1), of nm w] write_into_buf_long [OF address_text _ assms(1), of nm w] assms(2)
  by (cases "length a < 1024") simp_all

lemma derived_address_returned:
  assumes "CHR 0x00 \<notin> set (trim mnemonic)" "master_keys_from_mnemonic_ptr cr (CStr (trim mnemonic)) = Inr k"
    and "a = derive_address_string cr (Unsealed k) account minor (network_from_flag (flag mainnet))"
    and "CHR 0x00 \<notin> set a" "length a < 2048"
  shows "api_derive_subaddress_from_mnemonic cr mnemonic account minor mainnet w = (Inr a, w)"
  using address_returned [OF assms(4,5)] assms(1-3)
  by (simp add: api_derive_subaddress_from_mnemonic_def with_secret_plain wallet_derive_subaddress_from_mnemonic_ffi_impl_def)

text \<open>A new phrase is returned as it was drawn; one that does not fit the first buffer is drawn again.\<close>

lemma generated_mnemonic_returned:
  assumes "CHR 0x00 \<notin> set (fresh 0)" "CHR 0x00 \<notin> set (fresh 1)" "length (fresh 1) < 2048"
  shows "api_generate_mnemonic_english fresh w = (Inr (if length (fresh 0) < 1024 then fresh 0 else fresh 1), w)"
proof -
  let ?call = "text_call_of ''wallet_generate_mnemonic_english'' (\<lambda>k n.
       case wallet_generate_mnemonic_english_ffi_impl (fresh k) True n of (rc, t, wrote) \<Rightarrow> (rc, t, opt_get_or 0 wrote))"
  have "whole_text ?call 0 fresh"
    by (auto simp: whole_text_def text_call_of_def guard_def wallet_generate_mnemonic_english_ffi_impl_def)
  from write_into_buf_short [OF this assms(1), of w] write_into_buf_long [OF this _ assms(2), of w] assms(3)
  show ?thesis by (simp add: api_generate_mnemonic_english_def not_less)
qed

section \<open>The transfer history\<close>

definition transfer_typed :: "transfer \<Rightarrow> bool" where
  "transfer_typed t \<longleftrightarrow> trim (tr_txid t) \<noteq> [] \<and> tr_direction t \<in> {''in'', ''out'', ''self''}"

lemma check_transfers_iff: "check_transfers ts = Inr u \<longleftrightarrow> list_all transfer_typed ts"
  by (induction ts) (simp_all add: transfer_typed_def)

definition wire_of :: "transfers_envelope \<Rightarrow> transfer_history_wire" where
  "wire_of e = Versioned \<lparr>vh_schema_version = te_schema_version e, vh_wallet_id = te_wallet_id e,
     vh_last_scanned_height = te_last_scanned_height e, vh_chain_height = te_chain_height e,
     vh_chain_time = te_chain_time e, vh_transfers = te_transfers e\<rparr>"

text \<open>What is relied on of the serializer: a history that it reads from its own text is the one it wrote.\<close>

definition history_reads_back :: "json_codec \<Rightarrow> bool" where
  "history_reads_back jc \<longleftrightarrow> (\<forall>e x. jc_history_read jc (jc_history_text jc e) = Inr x \<longrightarrow> x = wire_of e)"

lemma decode_history_typed:
  assumes "decode_transfer_history jc text1 i = Inr h"
  shows "list_all transfer_typed (th_transfers h)" and "th_schema_version h \<in> {0, 1}"
    and "th_schema_version h = 1 \<Longrightarrow> th_wallet_id h = Some i"
    and "th_schema_version h = 0 \<Longrightarrow> th_wallet_id h = None \<and> th_chain_height h = None \<and> th_last_scanned_height h = None"
  using assms
  by (auto simp: decode_transfer_history_def from_json_def history_of_wire_def check_transfers_iff
      split: sum.splits transfer_history_wire.splits if_splits)

lemma decode_own_history:
  assumes "jc_history_read jc (jc_history_text jc e) = Inr (wire_of e)"
  shows "decode_transfer_history jc (jc_history_text jc e) i = Inr h \<longleftrightarrow>
    te_schema_version e = 1 \<and> te_wallet_id e = i \<and> list_all transfer_typed (te_transfers e) \<and>
    h = \<lparr>th_schema_version = 1, th_wallet_id = Some i, th_last_scanned_height = Some (te_last_scanned_height e),
         th_chain_height = Some (te_chain_height e), th_chain_time = Some (te_chain_time e), th_transfers = te_transfers e\<rparr>"
  using assms check_transfers_iff [of "te_transfers e"]
  by (auto simp: decode_transfer_history_def from_json_def wire_of_def history_of_wire_def split: sum.splits)

lemma decoded_text_is_own:
  "history_reads_back jc \<Longrightarrow> decode_transfer_history jc (jc_history_text jc e) i = Inr h \<Longrightarrow>
     jc_history_read jc (jc_history_text jc e) = Inr (wire_of e)"
  by (auto simp: decode_transfer_history_def from_json_def history_reads_back_def split: sum.splits)

text \<open>What a caller lists is the ledger of the wallet, and it can be listed when its rows are typed.\<close>

lemma listed_history_is_the_ledger:
  assumes jc: "history_reads_back jc" and run: "api_list_transfer_history jc wallet_id w = (Inr h, w1)"
  shows "\<exists>st. map_of (wd_store w) (trim wallet_id) = Some st \<and>
    h = \<lparr>th_schema_version = 1, th_wallet_id = Some (trim wallet_id), th_last_scanned_height = Some (w_last_scanned st),
         th_chain_height = Some (w_chain_height st), th_chain_time = Some (w_chain_time st),
         th_transfers = list_transfer_rows (w_tx_ledger st) (w_chain_height st)\<rparr> \<and>
    list_all transfer_typed (th_transfers h) \<and> wd_store w1 = wd_store w"
proof -
  have plain: "CHR 0x00 \<notin> set (trim wallet_id)"
    using run by (cases "CHR 0x00 \<in> set (trim wallet_id)") (simp_all add: api_list_transfer_history_def with_arg_nul)
  obtain e where g: "guard ''wallet_list_transfers_json'' None (wallet_list_transfers_json_ffi_impl (CStr (trim wallet_id))) w = (Some e, w1)"
    and d: "decode_transfer_history jc (jc_history_text jc e) (trim wallet_id) = Inr h"
    using run plain by (auto simp: api_list_transfer_history_def with_arg_plain split: prod.splits option.splits)
  obtain st i where st: "map_of (wd_store w) i = Some st" and keep: "wd_store w1 = wd_store w"
    and e: "e = \<lparr>te_schema_version = 1, te_wallet_id = i, te_last_scanned_height = w_last_scanned st,
      te_chain_height = w_chain_height st, te_chain_time = w_chain_time st,
      te_transfers = list_transfer_rows (w_tx_ledger st) (w_chain_height st)\<rparr>"
    using g
    by (fastforce simp: guard_def wallet_list_transfers_json_ffi_impl_def Let_def on_wallet_def lock_store_def
        TRANSFER_HISTORY_SCHEMA_VERSION_def split: prod.splits outcome.splits sum.splits option.splits if_splits)
  show ?thesis using d st keep unfolding decode_own_history [OF decoded_text_is_own [OF jc d]] by (auto simp: e)
qed

lemma history_can_be_listed:
  assumes jc: "\<And>e. te_wallet_id e = i \<Longrightarrow> jc_history_read jc (jc_history_text jc e) = Inr (wire_of e)" and st: "map_of (wd_store w) i = Some st" "\<not> wd_store_poisoned w"
    and i: "CHR 0x00 \<notin> set i" "cstr_to_str i = Some i" "trim i = i"
    and rows: "list_all transfer_typed (list_transfer_rows (w_tx_ledger st) (w_chain_height st))"
  shows "\<exists>h w1. api_list_transfer_history jc i w = (Inr h, w1)"
  using rows st i
  by (simp add: api_list_transfer_history_def with_arg_plain guard_def wallet_list_transfers_json_ffi_impl_def Let_def
      id_arg_def on_wallet_def lock_store_def decode_own_history jc TRANSFER_HISTORY_SCHEMA_VERSION_def)

text \<open>One transaction: the first query of a wallet finds a row with that id, up to the case of letters, or
  there is none.\<close>

lemma id_rows:
  assumes "hm_wf l"
  shows "set (history_rows (fst (new_history_index b l n)) (default_query\<lparr>hq_txid := Some txid, hq_limit := k\<rparr>)) =
    {e \<in> snd ` set l. eq_ignore_ascii_case (le_txid e) txid}"
proof -
  have m: "history_matches (default_query\<lparr>hq_txid := Some txid, hq_limit := k\<rparr>) e \<longleftrightarrow> eq_ignore_ascii_case (le_txid e) txid" for e
    by (cases "le_txid e")
      (simp_all add: history_matches_def default_query_def to_ascii_lowercase_def trim_def trim_start.simps
        trim_end_def trim_start_rev.simps)
  have "set (hi_ordered (fst (new_history_index b l n))) = fst ` set l"
    using arg_cong [OF new_index_ordered(1) [of b l n], of set_mset] by simp
  moreover have "(\<lambda>i. the (map_of l i)) ` fst ` set l = snd ` set l"
    using assms by (force simp: hm_wf_def image_image intro: rev_image_eqI)
  ultimately show ?thesis by (auto simp: history_rows_def m)
qed

lemma transfer_by_id_found:
  assumes st: "map_of (wd_store w) i = Some st" "\<not> wd_store_poisoned w" "w_history_index st = None"
    and l: "hm_wf (w_tx_ledger st)" and txid: "length txid \<le> 64"
  shows "\<exists>r w1. api_transfer_by_id cr i txid w = (Inr r, w1) \<and>
    (case r of
       None \<Rightarrow> \<forall>e \<in> snd ` set (w_tx_ledger st). \<not> eq_ignore_ascii_case (le_txid e) txid
     | Some t \<Rightarrow> \<exists>e \<in> snd ` set (w_tx_ledger st). eq_ignore_ascii_case (le_txid e) txid \<and>
                   t = transfer_of (w_chain_height st) e)"
proof -
  let ?q = "default_query\<lparr>hq_txid := Some txid, hq_limit := 1\<rparr>"
  obtain ix rev where ix: "new_history_index (wallet_cache_binding cr st) (w_tx_ledger st) (wd_next_revision w) = (ix, rev)" by force
  have rows: "set (history_rows ix ?q) = {e \<in> snd ` set (w_tx_ledger st). eq_ignore_ascii_case (le_txid e) txid}"
    using id_rows [OF l, of "wallet_cache_binding cr st" "wd_next_revision w" 1 txid] ix by simp
  have "query_valid ix ?q" using txid by (simp add: query_valid_def default_query_def)
  then obtain page where page: "history_index_query ix i ?q (w_last_scanned st) (w_chain_height st) (w_chain_time st) = Inr page"
    using query_valid_accepts by blast
  have "hp_offset page = 0" using history_query_ok(6) [OF page] by (simp add: default_query_def)
  then have trs: "hp_transfers page = map (transfer_of (w_chain_height st)) (take 1 (history_rows ix ?q))"
    using history_query_ok(1) [OF page] by simp
  have run: "\<exists>w1. api_transfer_by_id cr i txid w =
      (Inr (case hp_transfers page of [] \<Rightarrow> None | t # _ \<Rightarrow> Some t), w1)"
    using st page ix
    by (simp add: api_transfer_by_id_def api_bind_def api_query_transfers_def query_history_def Let_def api_pure_def)
  show ?thesis
  proof (cases "history_rows ix ?q")
    case Nil
    then show ?thesis using run trs rows by auto
  next
    case (Cons e es)
    then have "e \<in> {e \<in> snd ` set (w_tx_ledger st). eq_ignore_ascii_case (le_txid e) txid}" using rows by auto
    then show ?thesis using run trs Cons by (auto intro!: rev_bexI)
  qed
qed

section \<open>The cache\<close>

text \<open>What is exported in two calls is the encoded wallet, when nobody changes the wallet between them.\<close>

lemma exported_through_api:
  assumes codec: "codec_ok c" and st: "map_of (wd_store w) i = Some st" "\<not> wd_store_poisoned w"
    and i: "CHR 0x00 \<notin> set i" "cstr_to_str i = Some i" "trim i = i"
    and small: "\<exists>n \<le> MAX_CACHE_BYTES. bc_size c (persist_wallet cr st) = Some n"
    and others: "\<And>v. map_of (wd_store (others v)) i = map_of (wd_store v) i" "\<And>v. wd_store_poisoned (others v) = wd_store_poisoned v"
  shows "\<exists>data w1. api_export_cache cr c others i w = (Inr data, w1) \<and>
    bc_decode c data = Inr (persist_wallet cr st) \<and> cache_version_of data = Some WALLETCORE_CACHE_VERSION \<and>
    length data \<le> MAX_CACHE_BYTES"
proof -
  let ?p = "persist_wallet cr st"
  have "pw_cache_version ?p \<le> u32_max"
    by (simp add: persist_wallet_def WALLETCORE_CACHE_VERSION_def u32_max_def)
  then obtain bs where bs: "bc_encode c ?p = Inr bs" "bc_size c ?p = Some (length bs)"
    "cache_version_of bs = Some (pw_cache_version ?p)" "length bs \<le> MAX_CACHE_BYTES \<longrightarrow> bc_decode c bs = Inr ?p"
    using codec by (auto simp: codec_ok_def)
  have le: "length bs \<le> MAX_CACHE_BYTES" using small bs(2) by simp
  have ne: "bs \<noteq> []" using bs(3) by (auto simp: cache_version_of_def)
  have "\<exists>w1. api_export_cache cr c others i w = (Inr bs, w1)"
    using st i others le ne bs(1,2)
    by (simp add: api_export_cache_def with_arg_plain guard_def wallet_export_cache_ffi_impl_def Let_def id_arg_def
        on_wallet_def lock_store_def opt_filter_def api_bind_def checked_call_def api_pure_def)
  moreover have "cache_version_of bs = Some WALLETCORE_CACHE_VERSION" using bs(3) by (simp add: persisted_ok(1))
  ultimately show ?thesis using bs(4) le by blast
qed

lemma imported_through_api:
  assumes "bc_decode c data = Inr (persist_wallet cr st)" "cache_version_of data = Some WALLETCORE_CACHE_VERSION"
    and "length data \<le> MAX_CACHE_BYTES" "ids_distinct st"
    and i: "CHR 0x00 \<notin> set i" "cstr_to_str i = Some i" "trim i = i"
    and w: "\<not> wd_store_poisoned w" "\<not> wd_jobs_poisoned w" "\<not> job_running i w" "map_of (wd_store w) i = Some v"
    and v': "import_wallet cr (persist_wallet cr st) v = Inr v'"
  shows "\<exists>w1. api_import_cache cr c i data w = (Inr (), w1) \<and> map_of (wd_store w1) i = Some v'"
proof -
  have "distinct (map po_public_key (pw_tracked_outputs (persist_wallet cr st)))"
    using assms(4) by (simp add: persisted_ok(2) ids_distinct_def)
  from import_call [OF assms(1-3) persisted_ok(1) this i(2) w(1,2) _ _ v'] w(3,4) i(3)
  obtain w1 where w1: "wallet_import_cache_ffi_impl cr c (CStr i) (Some data) w = (Value (0, ()), w1)"
    "map_of (wd_store w1) i = Some v'" by auto
  have "data \<noteq> []" using assms(2) by (auto simp: cache_version_of_def)
  then show ?thesis using w1 i by (simp add: api_import_cache_def with_arg_plain checked_call_def guard_def)
qed

text \<open>A wallet that has grown between the two calls makes the second one fail; there is no other attempt.\<close>

lemma grown_cache_is_not_exported:
  assumes "map_of (wd_store w) i = Some st" "\<not> wd_store_poisoned w" "CHR 0x00 \<notin> set i" "cstr_to_str i = Some i" "trim i = i"
    and "bc_size c (persist_wallet cr st) = Some n" "0 < n" "n \<le> MAX_CACHE_BYTES"
    and "\<And>v. map_of (wd_store (others v)) i = Some st'" "\<And>v. \<not> wd_store_poisoned (others v)"
    and "bc_size c (persist_wallet cr st') = Some n'" "n < n'" "n' \<le> MAX_CACHE_BYTES"
  shows "fst (api_export_cache cr c others i w) = Inl \<lparr>ae_code = -12, ae_message = ''walletcore error '' @ show_int (-12)\<rparr>"
  using assms
  by (simp add: api_export_cache_def with_arg_plain guard_def wallet_export_cache_ffi_impl_def Let_def id_arg_def
      on_wallet_def lock_store_def opt_filter_def api_bind_def checked_call_def api_fail_def take_last_error_def
      walletcore_last_error_message_ffi_impl_def clear_last_error_def)

section \<open>Messages of earlier failures\<close>

text \<open>Opening with a phrase that is not a mnemonic records no message, so the caller gets the last one.\<close>

lemma open_reports_an_earlier_message:
  assumes "CHR 0x00 \<notin> set (trim wallet_id) \<union> set (trim mnemonic)" "cstr_to_str (trim wallet_id) = Some i" "trim i \<noteq> []"
    and "cstr_to_str (trim mnemonic) = Some m" "master_keys_from_mnemonic_str cr (trim m) = Inl code"
    and "wd_last_error w = Some earlier" "CHR 0x00 \<notin> set earlier"
  shows "api_open_from_mnemonic cr wallet_id mnemonic restore_height mainnet w =
    (Inl \<lparr>ae_code = -10, ae_message = earlier\<rparr>, w)"
  using assms
  by (simp add: api_open_from_mnemonic_def with_arg_plain with_secret_plain checked_call_def guard_def
      wallet_open_from_mnemonic_ffi_impl_def Let_def api_fail_def take_last_error_def
      walletcore_last_error_message_ffi_impl_def)

end
