(* ===== verification/Examples_Interface.thy ===== *)
theory Examples_Interface
  imports Examples_Fetch Api_Correct
begin

text \<open>
  Concrete calls of the safe interface: a wallet with one row in its history, and the cache of the wallet
  of \<open>Examples\<close>.
\<close>

definition ex_history_wallet :: stored_wallet where
  "ex_history_wallet = ex_wallet\<lparr>w_tx_ledger := [(''ab'', ex_row ''ab'' 5)]\<rparr>"

definition ex_history_world :: world where
  "ex_history_world = ex_world\<lparr>wd_store := [(''w'', ex_history_wallet)]\<rparr>"

definition ex_envelope :: transfers_envelope where
  "ex_envelope = \<lparr>te_schema_version = 1, te_wallet_id = ''w'', te_last_scanned_height = w_last_scanned ex_history_wallet,
     te_chain_height = w_chain_height ex_history_wallet, te_chain_time = w_chain_time ex_history_wallet,
     te_transfers = [transfer_of (w_chain_height ex_history_wallet) (ex_row ''ab'' 5)]\<rparr>"

text \<open>A serializer that writes the example history and reads nothing else.\<close>

definition ex_json :: json_codec where
  "ex_json = \<lparr>jc_quote = Inr, jc_history_text = (\<lambda>e. if e = ex_envelope then ''history'' else []),
     jc_history_read = (\<lambda>s. if s = ''history'' then Inr (wire_of ex_envelope) else Inl []), jc_send_text = (\<lambda>_. []),
     jc_sweep_text = (\<lambda>_. []), jc_relay_text = (\<lambda>_. []), jc_fee_read = (\<lambda>_. Inl []), jc_send_read = (\<lambda>_. Inl []),
     jc_preview_read = (\<lambda>_. Inl []), jc_sweep_read = (\<lambda>_. Inl []), jc_prepared_read = (\<lambda>_. Inl []),
     jc_relay_read = (\<lambda>_. Inl [])\<rparr>"

lemma ex_json_reads_back: "history_reads_back ex_json"
  by (simp add: history_reads_back_def ex_json_def)

lemma ex_rows: "list_transfer_rows (w_tx_ledger ex_history_wallet) h = [transfer_of h (ex_row ''ab'' 5)]"
  by (simp add: list_transfer_rows_def ex_history_wallet_def)

lemma ex_listed: "\<exists>h w1. api_list_transfer_history ex_json ''w'' ex_history_world = (Inr h, w1) \<and>
    map tr_txid (th_transfers h) = [''ab'']"
proof -
  have e: "jc_history_read ex_json (jc_history_text ex_json ex_envelope) = Inr (wire_of ex_envelope)"
    by (simp add: ex_json_def)
  have t: "transfer_typed (transfer_of h (ex_row ''ab'' 5))" for h
    by (simp add: transfer_typed_def ex_row_def trim_plain plain_char_def code_of_def)
  have g: "guard ''wallet_list_transfers_json'' None (wallet_list_transfers_json_ffi_impl (CStr ''w'')) ex_history_world =
      (Some ex_envelope, clear_last_error ex_history_world)"
  proof -
    have "map_of (wd_store ex_history_world) ''w'' = Some ex_history_wallet" "\<not> wd_store_poisoned ex_history_world"
      by (simp_all add: ex_history_world_def ex_world_def)
    then show ?thesis
      by (simp add: guard_def wallet_list_transfers_json_ffi_impl_def Let_def id_arg_def ex_id on_wallet_def lock_store_def
          TRANSFER_HISTORY_SCHEMA_VERSION_def ex_envelope_def ex_rows clear_last_error_def)
  qed
  have "\<exists>h. decode_transfer_history ex_json (jc_history_text ex_json ex_envelope) ''w'' = Inr h \<and>
      map tr_txid (th_transfers h) = [''ab'']"
    unfolding decode_own_history [OF e] using t by (simp add: ex_envelope_def) (simp add: ex_row_def)
  then show ?thesis
    by (auto simp: api_list_transfer_history_def with_arg_plain ex_id g)
qed

lemma ex_small: "\<exists>n \<le> MAX_CACHE_BYTES. bc_size ex_codec (persist_wallet ex_crypto ex_wallet) = Some n"
  by (simp add: ex_codec_def ex_encode_def ex_persisted_def [symmetric] le4_def MAX_CACHE_BYTES_def)

end
