(* ===== verification/Node_Events.thy ===== *)
theory Node_Events
  imports Api
begin

text \<open>
  The listener for block notifications of a node (\<open>lib.rs\<close>, ZMQ): one thread per process that counts the
  messages it receives, started, stopped and read by three exported calls. The socket is third-party: whether
  it becomes ready and what each receive gives are arguments. The lock of the slot is never poisoned, because
  nothing panics while it is held.
\<close>

section \<open>The listener\<close>

record zmq_runtime =
  zr_endpoint :: string
  zr_sequence :: u64
  zr_error :: "string option"
  zr_receiving :: bool

type_synonym zmq_slot = "zmq_runtime option"

text \<open>What the new thread reports within five seconds.\<close>

datatype zmq_ready = Zmq_Ready | Zmq_Refused string | Zmq_Silent

datatype zmq_receive = Zmq_Frames "string list" | Zmq_Again | Zmq_Failed string

text \<open>The first word of a text, \<open>split_whitespace().next()\<close>.\<close>

fun word_prefix :: "string \<Rightarrow> string" where
  "word_prefix [] = []"
| "word_prefix (c # cs) = (if ws_width (map code_of (c # cs)) \<noteq> 0 then [] else c # word_prefix cs)"

definition first_word :: "string \<Rightarrow> string option" where
  "first_word s = opt_filter (\<lambda>t. t \<noteq> []) (Some (word_prefix (trim_start s)))"

definition announced_height :: "string list \<Rightarrow> u64 option" where
  "announced_height frames =
     (if frames = [] then None
      else Option.bind (Option.bind (cstr_to_str (last frames)) first_word) (parse_unsigned u64_max))"

text \<open>One turn of the thread's loop. A failed receive ends it; its message is the process's last error.\<close>

definition zmq_turn :: "zmq_receive \<Rightarrow> zmq_runtime \<times> world \<Rightarrow> zmq_runtime \<times> world" where
  "zmq_turn ev = (\<lambda>(r, w).
     if \<not> zr_receiving r then (r, w)
     else (case ev of
             Zmq_Frames frames \<Rightarrow>
               (case announced_height frames of
                  Some height \<Rightarrow> (r\<lparr>zr_sequence := height\<rparr>, w)
                | None \<Rightarrow> (r\<lparr>zr_sequence := (zr_sequence r + 1) mod (u64_max + 1)\<rparr>, w))
           | Zmq_Again \<Rightarrow> (r, w)
           | Zmq_Failed err1 \<Rightarrow>
               (let message = ''wallet_zmq_listener: recv failed ('' @ err1 @ '')'' in
                (r\<lparr>zr_error := Some message, zr_receiving := False\<rparr>, w\<lparr>wd_last_error := Some message\<rparr>))))"

definition stop_zmq_runtime :: "zmq_slot \<Rightarrow> zmq_slot" where
  "stop_zmq_runtime slot = None"

definition ensure_zmq_runtime ::
  "(string \<Rightarrow> zmq_ready) \<Rightarrow> string \<Rightarrow> zmq_slot \<Rightarrow> (int \<times> string + unit) \<times> zmq_slot" where
  "ensure_zmq_runtime connect endpoint slot =
     (let trimmed = trim endpoint in
      if trimmed = [] then (Inl (-14, ''wallet_start_zmq_listener: endpoint is empty''), stop_zmq_runtime slot)
      else (case opt_filter (\<lambda>r. zr_endpoint r = trimmed) slot of
              Some r \<Rightarrow> ((case zr_error r of Some message \<Rightarrow> Inl (-16, message) | None \<Rightarrow> Inr ()), slot)
            | None \<Rightarrow>
                (case connect trimmed of
                   Zmq_Ready \<Rightarrow>
                     (Inr (), Some \<lparr>zr_endpoint = trimmed, zr_sequence = 0, zr_error = None, zr_receiving = True\<rparr>)
                 | Zmq_Refused message \<Rightarrow> (Inl (-15, message), stop_zmq_runtime slot)
                 | Zmq_Silent \<Rightarrow> (Inl (-15, ''timed out waiting for ZMQ subscriber''), stop_zmq_runtime slot))))"

section \<open>The exported calls\<close>

definition wallet_start_zmq_listener_ffi_impl ::
  "(string \<Rightarrow> zmq_ready) \<Rightarrow> cptr \<Rightarrow> zmq_slot \<times> world \<Rightarrow> int \<times> zmq_slot \<times> world" where
  "wallet_start_zmq_listener_ffi_impl connect endpoint = (\<lambda>(slot, w0).
     (let w = clear_last_error w0; nm = ''wallet_start_zmq_listener'' in
      case endpoint of
        CNull \<Rightarrow> (-11, slot, set_last_error (nm @ '': endpoint pointer was null'') w)
      | CStr s \<Rightarrow>
          (case cstr_to_str s of
             None \<Rightarrow> (-10, slot, set_last_error (nm @ '': endpoint contained invalid UTF-8'') w)
           | Some endpoint_str \<Rightarrow>
               (case ensure_zmq_runtime connect (trim endpoint_str) slot of
                  (Inr _, slot') \<Rightarrow> (0, slot', clear_last_error w)
                | (Inl (code, message), slot') \<Rightarrow> (code, slot', set_last_error message w)))))"

definition wallet_stop_zmq_listener_ffi_impl :: "zmq_slot \<times> world \<Rightarrow> int \<times> zmq_slot \<times> world" where
  "wallet_stop_zmq_listener_ffi_impl = (\<lambda>(slot, w). (0, stop_zmq_runtime slot, clear_last_error w))"

text \<open>The result: the code and the value written through a non-null pointer.\<close>

definition wallet_zmq_sequence_ffi_impl :: "bool \<Rightarrow> zmq_slot \<times> world \<Rightarrow> (int \<times> u64 option) \<times> world" where
  "wallet_zmq_sequence_ffi_impl has_out = (\<lambda>(slot, w0).
     (let w = clear_last_error w0; nm = ''wallet_zmq_sequence'' in
      if \<not> has_out then ((-11, None), set_last_error (nm @ '': out_sequence pointer was null'') w)
      else (case slot of
              None \<Rightarrow> ((-13, None), set_last_error (nm @ '': ZMQ listener not started'') w)
            | Some r \<Rightarrow>
                (case zr_error r of
                   Some message \<Rightarrow> ((-16, None), set_last_error message w)
                 | None \<Rightarrow> ((0, Some (zr_sequence r)), w)))))"

section \<open>Runs\<close>

text \<open>Calls of any thread and turns of the listener, in any order.\<close>

inductive zmq_reach :: "zmq_slot \<times> world \<Rightarrow> bool" where
  zmq_off: "zmq_reach (None, w)"
| zmq_started: "\<lbrakk>zmq_reach s; wallet_start_zmq_listener_ffi_impl connect endpoint s = (rc, s')\<rbrakk> \<Longrightarrow> zmq_reach s'"
| zmq_stopped: "\<lbrakk>zmq_reach s; wallet_stop_zmq_listener_ffi_impl s = (rc, s')\<rbrakk> \<Longrightarrow> zmq_reach s'"
| zmq_turned: "\<lbrakk>zmq_reach (Some r, w); zmq_turn ev (r, w) = (r', w')\<rbrakk> \<Longrightarrow> zmq_reach (Some r', w')"
| zmq_elsewhere: "zmq_reach (slot, w) \<Longrightarrow> zmq_reach (slot, w')"

definition runtime_ok :: "zmq_runtime \<Rightarrow> bool" where
  "runtime_ok r \<longleftrightarrow> zr_endpoint r \<noteq> [] \<and> zr_sequence r \<le> u64_max \<and> (zr_receiving r \<longleftrightarrow> zr_error r = None)"

lemma parse_unsigned_le: "parse_unsigned m s = Some n \<Longrightarrow> n \<le> m"
  by (auto simp: parse_unsigned_def Let_def split: if_splits list.splits)

lemma turn_ok: "runtime_ok r \<Longrightarrow> zmq_turn ev (r, w) = (r', w') \<Longrightarrow> runtime_ok r'"
  by (auto simp: zmq_turn_def runtime_ok_def announced_height_def bind_eq_Some_conv Let_def
      dest: parse_unsigned_le split: if_splits zmq_receive.splits option.splits)

lemma ensure_ok:
  assumes "ensure_zmq_runtime connect endpoint slot = (res, slot')" "\<forall>r. slot = Some r \<longrightarrow> runtime_ok r"
  shows "\<forall>r. slot' = Some r \<longrightarrow> runtime_ok r"
    and "res = Inr () \<longleftrightarrow> (\<exists>r. slot' = Some r \<and> zr_endpoint r = trim endpoint \<and> zr_receiving r \<and> trim endpoint \<noteq> [])"
  using assms
  by (auto simp: ensure_zmq_runtime_def Let_def stop_zmq_runtime_def runtime_ok_def opt_filter_def
      split: if_splits option.splits zmq_ready.splits)

lemma zmq_reach_ok: "zmq_reach s \<Longrightarrow> \<forall>r. fst s = Some r \<longrightarrow> runtime_ok r"
proof (induction rule: zmq_reach.induct)
  case (zmq_started s connect endpoint rc s')
  then show ?case
    by (auto simp: wallet_start_zmq_listener_ffi_impl_def Let_def split: cptr.splits option.splits prod.splits sum.splits
        dest: ensure_ok(1))
next
  case (zmq_stopped s rc s')
  then show ?case by (auto simp: wallet_stop_zmq_listener_ffi_impl_def stop_zmq_runtime_def split: prod.splits)
qed (auto dest: turn_ok)

text \<open>The number that is read: the last announced height plus the messages without one since.\<close>

lemma turns_count:
  assumes "zr_receiving r" "\<forall>frames \<in> set fs. announced_height frames = None"
  shows "fst (foldl (\<lambda>s frames. zmq_turn (Zmq_Frames frames) s) (r, w) fs) =
    (if fs = [] then r else r\<lparr>zr_sequence := (zr_sequence r + length fs) mod (u64_max + 1)\<rparr>)"
  using assms(2)
proof (induction fs rule: rev_induct)
  case (snoc f fs)
  let ?s = "foldl (\<lambda>s frames. zmq_turn (Zmq_Frames frames) s) (r, w) fs"
  obtain r1 w1 where s: "?s = (r1, w1)" by force
  have r1: "r1 = (if fs = [] then r else r\<lparr>zr_sequence := (zr_sequence r + length fs) mod (u64_max + 1)\<rparr>)"
    using snoc s by simp
  then have "zr_receiving r1" using assms(1) by simp
  then show ?case using snoc.prems s r1
    by (simp add: zmq_turn_def mod_Suc_eq)
qed simp

lemma read_after_height:
  assumes "zr_receiving r" "zr_error r = None" "announced_height f = Some h"
    and "\<forall>frames \<in> set fs. announced_height frames = None" "h + length fs \<le> u64_max"
    and "foldl (\<lambda>s frames. zmq_turn (Zmq_Frames frames) s) (r, w) (f # fs) = (r', w')"
  shows "fst (wallet_zmq_sequence_ffi_impl True (Some r', w'')) = (0, Some (h + length fs))"
proof -
  have "zmq_turn (Zmq_Frames f) (r, w) = (r\<lparr>zr_sequence := h\<rparr>, w)"
    using assms(1,3) by (simp add: zmq_turn_def)
  with assms(6) have "fst (foldl (\<lambda>s frames. zmq_turn (Zmq_Frames frames) s) (r\<lparr>zr_sequence := h\<rparr>, w) fs) = r'" by simp
  with turns_count [of "r\<lparr>zr_sequence := h\<rparr>" fs w] assms(1,4)
  have "r' = (if fs = [] then r\<lparr>zr_sequence := h\<rparr> else r\<lparr>zr_sequence := (h + length fs) mod (u64_max + 1)\<rparr>)" by simp
  then show ?thesis using assms(2,5) by (simp add: wallet_zmq_sequence_ffi_impl_def Let_def)
qed

text \<open>A listener whose thread has ended is not started again at the same endpoint, only after a stop.\<close>

lemma ended_listener_stays:
  assumes "runtime_ok r" "zr_error r = Some message" "trim endpoint = zr_endpoint r"
  shows "ensure_zmq_runtime connect endpoint (Some r) = (Inl (-16, message), Some r)"
    and "connect (trim endpoint) = Zmq_Ready \<Longrightarrow>
      fst (ensure_zmq_runtime connect endpoint (stop_zmq_runtime (Some r))) = Inr ()"
  using assms by (simp_all add: ensure_zmq_runtime_def Let_def stop_zmq_runtime_def runtime_ok_def opt_filter_def)

end
