(* ===== verification/Batch_Fetch.thy ===== *)
theory Batch_Fetch
  imports Refresh Prefetch
begin

text \<open>
  Where the blocks of one batch come from (\<open>wallet_refresh_impl\<close> in \<open>ffi/refresh.rs\<close>): a prefetched answer
  or a request of its own with a time limit, the rebuilt clients and the fallbacks after an error, the
  Android branch, and the ownership scan of the batch on a pool. \<open>Refresh\<close> has one observation per turn of
  the loop instead; the lemmas relate the two.
\<close>

section \<open>Waiting for a request\<close>

text \<open>A request's thread: when it sends its result, or that it panics or hangs.\<close>

datatype 'a task_end = Task_Sends nat 'a | Task_Panics nat | Task_Hangs

definition CONTIGUOUS_BLOCKS_TIMEOUT_SECS :: nat where
  "CONTIGUOUS_BLOCKS_TIMEOUT_SECS = 30"

definition recv_timeout_block_on :: "nat \<Rightarrow> 'a task_end \<Rightarrow> 'a waited" where
  "recv_timeout_block_on timeout_secs t =
     (case t of
        Task_Sends secs v \<Rightarrow> if secs \<le> timeout_secs then Waited v else Wait_Timeout
      | Task_Panics secs \<Rightarrow> if secs \<le> timeout_secs then Wait_Disconnected else Wait_Timeout
      | Task_Hangs \<Rightarrow> Wait_Timeout)"

section \<open>One batch\<close>

text \<open>What a client gets for the range of this batch: both kinds of request, the range request of the
  fallback and the single blocks.\<close>

record ('c, 'e) batch_answers =
  ba_range :: "'c \<Rightarrow> ('e + scannable_block list) task_end"
  ba_contiguous :: "'c \<Rightarrow> ('e + scannable_block list) task_end"
  ba_fallback :: "'c \<Rightarrow> 'e + scannable_block list"
  ba_block :: "'c \<Rightarrow> usize \<Rightarrow> string + scannable_block list"

definition request_by_mode :: "bulk_fetch_mode \<Rightarrow> ('c, 'e) batch_answers \<Rightarrow> 'c \<Rightarrow> ('e + scannable_block list) task_end" where
  "request_by_mode mode ba = (if mode = RangeBlocks then ba_range ba else ba_contiguous ba)"

text \<open>A request of its own. After an error the clients are rebuilt first when the channel was closed.\<close>

definition sync_batch ::
  "('e \<Rightarrow> string) \<Rightarrow> (nat \<Rightarrow> string \<Rightarrow> 'e + 'c) \<Rightarrow> string \<Rightarrow> ('c, 'e) batch_answers \<Rightarrow> u64 \<Rightarrow> u64 \<Rightarrow>
     'c \<times> 'c \<Rightarrow> loop_state \<Rightarrow> fetch_result \<times> 'c \<times> 'c" where
  "sync_batch display1 connect base_url ba start end_inclusive clients ls =
     (let late = (\<lambda>msg. let m = timeout_message msg start end_inclusive in (retry_or_fail m m ls, clients)) in
      case recv_timeout_block_on CONTIGUOUS_BLOCKS_TIMEOUT_SECS (request_by_mode (ls_mode ls) ba (fst clients)) of
        Waited (Inr v) \<Rightarrow> (FR_Blocks v ls, clients)
      | Waited (Inl e) \<Rightarrow>
          (let err_s = display1 e;
               clients' = rebuilt_clients display1 connect base_url err_s clients;
               range_answer = (case ba_fallback ba (fst clients') of Inl e2 \<Rightarrow> Inl (display1 e2) | Inr v \<Rightarrow> Inr v);
               one_by_one = fetch_scannable_blocks_one_by_one (ba_block ba (fst clients')) [start..<Suc end_inclusive] in
           (case try_json_batch_error_fallback (ls_mode ls) err_s range_answer one_by_one of
              Some (v, used_range) \<Rightarrow>
                (FR_Blocks v (if used_range then ls\<lparr>ls_mode := RangeBlocks\<rparr> else ls), clients')
            | None \<Rightarrow>
                (retry_or_fail err_s (''wallet_refresh: contiguous_scannable_blocks failed: '' @ err_s) ls, clients')))
      | Wait_Timeout \<Rightarrow> late ''timeout''
      | Wait_Disconnected \<Rightarrow> late ''disconnected'')"

definition batch_scannables ::
  "('e \<Rightarrow> string) \<Rightarrow> (nat \<Rightarrow> string \<Rightarrow> 'e + 'c) \<Rightarrow> string \<Rightarrow> ('c, 'e) batch_answers \<Rightarrow> u64 \<Rightarrow> u64 \<Rightarrow>
     'c \<times> 'c \<Rightarrow> loop_state \<Rightarrow> scannable_block pipeline \<Rightarrow> (fetch_result \<times> 'c \<times> 'c) \<times> scannable_block pipeline" where
  "batch_scannables display1 connect base_url ba start end_inclusive clients ls p =
     (let (prefetched, p') = take_prefetched start end_inclusive p in
      (case prefetched of
         Prefetch_Hit v \<Rightarrow> (FR_Blocks v ls, clients)
       | Prefetch_Miss \<Rightarrow> sync_batch display1 connect base_url ba start end_inclusive clients ls
       | Prefetch_Sync \<Rightarrow> sync_batch display1 connect base_url ba start end_inclusive clients ls,
       p'))"

text \<open>The Android branch returns at every error.\<close>

definition android_batch ::
  "('e \<Rightarrow> string) \<Rightarrow> u64 \<Rightarrow> u64 \<Rightarrow> ('e + scannable_block list) waited \<Rightarrow> loop_state \<Rightarrow> fetch_result" where
  "android_batch display1 start end_inclusive fetch_res ls =
     (case fetch_res of
        Waited (Inr v) \<Rightarrow> FR_Blocks v ls
      | Waited (Inl e) \<Rightarrow> FR_Fail (''wallet_refresh: contiguous_scannable_blocks failed: '' @ display1 e)
      | Wait_Timeout \<Rightarrow> FR_Fail (timeout_message ''timeout'' start end_inclusive)
      | Wait_Disconnected \<Rightarrow> FR_Fail (timeout_message ''disconnected'' start end_inclusive))"

section \<open>The scan of a batch on a pool\<close>

text \<open>The number of threads of the pool, when there is one; building it may fail.\<close>

definition scan_pool :: "usize \<Rightarrow> (usize \<Rightarrow> 'e + usize) \<Rightarrow> usize option" where
  "scan_pool requested build =
     (if 1 < requested then (case build requested of Inl _ \<Rightarrow> None | Inr threads \<Rightarrow> Some threads) else None)"

definition range_decode_pool :: "bool \<Rightarrow> bool \<Rightarrow> usize option \<Rightarrow> usize option" where
  "range_decode_pool android enabled pool = (if \<not> android \<and> enabled then pool else None)"

definition parallel_scan_results ::
  "usize option \<Rightarrow> (scannable_block \<Rightarrow> string + wallet_output list) \<Rightarrow> scannable_block list \<Rightarrow>
     (string + wallet_output list) list option" where
  "parallel_scan_results pool scanner scannables =
     (case pool of
        None \<Rightarrow> None
      | Some threads \<Rightarrow>
          if 1 < length scannables then Some (scan_blocks_parallel_ordered threads scanner scannables) else None)"

text \<open>The result for the next block: the front of the queue, or a scan of its own.\<close>

definition next_scan_result ::
  "string \<Rightarrow> (scannable_block \<Rightarrow> string + wallet_output list) \<Rightarrow> scannable_block \<Rightarrow>
     (string + wallet_output list) list option \<Rightarrow>
     (string + wallet_output list) \<times> (string + wallet_output list) list option" where
  "next_scan_result too_few scanner b results =
     (case results of
        None \<Rightarrow> (scanner b, None)
      | Some [] \<Rightarrow> (Inl too_few, Some [])
      | Some (r # rest) \<Rightarrow> (r, Some rest))"

primrec batch_scan_results ::
  "string \<Rightarrow> (scannable_block \<Rightarrow> string + wallet_output list) \<Rightarrow> scannable_block list \<Rightarrow>
     (string + wallet_output list) list option \<Rightarrow> (string + wallet_output list) list" where
  "batch_scan_results too_few scanner [] results = []"
| "batch_scan_results too_few scanner (b # bs) results =
     (let (r, results') = next_scan_result too_few scanner b results in
      r # batch_scan_results too_few scanner bs results')"

section \<open>A batch is one observation of the driver\<close>

text \<open>What the driver's turn observes of a request of its own.\<close>

definition observed :: "('e \<Rightarrow> string) \<Rightarrow> ('e + scannable_block list) waited \<Rightarrow> fetch_answer" where
  "observed display1 res =
     (case res of
        Waited (Inr v) \<Rightarrow> FA_Blocks v
      | Waited (Inl e) \<Rightarrow> FA_Error (display1 e)
      | Wait_Timeout \<Rightarrow> FA_Timeout ''timeout''
      | Wait_Disconnected \<Rightarrow> FA_Timeout ''disconnected'')"

lemma sync_batch_is_fetch_batch:
  assumes res: "recv_timeout_block_on CONTIGUOUS_BLOCKS_TIMEOUT_SECS (request_by_mode (ls_mode ls) ba (fst clients)) = res"
    and fr: "sync_batch display1 connect base_url ba start end_inclusive clients ls = (r, clients')"
    and ob: "bo_fetch ob = observed display1 res"
      "bo_range ob = (case ba_fallback ba (fst clients') of Inl e \<Rightarrow> Inl (display1 e) | Inr v \<Rightarrow> Inr v)"
      "bo_one_by_one ob = fetch_scannable_blocks_one_by_one (ba_block ba (fst clients')) [start..<Suc end_inclusive]"
  shows "fetch_batch ob start end_inclusive ls = r"
proof (cases res)
  case (Waited a)
  show ?thesis
  proof (cases a)
    case (Inl e)
    with fr Waited res have "clients' = rebuilt_clients display1 connect base_url (display1 e) clients"
      by (simp add: sync_batch_def Let_def split: option.splits prod.splits)
    with fr Waited res Inl show ?thesis
      by (auto simp: sync_batch_def fetch_batch_def ob observed_def Let_def simp del: upt_Suc split: option.splits prod.splits)
  qed (use fr Waited res in \<open>simp add: sync_batch_def fetch_batch_def ob observed_def\<close>)
qed (use fr res in \<open>simp_all add: sync_batch_def fetch_batch_def ob observed_def Let_def\<close>)

lemma prefetched_batch_is_fetch_batch:
  assumes "take_prefetched start end_inclusive p = (Prefetch_Hit v, p')" "bo_fetch ob = FA_Blocks v"
  shows "fst (fst (batch_scannables display1 connect base_url ba start end_inclusive clients ls p)) =
    fetch_batch ob start end_inclusive ls"
  using assms by (simp add: batch_scannables_def fetch_batch_def)

text \<open>Every batch is an observation of the driver, so what is proved of it holds for the pipeline.\<close>

lemma batch_has_observation:
  fixes ob :: batch_obs
  shows "\<exists>fetch_ans range_ans one_ans.
    fst (fst (batch_scannables display1 connect base_url ba start end_inclusive clients ls p)) =
    fetch_batch (ob\<lparr>bo_fetch := fetch_ans, bo_range := range_ans, bo_one_by_one := one_ans\<rparr>) start end_inclusive ls"
proof -
  obtain t p' where t: "take_prefetched start end_inclusive p = (t, p')" by force
  obtain r cs where r: "sync_batch display1 connect base_url ba start end_inclusive clients ls = (r, cs)"
    by (rule prod.exhaust)
  note sync = sync_batch_is_fetch_batch [OF refl r]
  show ?thesis
  proof (cases t)
    case (Prefetch_Hit v)
    then show ?thesis
      by (intro exI [of _ "FA_Blocks v"] exI) (simp add: batch_scannables_def t fetch_batch_def)
  qed (intro exI, simp add: batch_scannables_def t r, rule sync [symmetric], simp_all)+
qed

section \<open>Every batch scans an answer to its own range\<close>

lemma recv_Waited: "recv_timeout_block_on n t = Waited v \<Longrightarrow> \<exists>secs. t = Task_Sends secs v \<and> secs \<le> n"
  by (auto simp: recv_timeout_block_on_def split: task_end.splits if_splits)

lemma fallback_blocks:
  "try_json_batch_error_fallback mode e r one = Some (v, used) \<Longrightarrow>
     v \<noteq> [] \<and> (if used then r = Inr v \<and> mode \<noteq> RangeBlocks else one = Inr v)"
  by (auto simp: try_json_batch_error_fallback_def Let_def split: if_splits sum.splits)

text \<open>The blocks of a batch: however they were asked for, they answer the range of the batch, when every
  answer of the daemon does.\<close>

definition answers_ok :: "(scannable_block list \<Rightarrow> bool) \<Rightarrow> ('c, 'e) batch_answers \<Rightarrow> u64 \<Rightarrow> u64 \<Rightarrow> bool" where
  "answers_ok A ba start end_inclusive \<longleftrightarrow>
     (\<forall>c secs v. ba_range ba c = Task_Sends secs (Inr v) \<or> ba_contiguous ba c = Task_Sends secs (Inr v) \<or>
        ba_fallback ba c = Inr v \<or>
        fetch_scannable_blocks_one_by_one (ba_block ba c) [start..<Suc end_inclusive] = Inr v \<longrightarrow> A v)"

lemma answers_okD:
  assumes "answers_ok A ba start end_inclusive"
  shows "request_by_mode mode ba c = Task_Sends secs (Inr v) \<Longrightarrow> A v"
    and "ba_fallback ba c = Inr v \<Longrightarrow> A v"
    and "fetch_scannable_blocks_one_by_one (ba_block ba c) [start..<Suc end_inclusive] = Inr v \<Longrightarrow> A v"
  using assms unfolding answers_ok_def request_by_mode_def by (auto split: if_splits)

lemma retry_no_blocks [simp]: "retry_or_fail e m ls \<noteq> FR_Blocks v ls'"
  by (simp add: retry_or_fail_def split: option.split)

lemma sync_batch_ok:
  assumes ok: "answers_ok A ba start end_inclusive"
    and r: "sync_batch display1 connect base_url ba start end_inclusive clients ls = (FR_Blocks v ls', clients')"
  shows "A v \<and> (ls' = ls \<or> ls' = ls\<lparr>ls_mode := RangeBlocks\<rparr>)"
proof (cases "recv_timeout_block_on CONTIGUOUS_BLOCKS_TIMEOUT_SECS (request_by_mode (ls_mode ls) ba (fst clients))")
  case (Waited res)
  show ?thesis
  proof (cases res)
    case (Inl e)
    let ?cs = "rebuilt_clients display1 connect base_url (display1 e) clients"
    let ?r = "case ba_fallback ba (fst ?cs) of Inl e2 \<Rightarrow> Inl (display1 e2) | Inr v \<Rightarrow> Inr v"
    let ?one = "fetch_scannable_blocks_one_by_one (ba_block ba (fst ?cs)) [start..<Suc end_inclusive]"
    obtain used where f: "try_json_batch_error_fallback (ls_mode ls) (display1 e) ?r ?one = Some (v, used)"
      and ls': "ls' = (if used then ls\<lparr>ls_mode := RangeBlocks\<rparr> else ls)"
      using r unfolding sync_batch_def Waited Inl Let_def by (auto split: option.splits prod.splits)
    from fallback_blocks [OF f] have "ba_fallback ba (fst ?cs) = Inr v \<or> ?one = Inr v"
      by (auto split: if_splits sum.splits)
    then show ?thesis using answers_okD(2,3) [OF ok] ls' by auto
  next
    case (Inr w)
    with r Waited have w: "w = v" "ls' = ls" by (simp_all add: sync_batch_def)
    from recv_Waited [OF Waited] Inr w show ?thesis using answers_okD(1) [OF ok] by blast
  qed
qed (use r in \<open>simp_all add: sync_batch_def Let_def\<close>)

lemma batch_answers_its_range:
  assumes reach: "pipeline_reach height batch depth A c p" "height \<le> u64_max"
    and en: "en = range_end height batch c - 1"
    and ok: "answers_ok (A c en) ba c en"
    and r: "batch_scannables display1 connect base_url ba c en clients ls p = ((FR_Blocks v ls', clients'), p')"
  shows "A c en v \<and> (ls' = ls \<or> ls' = ls\<lparr>ls_mode := RangeBlocks\<rparr>)"
proof -
  obtain t q where t: "take_prefetched c en p = (t, q)" by (rule prod.exhaust)
  note hit = reached_take(1) [OF reach t [unfolded en], folded en]
  show ?thesis
  proof (cases t)
    case (Prefetch_Hit w)
    then show ?thesis using r hit by (simp add: batch_scannables_def t)
  qed (use r in \<open>auto simp: batch_scannables_def t dest: sync_batch_ok [OF ok]\<close>)
qed

section \<open>The pool changes nothing\<close>

lemma queued_results: "batch_scan_results too_few scanner bs (Some (map scanner bs)) = map scanner bs"
  by (induction bs) (simp_all add: next_scan_result_def)

lemma serial_results: "batch_scan_results too_few scanner bs None = map scanner bs"
  by (induction bs) (simp_all add: next_scan_result_def)

text \<open>With any pool, each block gets the result of its own scan.\<close>

lemma pool_scans_like_serial:
  "batch_scan_results too_few scanner scannables (parallel_scan_results pool scanner scannables) = map scanner scannables"
  by (simp add: parallel_scan_results_def scan_parallel_eq queued_results serial_results split: option.split)

section \<open>Android does not retry\<close>

text \<open>An error that other builds retry up to five times ends the refresh of the Android build.\<close>

lemma android_does_not_retry:
  assumes "is_transient_block_fetch_error e" "\<not> is_json_batch_or_shape_error e" "ls_fetch_retries ls < BLOCK_FETCH_RETRY_LIMIT"
    and "ba_range ba (fst clients) = Task_Sends 0 (Inl e)" "ba_contiguous ba (fst clients) = Task_Sends 0 (Inl e)"
  shows "\<exists>n. fst (sync_batch id connect base_url ba start end_inclusive clients ls) = FR_Retry (ls\<lparr>ls_fetch_retries := n\<rparr>)"
    and "android_batch id start end_inclusive (Waited (Inl e)) ls =
      FR_Fail (''wallet_refresh: contiguous_scannable_blocks failed: '' @ e)"
  using assms
  by (auto simp: sync_batch_def request_by_mode_def recv_timeout_block_on_def try_json_batch_error_fallback_def Let_def
      retry_or_fail_def maybe_retry_block_fetch_def android_batch_def)

end
