(* ===== verification/Spec2Isabelle.thy ===== *)
theory Spec2Isabelle
  imports Examples_Interface Node_Events Batch_Fetch
begin

text \<open>
  The wallet core of MoneroWalletCoreFFI (\<open>src/monero-oxide-output/src\<close>): a C-callable Rust library that
  keeps view-and-spend wallets in a process-wide store, scans the Monero chain for them, answers queries
  about balances, outputs and history, and prepares, signs and relays transactions.

  \<^bold>\<open>How the parts interact.\<close> Every exported call works on one process state (\<open>World.world\<close>): the store of
  wallets, the cancel flags, the registry of refreshes and the last-error slots. A call reads its C
  arguments, takes the store's lock, changes one wallet and returns a code. A refresh works on a copy of a
  wallet, asks a daemon for block ranges, scans them and commits the copy at checkpoints, under a registry
  entry that excludes other refreshes and the calls that rewrite scan state. A send takes the same
  exclusion, selects outputs, lets the daemon library build a transaction, broadcasts it and books it. The
  safe interface (\<open>api.rs\<close>) wraps the exported calls and reads their codes and last-error text.

  \<^bold>\<open>Theories and the code they model.\<close> Definitions have the names of the functions, types and fields of the
  code; a state is a record with the struct's fields, an exported call \<open>f_ffi_impl\<close> is a function from its
  arguments and the world to its result and the new world.

    \<^item> Values. \<open>Prelude\<close>: Rust integers (saturating, checked, wrapping), hash maps and sets, error sums.
      \<open>Text_Codec\<close>: the part of \<open>str\<close> the wallet uses, hexadecimal parsing and printing.
    \<^item> One wallet. \<open>Outputs\<close>: tracked outputs, unlocking, balance folds (\<open>lib.rs\<close>). \<open>Ledger\<close>:
      \<open>rebuild_transfer_ledger\<close>. \<open>History\<close>: paged queries (\<open>ffi/history.rs\<close>). \<open>Chain_Window\<close>: the window of
      recent block hashes, the reorganisation probe, rewinding. \<open>Wallet\<close>: keys, seal and unseal, coverage,
      rescans, the persisted form. \<open>Wallet_Invariants\<close>: what its operations keep.
    \<^item> The process. \<open>World\<close>: store, locks with poisoning, cancel flags, refresh jobs, the panic boundary
      (\<open>ffi/boundary.rs\<close>). \<open>Wallet_Api\<close>: the exported calls on the store (\<open>lib.rs\<close>, \<open>ffi/transfers.rs\<close>).
      \<open>Cache_Api\<close>: \<open>ffi/cache.rs\<close>. \<open>Api_Invariants\<close>, \<open>Lifecycle\<close>: every reachable store, and what each call
      guarantees on success and on failure. \<open>Node_Events\<close>: the listener for node notifications.
    \<^item> Scanning. \<open>Input_Policy\<close>: quarantine of inputs a daemon reports as spent (\<open>ffi/input_policy.rs\<close>).
      \<open>Scan\<close>, \<open>Refresh_Policy\<close>, \<open>Refresh\<close>: the block loop, the decisions and the driver of
      \<open>ffi/refresh.rs\<close>. \<open>Range_Fetch\<close>: one binary request for a range of blocks. \<open>Prefetch\<close>: the queue of
      ranges fetched ahead. \<open>Batch_Fetch\<close>: where a batch gets its blocks, on both builds. Their proofs:
      \<open>Scan_Invariants\<close>, \<open>Refresh_Correct\<close>, \<open>Refresh_Live\<close>, \<open>Refresh_Api\<close>.
    \<^item> The daemon. \<open>Env_Config\<close>: configuration, error classes, the limiter of output-index requests.
      \<open>Epee\<close>, \<open>Bulk_Models\<close>: \<open>support/bulk_bin.rs\<close>, \<open>support/bulk_models.rs\<close>. \<open>Routing\<close>: routing, proxies,
      bounded bodies, digest retries. \<open>Daemon_Rpc\<close>: the blocking client of \<open>lib.rs\<close>.
    \<^item> Spending. \<open>Relay\<close>: \<open>wallet_relay_prepared\<close>. \<open>Send_Core\<close>, \<open>Send\<close>, \<open>Send_Filter\<close>, \<open>Sweep\<close>:
      \<open>ffi/send.rs\<close>, \<open>ffi/preview_fee.rs\<close>, \<open>ffi/sweep.rs\<close>, \<open>ffi/signing.rs\<close>. Their proofs: \<open>Send_Frame\<close>,
      \<open>Send_Correct\<close>, \<open>Send_Prepared\<close>.
    \<^item> The Rust interface. \<open>Api\<close>, \<open>Api_Correct\<close>: \<open>api.rs\<close> and \<open>ffi/mnemonic.rs\<close>.
    \<^item> \<open>Examples\<close>, \<open>Examples_Api\<close>, \<open>Examples_Daemon\<close>, \<open>Examples_Send\<close>, \<open>Examples_Fetch\<close>,
      \<open>Examples_Interface\<close>: concrete wallets, daemons and calls on which the properties are applied.

  \<^bold>\<open>What the lemmas show.\<close> The properties of this theory go from the inside out. Scanning: each key is counted
  once, spends are found exactly, the marker of a view-only wallet covers what it must. The refresh: its
  driver refines a step relation (\<open>advance\<close>), publishes whole batches, reaches the tip of a chain that is
  served, retries a bounded number of times. Ledger and reorganisations: one row per transaction, value is
  conserved, a rewind forgets the fork. Sends: previews and prepares hand nothing to a daemon, a payment is
  booked once, a failed one keeps the books, a sweep pays everything but the fee. The process: all stores
  reachable by any sequence of calls and refreshes are sound, refreshes and mutations exclude each other, a
  poisoned store fails closed. Then caches, queries and history, fetched ranges and the prefetch queue, and
  the limits on what a daemon can send.

  \<^bold>\<open>Interfaces.\<close> \<open>wallet_op\<close> is the contract of an operation on one wallet, interpreted on five operations
  of \<open>Wallet\<close>. \<open>wallet_inv\<close> carries a property of wallets to every reachable store, interpreted on
  well-formedness, on the rescan marker and on soundness (well-formed, with distinct outputs and keys). \<open>sending_frame\<close> and its extension
  \<open>book_frame\<close> are what a send may do to a store, interpreted on calls that leave every wallet alone, on
  failed sends, and on the ledger.

  \<^bold>\<open>Bounds and fuel.\<close> The selection of inputs runs at most 24 rounds and a sweep's fee at most 8, as in the
  code; sends are repeated as often as the configuration allows. The bisect searches take the number of
  inputs as fuel, which is enough because every round shortens the interval (\<open>send_bisect_fuel\<close>,
  \<open>filter_bisect_fuel\<close>). The skipper of unknown values recurses on the nesting limit. The refresh loop has as
  its input the list of what the daemon and the other threads do in each turn; that it ends is a property.
  Integers of the code are naturals or integers with each saturation, check and wrap-around of the code
  written out, and words where bits are tested; a Rust \<open>HashMap\<close> is a finite map whose iteration order is
  not used, or is an argument where the code depends on it.

  \<^bold>\<open>Assumptions.\<close> Third-party code is an argument of the definitions: curve arithmetic, Keccak and mnemonics
  (\<open>crypto\<close>), ownership scanning, transaction construction and decoys, the binary and JSON codecs, the URL
  parser, HTTP and ZMQ sockets. A daemon's answers, the clock, the environment and what other threads do
  between two steps are arguments too. What a property needs of one of them is a hypothesis of its statement
  with an instance on concrete functions. During a send the model lets no other thread change the store
  between its steps.

  \<^bold>\<open>Not modelled.\<close> Log lines, timing counters and diagnostics dumps: they do not feed back into the wallet.
  Functions that are never called: \<open>ringct_total_instances_via_histogram\<close>,
  \<open>seed_recent_block_hashes_for_wallet2\<close>, \<open>wc_android_force_env_default\<close>. The developer tools in \<open>bin\<close>, the
  Swift package and the tests. The extern wrappers that only pass their arguments on have no definition of
  their own; the lines of \<open>lib.rs\<close>, \<open>refresh.rs\<close>, \<open>send.rs\<close> and \<open>sweep.rs\<close> without a counterpart are these,
  log lines and test modules.
\<close>

section \<open>Scanning\<close>

text \<open>
  C1: When a block is scanned successfully, each output the ownership scanner reports is then held by
  exactly one tracked output: the code counts it, and it never counts a second output with the same
  one-time key (a burning-bug duplicate), whether the block is new or a replay.
\<close>

theorem scan_counts_each_key_once:
  assumes "scan_wf s" and "scan_block ko restore master replay sc b s = Inr s'" and "sc b = Inr outs"
    and "out \<in> set outs"
  shows "\<exists>!j. j < length (tracked_outputs s') \<and> public_key (tracked_outputs s' ! j) = wo_key out"
  by (rule scan_block_counts_once [OF assms])

theorem scan_counts_each_key_once_witness:
  "\<exists>s'. ex_step None = Inr s' \<and>
     (\<exists>!j. j < length (tracked_outputs s') \<and> public_key (tracked_outputs s' ! j) = wo_key ex_new_out)"
proof -
  obtain s' where s': "ex_step None = Inr s'" using is_ok_ex [OF ex_step_ok] by blast
  have "\<exists>!j. j < length (tracked_outputs s') \<and> public_key (tracked_outputs s' ! j) = wo_key ex_new_out"
    by (rule scan_counts_each_key_once [OF ex_scan_wf s' [unfolded ex_step_def], of "[ex_new_out]"])
       (simp_all add: ex_scanner_def)
  with s' show ?thesis by blast
qed

text \<open>
  C2: Scanning a block at a height that is not replayed marks an existing output as spent at that
  height exactly when the output is the one its (non-zero) key image points to and the image is among
  the inputs of the block; the spent flag and height of every other existing output stay as they
  were, and no existing output changes identity or amount or disappears.
\<close>

theorem scan_detects_spends_exactly:
  assumes "scan_block ko restore master replay sc b s = Inr s'" and "ss_height s \<notin> set replay"
    and "j < length (tracked_outputs s)"
  shows "j < length (tracked_outputs s') \<and> same_identity (tracked_outputs s ! j) (tracked_outputs s' ! j) \<and>
    (if owns_image (tracked_outputs s) j \<and> key_image (tracked_outputs s ! j) \<in> block_key_images b
     then spent (tracked_outputs s' ! j) \<and> spending_height (tracked_outputs s' ! j) = Some (ss_height s)
     else spent (tracked_outputs s' ! j) = spent (tracked_outputs s ! j) \<and>
          spending_height (tracked_outputs s' ! j) = spending_height (tracked_outputs s ! j))"
  by (rule scan_block_spends [OF assms])

theorem scan_detects_spends_exactly_witness:
  "\<exists>s'. ex_step None = Inr s' \<and> spent (tracked_outputs s' ! 0) \<and> spending_height (tracked_outputs s' ! 0) = Some 20"
proof -
  obtain s' where s': "ex_step None = Inr s'" using is_ok_ex [OF ex_step_ok] by blast
  have img: "owns_image (tracked_outputs ex_scan) 0"
    by (simp add: owns_image_def ex_scan_simps ex_out_def zero_image_def numeral_eq_Suc)
  have hit: "key_image (tracked_outputs ex_scan ! 0) \<in> block_key_images ex_block"
    by (simp add: ex_scan_simps ex_out_def ex_block_def block_key_images_def decoded_non_miner_def
        is_miner_decoded_def tx_key_images_def List.map_filter_simps)
  from scan_detects_spends_exactly [OF s' [unfolded ex_step_def], of 0] img hit s' show ?thesis
    by (simp add: ex_scan_simps)
qed

text \<open>
  C3: While a wallet is scanned view-only, the rescan marker covers every output without a key image:
  it is at or below the height of each of them after the block too, provided it was before and the
  block is not below it (so an output is never moved under the marker).
\<close>

theorem scan_keeps_marker_coverage:
  assumes "marker_covers s" and "scan_block ko restore master replay sc b s = Inr s'" and "images_sound ko"
    and "\<forall>h. ss_marker s = Some h \<longrightarrow> h \<le> ss_height s"
  shows "marker_covers s'"
  by (rule scan_block_covers [OF assms])

theorem scan_keeps_marker_coverage_witness: "\<exists>s'. ex_step None = Inr s' \<and> marker_covers s'"
proof -
  obtain s' where s': "ex_step None = Inr s'" using is_ok_ex [OF ex_step_ok] by blast
  have "marker_covers ex_scan"
    by (simp add: marker_covers_def ex_scan_simps ex_out_def zero_image_def numeral_eq_Suc)
  from scan_keeps_marker_coverage [OF this s' [unfolded ex_step_def] ex_ki_sound] s' show ?thesis
    by (simp add: ex_scan_simps)
qed

section \<open>Refreshing\<close>





text \<open>
  C6: Turns of the refresh loop that end with a retry pending (a transient fetch error, or a parent
  mismatch without a proven fork) come at most eight in a row: five fetch retries and three probe
  retries. After that a turn commits, stops or fails; a broken node cannot keep the loop spinning.
\<close>

theorem refresh_retries_are_bounded:
  assumes "idle_run ctx obs ls w ls' w'" and "\<forall>ob \<in> set obs. others_quiet (obs_others ob)" and "retries_ok ls"
  shows "length obs \<le> BLOCK_FETCH_RETRY_LIMIT + REORG_PROBE_RETRY_LIMIT"
  by (rule idle_run_short [OF assms])

theorem refresh_retries_are_bounded_witness:
  "\<exists>ls' w'. idle_run ex_ctx [ex_obs (FA_Error ''timeout'')] ex_loop ex_world ls' w' \<and>
     length [ex_obs (FA_Error ''timeout'')] \<le> BLOCK_FETCH_RETRY_LIMIT + REORG_PROBE_RETRY_LIMIT"
proof -
  have "\<exists>ls' w'. idle_run ex_ctx [ex_obs (FA_Error ''timeout'')] ex_loop ex_world ls' w'"
    by (simp add: ex_timeout_turn retry_measure_def)
  then show ?thesis
    using refresh_retries_are_bounded [of ex_ctx "[ex_obs (FA_Error ''timeout'')]" ex_loop ex_world]
    by (auto simp: ex_obs_quiet retries_ok_def ex_loop_def)
qed

text \<open>
  C7: A checkpoint that is accepted stores a coherent wallet: the total is the saturating sum of the
  unspent outputs, the unlocked balance at most that, the ledger the one rebuilt from the same
  outputs, the cursor never above the chain height it reports nor above the scanned height (or the
  restore height), and keys, network, restore height, coverage and quarantine as they were.
\<close>

theorem checkpoint_is_coherent:
  assumes "commit_refresh_checkpoint i h s w = (Value (Inr ()), w')"
  shows "\<exists>st st'. map_of (wd_store w) i = Some st \<and> map_of (wd_store w') i = Some st' \<and>
    tracked_outputs st' = tracked_outputs s \<and> seen_outpoints st' = seen_outpoints s \<and>
    recent_block_hashes st' = recent_block_hashes s \<and> block_timestamps st' = block_timestamps s \<and>
    w_total st' = sat_sum (unspent_amounts (tracked_outputs s)) \<and> w_unlocked st' \<le> w_total st' \<and>
    w_tx_ledger st' = rebuild_transfer_ledger (tracked_outputs s) (w_pending_outgoing st) (ss_known_fees s)
                        (ss_tip_time s) (block_timestamps s) \<and>
    w_last_scanned st' \<le> max (ss_height s) (w_restore_height st) \<and> (0 < h \<longrightarrow> w_last_scanned st' \<le> h) \<and>
    w_keys st' = w_keys st \<and> w_network st' = w_network st \<and> w_restore_height st' = w_restore_height st \<and>
    w_gap_limit st' = w_gap_limit st \<and> w_quarantine st' = w_quarantine st \<and>
    (\<forall>j. j \<noteq> i \<longrightarrow> map_of (wd_store w') j = map_of (wd_store w) j)"
proof -
  obtain st where st: "map_of (wd_store w) i = Some st"
    "w' = w\<lparr>wd_store := hm_insert i (checkpoint_state h s st) (wd_store w)\<rparr>"
    using assms by (auto simp: commit_refresh_checkpoint_def lock_store_def split: if_splits option.splits)
  have "w_unlocked (checkpoint_state h s st) \<le> w_total (checkpoint_state h s st)"
    using recompute_balance_unlocked_le_total [of "tracked_outputs s" h "ss_tip_time s"]
    by (simp add: checkpoint_balances recompute_balance_eq)
  with st show ?thesis
    by (intro exI [of _ st] exI [of _ "checkpoint_state h s st"])
       (simp add: checkpoint_balances(1) checkpoint_ledger(1))
qed

theorem checkpoint_is_coherent_witness:
  "\<exists>w' st'. commit_refresh_checkpoint ''w'' 30 ex_scan ex_world = (Value (Inr ()), w') \<and>
     map_of (wd_store w') ''w'' = Some st' \<and> w_total st' = 100 \<and> w_last_scanned st' \<le> 30"
proof -
  obtain w' where w': "commit_refresh_checkpoint ''w'' 30 ex_scan ex_world = (Value (Inr ()), w')"
    by (simp add: commit_refresh_checkpoint_def lock_store_def ex_world_def)
  from checkpoint_is_coherent [OF w'] obtain st' where "map_of (wd_store w') ''w'' = Some st'"
    "w_total st' = sat_sum (unspent_amounts (tracked_outputs ex_scan))" "w_last_scanned st' \<le> 30" by auto
  then show ?thesis using w'
    by (auto simp: ex_scan_simps unspent_amounts_def ex_out_def sat_sum_eq u64_max_def)
qed
section \<open>The transfer ledger\<close>

text \<open>
  C8: A transaction that spends wallet outputs, with its spending transaction recorded and no local
  pending record, is one outgoing, confirmed ledger row: the amount is what it consumed minus the
  change it paid back, and the fee is the known network fee.
\<close>

theorem ledger_spend_is_one_outgoing_row:
  assumes "t \<notin> pt_txid ` set ps" and "0 < consumed outs t"
  shows "\<exists>e. map_of (rebuild_transfer_ledger outs ps fees chain_time stamps) t = Some e \<and>
     le_direction e = ''out'' \<and> le_amount e = consumed outs t - received outs t \<and>
     le_fee e = map_of fees t \<and> \<not> le_is_pending e"
  by (rule rebuild_spend_row [OF assms])

theorem ledger_spend_is_one_outgoing_row_witness:
  "\<exists>e. map_of (rebuild_transfer_ledger [ex_spent, ex_change] [] [] 0 []) (hex_lowercase (hx 6)) = Some e \<and>
     le_direction e = ''out'' \<and> le_amount e = 60"
proof -
  have c: "consumed [ex_spent, ex_change] (hex_lowercase (hx 6)) = 100"
    by (simp add: consumed_def spends_in_def ex_spent_def ex_change_def ex_out_def sat_sum_eq u64_max_def)
  have r: "received [ex_spent, ex_change] (hex_lowercase (hx 6)) = 40"
    by (simp add: received_def ex_spent_def ex_change_def ex_out_def sat_sum_eq u64_max_def)
  from ledger_spend_is_one_outgoing_row [of "hex_lowercase (hx 6)" "[]" "[ex_spent, ex_change]" "[]" 0 "[]"] c r
  show ?thesis by auto
qed



text \<open>
  Every locally recorded pending send is an outgoing row for the payment plus its fee,
  saturating at 64 bits, whatever the scan found for that transaction.
\<close>

theorem ledger_pending_row:
  assumes "distinct (map pt_txid ps)" and "p \<in> set ps"
  shows "\<exists>e. map_of (rebuild_transfer_ledger outs ps fees chain_time stamps) (pt_txid p) = Some e \<and>
     le_direction e = ''out'' \<and> le_amount e = sat_add (pt_amount p) (pt_fee p)"
  by (rule rebuild_pending_row [OF assms])

theorem ledger_pending_row_witness:
  "\<exists>e. map_of (rebuild_transfer_ledger [ex_out 5 100 10]
       [\<lparr>pt_txid = ''aa'', pt_amount = 7, pt_fee = 2, pt_created_at = 0\<rparr>] [] 0 []) ''aa'' = Some e \<and>
     le_direction e = ''out'' \<and> le_amount e = 9"
  using ledger_pending_row [of "[\<lparr>pt_txid = ''aa'', pt_amount = 7, pt_fee = 2, pt_created_at = 0\<rparr>]"
      "\<lparr>pt_txid = ''aa'', pt_amount = 7, pt_fee = 2, pt_created_at = 0\<rparr>" "[ex_out 5 100 10]" "[]" 0 "[]"]
  by (simp add: sat_add_def u64_max_def)



section \<open>Reorganisations\<close>

text \<open>
  C11: When the probe reports a fork, it found the highest common block of the window: rewinding to
  its answer keeps only hashes below it; on every dropped height below the tip, and on the tip, the
  daemon answered a different hash; and the daemon agrees on the highest retained height, unless
  nothing of the window is retained.
\<close>

theorem reorg_probe_finds_the_fork:
  assumes "find_reorg_rewind_height restore (recent_block_hashes_start_height s) (recent_block_hashes s) get_hash =
      Inr (Some r)"
    and "recent_block_hashes_start_height s + length (recent_block_hashes s) \<le> u64_max"
    and "restore \<le> recent_block_hashes_start_height s"
  shows "restore \<le> r \<and>
    (\<forall>h x. get_recent_block_hash s h = Some x \<longrightarrow> r \<le> h \<longrightarrow> (\<exists>y. get_hash h = Inr y \<and> y \<noteq> x)) \<and>
    (\<forall>h x. get_recent_block_hash (snd (rewind_working_state_to_height restore r s)) h = Some x \<longrightarrow>
       h < r \<and> get_recent_block_hash s h = Some x \<and>
       (\<exists>y. get_recent_block_hash (snd (rewind_working_state_to_height restore r s)) (r - 1) = Some y \<and>
          get_hash (r - 1) = Inr y))"
  using find_reorg_fork [OF assms] by (metis not_None_eq)

theorem reorg_probe_finds_the_fork_witness:
  "find_reorg_rewind_height 0 (recent_block_hashes_start_height ex_view) (recent_block_hashes ex_view)
       (ex_remote :: nat \<Rightarrow> string + hash32) = Inr (Some 11) \<and>
     (\<exists>y. get_recent_block_hash (snd (rewind_working_state_to_height 0 11 ex_view)) 10 = Some y \<and>
        (ex_remote 10 :: string + hash32) = Inr y)"
proof -
  have "get_recent_block_hash (snd (rewind_working_state_to_height 0 11 ex_view)) 10 = Some (hx 1)"
    by (rule ex_view_rewound)
  then show ?thesis
    using ex_view_probe reorg_probe_finds_the_fork [of 0 ex_view "ex_remote :: nat \<Rightarrow> string + hash32" 11]
    by (simp add: ex_view_window u64_max_def)
qed



text \<open>
  Appending a block hash to the window: the new height is stored, the window stays contiguous
  and ends with it, stays within its maximum, older hashes kept are the old ones, and none is lost
  while the height extends or overwrites the window and is within the maximum.
\<close>

theorem window_push_spec:
  assumes "window_ok start hs" and "start \<noteq> 0 \<or> restore = 0" and "height < u64_max"
    and "push_recent_block_hash_parts restore start hs height hash = (st, xs)"
  shows "window_ok st xs \<and> st + length xs = height + 1 \<and> recent_hash_at st xs height = Some hash \<and>
    (\<forall>k x. recent_hash_at st xs k = Some x \<longrightarrow>
       k = height \<and> x = hash \<or> k < height \<and> recent_hash_at start hs k = Some x) \<and>
    (\<forall>k x. recent_hash_at start hs k = Some x \<longrightarrow> k < height \<longrightarrow> height \<le> start + length hs \<longrightarrow>
       height < k + RECENT_BLOCK_HASHES_MAX \<longrightarrow> recent_hash_at st xs k = Some x)"
  using push_parts_window [OF assms] by blast

theorem window_push_spec_witness:
  "\<exists>st xs. push_recent_block_hash_parts 0 10 [hx 1, hx 2] 12 (hx 3) = (st, xs) \<and>
     recent_hash_at st xs 12 = Some (hx 3) \<and> recent_hash_at st xs 10 = Some (hx 1)"
proof -
  obtain st xs where p: "push_recent_block_hash_parts 0 10 [hx 1, hx 2] 12 (hx 3) = (st, xs)" by force
  have ok: "window_ok 10 [hx 1, hx 2]" by (simp add: window_ok_def RECENT_BLOCK_HASHES_MAX_def u64_max_def)
  have lt: "(12 :: nat) < u64_max" by (simp add: u64_max_def)
  have old: "recent_hash_at 10 [hx 1, hx 2] 10 = Some (hx 1)" by (simp add: recent_hash_at_def)
  from window_push_spec [OF ok _ lt p] old show ?thesis
    using p by (auto simp: RECENT_BLOCK_HASHES_MAX_def)
qed

section \<open>Sending\<close>

text \<open>
  C13: Preparing a payment, a filtered payment or a sweep, and previewing a fee or a sweep, hand no
  transaction to a daemon, and leave every wallet as it was except for the quarantine and the unlocked
  balance of the wallet they are about, whatever the daemon answers and however they end.
\<close>

theorem prepares_and_previews_send_nothing:
  "quiet_call wallet_id w (wallet_send_impl cr env ko sl wallet_id url to_address amt ring True w) \<and>
   quiet_call wallet_id w (wallet_send_with_filter_impl cr env ko sl wallet_id url dests f ring True w) \<and>
   quiet_call wallet_id w (wallet_sweep_with_filter_impl cr env sl wallet_id url to_address f ring True w) \<and>
   quiet_call wallet_id w (wallet_preview_fee_impl cr env ko sl wallet_id url dests ring w) \<and>
   quiet_call wallet_id w (wallet_preview_fee_with_filter_impl cr env ko sl wallet_id url dests f ring w) \<and>
   quiet_call wallet_id w (wallet_preview_sweep_with_filter_impl cr env sl wallet_id url to_address f ring w)"
  by (intro conjI prepared_calls_are_quiet previews_are_quiet)

text \<open>
  C14: With a daemon library that reads back what it serialized, the transaction of a prepared payment, a
  prepared filtered payment or a prepared sweep passes every check of the relay on the store the call
  leaves: the wallet binding, the hex form and the transaction id.
\<close>

theorem prepared_transactions_pass_the_relay:
  assumes "reads_back sl rl"
  shows "(wallet_send_impl cr env ko sl wallet_id url to_address amt ring True w = ((Value (Some (Prepared_Answer p)), w'), sent) \<longrightarrow>
      (\<exists>tx. relay_checked cr rl w' (arg_id wallet_id) p (sl_serialize sl tx) tx)) \<and>
    (wallet_send_with_filter_impl cr env ko sl wallet_id url dests f ring True w = ((Value (Some (Prepared_Answer p)), w'), sent) \<longrightarrow>
      (\<exists>tx. relay_checked cr rl w' (arg_id wallet_id) p (sl_serialize sl tx) tx)) \<and>
    (wallet_sweep_with_filter_impl cr env sl wallet_id url to_address f ring True w = ((Value (Some (Sweep_Prepared p)), w'), sent) \<longrightarrow>
      (\<exists>tx. relay_checked cr rl w' (arg_id wallet_id) p (sl_serialize sl tx) tx))"
proof -
  have inj: "inj Prepared_Answer" "inj Sweep_Prepared" by (simp_all add: inj_def)
  show ?thesis
    unfolding wallet_send_impl_def wallet_send_with_filter_impl_def wallet_sweep_with_filter_impl_def
    by (intro conjI impI)
       (erule made_from_passes [OF send_prepared inj(1) assms] made_from_passes [OF filter_prepared inj(1) assms]
         made_from_passes [OF sweep_prepared inj(2) assms])+
qed

theorem prepared_transactions_pass_the_relay_witness:
  "\<exists>p w' sent tx. wallet_send_impl ex_crypto ex_env ex_ki (ex_send_lib ex_status) (CStr ''w'') CNull (CStr ''w'') 60 16 True ex_world
      = ((Value (Some (Prepared_Answer p)), w'), sent) \<and>
     relay_checked ex_crypto ex_relay_lib w' ''w'' p (sl_serialize (ex_send_lib ex_status) tx) tx"
proof -
  obtain p w' sent where run: "wallet_send_impl ex_crypto ex_env ex_ki (ex_send_lib ex_status) (CStr ''w'') CNull (CStr ''w'') 60 16
      True ex_world = ((Value (Some (Prepared_Answer p)), w'), sent)"
    using ex_send [of ex_status True] by (auto simp: ex_settled_def)
  from prepared_transactions_pass_the_relay [OF ex_reads_back, THEN conjunct1, rule_format, OF run] run
  show ?thesis by fastforce
qed




text \<open>
  C17: The selection loop, in its own rounds, ends with distinct eligible outputs; when it settles, their sum
  covers the payment and the fee of a transaction that the daemon library built from exactly that many
  inputs.
\<close>

theorem selections_cover_the_payment:
  assumes "select_rounds (select_round env ko sl cx tt sp outs) policy n ([], 0) s = (Done r, s')"
    and "distinct (map outpoint_of outs)"
  shows "case r of Restarted \<Rightarrow> True
    | Found sel fee \<Rightarrow> sel_ok outs sel \<and> sat_add (sp_needed sp) fee \<le> sat_sum (map amount (fst sel)) \<and>
        (\<exists>inputs k intent. length inputs = length (fst sel) \<and>
           sl_construct sl inputs (sp_pays sp) (cx_pair cx) (sp_rate sp) k = Inr intent \<and> fee = sl_fee sl intent)
    | Exhausted sel \<Rightarrow> sel_ok outs sel"
proof -
  note ok = select_rounds_ok [OF assms(1) sel_ok_empty assms(2)]
  have "snd sel = sat_sum (map amount (fst sel))" if "sel_ok outs sel" for sel using that by (simp add: sel_ok_def)
  then show ?thesis using ok unfolding covers_def by (cases r) (simp_all, metis)
qed

theorem selections_cover_the_payment_witness:
  "\<forall>cx tt s. select_rounds (select_round ex_env ex_ki (ex_send_lib ex_status) cx tt ex_plan [ex_out 5 100 10]) Restart_Attempt
       max_selection_rounds ([], 0) s = (Done (Found ([ex_out 5 100 10], 100) 5), s\<lparr>sn_calls := Suc (Suc (Suc (sn_calls s)))\<rparr>) \<and>
     sat_add 60 5 \<le> sat_sum (map amount [ex_out 5 100 10])"
proof (intro allI conjI)
  fix cx tt s
  show run: "select_rounds (select_round ex_env ex_ki (ex_send_lib ex_status) cx tt ex_plan [ex_out 5 100 10]) Restart_Attempt
       max_selection_rounds ([], 0) s = (Done (Found ([ex_out 5 100 10], 100) 5), s\<lparr>sn_calls := Suc (Suc (Suc (sn_calls s)))\<rparr>)"
    using ex_rounds [of ex_status cx tt s] by simp
  show "sat_add 60 5 \<le> sat_sum (map amount [ex_out 5 100 10])"
    using selections_cover_the_payment [OF run] by simp
qed

text \<open>
  C18: A sweep that reports a transaction id has handed exactly that transaction to the daemon, which
  accepted it. Its inputs are unspent outputs of the wallet above the dust limit, none of them change of a
  pending transaction; the reported amount is positive and, with the reported fee of the transaction,
  makes up the sum of the inputs; both are recorded in the wallet, and no other wallet changes.
\<close>

theorem sweeps_send_everything_but_the_fee:
  assumes "wallet_sweep_with_filter_impl cr env sl wallet_id url to_address f ring False w = ((Value (Some an), w'), sent)"
    and "map_of (wd_store w) (arg_id wallet_id) = Some st"
  shows "\<exists>q sel tx op intent amt k. flagged st q \<and> swept env st sel \<and> op_outputs op = sel \<and> sweeps sl op intent \<and>
     an = Sweep_Sent (hex_lowercase (sx_hash tx)) amt (sl_fee sl intent) \<and>
     0 < amt \<and> amt + sl_fee sl intent = sum_piconero sel \<and>
     sent = [(daemon_base_url env url, sl_serialize sl tx)] \<and>
     broadcast_send_raw_transaction env (sl_display sl) (sl_raw_json sl) (sl_bin_daemon sl (daemon_base_url env url) k)
       (\<lambda>_ hex. sl_raw_call sl (daemon_base_url env url) hex k) (sl_serialize sl tx) = Inr () \<and>
     map_of (wd_store w') (arg_id wallet_id) =
       Some (record_pending (hex_lowercase (sx_hash tx)) amt (sl_fee sl intent) (record_sent (sx_hash tx) sel q)) \<and>
     (\<forall>j. j \<noteq> arg_id wallet_id \<longrightarrow> map_of (wd_store w') j = map_of (wd_store w) j)"
  by (rule sweep_call_sent [OF assms])

theorem sweeps_send_everything_but_the_fee_witness:
  "\<exists>w' sent sel. wallet_sweep_with_filter_impl ex_crypto ex_env (ex_send_lib ex_status) (CStr ''w'') CNull (CStr ''w'') CNull 16
      False ex_world = ((Value (Some (Sweep_Sent (hex_lowercase (hx 33)) 95 5)), w'), sent) \<and>
     swept ex_env ex_wallet sel \<and> 95 + 5 = sum_piconero sel"
proof -
  obtain w' sent where run: "wallet_sweep_with_filter_impl ex_crypto ex_env (ex_send_lib ex_status) (CStr ''w'') CNull (CStr ''w'')
      CNull 16 False ex_world = ((Value (Some (Sweep_Sent (hex_lowercase (hx 33)) 95 5)), w'), sent)"
    using ex_sweep by blast
  have st: "map_of (wd_store ex_world) (arg_id (CStr ''w'')) = Some ex_wallet" by (simp add: ex_world_def)
  from sweeps_send_everything_but_the_fee [where env = ex_env, OF run st] run show ?thesis by fastforce
qed

section \<open>Lifecycle of a wallet\<close>





text \<open>
  C21: Every store the service can reach from an empty one, by any sequence of opens, seals, unseals,
  closes, coverage changes, rewinds, rescans, resets, cancels and refreshes, synchronous or in a worker
  thread, whatever the daemon answers, holds only sound wallets: the outpoint set is exact, one-time
  keys are distinct, balances are the sums of the outputs, ledger rows are stored under their own
  transaction.
\<close>

theorem reachable_stores_are_sound:
  assumes "(service_step cr)\<^sup>*\<^sup>* w w'" and "wd_store w = []"
  shows "\<forall>i st. map_of (wd_store w') i = Some st \<longrightarrow> wallet_wf st \<and> ids_distinct st"
proof -
  have "sound_store w" using assms(2) by (simp add: store_all_def)
  from service_reachable_sound [OF assms(1) this] show ?thesis
    by (auto simp: wallet_sound_def dest: store_all_get)
qed

theorem reachable_stores_are_sound_witness:
  "\<exists>w'. service_step ex_crypto empty_world w' \<and> wd_store w' \<noteq> [] \<and>
     (\<forall>i st. map_of (wd_store w') i = Some st \<longrightarrow> wallet_wf st \<and> ids_distinct st)"
proof -
  obtain w' where w': "service_step ex_crypto empty_world w'" "wd_store w' \<noteq> []" using ex_open_step by blast
  then have "(service_step ex_crypto)\<^sup>*\<^sup>* empty_world w'" by simp
  from reachable_stores_are_sound [OF this] w' show ?thesis by (auto simp: empty_world_def)
qed

text \<open>
  C22: At most one refresh runs per wallet: while one runs, another is refused with -31 and touches only
  the last-error slots; and a refresh that returns, with whatever code, has released the wallet.
\<close>

theorem refresh_excludes_itself:
  assumes "refresh_id p = Some i" and "\<not> wd_jobs_poisoned w"
  shows "if job_running i w
    then \<exists>m. wallet_refresh_ffi_impl cr inp p out w = Some ((- 31, None), set_last_error m w)
    else \<forall>rc r w'. wallet_refresh_ffi_impl cr inp p out w = Some ((rc, r), w') \<longrightarrow> \<not> wd_jobs_poisoned w' \<longrightarrow>
           \<not> job_running i w'"
proof (cases "job_running i w")
  case True
  from refresh_refused [OF assms(1) this] True show ?thesis by auto
next
  case False
  with refresh_released [OF _ assms(1) this _ assms(2)] show ?thesis by auto
qed

theorem refresh_excludes_itself_witness:
  "\<forall>inp out. \<exists>m. wallet_refresh_ffi_impl ex_crypto inp (CStr ''w'') out (ex_world\<lparr>wd_jobs := [(''w'', RJ_Running)]\<rparr>) =
     Some ((- 31, None), set_last_error m (ex_world\<lparr>wd_jobs := [(''w'', RJ_Running)]\<rparr>))"
proof (intro allI)
  fix inp out
  show "\<exists>m. wallet_refresh_ffi_impl ex_crypto inp (CStr ''w'') out (ex_world\<lparr>wd_jobs := [(''w'', RJ_Running)]\<rparr>) =
      Some ((- 31, None), set_last_error m (ex_world\<lparr>wd_jobs := [(''w'', RJ_Running)]\<rparr>))"
    using refresh_excludes_itself [of "CStr ''w''" "''w''" "ex_world\<lparr>wd_jobs := [(''w'', RJ_Running)]\<rparr>" ex_crypto inp out]
    by (simp add: refresh_id_def opt_filter_def ex_id job_running_def ex_world_def)
qed





text \<open>
  C25: Coverage never shrinks: a successful change of the gap limit leaves the wallet watching at least the
  old and the requested number of subaddresses, keeps every output, ledger row, hash and key, and when
  it enlarges the coverage it moves the scan cursor back to the restore height so that old payments to
  the new addresses are found; it never runs concurrently with a refresh when it changes something.
\<close>

theorem coverage_never_shrinks:
  assumes "wallet_set_gap_limit_ffi_impl (CStr s) g w = (Value (0, ()), w')" and "cstr_to_str s = Some t"
  shows "\<exists>st st'. map_of (wd_store w) (trim t) = Some st \<and> map_of (wd_store w') (trim t) = Some st' \<and>
    w_gap_limit st' = max (max g 1) (w_gap_limit st) \<and> tracked_outputs st' = tracked_outputs st \<and>
    w_tx_ledger st' = w_tx_ledger st \<and> recent_block_hashes st' = recent_block_hashes st \<and>
    w_keys st' = w_keys st \<and> w_restore_height st' = w_restore_height st \<and>
    (if w_gap_limit st < max g 1 then w_last_scanned st' = w_restore_height st \<and> \<not> job_running (trim t) w
     else st' = st)"
  using assms
proof (rule gap_ok)
  fix st
  assume "map_of (wd_store w) (trim t) = Some st"
    "map_of (wd_store w') (trim t) = Some (expand_scan_coverage (max g 1) st)"
    "w_gap_limit st < max g 1 \<Longrightarrow> \<not> job_running (trim t) w"
  then show ?thesis
    by (intro exI [of _ st] exI [of _ "expand_scan_coverage (max g 1) st"])
       (auto simp: expand_scan_coverage_def max_def)
qed

theorem coverage_never_shrinks_witness:
  "\<exists>w' st'. wallet_set_gap_limit_ffi_impl (CStr ''w'') 60 ex_world = (Value (0, ()), w') \<and>
     map_of (wd_store w') ''w'' = Some st' \<and> w_gap_limit st' = 60 \<and> w_last_scanned st' = 0"
proof -
  obtain w' where w': "wallet_set_gap_limit_ffi_impl (CStr ''w'') 60 ex_world = (Value (0, ()), w')"
    using ex_gap by blast
  from coverage_never_shrinks [OF w' ex_id(1)] show ?thesis
    using w' by (auto simp: ex_id ex_world_def ex_wallet_def new_wallet_def)
qed

section \<open>The cache\<close>

text \<open>
  C26: An import that succeeds belongs to the wallet that receives it, never lowers its address coverage,
  covers every imported output, leaves its keys, takes the cache's restore height only when that is not
  above the wallet's, recomputes the balance from the imported outputs, and leaves no pending rescan when the wallet has its
  spend key.
\<close>

theorem import_is_bound_and_covering:
  assumes "import_wallet cr p st = Inr st'" and "pw_cache_version p = WALLETCORE_CACHE_VERSION"
  shows "wallet_cache_binding cr st = pw_bound_primary_address p \<and> w_keys st' = w_keys st \<and>
    w_gap_limit st \<le> w_gap_limit st' \<and> pw_gap_limit p \<le> w_gap_limit st' \<and>
    (\<forall>o1 \<in> set (pw_tracked_outputs p). po_subaddress_minor o1 \<le> w_gap_limit st') \<and>
    w_restore_height st' = pw_restore_height p \<and> pw_restore_height p \<le> w_restore_height st \<and>
    w_total st' = sat_sum (unspent_amounts (tracked_outputs st')) \<and>
    (\<not> is_sealed (w_keys st) \<longrightarrow> w_spend_rescan_from st' = None)"
  using import_wallet_ok [OF assms] by (simp add: total_exact_def)

theorem import_is_bound_and_covering_witness:
  "\<exists>st'. import_wallet ex_crypto (persist_wallet ex_crypto ex_wallet) ex_reopened = Inr st' \<and>
     w_gap_limit ex_reopened \<le> w_gap_limit st' \<and> w_spend_rescan_from st' = None"
proof -
  obtain st' where st': "import_wallet ex_crypto (persist_wallet ex_crypto ex_wallet) ex_reopened = Inr st'"
    using ex_import by blast
  from import_is_bound_and_covering [OF st' persisted_ok(1)] st' show ?thesis
    by (simp add: ex_reopened_def new_wallet_def)
qed

text \<open>
  What a wallet exports, the same wallet reopened in an empty process imports: with a codec that
  decodes what it encodes, the import call succeeds on every exported buffer and stores the result of
  importing the exported wallet.
\<close>

theorem exported_cache_imports:
  assumes "codec_ok c" and "map_of (wd_store w) i = Some st" and "\<not> wd_store_poisoned w"
    and "wallet_export_cache_ffi_impl cr c (CStr i) False (Some n) w = (Value (0, Some data, wr), w1)"
    and "cstr_to_str i = Some i" and "trim i = i" and "ids_distinct st"
    and "w_gap_limit st \<le> 100000" and "\<forall>o1 \<in> set (tracked_outputs st). subaddress_minor o1 \<le> 100000"
    and "wallet_cache_binding cr v = wallet_cache_binding cr st" and "wallet_cache_binding cr st \<noteq> []"
    and "w_network v = w_network st" and "w_restore_height st \<le> w_restore_height v"
    and "map_of (wd_store w2) i = Some v" and "\<not> wd_store_poisoned w2" and "\<not> wd_jobs_poisoned w2" and "\<not> job_running i w2"
  shows "length data \<le> n \<and> (\<exists>v' w3. import_wallet cr (persist_wallet cr st) v = Inr v' \<and>
    wallet_import_cache_ffi_impl cr c (CStr i) (Some data) w2 = (Value (0, ()), w3) \<and> map_of (wd_store w3) i = Some v')"
proof -
  note ex = export_import [OF assms(1-6)]
  obtain v' where v': "import_wallet cr (persist_wallet cr st) v = Inr v'"
    using import_wallet_total [OF assms(8-13)] by blast
  have "distinct (map po_public_key (pw_tracked_outputs (persist_wallet cr st)))"
    using assms(7) by (simp add: persisted_ok(2) ids_distinct_def)
  with import_call [OF ex(1,4,6) persisted_ok(1) _ assms(5) assms(15,16) _ _ v'] assms(6,14,17) ex(2) v'
  show ?thesis by auto
qed

theorem exported_cache_imports_witness:
  "\<exists>data wr w1 w3. wallet_export_cache_ffi_impl ex_crypto ex_codec (CStr ''w'') False (Some 1000) ex_world =
       (Value (0, Some data, wr), w1) \<and>
     wallet_import_cache_ffi_impl ex_crypto ex_codec (CStr ''w'') (Some data) ex_reopened_world = (Value (0, ()), w3)"
proof -
  obtain data wr w1 where ex: "wallet_export_cache_ffi_impl ex_crypto ex_codec (CStr ''w'') False (Some 1000) ex_world =
      (Value (0, Some data, wr), w1)" using ex_export by blast
  have "\<exists>v' w3. import_wallet ex_crypto (persist_wallet ex_crypto ex_wallet) ex_reopened = Inr v' \<and>
      wallet_import_cache_ffi_impl ex_crypto ex_codec (CStr ''w'') (Some data) ex_reopened_world = (Value (0, ()), w3) \<and>
      map_of (wd_store w3) ''w'' = Some v'"
    by (rule conjunct2 [OF exported_cache_imports [OF ex_codec_ok _ _ ex ex_id]])
       (simp_all add: ex_world_def ex_reopened_world_def ex_cache_side job_running_def)
  with ex show ?thesis by blast
qed

text \<open>
  C27: A cache survives the safe interface: asked for its size and then for its bytes, a wallet that no other
  thread changes in between exports a buffer that the same wallet, reopened in another process, imports; the
  wallet stored then is the result of importing the exported one.
\<close>

theorem caches_survive_the_interface:
  assumes "codec_ok c" and "CHR 0x00 \<notin> set i" and "cstr_to_str i = Some i" and "trim i = i"
    and "map_of (wd_store w) i = Some st" and "\<not> wd_store_poisoned w"
    and "\<exists>n \<le> MAX_CACHE_BYTES. bc_size c (persist_wallet cr st) = Some n"
    and "\<And>x. map_of (wd_store (others x)) i = map_of (wd_store x) i" and "\<And>x. wd_store_poisoned (others x) = wd_store_poisoned x"
    and "ids_distinct st" and "w_gap_limit st \<le> 100000" and "\<forall>o1 \<in> set (tracked_outputs st). subaddress_minor o1 \<le> 100000"
    and "wallet_cache_binding cr v = wallet_cache_binding cr st" and "wallet_cache_binding cr st \<noteq> []"
    and "w_network v = w_network st" and "w_restore_height st \<le> w_restore_height v"
    and "map_of (wd_store w2) i = Some v" and "\<not> wd_store_poisoned w2" and "\<not> wd_jobs_poisoned w2" and "\<not> job_running i w2"
  shows "\<exists>data w1 v' w3. api_export_cache cr c others i w = (Inr data, w1) \<and>
    import_wallet cr (persist_wallet cr st) v = Inr v' \<and>
    api_import_cache cr c i data w2 = (Inr (), w3) \<and> map_of (wd_store w3) i = Some v'"
proof -
  obtain v' where v': "import_wallet cr (persist_wallet cr st) v = Inr v'"
    using import_wallet_total [OF assms(11-16)] by blast
  obtain data w1 where ex: "api_export_cache cr c others i w = (Inr data, w1)" "bc_decode c data = Inr (persist_wallet cr st)"
    "cache_version_of data = Some WALLETCORE_CACHE_VERSION" "length data \<le> MAX_CACHE_BYTES"
    using exported_through_api [OF assms(1,5,6,2,3,4,7,8,9)] by blast
  show ?thesis
    using imported_through_api [OF ex(2-4) assms(10,2,3,4,18,19,20,17) v'] ex(1) v' by blast
qed

theorem caches_survive_the_interface_witness:
  "\<exists>data w1 w3. api_export_cache ex_crypto ex_codec id ''w'' ex_world = (Inr data, w1) \<and>
     api_import_cache ex_crypto ex_codec ''w'' data ex_reopened_world = (Inr (), w3)"
proof -
  have "\<exists>data w1 v' w3. api_export_cache ex_crypto ex_codec id ''w'' ex_world = (Inr data, w1) \<and>
      import_wallet ex_crypto (persist_wallet ex_crypto ex_wallet) ex_reopened = Inr v' \<and>
      api_import_cache ex_crypto ex_codec ''w'' data ex_reopened_world = (Inr (), w3) \<and> map_of (wd_store w3) ''w'' = Some v'"
    by (rule caches_survive_the_interface [OF ex_codec_ok _ ex_id _ _ ex_small])
       (simp_all add: ex_world_def ex_reopened_world_def ex_cache_side job_running_def)
  then show ?thesis by blast
qed

text \<open>
  The persisted form loses nothing that belongs to the chain: applying the persisted wallet to a state
  with a restore height not above its cursor gives back the wallet, except for the keys, the history
  index and the time of the last refresh, which a cache does not carry.
\<close>

theorem persisted_wallet_round_trip:
  assumes "wallet_wf w" and "wallet_in_range w" and "w_restore_height v \<le> w_last_scanned w"
  shows "\<exists>v'. apply_to_state (persist_wallet cr w) v = Some v' \<and> durable_eq w v' \<and> w_keys v' = w_keys v"
  by (rule persist_roundtrip [OF assms])

theorem persisted_wallet_round_trip_witness:
  "\<exists>v'. apply_to_state (persist_wallet ex_crypto ex_wallet) ex_reopened = Some v' \<and> durable_eq ex_wallet v'"
proof -
  have "wallet_wf ex_wallet" using ex_wallet_sound by (simp add: wallet_sound_def)
  moreover have "wallet_in_range ex_wallet"
    by (simp add: wallet_in_range_def ex_wallet_def new_wallet_def ex_out_def)
  moreover have "w_restore_height ex_reopened \<le> w_last_scanned ex_wallet"
    by (simp add: ex_reopened_def ex_wallet_def new_wallet_def)
  ultimately show ?thesis
    using persisted_wallet_round_trip [of ex_wallet ex_reopened ex_crypto] by blast
qed

section \<open>Balances and the quarantine\<close>

text \<open>
  C28: The balance for a subaddress, or for the whole wallet, is the saturating sum over the unspent
  outputs the filter keeps, its unlocked part the sum over those that are also unlocked at the last
  known chain state and not quarantined; the unlocked part never exceeds the total.
\<close>

theorem filtered_balance_is_exact:
  "filtered_balance st f =
     (sat_sum (map amount (filter (\<lambda>o1. filter_keeps f o1 \<and> \<not> spent o1) (tracked_outputs st))),
      sat_sum (map amount (filter (\<lambda>o1. filter_keeps f o1 \<and> eligible st None o1) (tracked_outputs st)))) \<and>
   snd (filtered_balance st f) \<le> fst (filtered_balance st f)"
  using filtered_balance_spec filtered_balance_le by blast



section \<open>History\<close>

text \<open>
  C30: Walking a history page by page with the returned cursor ends and gives every matching row once, in
  the order of the index: no row is skipped or repeated at a page boundary, however many pages it takes.
\<close>

theorem paging_shows_every_row_once:
  assumes "query_valid self q" and "length (history_rows self q) \<le> u64_max" and "hq_offset q = 0"
  shows "walk_pages (length (history_rows self q) + 1) self w q sc h t =
     Some (Inr (map (transfer_of h) (history_rows self q)))"
  using walk_pages_from [OF assms(1,2), of "length (history_rows self q) + 1" w sc h t] assms(3)
  by (simp del: walk_pages.simps)

theorem paging_shows_every_row_once_witness:
  "walk_pages 3 ex_index ''w'' (default_query\<lparr>hq_limit := 1\<rparr>) 0 30 0 =
     Some (Inr (map (transfer_of 30) (history_rows ex_index (default_query\<lparr>hq_limit := 1\<rparr>))))"
proof -
  have n: "length (history_rows ex_index (default_query\<lparr>hq_limit := 1\<rparr>)) = 2" by (rule ex_index_rows)
  have "query_valid ex_index (default_query\<lparr>hq_limit := 1\<rparr>)"
    by (simp add: query_valid_def default_query_def)
  moreover have "length (history_rows ex_index (default_query\<lparr>hq_limit := 1\<rparr>)) \<le> u64_max"
    unfolding n by (simp add: u64_max_def)
  moreover have "hq_offset (default_query\<lparr>hq_limit := 1\<rparr>) = 0" by (simp add: default_query_def)
  moreover have "(2 :: nat) + 1 = 3" by simp
  ultimately show ?thesis
    using paging_shows_every_row_once [of ex_index "default_query\<lparr>hq_limit := 1\<rparr>" "''w''" 0 30 0] by (simp only: n)
qed

text \<open>
  A cursor of another revision is refused, and a continuation without a revision is refused: a page
  is never cut from a history that changed since the first page.
\<close>

theorem stale_cursors_are_refused:
  assumes "hq_revision q \<noteq> Some (hi_revision self)" and "hq_revision q \<noteq> None \<or> 0 < hq_offset q"
  shows "\<exists>e. history_index_query self w q sc h t = Inl e"
  using assms history_query_inv [of self w q sc h t]
  by (cases "history_index_query self w q sc h t")
     (auto simp: history_index_query_def Let_def split: if_splits option.splits)

theorem stale_cursors_are_refused_witness:
  "\<exists>e. history_index_query ex_index ''w'' (default_query\<lparr>hq_offset := 1\<rparr>) 0 30 0 = Inl e"
  by (rule stale_cursors_are_refused) (simp_all add: default_query_def)

text \<open>
  C31: A history that the safe interface lists is well-typed and is the wallet's ledger: it has the current
  schema, names the wallet that was asked for, carries its heights, its rows are exactly the ledger's rows in
  listing order, each with a transaction id and one of the three directions, and listing changes no wallet.
\<close>

theorem listed_histories_are_typed_ledgers:
  assumes "history_reads_back jc" and "api_list_transfer_history jc wallet_id w = (Inr h, w1)"
  shows "\<exists>st. map_of (wd_store w) (trim wallet_id) = Some st \<and>
    h = \<lparr>th_schema_version = 1, th_wallet_id = Some (trim wallet_id), th_last_scanned_height = Some (w_last_scanned st),
         th_chain_height = Some (w_chain_height st), th_chain_time = Some (w_chain_time st),
         th_transfers = list_transfer_rows (w_tx_ledger st) (w_chain_height st)\<rparr> \<and>
    list_all (\<lambda>t. trim (tr_txid t) \<noteq> [] \<and> tr_direction t \<in> {''in'', ''out'', ''self''}) (th_transfers h) \<and>
    wd_store w1 = wd_store w"
  using listed_history_is_the_ledger [OF assms] unfolding transfer_typed_def [abs_def] .

theorem listed_histories_are_typed_ledgers_witness:
  "\<exists>h w1. api_list_transfer_history ex_json ''w'' ex_history_world = (Inr h, w1) \<and>
     map tr_txid (th_transfers h) = [''ab''] \<and> th_schema_version h = 1 \<and> th_wallet_id h = Some ''w''"
proof -
  obtain h w1 where h: "api_list_transfer_history ex_json ''w'' ex_history_world = (Inr h, w1)"
    "map tr_txid (th_transfers h) = [''ab'']" using ex_listed by fastforce
  from listed_histories_are_typed_ledgers [OF ex_json_reads_back h(1)] have "th_schema_version h = 1 \<and> th_wallet_id h = Some ''w''"
    by (auto simp: ex_id)
  with h show ?thesis by fastforce
qed

section \<open>What a daemon's answers must satisfy\<close>

text \<open>
  A block range is accepted exactly when its blocks are numbered consecutively from the requested
  height, without overflow, and each block's parent is the block before it; at height zero the parent
  must be the null hash.
\<close>

theorem range_blocks_are_linked:
  "validate_range_blocks start blocks = Inr () \<longleftrightarrow>
     (\<forall>j < length blocks. start + j \<le> u64_max \<and> db_number (blocks ! j) = start + j \<and>
        (j = 0 \<longrightarrow> start = 0 \<longrightarrow> db_previous (blocks ! 0) = replicate 32 0) \<and>
        (0 < j \<longrightarrow> db_previous (blocks ! j) = db_hash (blocks ! (j - 1))))"
  by (rule validate_range_blocks_spec)

theorem range_blocks_are_linked_witness:
  "validate_range_blocks 5 [ex_db 5 9 1, ex_db 6 1 2] = Inr () \<and>
   validate_range_blocks 5 [ex_db 5 9 1, ex_db 6 3 2] \<noteq> Inr ()"
  using range_blocks_are_linked [of 5 "[ex_db 5 9 1, ex_db 6 1 2]"]
    range_blocks_are_linked [of 5 "[ex_db 5 9 1, ex_db 6 3 2]"]
  by (auto simp: ex_db_def less_Suc_eq u64_max_def numeral_2_eq_2)

text \<open>
  A transaction of a range answer is used only if it is the transaction the block commits to: it was
  read completely, and either the pruned form with the prunable hash gives the block's transaction hash,
  or the full form hashes to it.
\<close>

theorem range_transactions_are_verified:
  assumes "decode_range_transaction tc blob ph h bi ti = Inr tx'"
  shows "(\<exists>tx u. tc_read_pruned tc blob = Inr (tx, 0) \<and> tc_verify tc tx u h = Some tx' \<and>
            u = (if tc_is_v1 tc tx then None else ph)) \<or>
         (\<exists>tx. tc_read_full tc blob = Inr (tx, 0) \<and> tc_full_hash tc tx = h \<and> tx' = tc_prune tc tx)"
  by (rule decode_range_verified [OF assms])

theorem range_transactions_are_verified_witness:
  "\<exists>tx'. decode_range_transaction ex_tx_codec [7] None (hx 7) 0 0 = Inr tx' \<and>
     ((\<exists>tx. tc_read_full ex_tx_codec [7] = Inr (tx, 0) \<and> tc_full_hash ex_tx_codec tx = hx 7) \<or>
      (\<exists>tx. tc_read_pruned ex_tx_codec [7] = Inr (tx, 0)))"
proof -
  obtain tx' where tx': "decode_range_transaction ex_tx_codec [7] None (hx 7) 0 0 = Inr tx'" using ex_decode by blast
  from range_transactions_are_verified [OF tx'] tx' show ?thesis by blast
qed

text \<open>
  C32: A range that was fetched, after the one retry without pruning too, is a verified chain: at least one
  and at most the requested number of blocks, numbered consecutively from the requested height, each on
  top of the block before it; every transaction was checked against the hash that its block commits to,
  in the block's order; and the index of the first RingCT output is absent only when the block has none.
\<close>

theorem fetched_ranges_are_verified_chains:
  assumes "fetch_scannable_blocks_range_bin rl base_url start_bn end_bn s = (Inr blocks, s')"
  shows "blocks \<noteq> [] \<and> start_bn + length blocks \<le> end_bn + 1 \<and>
    (\<forall>j < length blocks.
       rg_number rl (dk_block (blocks ! j)) = start_bn + j \<and>
       (j = 0 \<longrightarrow> start_bn = 0 \<longrightarrow> rg_previous rl (dk_block (blocks ! j)) = replicate 32 0) \<and>
       (0 < j \<longrightarrow> rg_previous rl (dk_block (blocks ! j)) = rg_block_hash rl (dk_block (blocks ! (j - 1)))) \<and>
       list_all2 (verified_tx rl) (dk_txs (blocks ! j)) (rg_tx_hashes rl (dk_block (blocks ! j))) \<and>
       (rb_first_index (blocks ! j) = None \<longleftrightarrow>
          (\<forall>tx \<in> set (rg_miner rl (dk_block (blocks ! j)) # dk_txs (blocks ! j)). \<not> has_ringct_outputs rl tx)))"
  using range_fetch_ok [OF assms] unfolding accepted_range_def Let_def .

theorem fetched_ranges_are_verified_chains_witness:
  "\<exists>s. fetch_scannable_blocks_range_bin ex_range_lib ''http://d.i2p'' 7 8 ex_fetcher = (Inr ex_range, s) \<and>
     rg_previous ex_range_lib (dk_block (ex_range ! 1)) = rg_block_hash ex_range_lib (dk_block (ex_range ! 0)) \<and>
     list_all2 (verified_tx ex_range_lib) [33] [hx 33]"
proof -
  obtain s where s: "fetch_scannable_blocks_range_bin ex_range_lib ''http://d.i2p'' 7 8 ex_fetcher = (Inr ex_range, s)"
    using ex_range_fetch by blast
  have n: "length ex_range = 2" "dk_txs (ex_range ! 1) = [33]" "dk_block (ex_range ! 1) = 8"
    by (simp_all add: ex_range_def)
  from fetched_ranges_are_verified_chains [OF s] have at: "\<forall>j < length ex_range.
      (0 < j \<longrightarrow> rg_previous ex_range_lib (dk_block (ex_range ! j)) = rg_block_hash ex_range_lib (dk_block (ex_range ! (j - 1)))) \<and>
      list_all2 (verified_tx ex_range_lib) (dk_txs (ex_range ! j)) (rg_tx_hashes ex_range_lib (dk_block (ex_range ! j)))"
    by blast
  show ?thesis using s at [rule_format, of 1] n by simp
qed

text \<open>
  C33: The prefetch pipeline never hands a batch the answer for another range: whatever was scanned,
  refetched, dropped or answered short before, a batch takes either the answer to its own range or, when
  nothing at all is queued, none; and never more ranges than the configured depth are queued.
\<close>

theorem prefetched_answers_are_never_stale:
  assumes "pipeline_reach height batch depth A c p" "height \<le> u64_max"
    and "take_prefetched c (range_end height batch c - 1) p = (r, p1)"
  shows "(r = Prefetch_Sync \<and> pl_ready p = [] \<and> pl_flight p = [] \<or>
      (\<exists>v. r = Prefetch_Hit v \<and> A c (range_end height batch c - 1) v)) \<and>
    length (pl_ready p) + length (pl_flight p) \<le> depth"
  using reached_take [OF assms] by (auto simp: ranges_def)

theorem prefetched_answers_are_never_stale_witness:
  "fst (take_prefetched 3 (range_end 9 3 3 - 1) ex_ahead) = Prefetch_Hit [3..<Suc (range_end 9 3 3 - 1)] \<and>
     length (pl_ready ex_ahead) \<le> 1"
proof -
  have "(9::nat) \<le> u64_max" by (simp add: u64_max_def)
  from prefetched_answers_are_never_stale [OF ex_pipeline this ex_take] show ?thesis
    unfolding ex_take by simp
qed

text \<open>
  The scanner's registration covers every subaddress of the configured accounts up to and including
  the gap limit, without duplicates and without the primary address, and is refused beyond 100000.
\<close>

theorem registration_covers_the_gap:
  assumes "register_scan_subaddresses gap accounts = Inr (n, idxs)"
  shows "length idxs = n \<and> n \<le> 100000 \<and> distinct idxs \<and>
    (\<forall>major minor. major < accounts \<and> minor \<le> gap \<and> (major, minor) \<noteq> (0, 0) \<longrightarrow> (major, minor) \<in> set idxs)"
  by (rule register_ok [OF assms])

theorem registration_covers_the_gap_witness:
  "\<exists>n idxs. register_scan_subaddresses 2 1 = Inr (n, idxs) \<and> (0, 2) \<in> set idxs \<and> n = length idxs"
proof -
  obtain n idxs where r: "register_scan_subaddresses 2 1 = Inr (n, idxs)"
    by (simp add: register_scan_subaddresses_def Let_def)
  from registration_covers_the_gap [OF r] r show ?thesis by auto
qed

section \<open>Throttling\<close>



section \<open>Text\<close>

text \<open>
  Printing bytes as lower-case hex and parsing them back gives the bytes, for the transaction parser
  (non-empty, at most 2 MiB) and for the 32-byte parser, which accepts nothing of another length.
\<close>

theorem hex_round_trip:
  "(bs \<noteq> [] \<and> length bs \<le> 2 * 1024 * 1024 \<longrightarrow> decode_hex (hex_lowercase bs) = Inr bs) \<and>
   (length bs = 32 \<longrightarrow> parse_hex_32 (hex_lowercase bs) = Some bs) \<and>
   (\<forall>s out. parse_hex_32 s = Some out \<longrightarrow> length out = 32)"
  using decode_hex_roundtrip parse_hex_32_hex parse_hex_32_length by blast

theorem hex_round_trip_witness: "parse_hex_32 (hex_lowercase (hx 10)) = Some (hx 10)"
  using hex_round_trip [of "hx 10"] by (simp add: hx_def)

section \<open>Daemon connections\<close>

text \<open>
  C35: A daemon on I2P is never contacted directly: a transport built for an I2P address sends every
  request of a call, the repeated one after a digest challenge included, through the configured proxy,
  at most two of them; a transport is built for no Tor address; and no transport opens a direct
  connection to a name under \<open>.i2p\<close> or \<open>.onion\<close>.
\<close>

theorem anonymous_daemons_are_not_dialed:
  assumes "url_ok ul" and "for_url ul valid st raw = Inr t" and "ul_parse ul raw = Some u" and "u_host u = Some h"
  shows "(i2p_host h \<longrightarrow>
      (\<exists>p. rt_proxy st = Inr (Some p) \<and>
        (\<forall>(hop, q) \<in> set (snd (post_blocking ul net t route body limit)). hop = Via_Proxy p))) \<and>
    (i2p_host h \<longrightarrow> length (snd (post_blocking ul net t route body limit)) \<le> 2) \<and>
    \<not> onion_host h \<and>
    (\<forall>addrs q. (Direct addrs, q) \<in> set (snd (post_blocking ul net t route body limit)) \<longrightarrow>
       \<not> anonymous_host (netloc_host (nl_netloc net (rq_url q))))"
  using for_url_i2p [OF assms] post_blocking_proxy [of t] post_blocking_direct [of _ _ ul net t route body limit] i2p_not_onion [of h]
  by (fastforce split: if_splits)

theorem anonymous_daemons_are_not_dialed_witness:
  "\<exists>t. for_url ex_url_lib (\<lambda>_. True) ex_route ''http://d.i2p'' = Inr t \<and>
     (\<forall>(hop, q) \<in> set (snd (post_blocking ex_url_lib ex_net t ''get_info'' [] 100)).
        hop = Via_Proxy ''http://p:4444/'')"
proof -
  obtain t where t: "for_url ex_url_lib (\<lambda>_. True) ex_route ''http://d.i2p'' = Inr t" using ex_for_url by blast
  have "ul_parse ex_url_lib ''http://d.i2p'' = Some ex_url" "u_host ex_url = Some ''d.i2p''"
    by (simp_all add: ex_url_lib_def ex_url_def)
  from anonymous_daemons_are_not_dialed [OF ex_url_ok t this, of ex_net "''get_info''" "[]" 100] ex_i2p t
  show ?thesis by (auto simp: ex_route_def)
qed

text \<open>
  C36: A response body is used only when it is complete and within the limit of its endpoint: the bytes
  are exactly those of the body up to its end, and the response was neither a redirect nor an
  unanswered challenge. Conversely a body within the limit is read whole.
\<close>

theorem accepted_bodies_are_complete:
  assumes "limit < u64_max"
  shows "(\<forall>r bs. accept_response r limit = Inr bs \<longrightarrow>
      is_body (rs_reader r) bs \<and> length bs \<le> limit \<and> rs_status r \<noteq> 401 \<and>
      \<not> (300 \<le> rs_status r \<and> rs_status r < 400)) \<and>
    (\<forall>reader bs. read_limited_detailed reader limit = Inr bs \<longleftrightarrow> is_body reader bs \<and> length bs \<le> limit)"
  using accept_response_cases [OF _ assms] read_limited_iff [OF assms] by blast

theorem accepted_bodies_are_complete_witness:
  "read_limited_detailed (ex_reader [1, 2, 3]) 3 = Inr [1, 2, 3] \<and>
   read_limited_detailed (ex_reader [1, 2, 3]) 2 \<noteq> Inr [1, 2, 3]"
  using accepted_bodies_are_complete [of 3] accepted_bodies_are_complete [of 2] ex_body [of "[1, 2, 3]"]
  by (simp add: u64_max_def)

text \<open>
  C37: The skipper of unknown fields accepts exactly the values of the portable-storage grammar whose
  nesting and number of parts are within the limits, and consumes exactly the value.
\<close>

theorem epee_skipper_is_the_grammar:
  assumes "varint_ok rv"
  shows "skip_epee_value rv r = Inr rest \<longleftrightarrow>
     (\<exists>m v n. r = m # v @ rest \<and> epee_body rv 0 m v n \<and> n \<le> MAX_EPEE_SKIP_VALUES)"
  by (rule skip_value_iff [OF assms])

theorem epee_skipper_is_the_grammar_witness:
  "skip_epee_value portable_varint (0x0c # drop 9 (range_request_body 7 8 True) @ [9]) = Inr [9]"
proof -
  have "4 \<le> MAX_EPEE_SKIP_VALUES" by (simp add: MAX_EPEE_SKIP_VALUES_def)
  with epee_skipper_is_the_grammar [OF portable_varint_ok] range_request_grammar [of 7 8 True]
  show ?thesis by blast
qed

text \<open>
  C38: However a daemon fills the field \<open>blocks\<close> of a bulk answer, decoding it yields at most as many
  blocks as the limit allows, each with a block blob and a number of transactions within their limits,
  and only consumes a prefix of the input.
\<close>

theorem bulk_blocks_are_bounded:
  assumes "lib_ok lib" and "read_blocks lib errs r = Inr (out, rest)"
  shows "length out \<le> MAX_EPEE_BLOCKS_PER_RESPONSE \<and> suffix rest r \<and>
    (\<forall>e \<in> set out. length (be_block e) \<le> MAX_EPEE_BLOB_BYTES \<and> length (be_txs e) \<le> MAX_EPEE_TXS_PER_BLOCK)"
  using read_blocks_bounded [OF assms] by (auto simp: entry_bounded_def)

theorem bulk_blocks_are_bounded_witness:
  "\<exists>out rest. read_blocks ex_epee_lib range_blocks_errors [0x8c, 4, 4, 9, 7] = Inr (out, rest) \<and>
     out = [raw_entry [9]] \<and> length out \<le> MAX_EPEE_BLOCKS_PER_RESPONSE"
  using bulk_blocks_are_bounded [OF ex_lib_ok ex_blocks] ex_blocks by blast

section \<open>Relaying\<close>



text \<open>
  C40: Recording a relayed transaction keeps the wallet well formed, marks the tracked outputs its inputs
  spend and takes their amounts off the balance; recording the same transaction again, as a retry after
  a lost answer does, changes nothing.
\<close>

theorem relay_recording_is_idempotent:
  assumes "wallet_wf st" and "unspent_sum (tracked_outputs st) \<le> u64_max"
  shows "wallet_wf (record_relayed tx p t st) \<and>
    record_relayed tx p' t (record_relayed tx p t st) = record_relayed tx p t st \<and>
    (\<forall>ki \<in> set (sx_inputs tx). settled ki (tracked_outputs (record_relayed tx p t st))) \<and>
    w_total (record_relayed tx p t st) = unspent_sum (tracked_outputs (record_relayed tx p t st))"
proof -
  have wf: "wallet_wf (record_relayed tx p t st)" by (rule record_relayed_wf [OF assms])
  then have "total_exact (record_relayed tx p t st)" by (simp add: wallet_wf_def)
  with wf record_relayed_again record_relayed_sum [OF assms(2), of tx p t] assms(2) show ?thesis
    by (simp add: record_relayed_settled total_exact_unspent)
qed

theorem relay_recording_is_idempotent_witness:
  "w_total (record_relayed ex_signed ex_prepared (hex_lowercase (hx 33)) ex_wallet) = 0"
proof -
  have "wallet_wf ex_wallet" using ex_wallet_sound by (simp add: wallet_sound_def)
  moreover have outs: "tracked_outputs ex_wallet = [ex_out 5 100 10]" by (simp add: ex_wallet_def)
  moreover have "unspent_sum (tracked_outputs ex_wallet) \<le> u64_max"
    by (simp add: outs ex_out_def u64_max_def)
  ultimately show ?thesis
    using relay_recording_is_idempotent [of ex_wallet ex_signed ex_prepared "hex_lowercase (hx 33)"]
    by (simp add: record_relayed_simps ex_signed_def spend_relayed_input_def ex_out_def)
qed

end
